(* ===== verification/Prelude.thy ===== *)
theory Prelude
  imports Main "HOL-Library.Char_ord" "HOL-Library.List_Lexorder" "HOL-Library.Sublist"
begin

text \<open>
  What every component shares: Python exceptions as values of a sum type, the string operations
  of the standard library that the sources call, sorted duplicate-free tuples
  (\<^verbatim>\<open>tuple(sorted(set(xs)))\<close>), insertion-ordered dictionaries, and generic lemmas.

  A Python \<^verbatim>\<open>str\<close> is represented by its UTF-8 encoding, a HOL \<^typ>\<open>string\<close> whose characters
  are bytes. \<^verbatim>\<open>encode\<close> is then the identity and \<^verbatim>\<open>decode\<close> a validity check; comparison by code
  point is comparison by byte; one Python character is one element of \<open>uchars\<close>.
\<close>

section \<open>Exceptions and results\<close>

datatype exc_class =
    ValueError | TypeError | KeyError | PermissionError | OSError
  | ContractViolation | NetworkBoundaryError | SecurityContractViolation
  | RequestAuthorizationError | AuditError | ExternalReadEmissionError
  | UnicodeDecodeError | StorageEncryptionError | IndexError | OverflowError
  | CredentialBoundaryViolation | AttributeError | TransportAuthorizationError | LocalReadHTTPError

type_synonym exc = "exc_class \<times> string"
type_synonym 'a result = "exc + 'a"

text \<open>
  The exception classes the package declares are subclasses of \<^verbatim>\<open>ValueError\<close>, so a handler for
  \<^verbatim>\<open>ValueError\<close> catches them all.
\<close>

definition is_value_error :: "exc \<Rightarrow> bool" where
  "is_value_error e = (fst e \<notin> {TypeError, KeyError, IndexError, PermissionError, OSError, OverflowError, AttributeError})"

text \<open>The handlers \<^verbatim>\<open>except (..., TypeError, ValueError)\<close> and with \<^verbatim>\<open>KeyError\<close> added.\<close>

definition caught_tv :: "exc \<Rightarrow> bool" where
  "caught_tv e = (fst e = TypeError \<or> is_value_error e)"

definition caught_tvk :: "exc \<Rightarrow> bool" where
  "caught_tvk e = (fst e = TypeError \<or> fst e = KeyError \<or> is_value_error e)"

definition raise :: "exc_class \<Rightarrow> string \<Rightarrow> 'a result" where
  "raise c m = Inl (c, m)"

fun bind_result :: "'a result \<Rightarrow> ('a \<Rightarrow> 'b result) \<Rightarrow> 'b result" where
  "bind_result (Inl e) f = Inl e"
| "bind_result (Inr x) f = f x"

fun map_result :: "('a \<Rightarrow> 'b) \<Rightarrow> 'a result \<Rightarrow> 'b result" where
  "map_result f (Inl e) = Inl e"
| "map_result f (Inr x) = Inr (f x)"

text \<open>\<^verbatim>\<open>try: r except (TypeError, ValueError): d\<close>; other exceptions propagate.\<close>

definition except_tv :: "'a \<Rightarrow> 'a result \<Rightarrow> 'a result" where
  "except_tv d r = (case r of Inl e \<Rightarrow> if caught_tv e then Inr d else Inl e | Inr x \<Rightarrow> Inr x)"

text \<open>A loop that stops at the first exception and collects the results.\<close>

fun traverse :: "('a \<Rightarrow> 'b result) \<Rightarrow> 'a list \<Rightarrow> 'b list result" where
  "traverse f [] = Inr []"
| "traverse f (x # xs) = bind_result (f x) (\<lambda>y. map_result (\<lambda>ys. y # ys) (traverse f xs))"

text \<open>\<^verbatim>\<open>any(f(x) for x in xs)\<close>: stops at the first true value or exception.\<close>

fun any_r :: "('a \<Rightarrow> bool result) \<Rightarrow> 'a list \<Rightarrow> bool result" where
  "any_r f [] = Inr False"
| "any_r f (x # xs) = bind_result (f x) (\<lambda>b. if b then Inr True else any_r f xs)"

named_theorems result_simps "unfolding facts on results of fallible code"

lemma raise_not_Inr [simp]: "raise c m \<noteq> Inr x" "Inr x \<noteq> raise c m"
  by (simp_all add: raise_def)

lemma bind_result_Inr_iff [result_simps]:
  "bind_result r f = Inr y \<longleftrightarrow> (\<exists>x. r = Inr x \<and> f x = Inr y)"
  by (cases r) auto

lemma bind_result_Inl_iff:
  "bind_result r f = Inl e \<longleftrightarrow> r = Inl e \<or> (\<exists>x. r = Inr x \<and> f x = Inl e)"
  by (cases r) auto

lemma map_result_Inr_iff [result_simps]:
  "map_result f r = Inr y \<longleftrightarrow> (\<exists>x. r = Inr x \<and> y = f x)"
  by (cases r) auto

lemma map_result_Inl_iff: "map_result f r = Inl e \<longleftrightarrow> r = Inl e"
  by (cases r) auto

lemma except_tv_Inl_iff: "except_tv d r = Inl e \<longleftrightarrow> r = Inl e \<and> \<not> caught_tv e"
  by (auto simp: except_tv_def split: sum.splits)

lemma except_tv_Inr_iff: "except_tv d r = Inr x \<longleftrightarrow> r = Inr x \<or> (\<exists>e. r = Inl e \<and> caught_tv e \<and> x = d)"
  by (auto simp: except_tv_def split: sum.splits)

lemma any_r_False_iff: "any_r f xs = Inr False \<longleftrightarrow> (\<forall>x \<in> set xs. f x = Inr False)"
  by (induction xs) (auto simp: result_simps split: if_splits)

lemma traverse_Inr_iff:
  "traverse f xs = Inr ys \<longleftrightarrow> length xs = length ys \<and> (\<forall>i<length xs. f (xs ! i) = Inr (ys ! i))"
proof (induction xs arbitrary: ys)
  case Nil
  then show ?case by auto
next
  case (Cons x xs)
  show ?case
    by (cases ys) (auto simp: result_simps Cons.IH less_Suc_eq_0_disj)
qed

lemma traverse_Inr_map: "(\<And>x. x \<in> set xs \<Longrightarrow> f x = Inr (g x)) \<Longrightarrow> traverse f xs = Inr (map g xs)"
  by (induction xs) auto

section \<open>Strings\<close>

definition startswith :: "string \<Rightarrow> string \<Rightarrow> bool" where
  "startswith s p = (take (length p) s = p)"

definition endswith :: "string \<Rightarrow> string \<Rightarrow> bool" where
  "endswith s p = (length p \<le> length s \<and> drop (length s - length p) s = p)"

text \<open>\<^verbatim>\<open>sep.join(xs)\<close>.\<close>

fun join :: "string \<Rightarrow> string list \<Rightarrow> string" where
  "join sep [] = []"
| "join sep [x] = x"
| "join sep (x # y # ys) = x @ sep @ join sep (y # ys)"

text \<open>\<^verbatim>\<open>s.split(c)\<close> for a one-byte separator: always at least one piece.\<close>

fun split_on :: "char \<Rightarrow> string \<Rightarrow> string list" where
  "split_on c [] = [[]]"
| "split_on c (x # xs) =
     (if x = c then [] # split_on c xs
      else (case split_on c xs of [] \<Rightarrow> [[x]] | p # ps \<Rightarrow> (x # p) # ps))"

text \<open>\<^verbatim>\<open>s.replace(old, new)\<close> for a non-empty \<^verbatim>\<open>old\<close>: left to right, without overlaps.\<close>

function replace_all :: "string \<Rightarrow> string \<Rightarrow> string \<Rightarrow> string" where
  "replace_all old new s =
     (if old = [] \<or> s = [] then s
      else if startswith s old then new @ replace_all old new (drop (length old) s)
      else hd s # replace_all old new (tl s))"
  by pat_completeness auto
termination
  by (relation "measure (\<lambda>(old, new, s). length s)") (auto simp: startswith_def)

declare replace_all.simps [simp del]

text \<open>A needle occurs in a text (\<^verbatim>\<open>needle in text\<close>).\<close>

fun contains :: "string \<Rightarrow> string \<Rightarrow> bool" where
  "contains [] p = (p = [])"
| "contains (c # s) p = (startswith (c # s) p \<or> contains s p)"

text \<open>The Python characters of a text: a lead byte with its continuation bytes.\<close>

definition is_cont :: "char \<Rightarrow> bool" where
  "is_cont c = (128 \<le> (of_char c :: nat) \<and> (of_char c :: nat) < 192)"

fun uchars :: "string \<Rightarrow> string list" where
  "uchars [] = []"
| "uchars [c] = [[c]]"
| "uchars (c # d # s) =
     (if is_cont d then (case uchars (d # s) of [] \<Rightarrow> [[c]] | u # us \<Rightarrow> (c # u) # us)
      else [c] # uchars (d # s))"

text \<open>\<^verbatim>\<open>len(s)\<close>.\<close>

definition py_len :: "string \<Rightarrow> nat" where
  "py_len s = length (uchars s)"

text \<open>The characters \<^verbatim>\<open>str.strip\<close> removes (\<^verbatim>\<open>str.isspace\<close>), by their encodings.\<close>

definition space_chars :: "string list" where
  "space_chars =
     map (\<lambda>n. [char_of (n :: nat)]) [9, 10, 11, 12, 13, 28, 29, 30, 31, 32]
     @ [[CHR 0xC2, CHR 0x85], [CHR 0xC2, CHR 0xA0], [CHR 0xE1, CHR 0x9A, CHR 0x80]]
     @ map (\<lambda>n. [CHR 0xE2, CHR 0x80, char_of (n :: nat)]) ([128 ..< 139] @ [168, 169, 175])
     @ [[CHR 0xE2, CHR 0x81, CHR 0x9F], [CHR 0xE3, CHR 0x80, CHR 0x80]]"

definition is_space :: "string \<Rightarrow> bool" where
  "is_space u = (u \<in> set space_chars)"

definition strip :: "string \<Rightarrow> string" where
  "strip s = concat (rev (dropWhile is_space (rev (dropWhile is_space (uchars s)))))"

text \<open>Line boundaries of \<^verbatim>\<open>str.splitlines\<close>; a carriage return and a line feed are one boundary.\<close>

definition line_breaks :: "string list" where
  "line_breaks =
     [[CHR 0x0A], [CHR 0x0D], [CHR 0x0B], [CHR 0x0C], [CHR 0x1C], [CHR 0x1D], [CHR 0x1E],
      [CHR 0xC2, CHR 0x85], [CHR 0xE2, CHR 0x80, CHR 0xA8], [CHR 0xE2, CHR 0x80, CHR 0xA9]]"

fun splitlines_acc :: "string \<Rightarrow> string list \<Rightarrow> string list" where
  "splitlines_acc cur [] = (if cur = [] then [] else [cur])"
| "splitlines_acc cur [u] =
     (if u \<in> set line_breaks then [cur] else [cur @ u])"
| "splitlines_acc cur (u # v # us) =
     (if u = [CHR 0x0D] \<and> v = [CHR 0x0A] then cur # splitlines_acc [] us
      else if u \<in> set line_breaks then cur # splitlines_acc [] (v # us)
      else splitlines_acc (cur @ u) (v # us))"

definition splitlines :: "string \<Rightarrow> string list" where
  "splitlines s = splitlines_acc [] (uchars s)"

lemma startswith_append [simp]: "startswith (p @ s) p"
  by (simp add: startswith_def)

lemma uchars_Nil_iff [simp]: "uchars s = [] \<longleftrightarrow> s = []"
  by (induction s rule: uchars.induct) (auto split: list.splits)

lemma concat_uchars [simp]: "concat (uchars s) = s"
proof (induction s rule: uchars.induct)
  case (3 c d s)
  then show ?case by (cases "uchars (d # s)") auto
qed auto

lemma join_map_length:
  "length (join [c] xs) = (if xs = [] then 0 else sum_list (map length xs) + length xs - 1)"
  by (induction "[c]" xs rule: join.induct) auto

section \<open>Sorted tuples of distinct strings\<close>

text \<open>\<^verbatim>\<open>tuple(sorted(set(xs)))\<close>.\<close>

definition sorted_set :: "'a::linorder list \<Rightarrow> 'a list" where
  "sorted_set xs = sort (remdups xs)"

lemma set_sorted_set [simp]: "set (sorted_set xs) = set xs"
  by (simp add: sorted_set_def)

lemma sorted_set_sorted [simp]: "sorted (sorted_set xs)"
  by (simp add: sorted_set_def)

lemma sorted_set_distinct [simp]: "distinct (sorted_set xs)"
  by (simp add: sorted_set_def)

lemma sorted_set_Nil_iff [simp]: "sorted_set xs = [] \<longleftrightarrow> xs = []"
proof -
  have "sorted_set xs = [] \<longleftrightarrow> set (sorted_set xs) = {}" by (simp only: set_empty)
  then show ?thesis by simp
qed

lemma sorted_set_cong: "set xs = set ys \<Longrightarrow> sorted_set xs = sorted_set ys"
  by (simp add: sorted_distinct_set_unique)

lemma sorted_set_idem [simp]: "sorted_set (sorted_set xs) = sorted_set xs"
  by (rule sorted_set_cong) simp

section \<open>Insertion-ordered dictionaries\<close>

text \<open>
  A dictionary whose order matters is an association list. Assignment keeps the position of a
  key that is present and appends a new one.
\<close>

fun dict_put :: "'k \<Rightarrow> 'v \<Rightarrow> ('k \<times> 'v) list \<Rightarrow> ('k \<times> 'v) list" where
  "dict_put k v [] = [(k, v)]"
| "dict_put k v ((k', v') # d) = (if k = k' then (k, v) # d else (k', v') # dict_put k v d)"

text \<open>\<^verbatim>\<open>{**a, **b}\<close>.\<close>

definition dict_merge :: "('k \<times> 'v) list \<Rightarrow> ('k \<times> 'v) list \<Rightarrow> ('k \<times> 'v) list" where
  "dict_merge a b = fold (\<lambda>(k, v). dict_put k v) b a"

lemma map_of_dict_put [simp]: "map_of (dict_put k v d) = (map_of d)(k \<mapsto> v)"
  by (induction d) (auto simp: fun_eq_iff)

lemma keys_dict_put [simp]: "fst ` set (dict_put k v d) = insert k (fst ` set d)"
proof (induction d)
  case (Cons p d)
  then show ?case by (cases p) (simp add: insert_commute)
qed simp

lemma distinct_dict_put [simp]: "distinct (map fst d) \<Longrightarrow> distinct (map fst (dict_put k v d))"
  by (induction d) (auto simp flip: image_set)

lemma map_of_dict_merge_snoc:
  "map_of (dict_merge a (b @ [(k, v)])) = (map_of (dict_merge a b))(k \<mapsto> v)"
  by (simp add: dict_merge_def)

lemma map_of_dict_merge:
  "distinct (map fst b) \<Longrightarrow> map_of (dict_merge a b) = map_of a ++ map_of b"
proof (induction b rule: rev_induct)
  case Nil
  then show ?case by (simp add: dict_merge_def)
next
  case (snoc p b)
  obtain k v where p: "p = (k, v)" by (cases p)
  from snoc have "k \<notin> dom (map_of b)" by (auto simp: p dom_map_of_conv_image_fst)
  with snoc show ?case
    by (auto simp: p map_of_dict_merge_snoc map_add_def fun_eq_iff split: option.splits)
qed

section \<open>Stable sorting and filtering\<close>

lemma sort_key_filter: "filter P (sort_key f xs) = sort_key f (filter P xs)"
  by (simp add: filter_sort)

lemma distinct_map_fst_sort [simp]:
  "distinct (map fst (sort_key f xs)) = distinct (map fst xs)"
  by (metis distinct_map distinct_sort inj_on_def set_sort)

lemma set_take_subset_list: "x \<in> set (take n xs) \<Longrightarrow> x \<in> set xs"
  by (rule in_set_takeD)

end
