(* ===== verification/Sha256.thy ===== *)
theory Sha256
  imports Prelude "HOL-Library.Word"
begin

text \<open>
  \<^verbatim>\<open>hashlib.sha256(value).hexdigest()\<close>, the one primitive of the standard library on which every
  fingerprint of the program rests: the FIPS 180-4 padding, message schedule and compression
  function over 32-bit words, and the lower-case hexadecimal digest. A byte string is a HOL
  \<^typ>\<open>string\<close>.
\<close>

unbundle bit_operations_syntax

type_synonym u32 = "32 word"
type_synonym hash_state = "u32 list"

definition sha_k :: "u32 list" where
  "sha_k =
   [1116352408, 1899447441, 3049323471, 3921009573, 961987163, 1508970993, 2453635748, 2870763221,
    3624381080, 310598401, 607225278, 1426881987, 1925078388, 2162078206, 2614888103, 3248222580,
    3835390401, 4022224774, 264347078, 604807628, 770255983, 1249150122, 1555081692, 1996064986,
    2554220882, 2821834349, 2952996808, 3210313671, 3336571891, 3584528711, 113926993, 338241895,
    666307205, 773529912, 1294757372, 1396182291, 1695183700, 1986661051, 2177026350, 2456956037,
    2730485921, 2820302411, 3259730800, 3345764771, 3516065817, 3600352804, 4094571909, 275423344,
    430227734, 506948616, 659060556, 883997877, 958139571, 1322822218, 1537002063, 1747873779,
    1955562222, 2024104815, 2227730452, 2361852424, 2428436474, 2756734187, 3204031479, 3329325298]"

definition sha_init :: hash_state where
  "sha_init =
   [1779033703, 3144134277, 1013904242, 2773480762, 1359893119, 2600822924, 528734635, 1541459225]"

definition rotr :: "nat \<Rightarrow> u32 \<Rightarrow> u32" where
  "rotr n x = (drop_bit n x OR push_bit (32 - n) x)"

definition small_sigma0 :: "u32 \<Rightarrow> u32" where
  "small_sigma0 x = (rotr 7 x XOR rotr 18 x XOR drop_bit 3 x)"

definition small_sigma1 :: "u32 \<Rightarrow> u32" where
  "small_sigma1 x = (rotr 17 x XOR rotr 19 x XOR drop_bit 10 x)"

definition big_sigma0 :: "u32 \<Rightarrow> u32" where
  "big_sigma0 x = (rotr 2 x XOR rotr 13 x XOR rotr 22 x)"

definition big_sigma1 :: "u32 \<Rightarrow> u32" where
  "big_sigma1 x = (rotr 6 x XOR rotr 11 x XOR rotr 25 x)"

text \<open>The message schedule, newest word first: the word \<open>t - 2\<close> is at index 1 and so on.\<close>

fun extend_schedule :: "nat \<Rightarrow> u32 list \<Rightarrow> u32 list" where
  "extend_schedule 0 ws = ws"
| "extend_schedule (Suc n) ws =
     extend_schedule n
       ((small_sigma1 (ws ! 1) + ws ! 6 + small_sigma0 (ws ! 14) + ws ! 15) # ws)"

definition schedule :: "u32 list \<Rightarrow> u32 list" where
  "schedule block = rev (extend_schedule 48 (rev block))"

fun sha_round :: "u32 \<times> u32 \<Rightarrow> hash_state \<Rightarrow> hash_state" where
  "sha_round (k, w) [a, b, c, d, e, f, g, h] =
     (let t1 = h + big_sigma1 e + ((e AND f) XOR (NOT e AND g)) + k + w;
          t2 = big_sigma0 a + ((a AND b) XOR (a AND c) XOR (b AND c))
      in [t1 + t2, a, b, c, d + t1, e, f, g])"
| "sha_round (k, w) st = st"

definition compress :: "u32 list \<Rightarrow> hash_state \<Rightarrow> hash_state" where
  "compress block st = map2 (+) st (fold sha_round (zip sha_k (schedule block)) st)"

text \<open>Padding: a one bit, zeros up to 56 bytes modulo 64, and the bit length in eight bytes.\<close>

definition byte_of :: "int \<Rightarrow> char" where
  "byte_of n = char_of n"

definition sha_pad :: "string \<Rightarrow> string" where
  "sha_pad bs =
     (let n = length bs; bits = 8 * int n
      in bs @ [byte_of 128] @ replicate ((119 - n mod 64) mod 64) (byte_of 0)
         @ map (\<lambda>i. byte_of (drop_bit i bits mod 256)) [56, 48, 40, 32, 24, 16, 8, 0])"

fun be_words :: "string \<Rightarrow> u32 list" where
  "be_words (a # b # c # d # s) =
     (push_bit 24 (of_char a) OR push_bit 16 (of_char b) OR push_bit 8 (of_char c) OR of_char d)
       # be_words s"
| "be_words s = []"

fun chunks :: "nat \<Rightarrow> 'a list \<Rightarrow> 'a list list" where
  "chunks n xs = (if n = 0 \<or> xs = [] then [] else take n xs # chunks n (drop n xs))"

declare chunks.simps [simp del]

definition hex_digits :: string where
  "hex_digits = ''0123456789abcdef''"

definition hex_digit :: "nat \<Rightarrow> char" where
  "hex_digit n = hex_digits ! (n mod 16)"

definition hex_word :: "u32 \<Rightarrow> string" where
  "hex_word w = map (\<lambda>i. hex_digit (unat (drop_bit i w AND 15))) [28, 24, 20, 16, 12, 8, 4, 0]"

definition sha256_hex :: "string \<Rightarrow> string" where
  "sha256_hex bs = concat (map hex_word (fold compress (chunks 16 (be_words (sha_pad bs))) sha_init))"

section \<open>Shape of a digest\<close>

lemma length_sha_round [simp]: "length st = 8 \<Longrightarrow> length (sha_round kw st) = 8"
  by (cases "(kw, st)" rule: sha_round.cases) (auto simp: Let_def)

lemma length_fold_sha_round [simp]: "length st = 8 \<Longrightarrow> length (fold sha_round kws st) = 8"
  by (induction kws arbitrary: st) auto

lemma length_compress [simp]: "length st = 8 \<Longrightarrow> length (compress b st) = 8"
  by (simp add: compress_def)

lemma length_fold_compress [simp]: "length st = 8 \<Longrightarrow> length (fold compress bs st) = 8"
  by (induction bs arbitrary: st) auto

lemma length_sha_init [simp]: "length sha_init = 8"
  by (simp add: sha_init_def)

lemma length_hex_word [simp]: "length (hex_word w) = 8"
  by (simp add: hex_word_def)

lemma hex_digit_mem: "hex_digit n \<in> set hex_digits"
proof -
  have "n mod 16 < length hex_digits" by (simp add: hex_digits_def)
  then show ?thesis by (simp add: hex_digit_def)
qed

lemma hex_word_digits: "set (hex_word w) \<subseteq> set hex_digits"
  by (simp add: hex_word_def hex_digit_mem)

lemma length_concat_hex: "length (concat (map hex_word ws)) = 8 * length ws"
  by (induction ws) auto

lemma length_sha256_hex: "length (sha256_hex bs) = 64"
  by (simp add: sha256_hex_def length_concat_hex)

lemma sha256_hex_digits: "set (sha256_hex bs) \<subseteq> set hex_digits"
  using hex_word_digits by (auto simp: sha256_hex_def)

text \<open>Padding fills whole 64-byte blocks.\<close>

lemma length_sha_pad: "64 dvd length (sha_pad bs)"
proof -
  have eq: "length (sha_pad bs) = length bs + 9 + (119 - length bs mod 64) mod 64"
    by (simp add: sha_pad_def Let_def)
  have "64 dvd n + 9 + (119 - n mod 64) mod 64" for n :: nat
  proof -
    define q r where "q = n div 64" and "r = n mod 64"
    have n: "n = 64 * q + r" and r: "r < 64" by (simp_all add: q_def r_def)
    have "r + 9 + (119 - r) mod 64 = 64 \<or> r + 9 + (119 - r) mod 64 = 128"
      using r by (cases "r \<le> 55") (auto simp: mod_if)
    then have "64 dvd r + 9 + (119 - r) mod 64" by (elim disjE; simp only:) simp_all
    then have "64 dvd 64 * q + (r + 9 + (119 - r) mod 64)" by simp
    then show ?thesis by (simp only: n add.assoc mod_mult_self4 mod_less r)
  qed
  then show ?thesis unfolding eq .
qed

end
