(* ===== verification/Canonical.thy ===== *)
theory Canonical
  imports Sha256
begin

text \<open>
  \<^verbatim>\<open>pmiri/canonical.py\<close>: JSON values, the canonical serialization, fingerprints and text
  normalization; and the dynamic operations on JSON values (\<^verbatim>\<open>==\<close>, \<^verbatim>\<open>isinstance\<close>, membership in a
  frozenset, \<^verbatim>\<open>dict.get\<close>) that the record validators use. Values hold no floating-point numbers:
  none of the records that the program fingerprints has one.
\<close>

section \<open>JSON values\<close>

datatype json =
    JNull
  | JBool bool
  | JInt int
  | JStr string
  | JList "json list"
  | JObj "(string \<times> json) list"

type_synonym dict = "(string \<times> json) list"

text \<open>\<^verbatim>\<open>r.get(k)\<close>; the value of a missing key is \<^verbatim>\<open>None\<close>.\<close>

definition get :: "dict \<Rightarrow> string \<Rightarrow> json" where
  "get r k = (case map_of r k of None \<Rightarrow> JNull | Some v \<Rightarrow> v)"

definition has_key :: "dict \<Rightarrow> string \<Rightarrow> bool" where
  "has_key r k = (map_of r k \<noteq> None)"

text \<open>\<^verbatim>\<open>isinstance(v, str) and v\<close>; \<^verbatim>\<open>isinstance(v, int) and not isinstance(v, bool)\<close> with a lower bound.\<close>

fun nonempty_str :: "json \<Rightarrow> bool" where
  "nonempty_str (JStr s) = (s \<noteq> [])"
| "nonempty_str _ = False"

fun int_at_least :: "int \<Rightarrow> json \<Rightarrow> bool" where
  "int_at_least n (JInt i) = (n \<le> i)"
| "int_at_least n _ = False"

fun truthy :: "json \<Rightarrow> bool" where
  "truthy JNull = False"
| "truthy (JBool b) = b"
| "truthy (JInt i) = (i \<noteq> 0)"
| "truthy (JStr s) = (s \<noteq> [])"
| "truthy (JList xs) = (xs \<noteq> [])"
| "truthy (JObj kvs) = (kvs \<noteq> [])"

text \<open>
  Python's \<^verbatim>\<open>==\<close>: a boolean equals the integer it stands for, lists compare element by element
  and dictionaries as maps, whatever the order of their keys.
\<close>

fun py_eq :: "json \<Rightarrow> json \<Rightarrow> bool"
and py_eq_list :: "json list \<Rightarrow> json list \<Rightarrow> bool"
and py_eq_members :: "(string \<times> json) list \<Rightarrow> (string \<times> json) list \<Rightarrow> bool" where
  "py_eq JNull w = (w = JNull)"
| "py_eq (JBool b) w = (w = JBool b \<or> w = JInt (of_bool b))"
| "py_eq (JInt i) w = (w = JInt i \<or> (\<exists>b \<in> {True, False}. w = JBool b \<and> i = of_bool b))"
| "py_eq (JStr s) w = (w = JStr s)"
| "py_eq (JList xs) w = (case w of JList ys \<Rightarrow> py_eq_list xs ys | _ \<Rightarrow> False)"
| "py_eq (JObj kvs) w =
     (case w of JObj kws \<Rightarrow> length kvs = length kws \<and> py_eq_members kvs kws | _ \<Rightarrow> False)"
| "py_eq_list [] ys = (ys = [])"
| "py_eq_list (x # xs) ys = (case ys of [] \<Rightarrow> False | y # zs \<Rightarrow> py_eq x y \<and> py_eq_list xs zs)"
| "py_eq_members [] kws = True"
| "py_eq_members ((k, v) # kvs) kws =
     ((case map_of kws k of None \<Rightarrow> False | Some w \<Rightarrow> py_eq v w) \<and> py_eq_members kvs kws)"

text \<open>\<^verbatim>\<open>v in S\<close> for a set of strings: an unhashable value raises \<^verbatim>\<open>TypeError\<close>.\<close>

fun in_set :: "json \<Rightarrow> string list \<Rightarrow> bool result" where
  "in_set (JStr s) S = Inr (s \<in> set S)"
| "in_set (JList xs) S = raise TypeError ''unhashable type: 'list' ''"
| "in_set (JObj kvs) S = raise TypeError ''unhashable type: 'dict' ''"
| "in_set _ S = Inr False"

section \<open>canonical\_json\<close>

definition digit_char :: "nat \<Rightarrow> char" where
  "digit_char n = ''0123456789'' ! (n mod 10)"

fun show_nat :: "nat \<Rightarrow> string" where
  "show_nat n = (if n < 10 then [digit_char n] else show_nat (n div 10) @ [digit_char (n mod 10)])"

declare show_nat.simps [simp del]

definition show_int :: "int \<Rightarrow> string" where
  "show_int i = (if i < 0 then CHR ''-'' # show_nat (nat (- i)) else show_nat (nat i))"

text \<open>String escapes of \<^verbatim>\<open>json.dumps(..., ensure_ascii=False)\<close>.\<close>

definition escape_char :: "char \<Rightarrow> string" where
  "escape_char c =
     (if c = CHR 0x22 then [CHR 0x5C, CHR 0x22]
      else if c = CHR 0x5C then [CHR 0x5C, CHR 0x5C]
      else if c = CHR 0x0A then [CHR 0x5C, CHR ''n'']
      else if c = CHR 0x0D then [CHR 0x5C, CHR ''r'']
      else if c = CHR 0x09 then [CHR 0x5C, CHR ''t'']
      else if c = CHR 0x0C then [CHR 0x5C, CHR ''f'']
      else if c = CHR 0x08 then [CHR 0x5C, CHR ''b'']
      else if (of_char c :: nat) < 32
        then [CHR 0x5C, CHR ''u'', CHR ''0'', CHR ''0'', hex_digit (of_char c div 16), hex_digit (of_char c)]
      else [c])"

definition quote :: "string \<Rightarrow> string" where
  "quote s = CHR 0x22 # concat (map escape_char s) @ [CHR 0x22]"

fun emit :: "json \<Rightarrow> string"
and emit_items :: "json list \<Rightarrow> string"
and emit_members :: "(string \<times> json) list \<Rightarrow> string" where
  "emit JNull = ''null''"
| "emit (JBool b) = (if b then ''true'' else ''false'')"
| "emit (JInt i) = show_int i"
| "emit (JStr s) = quote s"
| "emit (JList xs) = CHR ''['' # emit_items xs @ '']''"
| "emit (JObj kvs) = CHR ''{'' # emit_members kvs @ ''}''"
| "emit_items [] = []"
| "emit_items (x # xs) = emit x @ (if xs = [] then [] else CHR '','' # emit_items xs)"
| "emit_members [] = []"
| "emit_members ((k, v) # kvs) =
     quote k @ CHR '':'' # emit v @ (if kvs = [] then [] else CHR '','' # emit_members kvs)"

fun sort_keys :: "json \<Rightarrow> json"
and sort_keys_items :: "json list \<Rightarrow> json list"
and sort_keys_members :: "(string \<times> json) list \<Rightarrow> (string \<times> json) list" where
  "sort_keys (JList xs) = JList (sort_keys_items xs)"
| "sort_keys (JObj kvs) = JObj (sort_key fst (sort_keys_members kvs))"
| "sort_keys v = v"
| "sort_keys_items [] = []"
| "sort_keys_items (x # xs) = sort_keys x # sort_keys_items xs"
| "sort_keys_members [] = []"
| "sort_keys_members ((k, v) # kvs) = (k, sort_keys v) # sort_keys_members kvs"

definition canonical_json :: "json \<Rightarrow> string" where
  "canonical_json v = emit (sort_keys v)"

definition sha256_bytes :: "string \<Rightarrow> string" where
  "sha256_bytes bs = sha256_hex bs"

definition sha256_json :: "json \<Rightarrow> string" where
  "sha256_json v = sha256_bytes (canonical_json v)"

definition is_sha256_str :: "string \<Rightarrow> bool" where
  "is_sha256_str s = (length s = 64 \<and> (\<forall>c \<in> set s. c \<in> set ''0123456789abcdef''))"

fun is_sha256 :: "json \<Rightarrow> bool" where
  "is_sha256 (JStr s) = is_sha256_str s"
| "is_sha256 _ = False"

section \<open>normalize\_text\<close>

definition byte_in :: "nat \<Rightarrow> nat \<Rightarrow> char \<Rightarrow> bool" where
  "byte_in lo hi c = (lo \<le> (of_char c :: nat) \<and> (of_char c :: nat) \<le> hi)"

text \<open>Well-formed UTF-8: no overlong form, no surrogate, nothing above U+10FFFF.\<close>

fun valid_utf8 :: "string \<Rightarrow> bool" where
  "valid_utf8 [] = True"
| "valid_utf8 (a # s) =
     (if byte_in 0 127 a then valid_utf8 s
      else if byte_in 194 223 a then
        (case s of b # t \<Rightarrow> byte_in 128 191 b \<and> valid_utf8 t | [] \<Rightarrow> False)
      else if byte_in 224 239 a then
        (case s of b # c # t \<Rightarrow>
           byte_in (if byte_in 224 224 a then 160 else 128) (if byte_in 237 237 a then 159 else 191) b
           \<and> byte_in 128 191 c \<and> valid_utf8 t
         | _ \<Rightarrow> False)
      else if byte_in 240 244 a then
        (case s of b # c # d # t \<Rightarrow>
           byte_in (if byte_in 240 240 a then 144 else 128) (if byte_in 244 244 a then 143 else 191) b
           \<and> byte_in 128 191 c \<and> byte_in 128 191 d \<and> valid_utf8 t
         | _ \<Rightarrow> False)
      else False)"

definition decode_utf8 :: "string \<Rightarrow> string result" where
  "decode_utf8 raw = (if valid_utf8 raw then Inr raw else raise UnicodeDecodeError ''utf-8'')"

definition normalize_text :: "string \<Rightarrow> string result" where
  "normalize_text raw =
     bind_result (decode_utf8 raw) (\<lambda>text.
       Inr (replace_all [CHR 0x0D] [CHR 0x0A] (replace_all [CHR 0x0D, CHR 0x0A] [CHR 0x0A] text)))"

section \<open>Dictionaries\<close>

lemma get_simps [simp]:
  "get [] k = JNull"
  "get ((k', v) # r) k = (if k' = k then v else get r k)"
  by (simp_all add: get_def)

lemma has_key_simps [simp]:
  "has_key [] k = False"
  "has_key ((k', v) # r) k = (k' = k \<or> has_key r k)"
  by (simp_all add: has_key_def)

lemma get_eq_SomeD: "get r k \<noteq> JNull \<Longrightarrow> map_of r k = Some (get r k)"
  by (simp add: get_def split: option.splits)

lemma nonempty_strE: "nonempty_str v \<Longrightarrow> \<exists>s. v = JStr s \<and> s \<noteq> []"
  by (cases v) auto

lemma int_at_leastE: "int_at_least n v \<Longrightarrow> \<exists>i. v = JInt i \<and> n \<le> i"
  by (cases v) auto

lemma py_eq_JStr [simp]: "py_eq v (JStr s) \<longleftrightarrow> v = JStr s"
  by (cases v) (auto split: json.splits)

lemma py_eq_JNull [simp]: "py_eq v JNull \<longleftrightarrow> v = JNull"
  by (cases v) (auto split: json.splits)

lemma in_set_Inr_True [simp]: "in_set v S = Inr True \<longleftrightarrow> (\<exists>s \<in> set S. v = JStr s)"
  by (cases v) auto

section \<open>Fingerprints have the shape is\_sha256 accepts\<close>

lemma sha256_json_is_sha256 [simp]: "is_sha256_str (sha256_json v)"
  unfolding is_sha256_str_def sha256_json_def sha256_bytes_def hex_digits_def [symmetric]
  using sha256_hex_digits [of "canonical_json v"] length_sha256_hex [of "canonical_json v"]
  by blast

lemma length_sha256_json [simp]: "length (sha256_json v) = 64"
  by (simp add: sha256_json_def sha256_bytes_def length_sha256_hex)

lemma length_sha256_bytes [simp]: "length (sha256_bytes v) = 64"
  by (simp add: sha256_bytes_def length_sha256_hex)

section \<open>canonical\_json is injective up to the order of keys\<close>

definition is_digit :: "char \<Rightarrow> bool" where
  "is_digit c = (c \<in> set ''0123456789'')"

definition no_digit_head :: "string \<Rightarrow> bool" where
  "no_digit_head s = (s = [] \<or> \<not> is_digit (hd s))"

definition digit_val :: "char \<Rightarrow> nat" where
  "digit_val c = of_char c - 48"

definition read_nat :: "string \<Rightarrow> nat" where
  "read_nat s = foldl (\<lambda>a c. 10 * a + digit_val c) 0 s"

lemma less_ten_cases: "(n :: nat) < 10 \<Longrightarrow> n \<in> {0, 1, 2, 3, 4, 5, 6, 7, 8, 9}"
  by auto

lemma is_digit_digit_char [simp]: "is_digit (digit_char n)"
proof -
  have "n mod 10 < length ''0123456789''" by simp
  then show ?thesis unfolding is_digit_def digit_char_def by (rule nth_mem)
qed

lemma digit_val_digit_char: "n < 10 \<Longrightarrow> digit_val (digit_char n) = n"
  using less_ten_cases [of n] by (auto simp: digit_char_def digit_val_def)

lemma show_nat_digits: "c \<in> set (show_nat n) \<Longrightarrow> is_digit c"
proof (induction n rule: show_nat.induct)
  case (1 n)
  then show ?case by (subst (asm) (2) show_nat.simps) (auto split: if_splits)
qed

lemma read_show_nat [simp]: "read_nat (show_nat n) = n"
proof (induction n rule: show_nat.induct)
  case (1 n)
  show ?case
  proof (cases "n < 10")
    case True
    then show ?thesis by (subst show_nat.simps) (simp add: read_nat_def digit_val_digit_char)
  next
    case False
    with 1 have "read_nat (show_nat (n div 10)) = n div 10" by simp
    with False show ?thesis
      by (subst show_nat.simps) (simp add: read_nat_def digit_val_digit_char)
  qed
qed

lemma show_nat_not_Nil [simp]: "show_nat n \<noteq> []"
  by (subst show_nat.simps) simp

lemma takeWhile_show_nat: "no_digit_head s \<Longrightarrow> takeWhile is_digit (show_nat n @ s) = show_nat n"
  using show_nat_digits [of _ n]
  by (cases s) (auto simp: takeWhile_append2 no_digit_head_def)

lemma show_nat_prefix:
  assumes "show_nat m @ s = show_nat n @ t" "no_digit_head s" "no_digit_head t"
  shows "m = n \<and> s = t"
proof -
  from assms have "show_nat m = show_nat n" by (metis takeWhile_show_nat)
  moreover from this have "m = n" by (metis read_show_nat)
  ultimately show ?thesis using assms(1) by simp
qed

lemma hd_show_nat: "is_digit (hd (show_nat n))"
  by (rule show_nat_digits [of _ n]) simp

lemma show_int_prefix:
  assumes "show_int i @ s = show_int j @ t" "no_digit_head s" "no_digit_head t"
  shows "i = j \<and> s = t"
proof -
  have sign: "show_nat n @ u \<noteq> CHR ''-'' # v" for n u v
    using hd_show_nat [of n] by (cases "show_nat n") (auto simp: is_digit_def)
  show ?thesis
  proof (cases "i < 0"; cases "j < 0")
    assume "i < 0" "j < 0"
    with assms show ?thesis using show_nat_prefix [of "nat (- i)" s "nat (- j)" t]
      by (auto simp: show_int_def)
  next
    assume "\<not> i < 0" "\<not> j < 0"
    with assms show ?thesis using show_nat_prefix [of "nat i" s "nat j" t]
      by (auto simp: show_int_def)
  qed (use assms(1) sign sign [symmetric] in \<open>auto simp: show_int_def\<close>)
qed

text \<open>A decoder for one escaped character: escapes are prefix-free.\<close>

definition hex_val :: "char \<Rightarrow> nat" where
  "hex_val c = (if is_digit c then of_char c - 48 else of_char c - 87)"

lemma hex_val_hex_digit: "hex_val (hex_digit n) = n mod 16"
proof -
  have "list_all (\<lambda>k. hex_val (hex_digits ! k) = k) [0 ..< 16]" by code_simp
  then have "hex_val (hex_digits ! k) = k" if "k < 16" for k
    using that by (simp add: list_all_iff)
  then show ?thesis by (simp add: hex_digit_def)
qed

definition unescape :: "string \<Rightarrow> char \<times> string" where
  "unescape s =
     (if hd s \<noteq> CHR 0x5C then (hd s, tl s)
      else if s ! 1 = CHR ''u'' then (char_of (16 * hex_val (s ! 4) + hex_val (s ! 5)), drop 6 s)
      else (if s ! 1 = CHR ''n'' then CHR 0x0A else if s ! 1 = CHR ''r'' then CHR 0x0D
            else if s ! 1 = CHR ''t'' then CHR 0x09 else if s ! 1 = CHR ''f'' then CHR 0x0C
            else if s ! 1 = CHR ''b'' then CHR 0x08 else s ! 1, drop 2 s))"

lemma unescape_escape: "unescape (escape_char c @ s) = (c, s)"
proof -
  define n :: nat where "n = of_char c"
  have c: "char_of n = c" by (simp add: n_def)
  have "16 * (n div 16 mod 16) + n mod 16 = n" if "n < 32"
    using that by (simp add: mod_less)
  then show ?thesis
    by (simp add: escape_char_def unescape_def hex_val_hex_digit n_def [symmetric] c)
qed

lemma hd_escape_char: "escape_char c \<noteq> []" "hd (escape_char c) \<noteq> CHR 0x22"
  by (auto simp: escape_char_def)

lemma escaped_prefix:
  "concat (map escape_char s) @ CHR 0x22 # u = concat (map escape_char t) @ CHR 0x22 # v \<Longrightarrow>
     s = t \<and> u = v"
proof (induction s arbitrary: t)
  case Nil
  then show ?case
    using hd_escape_char by (cases t) (auto, metis hd_append2 list.sel(1))
next
  case (Cons c s)
  show ?case
  proof (cases t)
    case Nil
    with Cons.prems show ?thesis
      using hd_escape_char by (auto, metis hd_append2 list.sel(1))
  next
    case (Cons d t')
    let ?x = "concat (map escape_char s) @ CHR 0x22 # u"
    let ?y = "concat (map escape_char t') @ CHR 0x22 # v"
    from Cons Cons.prems have "escape_char c @ ?x = escape_char d @ ?y" by simp
    then have "(c, ?x) = (d, ?y)" by (metis unescape_escape)
    then show ?thesis using Cons.IH [of t'] Cons by simp
  qed
qed

lemma quote_prefix: "quote s @ u = quote t @ v \<Longrightarrow> s = t \<and> u = v"
  using escaped_prefix [of s u t v] by (simp add: quote_def)

lemma show_int_not_Nil [simp]: "show_int i \<noteq> []"
  by (simp add: show_int_def)

lemma show_int_head: "show_int i @ s = c # t \<Longrightarrow> c = CHR ''-'' \<or> is_digit c"
proof (cases "i < 0")
  case False
  assume "show_int i @ s = c # t"
  with False have "hd (show_nat (nat i)) = c"
    by (metis hd_append2 list.sel(1) show_int_def show_nat_not_Nil)
  with hd_show_nat [of "nat i"] show ?thesis by simp
qed (simp add: show_int_def)

text \<open>The kind of a value shows in the first character of its text.\<close>

fun json_kind :: "json \<Rightarrow> nat" where
  "json_kind JNull = 0" | "json_kind (JBool b) = (if b then 1 else 2)" | "json_kind (JInt i) = 3"
| "json_kind (JStr s) = 4" | "json_kind (JList xs) = 5" | "json_kind (JObj kvs) = 6"

definition head_kind :: "char \<Rightarrow> nat" where
  "head_kind c =
     (if c = CHR ''n'' then 0 else if c = CHR ''t'' then 1 else if c = CHR ''f'' then 2
      else if c = CHR 0x22 then 4 else if c = CHR ''['' then 5 else if c = CHR ''{'' then 6
      else if c = CHR '']'' \<or> c = CHR ''}'' then 7 else 3)"

lemma emit_kind: "emit v @ s \<noteq> [] \<and> head_kind (hd (emit v @ s)) = json_kind v"
proof (cases v)
  case (JInt i)
  obtain c t where ct: "show_int i @ s = c # t" by (cases "show_int i @ s") auto
  from show_int_head [OF ct] have "head_kind c = 3"
    by (auto simp: head_kind_def is_digit_def)
  with JInt ct show ?thesis by simp
qed (auto simp: head_kind_def quote_def)

lemma emit_kind_eq: "emit v @ s = emit w @ t \<Longrightarrow> json_kind v = json_kind w"
  by (metis emit_kind)

lemma no_digit_head_Cons [simp]: "no_digit_head (c # s) \<longleftrightarrow> \<not> is_digit c"
  by (simp add: no_digit_head_def)

lemma not_digit [simp]:
  "\<not> is_digit CHR '',''" "\<not> is_digit CHR '']''" "\<not> is_digit CHR ''}''"
  by (simp_all add: is_digit_def)

lemma kind_less: "json_kind v < 7"
  by (cases v) auto

lemma emit_not_close: "emit v @ s \<noteq> CHR '']'' # t" "emit v @ s \<noteq> CHR ''}'' # t"
  using emit_kind [of v s] kind_less [of v] by (auto simp: head_kind_def)

lemma emit_items_close: "emit_items xs @ CHR '']'' # s = CHR '']'' # t \<Longrightarrow> xs = []"
  by (cases xs) (auto simp: emit_not_close)

lemma emit_members_close: "emit_members xs @ CHR ''}'' # s = CHR ''}'' # t \<Longrightarrow> xs = []"
  by (cases xs rule: emit_members.cases) (auto simp: quote_def)

text \<open>Unique readability: a text has at most one reading, and its end is determined.\<close>

lemma emit_prefix:
  "emit v @ s = emit w @ t \<Longrightarrow> no_digit_head s \<Longrightarrow> no_digit_head t \<Longrightarrow> v = w \<and> s = t"
  "emit_items xs @ CHR '']'' # s = emit_items ys @ CHR '']'' # t \<Longrightarrow> xs = ys \<and> s = t"
  "emit_members kvs @ CHR ''}'' # s = emit_members kws @ CHR ''}'' # t \<Longrightarrow> kvs = kws \<and> s = t"
proof (induction v and xs and kvs arbitrary: w s t and ys s t and kws s t
    rule: emit_emit_items_emit_members.induct)
  case 1
  from emit_kind_eq [OF 1(1)] have "json_kind w = 0" by simp
  with 1 show ?case by (cases w) (auto split: if_splits)
next
  case (2 b)
  from emit_kind_eq [OF 2(1)] have "json_kind w = (if b then 1 else 2)" by simp
  with 2 show ?case by (cases w) (auto split: if_splits)
next
  case (3 i)
  from emit_kind_eq [OF 3(1)] have "json_kind w = 3" by simp
  then obtain j where w: "w = JInt j" by (cases w) (auto split: if_splits)
  with 3 show ?case using show_int_prefix [of i s j t] by simp
next
  case (4 u)
  from emit_kind_eq [OF 4(1)] have "json_kind w = 4" by simp
  then obtain u' where w: "w = JStr u'" by (cases w) (auto split: if_splits)
  with 4 show ?case using quote_prefix [of u s u' t] by simp
next
  case (5 xs)
  from emit_kind_eq [OF 5(2)] have "json_kind w = 5" by simp
  then obtain ys where w: "w = JList ys" by (cases w) (auto split: if_splits)
  with 5(2) have "emit_items xs @ CHR '']'' # s = emit_items ys @ CHR '']'' # t" by simp
  from 5(1) [OF this] w show ?case by simp
next
  case (6 kvs)
  from emit_kind_eq [OF 6(2)] have "json_kind w = 6" by simp
  then obtain ys where w: "w = JObj ys" by (cases w) (auto split: if_splits)
  with 6(2) have "emit_members kvs @ CHR ''}'' # s = emit_members ys @ CHR ''}'' # t" by simp
  from 6(1) [OF this] w show ?case by simp
next
  case 7
  then show ?case using emit_items_close [of ys t s] by (cases ys) auto
next
  case (8 x xs)
  show ?case
  proof (cases ys)
    case Nil
    with 8(3) show ?thesis using emit_items_close [of "x # xs"] by auto
  next
    case (Cons y zs)
    let ?r = "\<lambda>us u. (if us = [] then [] else CHR '','' # emit_items us) @ CHR '']'' # u"
    from Cons 8(3) have "emit x @ ?r xs s = emit y @ ?r zs t" by simp
    then have xy: "x = y" and r: "?r xs s = ?r zs t" using 8(1) [of "?r xs s" y "?r zs t"] by simp_all
    from r have "xs = zs \<and> s = t"
      by (cases "xs = []"; cases "zs = []") (use 8(2) [of s zs t] in simp_all)
    with xy Cons show ?thesis by simp
  qed
next
  case 9
  then show ?case using emit_members_close [of kws t s] by (cases kws) auto
next
  case (10 k v kvs)
  show ?case
  proof (cases kws)
    case Nil
    with 10(3) show ?thesis using emit_members_close [of "(k, v) # kvs"] by auto
  next
    case (Cons p kws')
    obtain k' v' where p: "p = (k', v')" by (cases p)
    let ?r = "\<lambda>us u. (if us = [] then [] else CHR '','' # emit_members us) @ CHR ''}'' # u"
    from Cons p 10(3) have "quote k @ CHR '':'' # emit v @ ?r kvs s = quote k' @ CHR '':'' # emit v' @ ?r kws' t"
      by simp
    from quote_prefix [OF this] have k: "k = k'" and "emit v @ ?r kvs s = emit v' @ ?r kws' t" by auto
    from this(2) have v: "v = v'" and r: "?r kvs s = ?r kws' t"
      using 10(1) [of "?r kvs s" v' "?r kws' t"] by simp_all
    from r have "kvs = kws' \<and> s = t"
      by (cases "kvs = []"; cases "kws' = []") (use 10(2) [of s kws' t] in simp_all)
    with v k Cons p show ?thesis by simp
  qed
qed

lemma canonical_json_eq_iff: "canonical_json v = canonical_json w \<longleftrightarrow> sort_keys v = sort_keys w"
  using emit_prefix(1) [of "sort_keys v" "[]" "sort_keys w" "[]"]
  by (auto simp: canonical_json_def no_digit_head_def)

text \<open>
  Two values with the same fingerprint are the same up to key order, or their canonical texts are
  a collision of the hash function.
\<close>

definition sha_collision :: "string \<Rightarrow> string \<Rightarrow> bool" where
  "sha_collision x y = (x \<noteq> y \<and> sha256_bytes x = sha256_bytes y)"

lemma sha256_json_eqD:
  "sha256_json v = sha256_json w \<Longrightarrow>
     sort_keys v = sort_keys w \<or> sha_collision (canonical_json v) (canonical_json w)"
  by (auto simp: sha_collision_def sha256_json_def canonical_json_eq_iff)

section \<open>Line endings\<close>

lemma replace_all_Nil [simp]: "replace_all old new [] = []"
  by (simp add: replace_all.simps)

lemma replace_all_Cons_other:
  "old \<noteq> [] \<Longrightarrow> c \<noteq> hd old \<Longrightarrow> replace_all old new (c # s) = c # replace_all old new s"
  by (subst replace_all.simps) (cases old, auto simp: startswith_def)

lemma replace_all_absent: "old \<noteq> [] \<Longrightarrow> hd old \<notin> set s \<Longrightarrow> replace_all old new s = s"
  by (induction s) (auto simp: replace_all_Cons_other)

lemma replace_all_single: "replace_all [c] [d] s = map (\<lambda>x. if x = c then d else x) s"
  by (induction s) (simp_all add: replace_all.simps [of "[c]" "[d]" "_ # _"] startswith_def)

lemma replace_crlf_step:
  "replace_all [CHR 0x0D, CHR 0x0A] [CHR 0x0A] (c # s) =
     (if c = CHR 0x0D \<and> s \<noteq> [] \<and> hd s = CHR 0x0A
      then replace_all [CHR 0x0D, CHR 0x0A] [CHR 0x0A] s
      else c # replace_all [CHR 0x0D, CHR 0x0A] [CHR 0x0A] s)"
  by (cases s) (simp_all add: replace_all.simps [of _ _ "_ # _"] startswith_def)

text \<open>
  A transformation of texts that works on the ASCII characters alone, and on each in a way that
  keeps validity, keeps validity of the whole.
\<close>

lemma valid_utf8_transform:
  assumes high: "\<And>b s. 128 \<le> (of_char b :: nat) \<Longrightarrow> f (b # s) = b # f s"
    and ascii: "\<And>a s. byte_in 0 127 a \<Longrightarrow> valid_utf8 (f s) \<Longrightarrow> valid_utf8 (f (a # s))"
    and nil: "f [] = []"
  shows "valid_utf8 s \<Longrightarrow> valid_utf8 (f s)"
proof (induction s rule: valid_utf8.induct)
  case (2 a s)
  have f: "f (b # t) = b # f t" if "byte_in lo hi b" "128 \<le> lo" for b t lo hi
    using that by (intro high) (simp add: byte_in_def)
  have lo: "128 \<le> (if P then 160 else 128 :: nat)" "128 \<le> (if P then 144 else 128 :: nat)" for P
    by simp_all
  consider "byte_in 0 127 a" | "byte_in 194 223 a" | "byte_in 224 239 a" | "byte_in 240 244 a"
    using 2(5) by (auto split: if_splits)
  then show ?case
  proof cases
    case 1
    with 2(1,5) show ?thesis by (simp add: ascii)
  next
    case c: 2
    then have a: "\<not> byte_in 0 127 a" by (simp add: byte_in_def)
    with c 2(5) obtain b t where s: "s = b # t" and b: "byte_in 128 191 b" and "valid_utf8 t"
      by (auto split: list.splits)
    with 2(2) a c have "valid_utf8 (f t)" by simp
    with s b c a show ?thesis by (simp add: f [OF c] f [OF b])
  next
    case c: 3
    then have a: "\<not> byte_in 0 127 a" "\<not> byte_in 194 223 a" by (simp_all add: byte_in_def)
    with c 2(5) obtain b d t where s: "s = b # d # t"
      and b: "byte_in (if byte_in 224 224 a then 160 else 128) (if byte_in 237 237 a then 159 else 191) b"
      and d: "byte_in 128 191 d" and "valid_utf8 t"
      by (auto split: list.splits)
    with 2(3) a c have "valid_utf8 (f t)" by simp
    with s b d c a show ?thesis by (simp add: f [OF c] f [OF b lo(1)] f [OF d])
  next
    case c: 4
    then have a: "\<not> byte_in 0 127 a" "\<not> byte_in 194 223 a" "\<not> byte_in 224 239 a"
      by (simp_all add: byte_in_def)
    with c 2(5) obtain b d e t where s: "s = b # d # e # t"
      and b: "byte_in (if byte_in 240 240 a then 144 else 128) (if byte_in 244 244 a then 143 else 191) b"
      and d: "byte_in 128 191 d" and e: "byte_in 128 191 e" and "valid_utf8 t"
      by (auto split: list.splits)
    with 2(4) a c have "valid_utf8 (f t)" by simp
    with s b d e c a show ?thesis by (simp add: f [OF c] f [OF b lo(2)] f [OF d] f [OF e])
  qed
qed (simp add: nil)

lemma valid_utf8_replace_crlf:
  "valid_utf8 s \<Longrightarrow> valid_utf8 (replace_all [CHR 0x0D, CHR 0x0A] [CHR 0x0A] s)"
  by (erule valid_utf8_transform [rotated -1]) (auto simp: replace_crlf_step)

lemma valid_utf8_cr_to_lf:
  "valid_utf8 s \<Longrightarrow> valid_utf8 (map (\<lambda>x. if x = CHR 0x0D then CHR 0x0A else x) s)"
  by (erule valid_utf8_transform [rotated -1]) (auto simp: byte_in_def)

lemma normalize_text_no_cr: "normalize_text raw = Inr t \<Longrightarrow> CHR 0x0D \<notin> set t"
  by (auto simp: normalize_text_def result_simps replace_all_single split: if_splits)

lemma normalize_text_valid: "normalize_text raw = Inr t \<Longrightarrow> valid_utf8 t"
  using valid_utf8_cr_to_lf [OF valid_utf8_replace_crlf]
  by (auto simp: normalize_text_def decode_utf8_def result_simps replace_all_single split: if_splits)

lemma normalize_text_fixed: "valid_utf8 t \<Longrightarrow> CHR 0x0D \<notin> set t \<Longrightarrow> normalize_text t = Inr t"
  by (simp add: normalize_text_def decode_utf8_def replace_all_absent)

lemma normalize_text_idem: "normalize_text raw = Inr t \<Longrightarrow> normalize_text t = Inr t"
  using normalize_text_fixed normalize_text_valid normalize_text_no_cr by blast

end
