(* ===== verification/Timestamps.thy ===== *)
theory Timestamps
  imports Canonical
begin

text \<open>
  Time stamps: \<^verbatim>\<open>datetime.fromisoformat\<close> on the extended calendar format
  \<^verbatim>\<open>YYYY-MM-DD?HH[:MM[:SS[.f]]][+HH[:MM[:SS[.f]]]]\<close>, which is the format \<^verbatim>\<open>utc_now\<close> writes, and
  the readers \<^verbatim>\<open>_parse_time\<close>, \<^verbatim>\<open>_timestamp\<close>, \<^verbatim>\<open>_epoch_seconds\<close> and \<^verbatim>\<open>_valid_interval\<close> that the
  authorization, security and policy modules define over it. An instant is an integer number of
  microseconds since the epoch. The basic format and week dates are not read: the model raises
  \<^verbatim>\<open>ValueError\<close> on them.
\<close>

type_synonym instant = int

definition int_of_digit :: "char \<Rightarrow> int" where
  "int_of_digit c = of_char c - 48"

definition dec_digit :: "char \<Rightarrow> bool" where
  "dec_digit c = (48 \<le> (of_char c :: int) \<and> (of_char c :: int) \<le> 57)"

fun take_number :: "nat \<Rightarrow> int \<Rightarrow> string \<Rightarrow> (int \<times> string) option" where
  "take_number 0 acc s = Some (acc, s)"
| "take_number (Suc n) acc [] = None"
| "take_number (Suc n) acc (c # s) =
     (if dec_digit c then take_number n (10 * acc + int_of_digit c) s else None)"

fun expect :: "char \<Rightarrow> string \<Rightarrow> string option" where
  "expect c [] = None"
| "expect c (d # s) = (if c = d then Some s else None)"

definition leap_year :: "int \<Rightarrow> bool" where
  "leap_year y = (y mod 4 = 0 \<and> (y mod 100 \<noteq> 0 \<or> y mod 400 = 0))"

definition days_in_month :: "int \<Rightarrow> int \<Rightarrow> int" where
  "days_in_month y m =
     (if m = 2 then (if leap_year y then 29 else 28)
      else if m = 4 \<or> m = 6 \<or> m = 9 \<or> m = 11 then 30 else 31)"

text \<open>Days since 1970-01-01 in the proleptic Gregorian calendar.\<close>

definition days_from_civil :: "int \<Rightarrow> int \<Rightarrow> int \<Rightarrow> int" where
  "days_from_civil y m d =
     (let y' = (if m \<le> 2 then y - 1 else y);
          era = y' div 400;
          yoe = y' mod 400;
          doy = (153 * (if m \<le> 2 then m + 9 else m - 3) + 2) div 5 + d - 1;
          doe = yoe * 365 + yoe div 4 - yoe div 100 + doy
      in era * 146097 + doe - 719468)"

definition parse_date :: "string \<Rightarrow> (int \<times> string) option" where
  "parse_date s =
     Option.bind (take_number 4 0 s) (\<lambda>(y, s1).
     Option.bind (expect CHR ''-'' s1) (\<lambda>s2.
     Option.bind (take_number 2 0 s2) (\<lambda>(m, s3).
     Option.bind (expect CHR ''-'' s3) (\<lambda>s4.
     Option.bind (take_number 2 0 s4) (\<lambda>(d, s5).
       if 1 \<le> y \<and> 1 \<le> m \<and> m \<le> 12 \<and> 1 \<le> d \<and> d \<le> days_in_month y m
       then Some (days_from_civil y m d, s5) else None)))))"

text \<open>The digits after a decimal mark: six are kept, the rest is dropped.\<close>

fun fraction :: "nat \<Rightarrow> int \<Rightarrow> string \<Rightarrow> int \<times> string" where
  "fraction n acc [] = (acc * 10 ^ n, [])"
| "fraction n acc (c # s) =
     (if dec_digit c
      then (case n of 0 \<Rightarrow> fraction 0 acc s | Suc k \<Rightarrow> fraction k (10 * acc + int_of_digit c) s)
      else (acc * 10 ^ n, c # s))"

definition parse_fraction :: "string \<Rightarrow> (int \<times> string) option" where
  "parse_fraction s =
     (case s of
        c # d # t \<Rightarrow>
          if c = CHR ''.'' \<or> c = CHR '',''
          then (if dec_digit d then Some (fraction 6 0 (d # t)) else None)
          else Some (0, s)
      | [c] \<Rightarrow> if c = CHR ''.'' \<or> c = CHR '','' then None else Some (0, s)
      | [] \<Rightarrow> Some (0, s))"

text \<open>Hours with optional minutes, seconds and fraction, in microseconds.\<close>

definition parse_clock :: "string \<Rightarrow> (int \<times> string) option" where
  "parse_clock s =
     Option.bind (take_number 2 0 s) (\<lambda>(h, s1).
       if 23 < h then None
       else (case expect CHR '':'' s1 of
         None \<Rightarrow> Some (h * 3600000000, s1)
       | Some s2 \<Rightarrow> Option.bind (take_number 2 0 s2) (\<lambda>(mi, s3).
           if 59 < mi then None
           else (case expect CHR '':'' s3 of
             None \<Rightarrow> Some ((h * 60 + mi) * 60000000, s3)
           | Some s4 \<Rightarrow> Option.bind (take_number 2 0 s4) (\<lambda>(sec, s5).
               if 59 < sec then None
               else Option.bind (parse_fraction s5) (\<lambda>(us, s6).
                 Some (((h * 60 + mi) * 60 + sec) * 1000000 + us, s6)))))))"

definition parse_offset :: "string \<Rightarrow> int option option" where
  "parse_offset s =
     (if s = [] then Some None
      else if s = ''Z'' then Some (Some 0)
      else if hd s = CHR ''+'' \<or> hd s = CHR ''-'' then
        Option.bind (parse_clock (tl s)) (\<lambda>(us, r).
          if r = [] then Some (Some (if hd s = CHR ''-'' then - us else us)) else None)
      else None)"

text \<open>The local time and, for an aware value, its offset.\<close>

definition fromisoformat :: "string \<Rightarrow> (int \<times> int option) option" where
  "fromisoformat s =
     Option.bind (parse_date s) (\<lambda>(days, s1).
       if s1 = [] then Some (days * 86400000000, None)
       else Option.bind (parse_clock (concat (tl (uchars s1)))) (\<lambda>(us, s2).
         Option.bind (parse_offset s2) (\<lambda>off. Some (days * 86400000000 + us, off))))"

text \<open>The reading of an aware time stamp, as an instant that may lie off the calendar.\<close>

definition parse_aware :: "string \<Rightarrow> instant result" where
  "parse_aware value =
     (let normalized = (if endswith value ''Z'' then butlast value @ ''+00:00'' else value)
      in case fromisoformat normalized of
           None \<Rightarrow> raise ValueError ''Invalid isoformat string''
         | Some (t, None) \<Rightarrow> raise ValueError ''timestamp_must_be_timezone_aware''
         | Some (t, Some off) \<Rightarrow> Inr (t - off))"

text \<open>
  \<^verbatim>\<open>datetime.min\<close> and \<^verbatim>\<open>datetime.max\<close>. The conversion \<^verbatim>\<open>astimezone(timezone.utc)\<close> of a time stamp whose
  instant is outside them raises \<^verbatim>\<open>OverflowError\<close>, which is no \<^verbatim>\<open>ValueError\<close>.
\<close>

definition MIN_INSTANT :: instant where
  "MIN_INSTANT = -62135596800000000"

definition MAX_INSTANT :: instant where
  "MAX_INSTANT = 253402300799999999"

definition parse_time :: "string \<Rightarrow> instant result" where
  "parse_time value =
     bind_result (parse_aware value) (\<lambda>t.
       if MIN_INSTANT \<le> t \<and> t \<le> MAX_INSTANT then Inr t else raise OverflowError ''date value out of range'')"

text \<open>
  \<^verbatim>\<open>request_auth._valid_interval\<close>: a closed interval, false when a time stamp cannot be read. The end
  is read only when the start is not later than \<open>now\<close>.
\<close>

definition valid_interval :: "string \<Rightarrow> string \<Rightarrow> string \<Rightarrow> bool result" where
  "valid_interval valid_from valid_until now =
     except_tv False
       (bind_result (parse_time valid_from) (\<lambda>a.
        bind_result (parse_time now) (\<lambda>n.
          if a \<le> n then map_result (\<lambda>b. n \<le> b) (parse_time valid_until) else Inr False)))"

text \<open>\<^verbatim>\<open>request_auth._epoch_seconds\<close> and \<^verbatim>\<open>control_plane._timestamp\<close>.\<close>

definition epoch_seconds :: "string \<Rightarrow> instant result" where
  "epoch_seconds value = parse_time value"

lemma valid_interval_iff:
  "valid_interval vf vu now = Inr True \<longleftrightarrow>
     (\<exists>a n b. parse_time vf = Inr a \<and> parse_time now = Inr n \<and> parse_time vu = Inr b \<and> a \<le> n \<and> n \<le> b)"
  by (auto simp: valid_interval_def except_tv_Inr_iff result_simps split: if_splits)

lemma valid_interval_parses:
  assumes "valid_interval vf vu now = Inr True"
  obtains n b where "parse_time now = Inr n" "parse_time vu = Inr b" "n \<le> b"
  using assms by (auto simp: valid_interval_iff)

text \<open>
  A failed read of a time stamp is a \<^verbatim>\<open>ValueError\<close>, which every caller's handler catches, or the
  \<^verbatim>\<open>OverflowError\<close> of a time stamp off the calendar, which none catches.
\<close>

definition in_calendar :: "string \<Rightarrow> bool" where
  "in_calendar s = (case parse_time s of Inl e \<Rightarrow> fst e \<noteq> OverflowError | Inr _ \<Rightarrow> True)"

lemma parse_time_error: "parse_time s = Inl e \<Longrightarrow> fst e = ValueError \<or> fst e = OverflowError \<and> \<not> in_calendar s"
  by (auto simp: in_calendar_def parse_time_def parse_aware_def raise_def Let_def bind_result_Inl_iff
      split: option.splits if_splits)

lemma parse_time_in_calendar: "parse_time s = Inr t \<Longrightarrow> in_calendar s"
  by (simp add: in_calendar_def)

lemma valid_interval_error:
  assumes "valid_interval vf vu now = Inl e"
  shows "fst e = OverflowError \<and> \<not> (in_calendar vf \<and> in_calendar now \<and> in_calendar vu)"
  using assms
  by (auto simp: valid_interval_def except_tv_Inl_iff caught_tv_def is_value_error_def bind_result_Inl_iff
      map_result_Inl_iff split: if_splits dest!: parse_time_error)

end
