(* ===== verification/Models.thy ===== *)
theory Models
  imports Timestamps
begin

text \<open>
  \<^verbatim>\<open>pmiri/models.py\<close>: the typed data of a query and its result. Each dataclass is a record; the
  fields carry a short prefix because records share one name space. \<^verbatim>\<open>public_dict\<close>, \<^verbatim>\<open>structured\<close>,
  \<^verbatim>\<open>fingerprint\<close> and \<^verbatim>\<open>render\<close> are the methods of the same names.
\<close>

datatype coverage = Cov_COMPLETE | Cov_PARTIAL | Cov_UNKNOWN | Cov_NOT_APPLICABLE

datatype disposition =
    Disp_SUPPORTED | Disp_EMPTY | Disp_PARTIAL | Disp_DENIED | Disp_CONFLICT | Disp_DEGRADED
  | Disp_SCHEMA_REJECTED | Disp_TYPE_REJECTED | Disp_NO_MUTATION | Disp_ALLOWED_WITHIN_ENVELOPE

fun coverage_value :: "coverage \<Rightarrow> string" where
  "coverage_value Cov_COMPLETE = ''complete''"
| "coverage_value Cov_PARTIAL = ''partial''"
| "coverage_value Cov_UNKNOWN = ''unknown''"
| "coverage_value Cov_NOT_APPLICABLE = ''not_applicable''"

fun disposition_value :: "disposition \<Rightarrow> string" where
  "disposition_value Disp_SUPPORTED = ''SUPPORTED''"
| "disposition_value Disp_EMPTY = ''EMPTY''"
| "disposition_value Disp_PARTIAL = ''UNKNOWN_OR_PARTIAL''"
| "disposition_value Disp_DENIED = ''DENIED''"
| "disposition_value Disp_CONFLICT = ''CONFLICT_PRESERVED''"
| "disposition_value Disp_DEGRADED = ''DEGRADED''"
| "disposition_value Disp_SCHEMA_REJECTED = ''SCHEMA_REJECTED''"
| "disposition_value Disp_TYPE_REJECTED = ''TYPE_REJECTED''"
| "disposition_value Disp_NO_MUTATION = ''NO_MUTATION''"
| "disposition_value Disp_ALLOWED_WITHIN_ENVELOPE = ''ALLOWED_WITHIN_ENVELOPE''"

record query_request =
  q_request_id :: string
  q_project_constraint :: string
  q_query :: string
  q_purpose :: string
  q_max_results :: int

definition request_dict :: "query_request \<Rightarrow> dict" where
  "request_dict q =
     [(''request_id'', JStr (q_request_id q)),
      (''project_constraint'', JStr (q_project_constraint q)),
      (''query'', JStr (q_query q)),
      (''purpose'', JStr (q_purpose q)),
      (''max_results'', JInt (q_max_results q))]"

definition normalized :: "query_request \<Rightarrow> dict result" where
  "normalized q =
     (if q_request_id q = [] \<or> q_project_constraint q = [] \<or> strip (q_query q) = []
      then raise ValueError ''request_requires_id_project_and_query''
      else if q_max_results q < 1 \<or> q_max_results q > 1000
      then raise ValueError ''max_results_out_of_bounds''
      else Inr (request_dict q))"

record source_record =
  s_source_id :: string
  s_version_id :: string
  s_project_id :: string
  s_source_name :: string
  s_content_fingerprint :: string
  s_content :: string
  s_capture_time :: string
  s_metadata :: "(string \<times> string) list"

definition source_public_dict :: "source_record \<Rightarrow> dict" where
  "source_public_dict s =
     [(''source_id'', JStr (s_source_id s)),
      (''version_id'', JStr (s_version_id s)),
      (''project_id'', JStr (s_project_id s)),
      (''source_name'', JStr (s_source_name s)),
      (''content_fingerprint'', JStr (s_content_fingerprint s)),
      (''capture_time'', JStr (s_capture_time s)),
      (''metadata'', JObj (map (\<lambda>(k, v). (k, JStr v)) (sort_key fst (s_metadata s))))]"

record evidence_item =
  e_evidence_ref :: string
  e_source_id :: string
  e_version_id :: string
  e_project_id :: string
  e_anchor :: string
  e_text :: string
  e_fingerprint :: string
  e_score :: nat
  e_conflict_group :: "string option"

text \<open>A conflict group counts when it is present and not empty.\<close>

definition group_of :: "evidence_item \<Rightarrow> string option" where
  "group_of e = (case e_conflict_group e of Some g \<Rightarrow> if g = [] then None else Some g | None \<Rightarrow> None)"

definition item_public_dict :: "evidence_item \<Rightarrow> dict" where
  "item_public_dict e =
     [(''evidence_ref'', JStr (e_evidence_ref e)),
      (''source_id'', JStr (e_source_id e)),
      (''version_id'', JStr (e_version_id e)),
      (''project_id'', JStr (e_project_id e)),
      (''anchor'', JStr (e_anchor e)),
      (''fingerprint'', JStr (e_fingerprint e)),
      (''score'', JInt (int (e_score e)))]
     @ (case group_of e of Some g \<Rightarrow> [(''conflict_group'', JStr g)] | None \<Rightarrow> [])"

record evidence_set =
  es_request :: query_request
  es_items :: "evidence_item list"
  es_coverage :: coverage
  es_authorization_lineage :: string
  es_conflict_groups :: "string list"

definition set_disposition :: "evidence_set \<Rightarrow> disposition" where
  "set_disposition es =
     (if es_items es = [] then Disp_EMPTY
      else if es_conflict_groups es \<noteq> [] then Disp_CONFLICT
      else if es_coverage es = Cov_PARTIAL \<or> es_coverage es = Cov_UNKNOWN then Disp_PARTIAL
      else Disp_SUPPORTED)"

definition set_fingerprint :: "evidence_set \<Rightarrow> string result" where
  "set_fingerprint es =
     map_result (\<lambda>n. sha256_json (JObj
       [(''request'', JObj n),
        (''items'', JList (map (\<lambda>e. JObj (item_public_dict e)) (es_items es))),
        (''coverage'', JStr (coverage_value (es_coverage es))),
        (''authorization_lineage'', JStr (es_authorization_lineage es))]))
       (normalized (es_request es))"

record omission =
  om_reason :: string
  om_reference :: string

record context_artifact =
  c_artifact_kind :: string
  c_bound :: nat
  c_text :: string
  c_coverage :: coverage
  c_disposition :: disposition
  c_evidence_refs :: "string list"
  c_citation_refs :: "string list"
  c_authorization_lineage :: string
  c_omission_ledger :: "omission list"

definition jstrs :: "string list \<Rightarrow> json" where
  "jstrs xs = JList (map JStr xs)"

definition omission_dict :: "omission \<Rightarrow> json" where
  "omission_dict om = JObj [(''reason'', JStr (om_reason om)), (''reference'', JStr (om_reference om))]"

definition context_public_dict :: "context_artifact \<Rightarrow> dict" where
  "context_public_dict c =
     [(''artifact_kind'', JStr (c_artifact_kind c)),
      (''bound'', JInt (int (c_bound c))),
      (''text'', JStr (c_text c)),
      (''coverage'', JStr (coverage_value (c_coverage c))),
      (''disposition'', JStr (disposition_value (c_disposition c))),
      (''evidence_refs'', jstrs (c_evidence_refs c)),
      (''citation_refs'', jstrs (c_citation_refs c)),
      (''authorization_lineage'', JStr (c_authorization_lineage c)),
      (''omission_ledger'', JList (map omission_dict (c_omission_ledger c)))]"

definition context_fingerprint :: "context_artifact \<Rightarrow> string" where
  "context_fingerprint c = sha256_json (JObj (context_public_dict c))"

record query_result =
  r_request :: query_request
  r_disposition :: disposition
  r_coverage :: coverage
  r_evidence :: "evidence_item list"
  r_authorization_lineage :: string
  r_context :: context_artifact

definition structured :: "query_result \<Rightarrow> dict result" where
  "structured r =
     map_result (\<lambda>n.
       [(''request'', JObj n),
        (''result'', JObj
           [(''disposition'', JStr (disposition_value (r_disposition r))),
            (''coverage'', JStr (coverage_value (r_coverage r)))]),
        (''evidence'', JList (map (\<lambda>e. JObj (item_public_dict e)) (r_evidence r))),
        (''lineage'', JObj
           [(''authorization_ref'', JStr (r_authorization_lineage r)),
            (''evidence_refs'', jstrs (map e_evidence_ref (r_evidence r)))]),
        (''context'', JObj (context_public_dict (r_context r)
           @ [(''fingerprint'', JStr (context_fingerprint (r_context r)))]))])
       (normalized (r_request r))"

definition render :: "query_result \<Rightarrow> string" where
  "render r =
     join [CHR 0x0A]
       ([''Disposition: '' @ disposition_value (r_disposition r),
         ''Coverage: '' @ coverage_value (r_coverage r),
         ''Project: '' @ q_project_constraint (r_request r)]
        @ (if c_text (r_context r) = [] then [] else [[], c_text (r_context r)])
        @ (if c_citation_refs (r_context r) = [] then []
           else [[], ''Citations: '' @ join '', '' (c_citation_refs (r_context r))]))"

section \<open>Facts\<close>

lemma normalized_Inr_iff:
  "normalized q = Inr n \<longleftrightarrow>
     q_request_id q \<noteq> [] \<and> q_project_constraint q \<noteq> [] \<and> strip (q_query q) \<noteq> []
     \<and> 1 \<le> q_max_results q \<and> q_max_results q \<le> 1000 \<and> n = request_dict q"
  by (auto simp: normalized_def)

lemma normalized_error: "normalized q = Inl e \<Longrightarrow> fst e = ValueError"
  by (auto simp: normalized_def raise_def split: if_splits)

lemma request_dict_inj: "request_dict p = request_dict q \<longleftrightarrow> p = q"
  by (auto simp: request_dict_def)

text \<open>Reordering keys keeps what each key is bound to.\<close>

lemma sort_keys_members_map: "sort_keys_members kvs = map (\<lambda>(k, v). (k, sort_keys v)) kvs"
  by (induction kvs rule: list.induct) auto

lemma sort_keys_items_map: "sort_keys_items xs = map sort_keys xs"
  by (induction xs) auto

lemma map_of_sort_key_fst: "distinct (map fst kvs) \<Longrightarrow> map_of (sort_key fst kvs) = map_of kvs"
  by (rule map_of_inject_set [THEN iffD2]) auto

lemma sort_keys_JObj_eq:
  assumes "sort_keys (JObj a) = sort_keys (JObj b)" "distinct (map fst a)" "distinct (map fst b)"
  shows "map_option sort_keys (map_of a k) = map_option sort_keys (map_of b k)"
proof -
  have m: "map_of (map (\<lambda>(k, v). (k, sort_keys v)) c) k = map_option sort_keys (map_of c k)" for c
    by (induction c) auto
  have d: "distinct (map fst (sort_keys_members c))" if "distinct (map fst c)" for c
    using that by (simp add: sort_keys_members_map comp_def case_prod_unfold)
  from assms(1) have "map_of (sort_key fst (sort_keys_members a)) k = map_of (sort_key fst (sort_keys_members b)) k"
    by simp
  then show ?thesis using d assms(2,3) by (simp add: map_of_sort_key_fst sort_keys_members_map m)
qed

end
