(* ===== verification/Retrieval.thy ===== *)
theory Retrieval
  imports Models "HOL-Library.Product_Lexorder" "HOL-Library.Multiset"
begin

text \<open>
  \<^verbatim>\<open>pmiri/retrieval.py\<close>: tokens, the front matter, matching lines and the ranked, truncated evidence
  set of a query. The two tables of the Unicode Character Database that Python's regular
  expressions and \<^verbatim>\<open>casefold\<close> consult for characters beyond ASCII are the argument \<open>u\<close>; ASCII is
  written out. What the store returns is an argument as well, so that the theory serves both stores.
\<close>

section \<open>Tokens\<close>

record unicode_tables =
  ut_word :: "string \<Rightarrow> bool"
  ut_casefold :: "string \<Rightarrow> string"

definition ascii_word :: "char \<Rightarrow> bool" where
  "ascii_word c =
     ((CHR ''a'' \<le> c \<and> c \<le> CHR ''z'') \<or> (CHR ''A'' \<le> c \<and> c \<le> CHR ''Z'') \<or> (CHR ''0'' \<le> c \<and> c \<le> CHR ''9'')
      \<or> c = CHR ''_'')"

definition ascii_lower :: "char \<Rightarrow> char" where
  "ascii_lower c = (if CHR ''A'' \<le> c \<and> c \<le> CHR ''Z'' then char_of ((of_char c :: nat) + 32) else c)"

text \<open>One character of the class \<^verbatim>\<open>[\w'-]\<close>, and its case folding.\<close>

definition token_char :: "unicode_tables \<Rightarrow> string \<Rightarrow> bool" where
  "token_char u ch =
     (case ch of
        [c] \<Rightarrow> if (of_char c :: nat) < 128 then ascii_word c \<or> c = CHR 0x27 \<or> c = CHR ''-'' else ut_word u ch
      | _ \<Rightarrow> ut_word u ch)"

definition casefold_char :: "unicode_tables \<Rightarrow> string \<Rightarrow> string" where
  "casefold_char u ch =
     (case ch of
        [c] \<Rightarrow> if (of_char c :: nat) < 128 then [ascii_lower c] else ut_casefold u ch
      | _ \<Rightarrow> ut_casefold u ch)"

lemma dropWhile_twice_shorter:
  assumes "dropWhile (\<lambda>x. \<not> P x) xs \<noteq> []"
  shows "length (dropWhile P (dropWhile (\<lambda>x. \<not> P x) xs)) < length xs"
proof -
  obtain y ys where ys: "dropWhile (\<lambda>x. \<not> P x) xs = y # ys" using assms by (cases "dropWhile (\<lambda>x. \<not> P x) xs") auto
  with hd_dropWhile [OF assms] have "P y" by simp
  have "length (y # ys) \<le> length xs" using length_dropWhile_le [of "\<lambda>x. \<not> P x" xs] ys by simp
  moreover have "length (dropWhile P ys) \<le> length ys" by (rule length_dropWhile_le)
  ultimately show ?thesis using ys \<open>P y\<close> by simp
qed

text \<open>The media type of a header, \<^verbatim>\<open>raw.split(';', 1)[0].strip().casefold()\<close>.\<close>

definition media_type :: "unicode_tables \<Rightarrow> string option \<Rightarrow> string" where
  "media_type u raw =
     (let s = (case raw of None \<Rightarrow> [] | Some s \<Rightarrow> s)
      in concat (map (casefold_char u) (uchars (strip (hd (split_on CHR '';'' s))))))"

text \<open>The maximal non-empty runs of elements with a property, left to right (\<^verbatim>\<open>findall\<close> of \<^verbatim>\<open>[...]+\<close>).\<close>

function runs :: "('a \<Rightarrow> bool) \<Rightarrow> 'a list \<Rightarrow> 'a list list" where
  "runs P xs =
     (let ys = dropWhile (\<lambda>x. \<not> P x) xs
      in if ys = [] then [] else takeWhile P ys # runs P (dropWhile P ys))"
  by pat_completeness auto
termination
  by (relation "measure (\<lambda>(P, xs). length xs)") (simp_all add: dropWhile_twice_shorter)

declare runs.simps [simp del]

definition tokens :: "unicode_tables \<Rightarrow> string \<Rightarrow> string list" where
  "tokens u s = map (\<lambda>r. concat (map (casefold_char u) r)) (runs (token_char u) (uchars s))"

section \<open>Front matter and matching lines\<close>

text \<open>\<^verbatim>\<open>s.strip(chars)\<close> for ASCII characters.\<close>

definition strip_chars :: "char set \<Rightarrow> string \<Rightarrow> string" where
  "strip_chars cs s = rev (dropWhile (\<lambda>c. c \<in> cs) (rev (dropWhile (\<lambda>c. c \<in> cs) s)))"

text \<open>\<^verbatim>\<open>line.split(":", 1)\<close> of a line with a colon.\<close>

definition split_first :: "char \<Rightarrow> string \<Rightarrow> string \<times> string" where
  "split_first c s = (takeWhile (\<lambda>x. x \<noteq> c) s, tl (dropWhile (\<lambda>x. x \<noteq> c) s))"

fun frontmatter_lines :: "string list \<Rightarrow> (string \<times> string) list \<Rightarrow> (string \<times> string) list" where
  "frontmatter_lines [] result = result"
| "frontmatter_lines (line # lines) result =
     (if strip line = ''---'' then result
      else if CHR '':'' \<in> set line
      then (case split_first CHR '':'' line of (key, val) \<Rightarrow>
              if strip key \<noteq> [] \<and> strip val \<noteq> []
              then frontmatter_lines lines
                     (dict_put (strip key) (strip_chars {CHR 0x22, CHR 0x27} (strip val)) result)
              else frontmatter_lines lines result)
      else frontmatter_lines lines result)"

definition frontmatter :: "string \<Rightarrow> (string \<times> string) list" where
  "frontmatter content =
     (case split_on CHR 0x0A content of
        [] \<Rightarrow> []
      | line # lines \<Rightarrow> if strip line \<noteq> ''---'' then [] else frontmatter_lines lines [])"

record retrieved_span =
  sp_start_line :: nat
  sp_end_line :: nat
  sp_text :: string
  sp_score :: nat

definition overlap :: "unicode_tables \<Rightarrow> string list \<Rightarrow> string \<Rightarrow> nat" where
  "overlap u query_tokens line = length (filter (\<lambda>t. t \<in> set (tokens u line)) (remdups query_tokens))"

definition matching_spans :: "unicode_tables \<Rightarrow> string \<Rightarrow> string list \<Rightarrow> retrieved_span list" where
  "matching_spans u content query_tokens =
     concat (map (\<lambda>(number, line).
       let score = overlap u query_tokens line
       in if score \<noteq> 0
          then [\<lparr>sp_start_line = number, sp_end_line = number, sp_text = strip line, sp_score = score\<rparr>]
          else [])
       (enumerate 1 (splitlines content)))"

section \<open>Retriever.search\<close>

definition anchor_hash :: "source_record \<Rightarrow> retrieved_span \<Rightarrow> string" where
  "anchor_hash s sp = sha256_json (JObj
     [(''version_id'', JStr (s_version_id s)), (''start_line'', JInt (int (sp_start_line sp))),
      (''end_line'', JInt (int (sp_end_line sp))), (''text'', JStr (sp_text sp))])"

definition item_payload :: "source_record \<Rightarrow> retrieved_span \<Rightarrow> json" where
  "item_payload s sp = JObj
     [(''source_id'', JStr (s_source_id s)), (''version_id'', JStr (s_version_id s)),
      (''anchor'', JStr (anchor_hash s sp)), (''text'', JStr (sp_text sp))]"

definition evidence_of :: "source_record \<Rightarrow> retrieved_span \<Rightarrow> evidence_item" where
  "evidence_of s sp =
     \<lparr>e_evidence_ref = ''ev_'' @ take 32 (sha256_json (item_payload s sp)),
      e_source_id = s_source_id s, e_version_id = s_version_id s, e_project_id = s_project_id s,
      e_anchor = ''anchor_'' @ anchor_hash s sp, e_text = sp_text sp,
      e_fingerprint = sha256_json (item_payload s sp), e_score = sp_score sp,
      e_conflict_group = map_of (frontmatter (s_content s)) ''conflict_group''\<rparr>"

definition rank_key :: "evidence_item \<Rightarrow> int \<times> string \<times> string \<times> string" where
  "rank_key e = (- int (e_score e), e_source_id e, e_version_id e, e_anchor e)"

definition scored :: "unicode_tables \<Rightarrow> source_record list \<Rightarrow> string list \<Rightarrow> evidence_item list" where
  "scored u sources query_tokens =
     concat (map (\<lambda>s. map (evidence_of s) (matching_spans u (s_content s) query_tokens)) sources)"

definition lineage_of :: "query_request \<Rightarrow> string" where
  "lineage_of q = ''auth_'' @ take 32 (sha256_json (JObj
     [(''project'', JStr (q_project_constraint q)), (''purpose'', JStr (q_purpose q)),
      (''request_id'', JStr (q_request_id q))]))"

definition evidence_for :: "unicode_tables \<Rightarrow> source_record list \<Rightarrow> query_request \<Rightarrow> evidence_set" where
  "evidence_for u sources q =
     (let items = take (nat (q_max_results q)) (sort_key rank_key (scored u sources (tokens u (q_query q))))
      in \<lparr>es_request = q, es_items = items,
          es_coverage = (if sources \<noteq> [] then Cov_COMPLETE else Cov_UNKNOWN),
          es_authorization_lineage = lineage_of q,
          es_conflict_groups = sorted_set (List.map_filter group_of items)\<rparr>)"

definition search :: "unicode_tables \<Rightarrow> (string \<Rightarrow> source_record list result) \<Rightarrow> query_request \<Rightarrow> evidence_set result" where
  "search u list_sources q =
     bind_result (normalized q) (\<lambda>_.
       if tokens u (q_query q) = [] then raise ValueError ''query_has_no_search_tokens''
       else map_result (\<lambda>sources. evidence_for u sources q) (list_sources (q_project_constraint q)))"

section \<open>Tokens are what the expression finds\<close>

lemma runs_nonempty: "r \<in> set (runs P xs) \<Longrightarrow> r \<noteq> [] \<and> (\<forall>x \<in> set r. P x)"
proof (induction P xs arbitrary: r rule: runs.induct)
  case (1 P xs)
  let ?ys = "dropWhile (\<lambda>x. \<not> P x) xs"
  from 1(2) have ne: "?ys \<noteq> []" by (auto simp: runs.simps [of P xs] Let_def split: if_splits)
  with 1(2) have "r = takeWhile P ?ys \<or> r \<in> set (runs P (dropWhile P ?ys))"
    by (auto simp: runs.simps [of P xs] Let_def split: if_splits)
  then show ?case
  proof
    assume r: "r = takeWhile P ?ys"
    obtain y ys where ys: "?ys = y # ys" using ne by (cases ?ys) auto
    with hd_dropWhile [OF ne] have "P y" by simp
    then have "takeWhile P ?ys \<noteq> []" by (simp add: ys)
    with r show ?thesis by (metis set_takeWhileD)
  next
    assume "r \<in> set (runs P (dropWhile P ?ys))"
    then show ?thesis by (rule 1(1) [OF refl ne])
  qed
qed

lemma concat_runs: "concat (runs P xs) = filter P xs"
proof (induction P xs rule: runs.induct)
  case (1 P xs)
  let ?ys = "dropWhile (\<lambda>x. \<not> P x) xs"
  have f: "filter P xs = filter P ?ys" by (induction xs) auto
  have t: "filter P ?ys = takeWhile P ?ys @ filter P (dropWhile P ?ys)"
    by (metis filter_append filter_True set_takeWhileD takeWhile_dropWhile_id)
  show ?case
  proof (cases "?ys = []")
    case True
    then show ?thesis using f by (simp add: runs.simps [of P xs] Let_def)
  next
    case False
    with 1 f t show ?thesis by (auto simp: runs.simps [of P xs] Let_def)
  qed
qed

section \<open>What the search returns\<close>

lemma overlap_pos: "overlap u qs line \<noteq> 0 \<longleftrightarrow> (\<exists>t \<in> set qs. t \<in> set (tokens u line))"
  by (auto simp: overlap_def filter_empty_conv)

lemma matching_spans_iff:
  "sp \<in> set (matching_spans u content qs) \<longleftrightarrow>
     (\<exists>i < length (splitlines content).
        sp = \<lparr>sp_start_line = Suc i, sp_end_line = Suc i, sp_text = strip (splitlines content ! i),
              sp_score = overlap u qs (splitlines content ! i)\<rparr>
        \<and> overlap u qs (splitlines content ! i) \<noteq> 0)" (is "?l \<longleftrightarrow> ?r")
proof
  assume ?l
  then obtain n line where n: "(n, line) \<in> set (enumerate 1 (splitlines content))" "overlap u qs line \<noteq> 0"
    "sp = \<lparr>sp_start_line = n, sp_end_line = n, sp_text = strip line, sp_score = overlap u qs line\<rparr>"
    by (auto simp: matching_spans_def Let_def split: if_splits)
  from n(1) obtain i where "n = Suc i" "i < length (splitlines content)" "line = splitlines content ! i"
    by (cases n) (auto simp: in_set_enumerate_eq)
  with n show ?r by auto
next
  assume ?r
  then obtain i where i: "i < length (splitlines content)" "overlap u qs (splitlines content ! i) \<noteq> 0"
    "sp = \<lparr>sp_start_line = Suc i, sp_end_line = Suc i, sp_text = strip (splitlines content ! i),
           sp_score = overlap u qs (splitlines content ! i)\<rparr>"
    by blast
  then have "(Suc i, splitlines content ! i) \<in> set (enumerate 1 (splitlines content))"
    by (simp add: in_set_enumerate_eq)
  with i show ?l
    unfolding matching_spans_def by (auto simp: Let_def intro!: bexI [of _ "(Suc i, splitlines content ! i)"])
qed

lemma scored_iff:
  "e \<in> set (scored u sources qs) \<longleftrightarrow>
     (\<exists>s \<in> set sources. \<exists>sp \<in> set (matching_spans u (s_content s) qs). e = evidence_of s sp)"
  by (auto simp: scored_def)

lemma search_Inr_iff:
  "search u ls q = Inr es \<longleftrightarrow>
     normalized q = Inr (request_dict q) \<and> tokens u (q_query q) \<noteq> []
     \<and> (\<exists>sources. ls (q_project_constraint q) = Inr sources \<and> es = evidence_for u sources q)"
  by (auto simp: search_def result_simps normalized_Inr_iff split: if_splits)

lemma sorted_take_drop:
  "sorted (map f xs) \<Longrightarrow> a \<in> set (take n xs) \<Longrightarrow> b \<in> set (drop n xs) \<Longrightarrow> f a \<le> f b"
proof (induction xs arbitrary: n)
  case (Cons x xs)
  then show ?case by (cases n) (auto dest: in_set_dropD in_set_takeD)
qed simp

lemma overlap_card: "overlap u qs line = card (set qs \<inter> set (tokens u line))"
proof -
  have "overlap u qs line = card (set (filter (\<lambda>t. t \<in> set (tokens u line)) (remdups qs)))"
    unfolding overlap_def by (rule distinct_card [symmetric]) simp
  then show ?thesis by (simp add: Int_def)
qed

text \<open>Every scored item is the evidence of one matching line of one source.\<close>

lemma scored_line:
  assumes "e \<in> set (scored u sources qs)"
  obtains s i where "s \<in> set sources" "i < length (splitlines (s_content s))" "overlap u qs (splitlines (s_content s) ! i) \<noteq> 0"
    "e = evidence_of s \<lparr>sp_start_line = Suc i, sp_end_line = Suc i, sp_text = strip (splitlines (s_content s) ! i),
          sp_score = overlap u qs (splitlines (s_content s) ! i)\<rparr>"
proof -
  from assms obtain s sp where "s \<in> set sources" "sp \<in> set (matching_spans u (s_content s) qs)" "e = evidence_of s sp"
    unfolding scored_iff by blast
  with that show thesis by (auto simp: matching_spans_iff)
qed

lemma search_items:
  assumes "search u ls q = Inr es" "ls (q_project_constraint q) = Inr sources"
  shows "es_items es = take (nat (q_max_results q)) (sort_key rank_key (scored u sources (tokens u (q_query q))))"
    and "1 \<le> q_max_results q"
  using assms by (auto simp: search_Inr_iff evidence_for_def Let_def normalized_Inr_iff)

text \<open>Every conflict group of the set is the group of one of its items, and conversely.\<close>

lemma evidence_for_groups:
  "set (es_conflict_groups (evidence_for u sources q)) = {g. \<exists>e \<in> set (es_items (evidence_for u sources q)). group_of e = Some g}"
  by (force simp: evidence_for_def Let_def List.map_filter_def)

section \<open>A sample source\<close>

definition ascii_tables :: unicode_tables where
  "ascii_tables = \<lparr>ut_word = (\<lambda>_. False), ut_casefold = (\<lambda>ch. ch)\<rparr>"

definition sample_content :: string where
  "sample_content = ''ab'' @ [CHR 0x0A] @ ''AB c''"

definition sample_source :: source_record where
  "sample_source = \<lparr>s_source_id = ''src_1'', s_version_id = ''ver_1'', s_project_id = ''project-a'', s_source_name = ''a.md'',
     s_content_fingerprint = ''f'', s_content = sample_content, s_capture_time = ''t'', s_metadata = []\<rparr>"

definition sample_query :: query_request where
  "sample_query = \<lparr>q_request_id = ''r1'', q_project_constraint = ''project-a'', q_query = ''ab c'',
     q_purpose = ''local_read'', q_max_results = 1\<rparr>"

lemma sample_query_tokens: "tokens ascii_tables (q_query sample_query) = [''ab'', ''c'']"
  by code_simp

lemma sample_spans:
  "matching_spans ascii_tables sample_content [''ab'', ''c''] =
     [\<lparr>sp_start_line = 1, sp_end_line = 1, sp_text = ''ab'', sp_score = 1\<rparr>,
      \<lparr>sp_start_line = 2, sp_end_line = 2, sp_text = ''AB c'', sp_score = 2\<rparr>]"
  by code_simp

lemma sample_normalized_query: "normalized sample_query = Inr (request_dict sample_query)"
  by code_simp

definition sample_listing :: "string \<Rightarrow> source_record list result" where
  "sample_listing p = Inr [sample_source]"

lemma sample_search:
  "search ascii_tables sample_listing sample_query = Inr (evidence_for ascii_tables [sample_source] sample_query)"
  by (simp add: search_Inr_iff sample_normalized_query sample_query_tokens sample_listing_def)

lemma sample_lines: "splitlines sample_content = [''ab'', ''AB c'']"
  by code_simp

lemma sample_items:
  "es_items (evidence_for ascii_tables [sample_source] sample_query) =
     [evidence_of sample_source \<lparr>sp_start_line = 2, sp_end_line = 2, sp_text = ''AB c'', sp_score = 2\<rparr>]"
  using sample_spans sample_query_tokens
  by (simp add: evidence_for_def Let_def scored_def sample_source_def sample_query_def rank_key_def evidence_of_def)

text \<open>
  C33. Retrieval is grounded: each item a search returns quotes, trimmed, one line of a listed
  source, under that source's identity, version, project and conflict group; its score is the number of
  query tokens on the line, never zero; its anchor is the hash of the version, the number of that line and the text, its
  fingerprint the hash of source, version, anchor and text, and its reference the start of that fingerprint; and
  there are at most \<^verbatim>\<open>max_results\<close> items, in rank order.
\<close>

theorem search_grounded:
  assumes "search u ls q = Inr es"
  shows "int (length (es_items es)) \<le> q_max_results q \<and> sorted (map rank_key (es_items es))
    \<and> (\<exists>sources. ls (q_project_constraint q) = Inr sources \<and>
        (\<forall>e \<in> set (es_items es). \<exists>s \<in> set sources. \<exists>i < length (splitlines (s_content s)). \<exists>anchor.
           e_source_id e = s_source_id s \<and> e_version_id e = s_version_id s \<and> e_project_id e = s_project_id s
           \<and> e_text e = strip (splitlines (s_content s) ! i)
           \<and> e_score e = card (set (tokens u (q_query q)) \<inter> set (tokens u (splitlines (s_content s) ! i)))
           \<and> 0 < e_score e
           \<and> anchor = sha256_json (JObj
               [(''version_id'', JStr (s_version_id s)), (''start_line'', JInt (int (Suc i))),
                (''end_line'', JInt (int (Suc i))), (''text'', JStr (strip (splitlines (s_content s) ! i)))])
           \<and> e_anchor e = ''anchor_'' @ anchor
           \<and> e_fingerprint e = sha256_json (JObj
               [(''source_id'', JStr (s_source_id s)), (''version_id'', JStr (s_version_id s)),
                (''anchor'', JStr anchor), (''text'', JStr (strip (splitlines (s_content s) ! i)))])
           \<and> e_evidence_ref e = ''ev_'' @ take 32 (e_fingerprint e)
           \<and> e_conflict_group e = map_of (frontmatter (s_content s)) ''conflict_group''))"
  (is "_ \<and> _ \<and> (\<exists>sources. _ \<and> (\<forall>e \<in> _. \<exists>s \<in> _. \<exists>i < _. \<exists>anchor. ?grounded e s i anchor))")
proof -
  from assms obtain sources where ls: "ls (q_project_constraint q) = Inr sources" by (auto simp: search_Inr_iff)
  note items = search_items [OF assms ls]
  have "int (length (es_items es)) \<le> q_max_results q" "sorted (map rank_key (es_items es))"
    using items(2) by (simp_all add: items(1) take_map [symmetric] sorted_wrt_take)
  moreover have "\<exists>s \<in> set sources. \<exists>i < length (splitlines (s_content s)). \<exists>anchor. ?grounded e s i anchor"
    if "e \<in> set (es_items es)" for e
  proof -
    from that have "e \<in> set (scored u sources (tokens u (q_query q)))"
      unfolding items(1) by (metis in_set_takeD set_sort)
    then show ?thesis
      by (rule scored_line, intro bexI exI conjI; (assumption | rule refl)?)
        (simp_all add: evidence_of_def item_payload_def anchor_hash_def overlap_card card_gt_0_iff)
  qed
  ultimately show ?thesis using ls by blast
qed

theorem search_grounded_witness:
  "\<exists>e. es_items (evidence_for ascii_tables [sample_source] sample_query) = [e] \<and> e_text e = ''AB c'' \<and> e_score e = 2
     \<and> e_anchor e = ''anchor_'' @ sha256_json (JObj
         [(''version_id'', JStr ''ver_1''), (''start_line'', JInt 2), (''end_line'', JInt 2), (''text'', JStr ''AB c'')])
     \<and> e_evidence_ref e = ''ev_'' @ take 32 (e_fingerprint e)"
proof -
  let ?e = "evidence_of sample_source \<lparr>sp_start_line = 2, sp_end_line = 2, sp_text = ''AB c'', sp_score = 2\<rparr>"
  have t: "e_text ?e = ''AB c''" "e_score ?e = 2" by (simp_all add: evidence_of_def)
  from search_grounded [OF sample_search] obtain i where
    i: "i < length (splitlines (s_content sample_source))" "e_text ?e = strip (splitlines (s_content sample_source) ! i)"
    "e_anchor ?e = ''anchor_'' @ sha256_json (JObj
         [(''version_id'', JStr (s_version_id sample_source)), (''start_line'', JInt (int (Suc i))), (''end_line'', JInt (int (Suc i))),
          (''text'', JStr (strip (splitlines (s_content sample_source) ! i)))])"
    "e_evidence_ref ?e = ''ev_'' @ take 32 (e_fingerprint ?e)"
    unfolding sample_items by (auto simp: sample_listing_def)
  have "strip ''ab'' \<noteq> ''AB c''" by code_simp
  with i(1,2) t(1) have "i = 1" by (auto simp: sample_source_def sample_lines less_Suc_eq)
  have s: "splitlines (s_content sample_source) ! 1 = ''AB c''" "strip ''AB c'' = ''AB c''" "s_version_id sample_source = ''ver_1''"
    by (simp_all add: sample_source_def sample_lines) code_simp
  show ?thesis unfolding sample_items
    using t i(3,4) unfolding \<open>i = 1\<close> s by (intro exI [of _ ?e] conjI) simp_all
qed

text \<open>
  C34. Truncation keeps the best: the items are in rank order, and together with the omitted ones they are all
  the scored lines of the listed sources, each as often as it was found; an omitted item ranks no better than any item
  returned, and something is left out only when the result is full.
\<close>

theorem search_keeps_best:
  assumes "search u ls q = Inr es" "ls (q_project_constraint q) = Inr sources"
  shows "sorted (map rank_key (es_items es))
    \<and> (\<exists>omitted. mset (es_items es @ omitted) = mset (scored u sources (tokens u (q_query q)))
        \<and> (omitted \<noteq> [] \<longrightarrow> int (length (es_items es)) = q_max_results q)
        \<and> (\<forall>e \<in> set (es_items es). \<forall>e' \<in> set omitted. rank_key e \<le> rank_key e'))"
proof -
  define all where "all = sort_key rank_key (scored u sources (tokens u (q_query q)))"
  define n where "n = nat (q_max_results q)"
  note items = search_items [OF assms, folded all_def n_def]
  have s: "sorted (map rank_key all)" by (simp add: all_def)
  then have "sorted (map rank_key (es_items es))" by (simp add: items(1) take_map [symmetric] sorted_wrt_take)
  moreover have "mset (es_items es @ drop n all) = mset (scored u sources (tokens u (q_query q)))"
    by (simp only: items(1) append_take_drop_id) (simp add: all_def)
  moreover have "drop n all \<noteq> [] \<longrightarrow> int (length (es_items es)) = q_max_results q"
    using items(2) by (auto simp: items(1) n_def)
  moreover have "\<forall>e \<in> set (es_items es). \<forall>e' \<in> set (drop n all). rank_key e \<le> rank_key e'"
    using sorted_take_drop [OF s] by (auto simp: items(1))
  ultimately show ?thesis by blast
qed

theorem search_keeps_best_witness:
  "length (es_items (evidence_for ascii_tables [sample_source] sample_query)) = 1
    \<and> rank_key (evidence_of sample_source \<lparr>sp_start_line = 2, sp_end_line = 2, sp_text = ''AB c'', sp_score = 2\<rparr>)
     \<le> rank_key (evidence_of sample_source \<lparr>sp_start_line = 1, sp_end_line = 1, sp_text = ''ab'', sp_score = 1\<rparr>)"
proof -
  let ?one = "\<lparr>sp_start_line = 1, sp_end_line = 1, sp_text = ''ab'', sp_score = 1\<rparr>"
  let ?two = "\<lparr>sp_start_line = 2, sp_end_line = 2, sp_text = ''AB c'', sp_score = 2\<rparr>"
  have all: "scored ascii_tables [sample_source] (tokens ascii_tables (q_query sample_query)) =
      [evidence_of sample_source ?one, evidence_of sample_source ?two]"
    using sample_spans by (simp add: scored_def sample_query_tokens sample_source_def)
  from search_keeps_best [OF sample_search, of "[sample_source]"] obtain omitted where
    "mset ([evidence_of sample_source ?two] @ omitted) = mset [evidence_of sample_source ?one, evidence_of sample_source ?two]"
    "\<forall>e \<in> set [evidence_of sample_source ?two]. \<forall>e' \<in> set omitted. rank_key e \<le> rank_key e'"
    unfolding all sample_items by (auto simp: sample_listing_def)
  moreover from this(1) have "mset omitted = mset [evidence_of sample_source ?one]" by simp
  then have "set omitted = {evidence_of sample_source ?one}" by (metis list.set(1) list.set(2) mset_eq_setD)
  ultimately show ?thesis by (simp add: sample_items)
qed

end
