(* ===== verification/Evidence_Runtime.thy ===== *)
theory Evidence_Runtime
  imports Retrieval
begin

text \<open>
  \<^verbatim>\<open>pmiri/context.py\<close>, \<^verbatim>\<open>runtime.py\<close>, \<^verbatim>\<open>egress.py\<close>, \<^verbatim>\<open>disclosure.py\<close> and \<^verbatim>\<open>cache.py\<close>: the bounded context of
  an evidence set, the query facade, the provider-neutral envelope with its emission fence, the
  leak-safe projection and the epoch-bound decision cache.
\<close>

section \<open>ContextCompiler\<close>

definition compiler_init :: "int \<Rightarrow> nat result" where
  "compiler_init max_chars = (if max_chars < 128 then raise ValueError ''context_bound_too_small'' else Inr (nat max_chars))"

definition entry_line :: "evidence_item \<Rightarrow> string" where
  "entry_line e = ''['' @ e_evidence_ref e @ '' | '' @ e_anchor e @ ''] '' @ e_text e"

definition block_of :: "evidence_item list \<Rightarrow> string" where
  "block_of es = join [CHR 0x0A] (map entry_line es)"

record compile_state =
  cs_selected :: "evidence_item list"
  cs_used :: nat
  cs_omitted :: "omission list"
  cs_handled :: "string list"

definition group_items :: "evidence_set \<Rightarrow> evidence_item \<Rightarrow> evidence_item list" where
  "group_items es e =
     (case group_of e of
        None \<Rightarrow> [e]
      | Some g \<Rightarrow>
          if g \<in> set (es_conflict_groups es)
          then filter (\<lambda>e'. e_conflict_group e' = Some g) (es_items es)
          else [e])"

definition compile_step :: "nat \<Rightarrow> evidence_set \<Rightarrow> evidence_item \<Rightarrow> compile_state \<Rightarrow> compile_state" where
  "compile_step max_chars es e st =
     (if (case group_of e of Some g \<Rightarrow> g \<in> set (cs_handled st) | None \<Rightarrow> False) then st
      else
        let items = group_items es e;
            size = py_len (block_of items);
            st1 = (if cs_used st + size + (if cs_selected st \<noteq> [] then 1 else 0) \<le> max_chars
                   then st\<lparr>cs_selected := cs_selected st @ items,
                           cs_used := cs_used st + size + (if cs_selected st @ items \<noteq> [] then 1 else 0)\<rparr>
                   else st\<lparr>cs_omitted := cs_omitted st @
                     [case group_of e of
                        Some g \<Rightarrow> \<lparr>om_reason = ''CONFLICT_GROUP_EXCEEDS_CONTEXT_BOUND'', om_reference = g\<rparr>
                      | None \<Rightarrow> \<lparr>om_reason = ''CONTEXT_BOUND'', om_reference = e_evidence_ref e\<rparr>]\<rparr>)
        in (case group_of e of Some g \<Rightarrow> st1\<lparr>cs_handled := g # cs_handled st1\<rparr> | None \<Rightarrow> st1))"

definition compile_items :: "nat \<Rightarrow> evidence_set \<Rightarrow> compile_state" where
  "compile_items max_chars es =
     fold (compile_step max_chars es) (es_items es)
       \<lparr>cs_selected = [], cs_used = 0, cs_omitted = [], cs_handled = []\<rparr>"

definition compile :: "nat \<Rightarrow> evidence_set \<Rightarrow> context_artifact" where
  "compile max_chars es =
     (let st = compile_items max_chars es;
          d0 = set_disposition es;
          d1 = (if cs_omitted st \<noteq> [] \<and> d0 \<noteq> Disp_EMPTY then Disp_DEGRADED else d0);
          d = (if d0 = Disp_EMPTY then Disp_EMPTY else d1)
      in \<lparr>c_artifact_kind = ''CompiledContextArtifact'', c_bound = max_chars,
          c_text = join [CHR 0x0A] (map entry_line (cs_selected st)),
          c_coverage = es_coverage es, c_disposition = d,
          c_evidence_refs = map e_evidence_ref (cs_selected st),
          c_citation_refs = map e_anchor (cs_selected st),
          c_authorization_lineage = es_authorization_lineage es,
          c_omission_ledger = cs_omitted st\<rparr>)"

section \<open>LocalEvidenceRuntime\<close>

definition runtime_query ::
  "unicode_tables \<Rightarrow> nat \<Rightarrow> (string \<Rightarrow> source_record list result) \<Rightarrow> query_request \<Rightarrow> query_result result" where
  "runtime_query u bound list_sources q =
     map_result (\<lambda>evidence.
       let ctx = compile bound evidence
       in \<lparr>r_request = q, r_disposition = c_disposition ctx, r_coverage = c_coverage ctx,
           r_evidence = es_items evidence, r_authorization_lineage = es_authorization_lineage evidence,
           r_context = ctx\<rparr>)
       (search u list_sources q)"

section \<open>Provider-neutral envelope and emission fence\<close>

record provider_envelope =
  pe_artifact_kind :: string
  pe_material :: string
  pe_citation_refs :: "string list"
  pe_evidence_refs :: "string list"
  pe_authorization_lineage :: string
  pe_context_fingerprint :: string
  pe_action_result :: string
  pe_destination :: string

definition envelope_structured :: "provider_envelope \<Rightarrow> dict" where
  "envelope_structured e =
     [(''artifact_kind'', JStr (pe_artifact_kind e)), (''material'', JStr (pe_material e)),
      (''citation_refs'', jstrs (pe_citation_refs e)), (''evidence_refs'', jstrs (pe_evidence_refs e)),
      (''authorization_lineage'', JStr (pe_authorization_lineage e)),
      (''context_fingerprint'', JStr (pe_context_fingerprint e)), (''action_result'', JStr (pe_action_result e)),
      (''destination'', JStr (pe_destination e))]"

definition envelope_fingerprint :: "provider_envelope \<Rightarrow> string" where
  "envelope_fingerprint e = sha256_json (JObj (envelope_structured e))"

definition compile_provider_neutral :: "context_artifact \<Rightarrow> string \<Rightarrow> provider_envelope result" where
  "compile_provider_neutral c destination =
     (if destination \<noteq> ''LOCAL_ONLY'' then raise PermissionError ''external_destination_not_authorized_in_s0''
      else Inr \<lparr>pe_artifact_kind = ''ProviderNeutralContextArtifact'', pe_material = c_text c,
                pe_citation_refs = c_citation_refs c, pe_evidence_refs = c_evidence_refs c,
                pe_authorization_lineage = c_authorization_lineage c,
                pe_context_fingerprint = context_fingerprint c,
                pe_action_result =
                  (if c_disposition c = Disp_EMPTY then ''DENY''
                   else if c_disposition c \<in> {Disp_DEGRADED, Disp_CONFLICT, Disp_PARTIAL} then ''REQUIRE_REVIEW''
                   else ''LOCAL_ONLY''),
                pe_destination = destination\<rparr>)"

definition emission_fence_emit :: "provider_envelope \<Rightarrow> string \<Rightarrow> string \<Rightarrow> unit result" where
  "emission_fence_emit e current_context_fingerprint destination =
     (if destination \<noteq> pe_destination e \<or> destination \<noteq> ''LOCAL_ONLY''
      then raise PermissionError ''external_emission_denied''
      else if pe_context_fingerprint e \<noteq> current_context_fingerprint
      then raise PermissionError ''context_revalidation_required''
      else if pe_action_result e \<noteq> ''LOCAL_ONLY''
      then raise PermissionError ''typed_result_does_not_authorize_emission''
      else Inr ())"

section \<open>Disclosure\<close>

definition DISCLOSURE_VERSION :: string where "DISCLOSURE_VERSION = ''0.1''"

definition empty_projection :: "query_result \<Rightarrow> dict result" where
  "empty_projection r =
     map_result (\<lambda>_.
       let q = r_request r;
           lineage = lineage_of q;
           ctx = [(''artifact_kind'', JStr ''CompiledContextArtifact''),
                  (''bound'', JInt (int (c_bound (r_context r)))), (''text'', JStr []),
                  (''coverage'', JStr ''unknown''), (''disposition'', JStr ''EMPTY''),
                  (''evidence_refs'', JList []), (''citation_refs'', JList []),
                  (''authorization_lineage'', JStr lineage), (''omission_ledger'', JList [])]
       in [(''disclosure_version'', JStr DISCLOSURE_VERSION),
           (''request'', JObj [(''request_id'', JStr (q_request_id q)),
              (''project_constraint'', JStr (q_project_constraint q)), (''purpose'', JStr (q_purpose q))]),
           (''result'', JObj [(''disposition'', JStr ''EMPTY''), (''coverage'', JStr ''unknown'')]),
           (''evidence'', JList []),
           (''lineage'', JObj [(''authorization_ref'', JStr lineage), (''evidence_refs'', JList [])]),
           (''context'', JObj (ctx @ [(''fingerprint'', JStr (sha256_json (JObj ctx)))]))])
     (normalized (r_request r))"

definition project_query_result :: "query_result \<Rightarrow> bool \<Rightarrow> dict result" where
  "project_query_result r authorized =
     (if \<not> authorized \<or> r_evidence r = [] then empty_projection r
      else map_result (\<lambda>s.
        [(''disclosure_version'', JStr DISCLOSURE_VERSION),
         (''request'', JObj [(''request_id'', JStr (q_request_id (r_request r))),
            (''project_constraint'', JStr (q_project_constraint (r_request r))),
            (''purpose'', JStr (q_purpose (r_request r)))]),
         (''result'', get s ''result''), (''evidence'', get s ''evidence''),
         (''lineage'', get s ''lineage''), (''context'', get s ''context'')]) (structured r))"

definition disclosure_fingerprint :: "dict \<Rightarrow> string" where
  "disclosure_fingerprint p = sha256_json (JObj p)"

section \<open>DecisionCache\<close>

record 'a cached_decision =
  cd_key :: string
  cd_value :: 'a
  cd_invalidation_epoch :: int
  cd_freshness_profile_id :: string
  cd_freshness_profile_fingerprint :: string

type_synonym 'a decision_cache = "string \<rightharpoonup> 'a cached_decision"

definition cache_put :: "'a decision_cache \<Rightarrow> 'a cached_decision \<Rightarrow> 'a decision_cache" where
  "cache_put c d = c(cd_key d \<mapsto> d)"

definition cache_get :: "'a decision_cache \<Rightarrow> string \<Rightarrow> int \<Rightarrow> string \<Rightarrow> string \<Rightarrow> 'a option" where
  "cache_get c key epoch profile_id profile_fp =
     (case c key of
        None \<Rightarrow> None
      | Some d \<Rightarrow>
          if cd_invalidation_epoch d \<noteq> epoch then None
          else if cd_freshness_profile_id d \<noteq> profile_id \<or> cd_freshness_profile_fingerprint d \<noteq> profile_fp then None
          else Some (cd_value d))"

definition cache_invalidate_epoch :: "'a decision_cache \<Rightarrow> int \<Rightarrow> 'a decision_cache" where
  "cache_invalidate_epoch c new_epoch =
     (\<lambda>k. case c k of None \<Rightarrow> None | Some d \<Rightarrow> if cd_invalidation_epoch d = new_epoch then Some d else None)"


section \<open>Lengths of compiled texts\<close>

lemma uchars_append: "t = [] \<or> \<not> is_cont (hd t) \<Longrightarrow> uchars (s @ t) = uchars s @ uchars t"
proof (induction s rule: uchars.induct)
  case (2 c)
  then show ?case by (cases t) auto
next
  case (3 c d s)
  then show ?case by (cases "uchars (d # s)") auto
qed simp

lemma py_len_append: "t = [] \<or> \<not> is_cont (hd t) \<Longrightarrow> py_len (s @ t) = py_len s + py_len t"
  by (simp add: py_len_def uchars_append)

lemma py_len_newline: "\<not> is_cont (hd t) \<Longrightarrow> t \<noteq> [] \<Longrightarrow> py_len (CHR 0x0A # t) = Suc (py_len t)"
  by (cases t) (simp_all add: py_len_def)

lemma newline_not_cont [simp]: "\<not> is_cont CHR 0x0A"
  by (simp add: is_cont_def)

lemma entry_line_head [simp]: "entry_line e \<noteq> []" "hd (entry_line e) = CHR ''[''" "\<not> is_cont CHR ''[''"
  by (simp_all add: entry_line_def is_cont_def)

lemma join_head: "xs \<noteq> [] \<Longrightarrow> hd xs \<noteq> [] \<Longrightarrow> hd (join sep xs) = hd (hd xs) \<and> join sep xs \<noteq> []"
  by (induction sep xs rule: join.induct) auto

lemma join_append:
  "xs \<noteq> [] \<Longrightarrow> ys \<noteq> [] \<Longrightarrow> join sep (xs @ ys) = join sep xs @ sep @ join sep ys"
proof (induction sep xs rule: join.induct)
  case (2 sep x)
  then show ?case by (cases ys) auto
qed auto

definition text_of :: "evidence_item list \<Rightarrow> string" where
  "text_of es = join [CHR 0x0A] (map entry_line es)"

lemma text_of_head: "es \<noteq> [] \<Longrightarrow> hd (text_of es) = CHR ''['' \<and> text_of es \<noteq> []"
  using join_head [of "map entry_line es" "[CHR 0x0A]"] by (cases es) (simp_all add: text_of_def)

lemma py_len_text_append:
  assumes "xs \<noteq> []" "ys \<noteq> []"
  shows "py_len (text_of (xs @ ys)) = py_len (text_of xs) + 1 + py_len (text_of ys)"
proof -
  from text_of_head [OF assms(2)] have "\<not> is_cont (hd (text_of ys))" "text_of ys \<noteq> []" by simp_all
  with assms show ?thesis
    by (simp add: text_of_def join_append py_len_append py_len_newline)
qed

section \<open>Invariants of the compilation loop\<close>

lemma group_items_member: "e \<in> set (es_items es) \<Longrightarrow> e \<in> set (group_items es e)"
  by (auto simp: group_items_def group_of_def split: option.splits if_splits)

lemma group_items_subset: "e \<in> set (es_items es) \<Longrightarrow> set (group_items es e) \<subseteq> set (es_items es)"
  by (auto simp: group_items_def split: option.splits if_splits)

lemma block_of_text: "block_of es = text_of es"
  by (simp add: block_of_def text_of_def)

text \<open>The counter runs one ahead of the text: a separator is counted after every block.\<close>

definition size_invar :: "nat \<Rightarrow> compile_state \<Rightarrow> bool" where
  "size_invar max_chars st =
     (py_len (text_of (cs_selected st)) \<le> max_chars
      \<and> cs_used st = (if cs_selected st = [] then 0 else py_len (text_of (cs_selected st)) + 1))"

lemma size_invar_step:
  assumes "size_invar m st" "e \<in> set (es_items es)"
  shows "size_invar m (compile_step m es e st)"
proof -
  let ?items = "group_items es e"
  have ne: "?items \<noteq> []" using group_items_member [OF assms(2)] by auto
  have L: "py_len (text_of (cs_selected st @ ?items)) =
      py_len (text_of ?items) + (if cs_selected st = [] then 0 else py_len (text_of (cs_selected st)) + 1)"
    using py_len_text_append [OF _ ne, of "cs_selected st"] by simp
  show ?thesis
    using assms(1) ne L
    by (auto simp: compile_step_def size_invar_def Let_def block_of_text split: option.splits)
qed

lemma compile_items_invariant:
  assumes "P \<lparr>cs_selected = [], cs_used = 0, cs_omitted = [], cs_handled = []\<rparr>"
    and "\<And>e st. e \<in> set (es_items es) \<Longrightarrow> P st \<Longrightarrow> P (compile_step m es e st)"
  shows "P (compile_items m es)"
  unfolding compile_items_def
  by (rule fold_invariant [where Q = "\<lambda>e. e \<in> set (es_items es)"]) (use assms in auto)

lemma size_invar_items: "size_invar m (compile_items m es)"
  by (rule compile_items_invariant) (simp_all add: size_invar_step, simp add: size_invar_def text_of_def py_len_def)

text \<open>
  Membership: only items of the set are selected; a conflict group is handled once, and then either
  wholly selected or wholly omitted and on the ledger; a group not handled yet has no member
  selected.
\<close>

definition members :: "evidence_set \<Rightarrow> string \<Rightarrow> evidence_item set" where
  "members es g = {e \<in> set (es_items es). group_of e = Some g}"

definition group_omission :: "string \<Rightarrow> omission" where
  "group_omission g = \<lparr>om_reason = ''CONFLICT_GROUP_EXCEEDS_CONTEXT_BOUND'', om_reference = g\<rparr>"

definition item_omission :: "evidence_item \<Rightarrow> omission" where
  "item_omission e = \<lparr>om_reason = ''CONTEXT_BOUND'', om_reference = e_evidence_ref e\<rparr>"

definition group_invar :: "evidence_set \<Rightarrow> compile_state \<Rightarrow> bool" where
  "group_invar es st =
     (set (cs_selected st) \<subseteq> set (es_items es)
      \<and> (\<forall>g \<in> set (es_conflict_groups es).
           if g \<in> set (cs_handled st)
           then members es g \<subseteq> set (cs_selected st)
                \<or> (group_omission g \<in> set (cs_omitted st) \<and> members es g \<inter> set (cs_selected st) = {})
           else members es g \<inter> set (cs_selected st) = {}))"

lemma group_items_members:
  assumes "group_of e = Some g" "g \<in> set (es_conflict_groups es)"
  shows "set (group_items es e) = members es g"
proof -
  from assms(1) have "g \<noteq> []" by (auto simp: group_of_def split: option.splits if_splits)
  with assms show ?thesis
    by (auto simp: group_items_def members_def group_of_def split: option.splits if_splits)
qed

lemma group_invar_step:
  assumes "group_invar es st" "e \<in> set (es_items es)"
    and groups: "\<And>e g. e \<in> set (es_items es) \<Longrightarrow> group_of e = Some g \<Longrightarrow> g \<in> set (es_conflict_groups es)"
  shows "group_invar es (compile_step m es e st)"
proof (cases "group_of e")
  case None
  then have "set (group_items es e) = {e}" and no: "e \<notin> members es g" for g
    by (simp_all add: group_items_def members_def)
  then show ?thesis
    using assms(1,2) None by (auto simp: compile_step_def group_invar_def Let_def split: if_splits)
next
  case (Some g)
  note mem = group_items_members [OF Some groups [OF assms(2) Some]]
  have other: "members es g \<inter> members es h = {}" if "h \<noteq> g" for h using that by (auto simp: members_def)
  have sub: "members es g \<subseteq> set (es_items es)" by (auto simp: members_def)
  show ?thesis
  proof (cases "g \<in> set (cs_handled st)")
    case True
    with assms(1) Some show ?thesis by (simp add: compile_step_def)
  next
    case False
    with assms(1) groups [OF assms(2) Some] have none: "members es g \<inter> set (cs_selected st) = {}"
      by (simp add: group_invar_def)
    have step: "\<exists>st'. compile_step m es e st = st'\<lparr>cs_handled := g # cs_handled st\<rparr> \<and>
        (cs_selected st' = cs_selected st @ group_items es e \<and> cs_omitted st' = cs_omitted st
         \<or> cs_selected st' = cs_selected st \<and> cs_omitted st' = cs_omitted st @ [group_omission g])"
      using False Some by (auto simp: compile_step_def Let_def group_omission_def)
    then obtain st' where st': "compile_step m es e st = st'\<lparr>cs_handled := g # cs_handled st\<rparr>"
      "cs_selected st' = cs_selected st @ group_items es e \<and> cs_omitted st' = cs_omitted st
       \<or> cs_selected st' = cs_selected st \<and> cs_omitted st' = cs_omitted st @ [group_omission g]" by blast
    have h: "if h \<in> set (g # cs_handled st)
        then members es h \<subseteq> set (cs_selected st')
          \<or> (group_omission h \<in> set (cs_omitted st') \<and> members es h \<inter> set (cs_selected st') = {})
        else members es h \<inter> set (cs_selected st') = {}" if hg: "h \<in> set (es_conflict_groups es)" for h
    proof (cases "h = g")
      case True
      with st'(2) mem none show ?thesis by auto
    next
      case False
      with assms(1) hg have "if h \<in> set (cs_handled st)
          then members es h \<subseteq> set (cs_selected st)
            \<or> (group_omission h \<in> set (cs_omitted st) \<and> members es h \<inter> set (cs_selected st) = {})
          else members es h \<inter> set (cs_selected st) = {}" by (simp add: group_invar_def)
      with st'(2) mem other [OF False] False show ?thesis by (auto split: if_splits)
    qed
    from assms(1) st'(2) mem sub have "set (cs_selected st') \<subseteq> set (es_items es)" by (auto simp: group_invar_def)
    with h st'(1) show ?thesis by (simp add: group_invar_def)
  qed
qed


text \<open>Nothing is dropped silently: an item met by the loop is selected or on the ledger.\<close>

definition accounted :: "evidence_item \<Rightarrow> compile_state \<Rightarrow> bool" where
  "accounted e st =
     (e \<in> set (cs_selected st)
      \<or> (case group_of e of Some g \<Rightarrow> group_omission g \<in> set (cs_omitted st)
         | None \<Rightarrow> item_omission e \<in> set (cs_omitted st)))"

lemma step_grows:
  "set (cs_selected st) \<subseteq> set (cs_selected (compile_step m es e st))"
  "set (cs_omitted st) \<subseteq> set (cs_omitted (compile_step m es e st))"
  by (auto simp: compile_step_def Let_def split: option.splits)

lemma accounted_mono: "accounted e' st \<Longrightarrow> accounted e' (compile_step m es e st)"
  using step_grows [of st m es e] by (auto simp: accounted_def split: option.splits)

lemma accounted_step:
  assumes "group_invar es st" "e \<in> set (es_items es)"
    and groups: "\<And>e g. e \<in> set (es_items es) \<Longrightarrow> group_of e = Some g \<Longrightarrow> g \<in> set (es_conflict_groups es)"
  shows "accounted e (compile_step m es e st)"
proof (cases "\<exists>g. group_of e = Some g \<and> g \<in> set (cs_handled st)")
  case True
  then obtain g where g: "group_of e = Some g" "g \<in> set (cs_handled st)" by blast
  from assms(1) groups [OF assms(2) g(1)] have "if g \<in> set (cs_handled st)
      then members es g \<subseteq> set (cs_selected st)
        \<or> (group_omission g \<in> set (cs_omitted st) \<and> members es g \<inter> set (cs_selected st) = {})
      else members es g \<inter> set (cs_selected st) = {}" by (simp add: group_invar_def)
  with g(2) have "members es g \<subseteq> set (cs_selected st) \<or> group_omission g \<in> set (cs_omitted st)" by auto
  with g assms(2) have "accounted e st" by (auto simp: accounted_def members_def)
  then show ?thesis by (rule accounted_mono)
next
  case False
  with group_items_member [OF assms(2)] show ?thesis
    by (auto simp: accounted_def compile_step_def Let_def group_omission_def item_omission_def split: option.splits)
qed

lemma compile_fold:
  assumes groups: "\<And>e g. e \<in> set (es_items es) \<Longrightarrow> group_of e = Some g \<Longrightarrow> g \<in> set (es_conflict_groups es)"
  shows "set xs \<subseteq> set (es_items es) \<Longrightarrow>
    group_invar es (fold (compile_step m es) xs \<lparr>cs_selected = [], cs_used = 0, cs_omitted = [], cs_handled = []\<rparr>)
    \<and> (\<forall>e \<in> set xs. accounted e (fold (compile_step m es) xs \<lparr>cs_selected = [], cs_used = 0, cs_omitted = [], cs_handled = []\<rparr>))"
proof (induction xs rule: rev_induct)
  case Nil
  then show ?case by (simp add: group_invar_def)
next
  case (snoc x xs)
  then have "x \<in> set (es_items es)" "set xs \<subseteq> set (es_items es)" by simp_all
  with snoc.IH group_invar_step [OF _ _ groups] accounted_step [OF _ _ groups] accounted_mono show ?case by auto
qed

lemma search_groups_listed:
  assumes "search u ls q = Inr es" "e \<in> set (es_items es)" "group_of e = Some g"
  shows "g \<in> set (es_conflict_groups es)"
  using assms evidence_for_groups by (auto simp: search_Inr_iff)

section \<open>What a query returns\<close>

lemma runtime_query_Inr_iff:
  "runtime_query u bound ls q = Inr r \<longleftrightarrow>
     (\<exists>es. search u ls q = Inr es \<and>
        r = \<lparr>r_request = q, r_disposition = c_disposition (compile bound es), r_coverage = c_coverage (compile bound es),
             r_evidence = es_items es, r_authorization_lineage = es_authorization_lineage es,
             r_context = compile bound es\<rparr>)"
  by (auto simp: runtime_query_def map_result_Inr_iff Let_def)

lemma compile_fields:
  "c_text (compile m es) = text_of (cs_selected (compile_items m es))"
  "c_evidence_refs (compile m es) = map e_evidence_ref (cs_selected (compile_items m es))"
  "c_citation_refs (compile m es) = map e_anchor (cs_selected (compile_items m es))"
  "c_omission_ledger (compile m es) = cs_omitted (compile_items m es)"
  "c_bound (compile m es) = m" "c_coverage (compile m es) = es_coverage es"
  by (simp_all add: compile_def Let_def text_of_def)

text \<open>
  C25. The context of a query never exceeds its bound in characters, quotes only evidence items
  of the result, keeps each conflict group whole (all of its items in the context, or none and the
  group on the omission ledger), and accounts for every item it leaves out.
\<close>

theorem query_context_faithful:
  assumes "runtime_query u bound ls q = Inr r"
  shows "\<exists>selected. c_text (r_context r) = join [CHR 0x0A] (map entry_line selected)
    \<and> c_evidence_refs (r_context r) = map e_evidence_ref selected \<and> c_citation_refs (r_context r) = map e_anchor selected
    \<and> py_len (c_text (r_context r)) \<le> bound
    \<and> set selected \<subseteq> set (r_evidence r)
    \<and> (\<forall>g. {e \<in> set (r_evidence r). group_of e = Some g} \<subseteq> set selected
         \<or> (group_omission g \<in> set (c_omission_ledger (r_context r))
            \<and> {e \<in> set (r_evidence r). group_of e = Some g} \<inter> set selected = {}))
    \<and> (\<forall>e \<in> set (r_evidence r). e \<in> set selected \<or> group_of e \<noteq> None \<or> item_omission e \<in> set (c_omission_ledger (r_context r)))"
proof -
  from assms obtain es where es: "search u ls q = Inr es" "r_evidence r = es_items es" "r_context r = compile bound es"
    by (auto simp: runtime_query_Inr_iff)
  define st where "st = compile_items bound es"
  note groups = search_groups_listed [OF es(1)]
  have "group_invar es st \<and> (\<forall>e \<in> set (es_items es). accounted e st)"
    unfolding st_def compile_items_def by (rule compile_fold) (use groups in blast, simp)
  then have inv: "group_invar es st" and acc: "\<forall>e \<in> set (es_items es). accounted e st" by blast+
  have size: "py_len (text_of (cs_selected st)) \<le> bound"
    using size_invar_items [of bound es] by (simp add: size_invar_def st_def)
  have whole: "members es g \<subseteq> set (cs_selected st)
      \<or> (group_omission g \<in> set (cs_omitted st) \<and> members es g \<inter> set (cs_selected st) = {})" for g
  proof (cases "members es g = {}")
    case False
    then obtain e where e: "e \<in> set (es_items es)" "group_of e = Some g" by (auto simp: members_def)
    with groups have g: "g \<in> set (es_conflict_groups es)" by blast
    from acc e have "e \<in> set (cs_selected st) \<or> group_omission g \<in> set (cs_omitted st)" by (auto simp: accounted_def)
    moreover from inv g have "if g \<in> set (cs_handled st)
        then members es g \<subseteq> set (cs_selected st)
          \<or> (group_omission g \<in> set (cs_omitted st) \<and> members es g \<inter> set (cs_selected st) = {})
        else members es g \<inter> set (cs_selected st) = {}" by (simp add: group_invar_def)
    ultimately show ?thesis using e by (auto simp: members_def split: if_splits)
  qed simp
  have "e \<in> set (cs_selected st) \<or> group_of e \<noteq> None \<or> item_omission e \<in> set (cs_omitted st)"
    if "e \<in> set (es_items es)" for e
    using acc that by (auto simp: accounted_def split: option.splits)
  with whole size inv show ?thesis
    unfolding es(2,3) by (intro exI [of _ "cs_selected st"]) (simp add: compile_fields st_def text_of_def members_def group_invar_def)
qed


lemma sample_runtime: "\<exists>r. runtime_query ascii_tables 128 sample_listing sample_query = Inr r"
  using sample_search by (simp add: runtime_query_Inr_iff)

theorem query_context_faithful_witness:
  "\<exists>r. runtime_query ascii_tables 128 sample_listing sample_query = Inr r \<and> py_len (c_text (r_context r)) \<le> 128"
  using sample_runtime query_context_faithful by blast

section \<open>Emission\<close>

lemma emit_iff:
  "(\<exists>env. compile_provider_neutral c d = Inr env \<and> emission_fence_emit env fp d' = Inr ()) \<longleftrightarrow>
     d = ''LOCAL_ONLY'' \<and> d' = ''LOCAL_ONLY'' \<and> fp = context_fingerprint c
     \<and> c_disposition c \<notin> {Disp_EMPTY, Disp_DEGRADED, Disp_CONFLICT, Disp_PARTIAL}"
  by (auto simp: compile_provider_neutral_def emission_fence_emit_def raise_def)

text \<open>
  The context of a query passes the provider-neutral compilation and the emission fence only
  for the local destination and with its own current fingerprint, and only when the query found
  evidence, without conflict groups, from a complete listing, and nothing was omitted.
\<close>

theorem emission_requires_supported:
  assumes "runtime_query u bound ls q = Inr r" "compile_provider_neutral (r_context r) d = Inr env"
    and "emission_fence_emit env fp d' = Inr ()"
  shows "d = ''LOCAL_ONLY'' \<and> d' = ''LOCAL_ONLY'' \<and> fp = context_fingerprint (r_context r)
    \<and> r_disposition r = Disp_SUPPORTED \<and> r_coverage r = Cov_COMPLETE \<and> r_evidence r \<noteq> []
    \<and> (\<forall>e \<in> set (r_evidence r). group_of e = None) \<and> c_omission_ledger (r_context r) = []
    \<and> pe_material env = c_text (r_context r)"
proof -
  from assms(1) obtain es where es: "search u ls q = Inr es" "r_evidence r = es_items es" "r_context r = compile bound es"
    "r_disposition r = c_disposition (compile bound es)" "r_coverage r = es_coverage es"
    by (auto simp: runtime_query_Inr_iff compile_fields)
  from assms(2,3) have e: "d = ''LOCAL_ONLY''" "d' = ''LOCAL_ONLY''" "fp = context_fingerprint (r_context r)"
    "c_disposition (r_context r) \<notin> {Disp_EMPTY, Disp_DEGRADED, Disp_CONFLICT, Disp_PARTIAL}"
    using emit_iff [of "r_context r" d fp d'] by blast+
  then have d: "es_items es \<noteq> []" "es_conflict_groups es = []" "es_coverage es \<notin> {Cov_PARTIAL, Cov_UNKNOWN}"
    "cs_omitted (compile_items bound es) = []" "c_disposition (compile bound es) = Disp_SUPPORTED"
    by (auto simp: es(3) compile_def Let_def set_disposition_def split: if_splits)
  from es(1) d(3) have "es_coverage es = Cov_COMPLETE"
    by (auto simp: search_Inr_iff evidence_for_def Let_def split: if_splits)
  moreover have "group_of x = None" if "x \<in> set (es_items es)" for x
    using search_groups_listed [OF es(1) that] d(2) by (cases "group_of x") auto
  moreover have "pe_material env = c_text (r_context r)"
    using assms(2) by (auto simp: compile_provider_neutral_def split: if_splits)
  ultimately show ?thesis using es e d by (simp add: compile_fields)
qed

lemma sample_item_fields:
  "group_of (evidence_of sample_source sp) = None"
proof -
  have "frontmatter (s_content sample_source) = []" by code_simp
  then show ?thesis by (simp add: group_of_def evidence_of_def)
qed

theorem emission_requires_supported_witness:
  "\<exists>r env. runtime_query ascii_tables 4000 sample_listing sample_query = Inr r
     \<and> compile_provider_neutral (r_context r) ''LOCAL_ONLY'' = Inr env
     \<and> emission_fence_emit env (context_fingerprint (r_context r)) ''LOCAL_ONLY'' = Inr () \<and> r_disposition r = Disp_SUPPORTED"
proof -
  define es where "es = evidence_for ascii_tables [sample_source] sample_query"
  obtain r where r: "runtime_query ascii_tables 4000 sample_listing sample_query = Inr r" "r_context r = compile 4000 es"
    using sample_search by (simp add: runtime_query_Inr_iff es_def)
  let ?e = "evidence_of sample_source \<lparr>sp_start_line = 2, sp_end_line = 2, sp_text = ''AB c'', sp_score = 2\<rparr>"
  have items: "es_items es = [?e]" using sample_items by (simp add: es_def)
  then have groups: "es_conflict_groups es = []"
    using evidence_for_groups [of ascii_tables "[sample_source]" sample_query] sample_item_fields
    by (simp add: es_def)
  have "length (entry_line ?e) \<le> 4000"
    by (simp add: entry_line_def evidence_of_def anchor_hash_def)
  moreover have "length (uchars s) \<le> length s" for s
  proof (induction s rule: uchars.induct)
    case (3 c d s)
    then show ?case by (cases "uchars (d # s)") auto
  qed auto
  ultimately have "py_len (block_of [?e]) \<le> 4000"
    by (simp add: block_of_def py_len_def) (meson le_trans)
  then have "cs_omitted (compile_items 4000 es) = []"
    using sample_item_fields by (simp add: compile_items_def items compile_step_def Let_def group_items_def)
  then have "c_disposition (compile 4000 es) = Disp_SUPPORTED"
    by (simp add: compile_def Let_def set_disposition_def items groups) (simp add: es_def evidence_for_def Let_def)
  with emit_iff [of "compile 4000 es" "''LOCAL_ONLY''" "context_fingerprint (compile 4000 es)" "''LOCAL_ONLY''"]
  obtain env where "compile_provider_neutral (r_context r) ''LOCAL_ONLY'' = Inr env"
    "emission_fence_emit env (context_fingerprint (r_context r)) ''LOCAL_ONLY'' = Inr ()"
    by (auto simp: r(2))
  with emission_requires_supported [OF r(1)] r(1) show ?thesis by blast
qed

section \<open>Disclosure\<close>

text \<open>
  C25. The projection of an unauthorized read is a function of the request and the context bound
  alone, and is the projection of an authorized read that found nothing: it tells a caller nothing
  about sources, counts, conflicts or reasons.
\<close>

theorem denied_projection_reveals_nothing:
  assumes "r_request r = r_request r'" "c_bound (r_context r) = c_bound (r_context r')"
  shows "project_query_result r False = project_query_result r' False
    \<and> (r_evidence r' = [] \<longrightarrow> project_query_result r False = project_query_result r' True)"
  using assms by (simp add: project_query_result_def empty_projection_def)

theorem denied_projection_reveals_nothing_witness:
  "\<exists>r r'. runtime_query ascii_tables 128 sample_listing sample_query = Inr r
     \<and> runtime_query ascii_tables 128 (\<lambda>_. Inr []) sample_query = Inr r'
     \<and> project_query_result r False = project_query_result r' True"
proof -
  obtain r where r: "runtime_query ascii_tables 128 sample_listing sample_query = Inr r" using sample_runtime by blast
  obtain r' where r': "runtime_query ascii_tables 128 (\<lambda>_. Inr []) sample_query = Inr r'" "r_evidence r' = []"
    by (simp add: runtime_query_Inr_iff search_Inr_iff sample_normalized_query sample_query_tokens evidence_for_def
        scored_def Let_def)
  have "r_request r = r_request r'" "c_bound (r_context r) = c_bound (r_context r')"
    using r r'(1) by (auto simp: runtime_query_Inr_iff compile_fields)
  with denied_projection_reveals_nothing r r' show ?thesis by blast
qed

section \<open>The decision cache\<close>

datatype 'a cache_op = Put "'a cached_decision" | Invalidate int

fun cache_apply :: "'a cache_op \<Rightarrow> 'a decision_cache \<Rightarrow> 'a decision_cache" where
  "cache_apply (Put d) c = cache_put c d"
| "cache_apply (Invalidate n) c = cache_invalidate_epoch c n"

lemma cache_entry_origin:
  "fold cache_apply ops Map.empty k = Some d \<Longrightarrow>
     \<exists>pre post. ops = pre @ Put d # post \<and> cd_key d = k
       \<and> (\<forall>n. Invalidate n \<in> set post \<longrightarrow> n = cd_invalidation_epoch d) \<and> (\<forall>d'. Put d' \<in> set post \<longrightarrow> cd_key d' \<noteq> k)"
proof (induction ops arbitrary: d rule: rev_induct)
  case (snoc x ops)
  let ?c = "fold cache_apply ops Map.empty"
  show ?case
  proof (cases "x = Put d \<and> cd_key d = k")
    case True
    then show ?thesis by (intro exI [of _ ops] exI [of _ "[]"]) simp
  next
    case False
    with snoc.prems have c: "?c k = Some d" and x: "\<forall>n. x = Invalidate n \<longrightarrow> n = cd_invalidation_epoch d"
      "\<forall>d'. x = Put d' \<longrightarrow> cd_key d' \<noteq> k"
      by (cases x; auto simp: cache_put_def cache_invalidate_epoch_def split: if_splits option.splits)+
    from snoc.IH [OF c] obtain pre post where "ops = pre @ Put d # post" "cd_key d = k"
      "\<forall>n. Invalidate n \<in> set post \<longrightarrow> n = cd_invalidation_epoch d" "\<forall>d'. Put d' \<in> set post \<longrightarrow> cd_key d' \<noteq> k"
      by blast
    with x show ?thesis by (intro exI [of _ pre] exI [of _ "post @ [x]"]) auto
  qed
qed simp

text \<open>
  C35. Over any history of operations on an initially empty cache, a value is served only if it was
  put under that key for exactly the asked epoch and freshness profile, no later put replaced it,
  and no invalidation since then was for another epoch.
\<close>

theorem cache_serves_only_current:
  assumes "cache_get (fold cache_apply ops Map.empty) k epoch profile_id profile_fp = Some v"
  shows "\<exists>pre d post. ops = pre @ Put d # post \<and> cd_key d = k \<and> cd_value d = v \<and> cd_invalidation_epoch d = epoch
    \<and> cd_freshness_profile_id d = profile_id \<and> cd_freshness_profile_fingerprint d = profile_fp
    \<and> (\<forall>n. Invalidate n \<in> set post \<longrightarrow> n = epoch) \<and> (\<forall>d'. Put d' \<in> set post \<longrightarrow> cd_key d' \<noteq> k)"
proof -
  from assms obtain d where d: "fold cache_apply ops Map.empty k = Some d" "cd_value d = v"
    "cd_invalidation_epoch d = epoch" "cd_freshness_profile_id d = profile_id"
    "cd_freshness_profile_fingerprint d = profile_fp"
    by (auto simp: cache_get_def split: option.splits if_splits)
  from cache_entry_origin [OF d(1)] d(2-5) show ?thesis by blast
qed

theorem cache_serves_only_current_witness:
  "\<exists>pre d post. [Put \<lparr>cd_key = ''k'', cd_value = 7 :: int, cd_invalidation_epoch = 2, cd_freshness_profile_id = ''p'',
      cd_freshness_profile_fingerprint = ''f''\<rparr>, Invalidate 2] = pre @ Put d # post \<and> cd_value d = 7"
proof -
  let ?ops = "[Put \<lparr>cd_key = ''k'', cd_value = 7 :: int, cd_invalidation_epoch = 2, cd_freshness_profile_id = ''p'',
      cd_freshness_profile_fingerprint = ''f''\<rparr>, Invalidate 2]"
  have "cache_get (fold cache_apply ?ops Map.empty) ''k'' 2 ''p'' ''f'' = Some 7"
    by (simp add: cache_get_def cache_put_def cache_invalidate_epoch_def)
  from cache_serves_only_current [OF this] show ?thesis by blast
qed

end
