(* ===== verification/Security.thy ===== *)
theory Security
  imports Models
begin

text \<open>
  \<^verbatim>\<open>pmiri/security.py\<close>: the Gate-D R1 bindings. Authority scopes and their intersection, the
  subject chain, the purpose binding, classification changes, the sensitivity assessment, the
  material manifest, the egress decision and the fence in front of a provider transport.
\<close>

section \<open>Definitions\<close>

definition CLASSIFICATIONS :: "string list" where
  "CLASSIFICATIONS = [''PUBLIC'', ''CLOUD_OK'', ''RESTRICTED'', ''LOCAL_ONLY'']"

definition ref :: "string \<Rightarrow> json \<Rightarrow> string" where
  "ref kind v = kind @ ''://'' @ take 32 (sha256_json v)"

text \<open>\<^verbatim>\<open>security._valid_interval\<close>: an absent or empty end leaves the interval open.\<close>

definition open_interval :: "string \<Rightarrow> string option \<Rightarrow> string \<Rightarrow> bool result" where
  "open_interval valid_from valid_until now =
     except_tv False
       (bind_result (parse_time valid_from) (\<lambda>start.
        bind_result (case valid_until of None \<Rightarrow> Inr None
                     | Some u \<Rightarrow> if u = [] then Inr None else map_result Some (parse_time u)) (\<lambda>end_at.
        map_result (\<lambda>current. start \<le> current \<and> (case end_at of None \<Rightarrow> True | Some b \<Rightarrow> current \<le> b))
          (parse_time now))))"

text \<open>The values of a scope: an iterable of strings, or (wrongly) one string.\<close>

datatype scope_values = Values "string list" | Text string

type_synonym scope = "(string \<times> scope_values) list"
type_synonym authority = "(string \<times> string list) list"

fun normalized_scope :: "scope \<Rightarrow> authority result" where
  "normalized_scope [] = Inr []"
| "normalized_scope ((k, Text s) # sc) = raise SecurityContractViolation ''authority_scope_must_be_array''"
| "normalized_scope ((k, Values vs) # sc) =
     map_result (\<lambda>r. (k, sorted_set vs) # r) (normalized_scope sc)"

definition values_at :: "authority \<Rightarrow> string \<Rightarrow> string list" where
  "values_at a k = (case map_of a k of None \<Rightarrow> [] | Some vs \<Rightarrow> vs)"

definition intersect_authority :: "scope list \<Rightarrow> authority result" where
  "intersect_authority scopes =
     map_result (\<lambda>ns.
       (case ns of
          [] \<Rightarrow> []
        | n # rest \<Rightarrow>
            (let keys = filter (\<lambda>k. \<forall>sc \<in> set rest. k \<in> set (map fst sc)) (map fst n)
             in map (\<lambda>k. (k, sorted_set
                    (filter (\<lambda>v. \<forall>sc \<in> set rest. v \<in> set (values_at sc k)) (values_at n k))))
                  (sorted_set keys))))
       (traverse normalized_scope scopes)"

record subject_chain =
  sc_service_principal_ref :: string
  sc_originating_trust_zone_attestation_ref :: string
  sc_operation_ref :: string
  sc_purpose_binding_ref :: string
  sc_effective_authority :: authority
  sc_human_principal_ref :: "string option"
  sc_workload_principal_ref :: "string option"
  sc_delegation_grant_refs :: "string list"

definition jopt :: "string option \<Rightarrow> json" where
  "jopt x = (case x of None \<Rightarrow> JNull | Some s \<Rightarrow> JStr s)"

definition derive_subject_chain ::
  "string \<Rightarrow> string \<Rightarrow> string \<Rightarrow> string \<Rightarrow> scope list \<Rightarrow> string option \<Rightarrow> string option
     \<Rightarrow> string list \<Rightarrow> subject_chain result" where
  "derive_subject_chain service zone_ref op_ref purpose_ref scopes human workload grants =
     (if service = [] \<or> zone_ref = [] \<or> op_ref = [] \<or> purpose_ref = []
      then raise SecurityContractViolation ''subject_chain_required_component_missing''
      else bind_result (intersect_authority scopes) (\<lambda>effective.
        if effective = [] \<or> (\<forall>kv \<in> set effective. snd kv = [])
        then raise SecurityContractViolation ''effective_authority_empty''
        else Inr \<lparr>sc_service_principal_ref = service,
                  sc_originating_trust_zone_attestation_ref = zone_ref,
                  sc_operation_ref = op_ref,
                  sc_purpose_binding_ref = purpose_ref,
                  sc_effective_authority = effective,
                  sc_human_principal_ref = human,
                  sc_workload_principal_ref = workload,
                  sc_delegation_grant_refs = sorted_set grants\<rparr>))"

definition subject_chain_fingerprint :: "subject_chain \<Rightarrow> string" where
  "subject_chain_fingerprint c = sha256_json (JObj
     [(''human_principal_ref'', jopt (sc_human_principal_ref c)),
      (''service_principal_ref'', JStr (sc_service_principal_ref c)),
      (''workload_principal_ref'', jopt (sc_workload_principal_ref c)),
      (''delegation_grant_refs'', jstrs (sc_delegation_grant_refs c)),
      (''originating_trust_zone_attestation_ref'', JStr (sc_originating_trust_zone_attestation_ref c)),
      (''operation_ref'', JStr (sc_operation_ref c)),
      (''purpose_binding_ref'', JStr (sc_purpose_binding_ref c)),
      (''effective_authority'',
         JObj (map (\<lambda>(k, vs). (k, jstrs vs)) (sort_key fst (sc_effective_authority c))))])"

record purpose_binding =
  pb_purpose_binding_id :: string
  pb_operation_ref :: string
  pb_recognized_purpose :: string
  pb_derivation_ref :: string
  pb_fingerprint :: string

definition create_purpose_binding :: "string \<Rightarrow> string \<Rightarrow> string \<Rightarrow> purpose_binding result" where
  "create_purpose_binding op_ref recognized derivation =
     (if op_ref = [] \<or> recognized = [] \<or> derivation = []
      then raise SecurityContractViolation ''purpose_binding_missing''
      else let payload = JObj [(''operation_ref'', JStr op_ref),
                               (''recognized_purpose'', JStr recognized),
                               (''derivation_ref'', JStr derivation)]
           in Inr \<lparr>pb_purpose_binding_id = ref ''purpose'' payload,
                   pb_operation_ref = op_ref,
                   pb_recognized_purpose = recognized,
                   pb_derivation_ref = derivation,
                   pb_fingerprint = sha256_json payload\<rparr>)"

definition verify_requested_purpose :: "purpose_binding \<Rightarrow> string option \<Rightarrow> unit result" where
  "verify_requested_purpose b requested =
     (case requested of
        Some p \<Rightarrow> if p \<noteq> pb_recognized_purpose b
                   then raise SecurityContractViolation ''purpose_relabeling_forbidden'' else Inr ()
      | None \<Rightarrow> Inr ())"

record classification_binding =
  cb_binding_id :: string
  cb_target_kind :: string
  cb_target_id :: string
  cb_classification :: string
  cb_assigning_authority_ref :: string
  cb_policy_basis_ref :: string
  cb_provenance_ref :: string
  cb_valid_from :: string
  cb_valid_until :: "string option"

definition classification_valid :: "classification_binding \<Rightarrow> string \<Rightarrow> bool result" where
  "classification_valid b now =
     (if cb_classification b \<in> set CLASSIFICATIONS
      then open_interval (cb_valid_from b) (cb_valid_until b) now else Inr False)"

definition classification_change_reasons ::
  "classification_binding option \<Rightarrow> classification_binding \<Rightarrow> string \<Rightarrow> string \<Rightarrow> string \<Rightarrow> string list result" where
  "classification_change_reasons prior requested actor basis now =
     map_result (\<lambda>valid.
       (if cb_classification requested \<notin> set CLASSIFICATIONS then [''CLASSIFICATION_UNKNOWN''] else [])
       @ (if actor = [] \<or> basis = [] then [''AUTHORITY_MISSING''] else [])
       @ (if \<not> valid then [''VALIDITY_INVALID''] else [])
       @ (case prior of None \<Rightarrow> []
          | Some p \<Rightarrow> if cb_target_kind p \<noteq> cb_target_kind requested \<or> cb_target_id p \<noteq> cb_target_id requested
                       then [''TARGET_MISMATCH''] else []))
       (classification_valid requested now)"

definition evaluate_classification_change ::
  "classification_binding option \<Rightarrow> classification_binding \<Rightarrow> string \<Rightarrow> string \<Rightarrow> string \<Rightarrow> dict result" where
  "evaluate_classification_change prior requested actor basis now =
     map_result (\<lambda>reasons. let
          res = (if reasons = [] then ''ACCEPT''
                 else if ''AUTHORITY_MISSING'' \<in> set reasons then ''DENY'' else ''INDETERMINATE'')
      in [(''target_ref'', JStr (cb_target_kind requested @ ''://'' @ cb_target_id requested)),
          (''prior_binding_ref'', jopt (map_option cb_binding_id prior)),
          (''requested_binding_ref'', JStr (cb_binding_id requested)),
          (''authorized_actor_ref'', JStr actor),
          (''policy_basis_version'', JStr basis),
          (''result'', JStr res),
          (''reason_codes'', jstrs (if reasons = [] then [''NONE''] else reasons)),
          (''recorded_at'', JStr now),
          (''fingerprint'', JStr (sha256_json (JObj
             [(''requested'', JStr (cb_binding_id requested)),
              (''prior'', jopt (map_option cb_binding_id prior)),
              (''result'', JStr res),
              (''reasons'', jstrs reasons)])))])
       (classification_change_reasons prior requested actor basis now)"

record sensitivity_assessment =
  sa_assessment_id :: string
  sa_derived_artifact_ref :: string
  sa_input_security_lineage_refs :: "string list"
  sa_aggregation_semantics_ref :: "string option"
  sa_policy_epoch :: int
  sa_result :: string
  sa_required_security_bindings :: "string list"
  sa_fingerprint :: string

definition assess_sensitivity ::
  "string \<Rightarrow> string list \<Rightarrow> string option \<Rightarrow> int \<Rightarrow> bool \<Rightarrow> string list \<Rightarrow> sensitivity_assessment" where
  "assess_sensitivity artifact lineage_refs semantics epoch additional required_bindings =
     (let lineage = sorted_set lineage_refs;
          bindings = sorted_set required_bindings;
          res = (if lineage = [] \<or> semantics = None \<or> semantics = Some [] then ''INDETERMINATE''
                 else if additional then ''ADDITIONAL_RESTRICTION_REQUIRED''
                 else ''NO_NEW_RESTRICTION_IDENTIFIED'');
          payload = JObj [(''derived_artifact_ref'', JStr artifact),
                          (''input_security_lineage_refs'', jstrs lineage),
                          (''aggregation_semantics_ref'', jopt semantics),
                          (''policy_epoch'', JInt epoch),
                          (''result'', JStr res),
                          (''required_security_bindings'', jstrs bindings)]
      in \<lparr>sa_assessment_id = ref ''assessment'' payload,
          sa_derived_artifact_ref = artifact,
          sa_input_security_lineage_refs = lineage,
          sa_aggregation_semantics_ref = semantics,
          sa_policy_epoch = epoch,
          sa_result = res,
          sa_required_security_bindings = bindings,
          sa_fingerprint = sha256_json payload\<rparr>)"

record decision_validity =
  dv_subject_chain_fingerprint :: string
  dv_trust_zone_fingerprint :: string
  dv_purpose :: string
  dv_material_manifest_fingerprint :: string
  dv_operation :: string
  dv_policy_version :: string
  dv_policy_epoch :: int
  dv_destination_binding_fingerprint :: "string option"
  dv_valid_until :: string

definition decision_validity_is_valid :: "decision_validity \<Rightarrow> decision_validity \<Rightarrow> string \<Rightarrow> bool result" where
  "decision_validity_is_valid v current now =
     (if v = current then open_interval ''1970-01-01T00:00:00Z'' (Some (dv_valid_until v)) now else Inr False)"

definition decision_validity_dict :: "decision_validity \<Rightarrow> json" where
  "decision_validity_dict v = JObj
     [(''subject_chain_fingerprint'', JStr (dv_subject_chain_fingerprint v)),
      (''trust_zone_fingerprint'', JStr (dv_trust_zone_fingerprint v)),
      (''purpose'', JStr (dv_purpose v)),
      (''material_manifest_fingerprint'', JStr (dv_material_manifest_fingerprint v)),
      (''operation'', JStr (dv_operation v)),
      (''policy_version'', JStr (dv_policy_version v)),
      (''policy_epoch'', JInt (dv_policy_epoch v)),
      (''destination_binding_fingerprint'', jopt (dv_destination_binding_fingerprint v)),
      (''valid_until'', JStr (dv_valid_until v))]"

record egress_manifest =
  em_manifest_id :: string
  em_source_refs :: "string list"
  em_security_lineage_refs :: "string list"
  em_derived_sensitivity_refs :: "string list"
  em_semantic_obligation_refs :: "string list"
  em_material_members_digest :: string
  em_policy_epoch :: int
  em_fingerprint :: string

definition create_egress_manifest ::
  "string list \<Rightarrow> string list \<Rightarrow> string list \<Rightarrow> string list \<Rightarrow> string list \<Rightarrow> int \<Rightarrow> egress_manifest" where
  "create_egress_manifest source_refs lineage_refs sensitivity_refs obligation_refs members epoch =
     (let sources = sorted_set source_refs;
          lineage = sorted_set lineage_refs;
          assessments = sorted_set sensitivity_refs;
          obligations = sorted_set obligation_refs;
          members_digest = sha256_json (jstrs members);
          payload = JObj [(''source_refs'', jstrs sources),
                          (''security_lineage_refs'', jstrs lineage),
                          (''derived_sensitivity_refs'', jstrs assessments),
                          (''semantic_obligation_refs'', jstrs obligations),
                          (''material_members_digest'', JStr members_digest),
                          (''policy_epoch'', JInt epoch)]
      in \<lparr>em_manifest_id = ref ''manifest'' payload,
          em_source_refs = sources,
          em_security_lineage_refs = lineage,
          em_derived_sensitivity_refs = assessments,
          em_semantic_obligation_refs = obligations,
          em_material_members_digest = members_digest,
          em_policy_epoch = epoch,
          em_fingerprint = sha256_json payload\<rparr>)"

record egress_decision =
  ed_result :: string
  ed_reason :: string
  ed_validity :: decision_validity
  ed_material_manifest_fingerprint :: string
  ed_destination_binding_fingerprint :: "string option"
  ed_fingerprint :: string

definition blocks_external :: "string \<Rightarrow> classification_binding option \<Rightarrow> bool result" where
  "blocks_external now b =
     (case b of None \<Rightarrow> Inr True
      | Some c \<Rightarrow> map_result (\<lambda>valid. \<not> valid \<or> cb_classification c = ''LOCAL_ONLY'') (classification_valid c now))"

definition egress_outcome ::
  "decision_validity \<Rightarrow> decision_validity \<Rightarrow> egress_manifest \<Rightarrow> string option \<Rightarrow> string
     \<Rightarrow> classification_binding option list \<Rightarrow> sensitivity_assessment \<Rightarrow> string \<Rightarrow> bool \<Rightarrow> (string \<times> string) result" where
  "egress_outcome validity current manifest dest kind classifications sensitivity now constrained =
     bind_result (decision_validity_is_valid validity current now) (\<lambda>valid.
      if \<not> valid
        then Inr (''RECOMPILE_REQUIRED_WITH_CONSTRAINTS'', ''POLICY_EPOCH_CHANGED'')
      else if dv_material_manifest_fingerprint validity \<noteq> em_fingerprint manifest
        then Inr (''DENY'', ''MATERIAL_FINGERPRINT_MISMATCH'')
      else if dest \<noteq> dv_destination_binding_fingerprint validity
        then Inr (''DENY'', ''EXACT_BINDING_MISSING'')
      else bind_result (if kind = ''EXTERNAL_PROVIDER'' then any_r (blocks_external now) classifications else Inr False) (\<lambda>blocked.
      if blocked
        then Inr (''DENY'', ''CLASSIFICATION_MISMATCH'')
      else if sa_result sensitivity = ''INDETERMINATE''
        then Inr (''INDETERMINATE'', ''CLASSIFICATION_UNKNOWN'')
      else if sa_result sensitivity = ''ADDITIONAL_RESTRICTION_REQUIRED''
        then Inr (''RECOMPILE_REQUIRED_WITH_CONSTRAINTS'', ''ADDITIONAL_RESTRICTION_REQUIRED'')
      else Inr (if constrained then ''ALLOW_WITH_CONSTRAINTS'' else ''ALLOW_AS_IS'', ''NONE'')))"

definition evaluate_egress ::
  "decision_validity \<Rightarrow> decision_validity \<Rightarrow> egress_manifest \<Rightarrow> string option \<Rightarrow> string
     \<Rightarrow> classification_binding option list \<Rightarrow> sensitivity_assessment \<Rightarrow> string \<Rightarrow> bool \<Rightarrow> egress_decision result" where
  "evaluate_egress validity current manifest dest kind classifications sensitivity now constrained =
     map_result (\<lambda>(res, reason). let
          payload = JObj [(''result'', JStr res), (''reason'', JStr reason),
                          (''validity'', decision_validity_dict validity),
                          (''material_manifest_fingerprint'', JStr (em_fingerprint manifest)),
                          (''destination'', jopt dest)]
      in \<lparr>ed_result = res, ed_reason = reason, ed_validity = validity,
          ed_material_manifest_fingerprint = em_fingerprint manifest,
          ed_destination_binding_fingerprint = dest,
          ed_fingerprint = sha256_json payload\<rparr>)
       (egress_outcome validity current manifest dest kind classifications sensitivity now constrained)"

definition provider_send_authorize :: "egress_decision \<Rightarrow> string \<Rightarrow> string \<Rightarrow> unit result" where
  "provider_send_authorize d current_context expected_context =
     (if ed_result d \<noteq> ''ALLOW_AS_IS'' \<and> ed_result d \<noteq> ''ALLOW_WITH_CONSTRAINTS''
      then raise PermissionError (ed_reason d)
      else if current_context \<noteq> expected_context
      then raise PermissionError ''context_revalidation_required''
      else Inr ())"

section \<open>Authority scopes\<close>

text \<open>The keys of a scope and the set of values it grants for a key.\<close>

definition scope_keys :: "scope \<Rightarrow> string set" where
  "scope_keys sc = fst ` set sc"

definition scope_set :: "scope \<Rightarrow> string \<Rightarrow> string set" where
  "scope_set sc k = (case map_of sc k of Some (Values vs) \<Rightarrow> set vs | _ \<Rightarrow> {})"

lemma normalized_scope_Inr:
  "normalized_scope sc = Inr n \<Longrightarrow> map fst n = map fst sc \<and> set (values_at n k) = scope_set sc k"
proof (induction sc arbitrary: n rule: normalized_scope.induct)
  case (3 k' vs sc)
  then obtain m where m: "normalized_scope sc = Inr m" "n = (k', sorted_set vs) # m"
    by (auto simp: result_simps)
  from 3(1) [OF m(1)] show ?case
    unfolding m(2) by (simp add: values_at_def scope_set_def)
qed (auto simp: values_at_def scope_set_def)

lemma normalized_scope_keys: "normalized_scope sc = Inr n \<Longrightarrow> fst ` set n = scope_keys sc"
  using normalized_scope_Inr [of sc n] unfolding scope_keys_def by (metis list.set_map)

lemma traverse_normalized:
  "traverse normalized_scope scopes = Inr ns \<Longrightarrow>
     map (\<lambda>n. set (map fst n)) ns = map scope_keys scopes
     \<and> map (\<lambda>n. set (values_at n k)) ns = map (\<lambda>sc. scope_set sc k) scopes"
proof (induction scopes arbitrary: ns)
  case (Cons sc scopes)
  then obtain n ms where n: "normalized_scope sc = Inr n" and ns: "ns = n # ms"
    and ms: "traverse normalized_scope scopes = Inr ms"
    by (auto simp: result_simps)
  have "set (values_at n k) = scope_set sc k" using normalized_scope_Inr [OF n] by blast
  with Cons.IH [OF ms] normalized_scope_keys [OF n] ns show ?case by simp
qed auto

text \<open>The intersection as a map from the keys common to all scopes to their common values.\<close>

definition common_keys :: "scope list \<Rightarrow> string set" where
  "common_keys scopes = (if scopes = [] then {} else \<Inter> (scope_keys ` set scopes))"

definition common_values :: "scope list \<Rightarrow> string \<Rightarrow> string set" where
  "common_values scopes k = \<Inter> ((\<lambda>sc. scope_set sc k) ` set scopes)"

lemma map_of_map_key: "map_of (map (\<lambda>k. (k, f k)) ks) k = (if k \<in> set ks then Some (f k) else None)"
  by (induction ks) auto

lemma intersect_authority_spec:
  assumes "intersect_authority scopes = Inr r"
  shows "map fst r = sorted_list_of_set (common_keys scopes)"
    and "map_of r k = Some vs \<Longrightarrow> sorted vs \<and> distinct vs \<and> set vs = common_values scopes k"
proof -
  from assms obtain ns where ns: "traverse normalized_scope scopes = Inr ns"
    by (auto simp: intersect_authority_def result_simps)
  note tn = traverse_normalized [OF ns]
  show "map fst r = sorted_list_of_set (common_keys scopes)"
  proof (cases ns)
    case Nil
    with tn have "scopes = []" by simp
    with assms show ?thesis by (simp add: intersect_authority_def common_keys_def)
  next
    case (Cons n rest)
    with tn have keys: "(\<lambda>n. set (map fst n)) ` set ns = scope_keys ` set scopes"
      by (metis list.set_map)
    let ?ks = "filter (\<lambda>k. \<forall>sc \<in> set rest. k \<in> set (map fst sc)) (map fst n)"
    from Cons ns assms have r: "map fst r = sorted_set ?ks"
      unfolding intersect_authority_def ns Cons by (auto simp: Let_def comp_def)
    have "set ?ks = \<Inter> ((\<lambda>n. set (map fst n)) ` set ns)" using Cons by auto
    also have "\<dots> = common_keys scopes"
      using Cons tn unfolding common_keys_def keys [symmetric] by auto
    finally have "set (sorted_set ?ks) = common_keys scopes" by simp
    with sorted_list_of_set.idem_if_sorted_distinct [of "sorted_set ?ks"] r
    show ?thesis by simp
  qed
  assume k: "map_of r k = Some vs"
  show "sorted vs \<and> distinct vs \<and> set vs = common_values scopes k"
  proof (cases ns)
    case Nil
    with tn have "scopes = []" by simp
    with k assms show ?thesis by (simp add: intersect_authority_def)
  next
    case (Cons n rest)
    from tn have vals: "(\<lambda>n. set (values_at n k)) ` set ns = (\<lambda>sc. scope_set sc k) ` set scopes"
      by (metis list.set_map)
    let ?vs = "filter (\<lambda>v. \<forall>sc \<in> set rest. v \<in> set (values_at sc k)) (values_at n k)"
    define f where "f k = sorted_set
        (filter (\<lambda>v. \<forall>sc \<in> set rest. v \<in> set (values_at sc k)) (values_at n k))" for k
    from assms obtain ks where "r = map (\<lambda>k. (k, f k)) ks"
      unfolding intersect_authority_def ns Cons f_def by (auto simp: Let_def)
    with k have "vs = sorted_set ?vs"
      by (simp add: map_of_map_key f_def split: if_splits)
    moreover have "set ?vs = common_values scopes k"
      unfolding common_values_def vals [symmetric] using Cons by auto
    ultimately show ?thesis by simp
  qed
qed

lemma intersect_authority_order:
  assumes "intersect_authority a = Inr r" "intersect_authority b = Inr r'" "set a = set b"
  shows "r = r'"
proof -
  note ra = intersect_authority_spec [OF assms(1)] and rb = intersect_authority_spec [OF assms(2)]
  have eq: "common_keys a = common_keys b" "common_values a = common_values b"
    using assms(3) by (auto simp: common_keys_def common_values_def fun_eq_iff)
  have dist: "distinct (map fst r)" "distinct (map fst r')"
    by (simp_all add: ra(1) rb(1))
  have keys: "map fst r = map fst r'" using ra(1) rb(1) eq by simp
  have "snd (r ! i) = snd (r' ! i)" if i: "i < length r" for i
  proof -
    from keys have len: "length r = length r'" by (metis length_map)
    from i dist have "map_of r (fst (r ! i)) = Some (snd (r ! i))" by (simp add: map_of_eq_Some_iff)
    moreover from i len dist have "map_of r' (fst (r' ! i)) = Some (snd (r' ! i))"
      by (simp add: map_of_eq_Some_iff)
    moreover from keys i len have "fst (r ! i) = fst (r' ! i)" by (metis nth_map)
    ultimately show ?thesis using ra(2) rb(2) eq by (metis sorted_distinct_set_unique)
  qed
  then have "map snd r = map snd r'"
    using keys by (metis length_map nth_equalityI nth_map)
  with keys show ?thesis by (metis zip_map_fst_snd)
qed

section \<open>Egress decisions\<close>

definition egress_permitted ::
  "decision_validity \<Rightarrow> decision_validity \<Rightarrow> egress_manifest \<Rightarrow> string option \<Rightarrow> string
     \<Rightarrow> classification_binding option list \<Rightarrow> sensitivity_assessment \<Rightarrow> string \<Rightarrow> bool" where
  "egress_permitted validity current manifest dest kind classifications sensitivity now =
     (validity = current
      \<and> open_interval ''1970-01-01T00:00:00Z'' (Some (dv_valid_until validity)) now = Inr True
      \<and> dv_material_manifest_fingerprint validity = em_fingerprint manifest
      \<and> dest = dv_destination_binding_fingerprint validity
      \<and> (kind = ''EXTERNAL_PROVIDER'' \<longrightarrow> (\<forall>b \<in> set classifications. blocks_external now b = Inr False))
      \<and> sa_result sensitivity \<noteq> ''INDETERMINATE''
      \<and> sa_result sensitivity \<noteq> ''ADDITIONAL_RESTRICTION_REQUIRED'')"

lemma egress_outcome_allow_iff:
  "(\<exists>res reason. egress_outcome v cur m d kd cs sa now con = Inr (res, reason)
       \<and> res \<in> {''ALLOW_AS_IS'', ''ALLOW_WITH_CONSTRAINTS''})
     \<longleftrightarrow> egress_permitted v cur m d kd cs sa now"
  (is "?l \<longleftrightarrow> ?r")
proof
  assume ?l
  then show ?r
    by (auto simp: egress_outcome_def egress_permitted_def decision_validity_is_valid_def result_simps any_r_False_iff
        split: if_splits)
next
  assume ?r
  then show ?l
    using any_r_False_iff [of "blocks_external now" cs]
    by (auto simp: egress_outcome_def egress_permitted_def decision_validity_is_valid_def)
qed

lemma evaluate_egress_Inr:
  "evaluate_egress v cur m d kd cs sa now con = Inr e \<Longrightarrow>
     egress_outcome v cur m d kd cs sa now con = Inr (ed_result e, ed_reason e)"
  by (auto simp: evaluate_egress_def Let_def result_simps)

lemma provider_send_authorize_iff:
  "provider_send_authorize d cur ex = Inr () \<longleftrightarrow>
     ed_result d \<in> {''ALLOW_AS_IS'', ''ALLOW_WITH_CONSTRAINTS''} \<and> cur = ex"
  by (auto simp: provider_send_authorize_def)

end
