(* ===== verification/Auth_Interfaces.thy ===== *)
theory Auth_Interfaces
  imports Timestamps
begin

text \<open>
  The contracts the authorization service relies on, as locales: the replay guard, the rate
  limiter, the principal registry and the policy epoch. Each has an in-memory provider
  (\<open>Request_Auth\<close>) and a SQLite provider (\<open>Control_Plane\<close>); what follows from a contract is proved
  once, here.
\<close>

section \<open>Sequences of calls\<close>

text \<open>Run a fallible operation over a list of calls, collecting the answers.\<close>

fun run_calls :: "('s \<Rightarrow> 'c \<Rightarrow> (bool \<times> 's) result) \<Rightarrow> 's \<Rightarrow> 'c list \<Rightarrow> bool list result" where
  "run_calls f s [] = Inr []"
| "run_calls f s (c # cs) =
     bind_result (f s c) (\<lambda>(b, s'). map_result (\<lambda>bs. b # bs) (run_calls f s' cs))"

lemma run_calls_ConsE:
  assumes "run_calls f s (c # cs) = Inr bs"
  obtains b s' bs' where "f s c = Inr (b, s')" "run_calls f s' cs = Inr bs'" "bs = b # bs'"
  using assms by (auto simp: result_simps split: prod.splits)

lemma run_calls_length: "run_calls f s cs = Inr bs \<Longrightarrow> length bs = length cs"
  by (induction cs arbitrary: s bs) (auto elim!: run_calls_ConsE simp del: run_calls.simps(2))

section \<open>Replay guard\<close>

text \<open>One call: request id, fingerprint, expiry, current time.\<close>

type_synonym guard_call = "string \<times> string \<times> instant \<times> instant"

abbreviation call_id :: "guard_call \<Rightarrow> string" where "call_id c \<equiv> fst c"
abbreviation call_expiry :: "guard_call \<Rightarrow> instant" where "call_expiry c \<equiv> fst (snd (snd c))"
abbreviation call_now :: "guard_call \<Rightarrow> instant" where "call_now c \<equiv> snd (snd (snd c))"

definition guard_step ::
  "('g \<Rightarrow> string \<Rightarrow> string \<Rightarrow> instant \<Rightarrow> instant \<Rightarrow> (bool \<times> 'g) result) \<Rightarrow> 'g \<Rightarrow> guard_call
     \<Rightarrow> (bool \<times> 'g) result" where
  "guard_step consume g c = (case c of (rid, fp, expiry, now) \<Rightarrow> consume g rid fp expiry now)"

definition within_capacity :: "nat \<Rightarrow> int option \<Rightarrow> bool" where
  "within_capacity n cap = (case cap of None \<Rightarrow> True | Some c \<Rightarrow> int n \<le> c)"

locale replay_guard_contract =
  fixes consume :: "'g \<Rightarrow> string \<Rightarrow> string \<Rightarrow> instant \<Rightarrow> instant \<Rightarrow> (bool \<times> 'g) result"
    and live :: "'g \<Rightarrow> instant \<Rightarrow> string \<Rightarrow> bool"
    and load :: "'g \<Rightarrow> nat"
    and capacity :: "'g \<Rightarrow> int option"
    and invar :: "'g \<Rightarrow> bool"
  assumes total: "invar g \<Longrightarrow> \<exists>b g'. consume g rid fp expiry now = Inr (b, g')"
    and invar_consume: "invar g \<Longrightarrow> consume g rid fp expiry now = Inr (b, g') \<Longrightarrow> invar g'"
    and load_consume: "invar g \<Longrightarrow> consume g rid fp expiry now = Inr (b, g') \<Longrightarrow> load g' \<le> Suc (load g)"
    and capacity_consume: "invar g \<Longrightarrow> consume g rid fp expiry now = Inr (b, g') \<Longrightarrow> capacity g' = capacity g"
    and live_refused: "invar g \<Longrightarrow> live g now rid \<Longrightarrow> consume g rid fp expiry now = Inr (b, g') \<Longrightarrow> \<not> b"
    and accepted_live: "invar g \<Longrightarrow> consume g rid fp expiry now = Inr (True, g') \<Longrightarrow> t < expiry \<Longrightarrow> live g' t rid"
    and live_kept: "invar g \<Longrightarrow> consume g rid fp expiry now = Inr (b, g') \<Longrightarrow>
      within_capacity (Suc (load g)) (capacity g) \<Longrightarrow> now \<le> t \<Longrightarrow> live g t i \<Longrightarrow> live g' t i"
begin

lemma step_capacity:
  assumes "invar g" "guard_step consume g c = Inr (b, g')" "within_capacity (load g + Suc n) (capacity g)"
  shows "invar g' \<and> within_capacity (load g' + n) (capacity g')"
proof -
  obtain rid fp expiry now where c: "c = (rid, fp, expiry, now)" by (cases c) auto
  with assms have cons: "consume g rid fp expiry now = Inr (b, g')" by (simp add: guard_step_def)
  from load_consume [OF assms(1) cons] capacity_consume [OF assms(1) cons] assms(3)
  have "within_capacity (load g' + n) (capacity g')"
    by (auto simp: within_capacity_def split: option.splits)
  with invar_consume [OF assms(1) cons] show ?thesis by simp
qed

lemma run_total: "invar g \<Longrightarrow> \<exists>bs. run_calls (guard_step consume) g cs = Inr bs"
proof (induction cs arbitrary: g)
  case (Cons c cs)
  obtain rid fp expiry now where c: "c = (rid, fp, expiry, now)" by (cases c) auto
  from total [OF Cons.prems] obtain b g' where cons: "consume g rid fp expiry now = Inr (b, g')" by blast
  with Cons.IH [OF invar_consume [OF Cons.prems cons]] c show ?case by (auto simp: guard_step_def)
qed simp

lemma live_refused_later:
  "\<lbrakk>invar g; within_capacity (load g + length cs) (capacity g); run_calls (guard_step consume) g cs = Inr bs;
    sorted (map call_now cs); j < length cs; live g (call_now (cs ! j)) (call_id (cs ! j))\<rbrakk> \<Longrightarrow> \<not> bs ! j"
proof (induction cs arbitrary: g bs j)
  case (Cons c cs)
  from Cons.prems(3) obtain b g' bs' where st: "guard_step consume g c = Inr (b, g')"
    and run: "run_calls (guard_step consume) g' cs = Inr bs'" and bs: "bs = b # bs'"
    by (rule run_calls_ConsE)
  obtain rid fp expiry now where c: "c = (rid, fp, expiry, now)" by (cases c) auto
  with st have cons: "consume g rid fp expiry now = Inr (b, g')" by (simp add: guard_step_def)
  show ?case
  proof (cases j)
    case 0
    with Cons.prems c show ?thesis using live_refused [OF Cons.prems(1) _ cons] by (simp add: bs)
  next
    case (Suc k)
    let ?d = "cs ! k"
    from Suc Cons.prems(5) have k: "k < length cs" by simp
    then have "?d \<in> set cs" by simp
    with Cons.prems(4) c have le: "now \<le> call_now ?d" by auto
    have "within_capacity (Suc (load g)) (capacity g)"
      using Cons.prems(2) by (auto simp: within_capacity_def split: option.splits)
    from live_kept [OF Cons.prems(1) cons this le] Cons.prems(6) Suc
    have live': "live g' (call_now ?d) (call_id ?d)" by simp
    have "invar g' \<and> within_capacity (load g' + length cs) (capacity g')"
      using step_capacity [OF Cons.prems(1) st] Cons.prems(2) by simp
    with Cons.IH [OF _ _ run _ k live'] Cons.prems(4) show ?thesis by (simp add: bs Suc)
  qed
qed simp

text \<open>
  Calls in the order of their times: a request id that was accepted is not accepted again before
  its expiry.
\<close>

lemma no_replay:
  "\<lbrakk>invar g; within_capacity (load g + length cs) (capacity g); run_calls (guard_step consume) g cs = Inr bs;
    sorted (map call_now cs); i < j; j < length cs; call_id (cs ! i) = call_id (cs ! j);
    bs ! i; bs ! j\<rbrakk> \<Longrightarrow> call_expiry (cs ! i) \<le> call_now (cs ! j)"
proof (induction cs arbitrary: g bs i j)
  case (Cons c cs)
  from Cons.prems(3) obtain b g' bs' where st: "guard_step consume g c = Inr (b, g')"
    and run: "run_calls (guard_step consume) g' cs = Inr bs'" and bs: "bs = b # bs'"
    by (rule run_calls_ConsE)
  have cap: "invar g' \<and> within_capacity (load g' + length cs) (capacity g')"
    using step_capacity [OF Cons.prems(1) st] Cons.prems(2) by simp
  obtain k where j: "j = Suc k" and k: "k < length cs" using Cons.prems(5,6) by (cases j) auto
  show ?case
  proof (cases i)
    case 0
    obtain rid fp expiry now where c: "c = (rid, fp, expiry, now)" by (cases c) auto
    with st have cons: "consume g rid fp expiry now = Inr (b, g')" by (simp add: guard_step_def)
    from 0 Cons.prems(8) bs have b by simp
    show ?thesis
    proof (rule ccontr)
      assume "\<not> ?thesis"
      with 0 j c have "call_now (cs ! k) < expiry" by simp
      from accepted_live [OF Cons.prems(1) _ this] cons \<open>b\<close>
      have "live g' (call_now (cs ! k)) rid" by simp
      with Cons.prems(7) 0 j c have "live g' (call_now (cs ! k)) (call_id (cs ! k))" by simp
      from live_refused_later [OF _ _ run _ k this] cap Cons.prems(4,9) show False
        by (simp add: bs j)
    qed
  next
    case (Suc i')
    with Cons.IH [OF _ _ run, of i' k] cap Cons.prems j show ?thesis by (simp add: bs)
  qed
qed simp

end

section \<open>Rate limiter\<close>

text \<open>
  The window a call at time \<open>t\<close> is counted in: the stored one, or a new one when there is none or
  the stored one is over.
\<close>

definition effective_window :: "int \<Rightarrow> (instant \<times> int) option \<Rightarrow> instant \<Rightarrow> instant \<times> int" where
  "effective_window width w t =
     (case w of None \<Rightarrow> (t, 0)
      | Some (start, count) \<Rightarrow> if t - start \<ge> width then (t, 0) else (start, count))"

fun run_limiter :: "('l \<Rightarrow> string \<Rightarrow> instant \<Rightarrow> bool \<times> 'l) \<Rightarrow> 'l \<Rightarrow> (string \<times> instant) list \<Rightarrow> bool list" where
  "run_limiter f l [] = []"
| "run_limiter f l ((k, t) # cs) = (case f l k t of (b, l') \<Rightarrow> b # run_limiter f l' cs)"

text \<open>How many calls for a key were admitted.\<close>

fun admitted :: "string \<Rightarrow> (string \<times> instant) list \<Rightarrow> bool list \<Rightarrow> int" where
  "admitted k ((k', t) # cs) (b # bs) = of_bool (k' = k \<and> b) + admitted k cs bs"
| "admitted k _ _ = 0"

text \<open>Every stored count lies between zero and the limit.\<close>

definition counts_within :: "int \<Rightarrow> (string \<Rightarrow> (instant \<times> int) option) \<Rightarrow> bool" where
  "counts_within lim w = (0 \<le> lim \<and> (\<forall>k s c. w k = Some (s, c) \<longrightarrow> 0 \<le> c \<and> c \<le> lim))"

locale rate_limiter_contract =
  fixes consume :: "'l \<Rightarrow> string \<Rightarrow> instant \<Rightarrow> bool \<times> 'l"
    and window :: "'l \<Rightarrow> string \<Rightarrow> (instant \<times> int) option"
    and limit :: "'l \<Rightarrow> int"
    and width :: "'l \<Rightarrow> int"
  assumes policy_kept: "consume l k t = (b, l') \<Longrightarrow> limit l' = limit l \<and> width l' = width l"
    and other_keys: "consume l k t = (b, l') \<Longrightarrow> k' \<noteq> k \<Longrightarrow> window l' k' = window l k'"
    and own_key: "consume l k t = (b, l') \<Longrightarrow> effective_window (width l) (window l k) t = (s, c) \<Longrightarrow>
      b = (c < limit l) \<and> window l' k = Some (s, if c < limit l then c + 1 else c)"
begin

lemma counts_ok_consume:
  assumes "counts_within (limit l) (window l)" "consume l k t = (b, l')"
  shows "counts_within (limit l') (window l')"
proof -
  obtain s c where eff: "effective_window (width l) (window l k) t = (s, c)" by fastforce
  from assms(1) eff have c: "0 \<le> c" "c \<le> limit l"
    by (auto simp: counts_within_def effective_window_def split: option.splits if_splits prod.splits)
  have "0 \<le> c' \<and> c' \<le> limit l" if "window l' k' = Some (s', c')" for k' s' c'
  proof (cases "k' = k")
    case True
    with that own_key [OF assms(2) eff] c show ?thesis by (auto split: if_splits)
  next
    case False
    with that other_keys [OF assms(2)] assms(1) show ?thesis by (auto simp: counts_within_def)
  qed
  with policy_kept [OF assms(2)] assms(1) show ?thesis by (auto simp: counts_within_def)
qed

text \<open>What may still be admitted for a key at times in \<open>[a, a + width)\<close>.\<close>

definition budget :: "'l \<Rightarrow> string \<Rightarrow> instant \<Rightarrow> int" where
  "budget l k a =
     (case window l k of None \<Rightarrow> limit l
      | Some (s, c) \<Rightarrow> if a \<le> s then limit l - c else 2 * limit l - c)"

lemma budget_consume:
  assumes "counts_within (limit l) (window l)" "consume l k t = (b, l')" "a \<le> t" "t < a + width l"
  shows "of_bool b + budget l' k a \<le> budget l k a"
proof -
  obtain s c where eff: "effective_window (width l) (window l k) t = (s, c)" by fastforce
  from own_key [OF assms(2) eff] have b: "b = (c < limit l)"
    and w: "window l' k = Some (s, if c < limit l then c + 1 else c)" by auto
  show ?thesis
  proof (cases "window l k")
    case None
    with eff have "s = t" "c = 0" by (auto simp: effective_window_def)
    with None w b assms show ?thesis
      using policy_kept [OF assms(2)] by (auto simp: budget_def counts_within_def)
  next
    case (Some sc)
    obtain s0 c0 where sc: "sc = (s0, c0)" by (cases sc)
    with Some assms(1) have c0: "0 \<le> c0" "c0 \<le> limit l" by (auto simp: counts_within_def)
    from Some sc eff have "(s, c) = (if t - s0 \<ge> width l then (t, 0) else (s0, c0))"
      by (simp add: effective_window_def)
    with Some sc w b c0 assms(3,4) show ?thesis
      using policy_kept [OF assms(2)] by (auto simp: budget_def split: if_splits)
  qed
qed

lemma admitted_le_budget:
  "\<lbrakk>counts_within (limit l) (window l); \<forall>(k', t) \<in> set cs. k' = k \<longrightarrow> a \<le> t \<and> t < a + width l\<rbrakk> \<Longrightarrow>
     admitted k cs (run_limiter consume l cs) \<le> budget l k a"
proof (induction cs arbitrary: l)
  case Nil
  then show ?case by (auto simp: budget_def counts_within_def split: option.splits) fastforce
next
  case (Cons kt cs)
  obtain k' t where kt: "kt = (k', t)" by (cases kt)
  obtain b l' where c: "consume l k' t = (b, l')" by fastforce
  note ok = counts_ok_consume [OF Cons.prems(1) c]
  from Cons.prems(2) policy_kept [OF c] kt
  have "\<forall>(k', t) \<in> set cs. k' = k \<longrightarrow> a \<le> t \<and> t < a + width l'" by auto
  from Cons.IH [OF ok this] have IH: "admitted k cs (run_limiter consume l' cs) \<le> budget l' k a" .
  show ?case
  proof (cases "k' = k")
    case True
    with Cons.prems(2) kt have "a \<le> t" "t < a + width l" by auto
    from budget_consume [OF Cons.prems(1) _ this] c True IH show ?thesis by (fastforce simp: kt)
  next
    case False
    then have "budget l' k a = budget l k a"
      using other_keys [OF c, of k] policy_kept [OF c] by (simp add: budget_def split: option.splits)
    with IH c False show ?thesis by (simp add: kt)
  qed
qed

lemma admitted_le_twice_limit:
  assumes "counts_within (limit l) (window l)" "\<forall>(k', t) \<in> set cs. k' = k \<longrightarrow> a \<le> t \<and> t < a + width l"
  shows "admitted k cs (run_limiter consume l cs) \<le> 2 * limit l"
proof -
  have "budget l k a \<le> 2 * limit l"
    using assms(1) by (auto simp: budget_def counts_within_def split: option.splits) fastforce+
  with admitted_le_budget [OF assms] show ?thesis by linarith
qed

lemma admitted_le_limit_fresh:
  assumes "counts_within (limit l) (window l)" "window l k = None" "\<forall>(k', t) \<in> set cs. k' = k \<longrightarrow> a \<le> t \<and> t < a + width l"
  shows "admitted k cs (run_limiter consume l cs) \<le> limit l"
  using admitted_le_budget [OF assms(1,3)] assms(2) by (simp add: budget_def)

end

section \<open>Principal registry\<close>

text \<open>Registrations in sequence; a refused one leaves the registry as it was.\<close>

fun register_all :: "('r \<Rightarrow> 'p \<Rightarrow> 'r result) \<Rightarrow> 'r \<Rightarrow> 'p list \<Rightarrow> 'r" where
  "register_all reg r [] = r"
| "register_all reg r (p # ps) = register_all reg (case reg r p of Inl _ \<Rightarrow> r | Inr r' \<Rightarrow> r') ps"

locale registry_contract =
  fixes register :: "'r \<Rightarrow> 'p \<Rightarrow> 'r result"
    and resolve :: "'r \<Rightarrow> string option \<Rightarrow> 'p option result"
    and auth_ref :: "'p \<Rightarrow> string"
    and fingerprint :: "'p \<Rightarrow> string"
    and well_formed :: "'p \<Rightarrow> bool"
    and invar :: "'r \<Rightarrow> bool"
  assumes resolve_blank: "resolve r None = Inr None" "resolve r (Some []) = Inr None"
    and invar_register: "invar r \<Longrightarrow> well_formed p \<Longrightarrow> register r p = Inr r' \<Longrightarrow> invar r'"
    and register_resolve: "invar r \<Longrightarrow> well_formed p \<Longrightarrow> register r p = Inr r' \<Longrightarrow>
      \<exists>q. resolve r' (Some (auth_ref p)) = Inr (Some q) \<and> fingerprint q = fingerprint p"
    and register_frame: "register r p = Inr r' \<Longrightarrow> a \<noteq> auth_ref p \<Longrightarrow>
      resolve r' (Some a) = resolve r (Some a)"
    and no_rebind: "invar r \<Longrightarrow> well_formed p \<Longrightarrow> resolve r (Some (auth_ref p)) = Inr (Some q) \<Longrightarrow>
      fingerprint q \<noteq> fingerprint p \<Longrightarrow> \<exists>e. register r p = Inl e"
begin

text \<open>A reference that resolves keeps its fingerprint whatever is registered later.\<close>

lemma binding_stable:
  "\<lbrakk>invar r; \<forall>p \<in> set ps. well_formed p; resolve r (Some a) = Inr (Some q)\<rbrakk> \<Longrightarrow>
     \<exists>q'. resolve (register_all register r ps) (Some a) = Inr (Some q') \<and> fingerprint q' = fingerprint q"
proof (induction ps arbitrary: r q)
  case (Cons p ps)
  show ?case
  proof (cases "register r p")
    case (Inl e)
    with Cons show ?thesis by simp
  next
    case (Inr r')
    have inv': "invar r'" using invar_register [OF Cons.prems(1) _ Inr] Cons.prems(2) by simp
    obtain q1 where q1: "resolve r' (Some a) = Inr (Some q1)" "fingerprint q1 = fingerprint q"
    proof (cases "a = auth_ref p")
      case True
      with no_rebind [of r p q] Cons.prems Inr have "fingerprint q = fingerprint p" by auto
      with register_resolve [of r p r'] Cons.prems Inr True that show ?thesis by auto
    next
      case False
      with register_frame [OF Inr] Cons.prems that show ?thesis by simp
    qed
    from Cons.IH [OF inv' _ q1(1)] Cons.prems Inr q1(2) show ?thesis by simp
  qed
qed simp

end

section \<open>Policy epoch\<close>

fun advance_all :: "('e \<Rightarrow> int \<Rightarrow> 'e result) \<Rightarrow> 'e \<Rightarrow> int list \<Rightarrow> 'e" where
  "advance_all adv e [] = e"
| "advance_all adv e (n # ns) = advance_all adv (case adv e n of Inl _ \<Rightarrow> e | Inr e' \<Rightarrow> e') ns"

locale policy_epoch_contract =
  fixes get_epoch :: "'e \<Rightarrow> int result"
    and advance :: "'e \<Rightarrow> int \<Rightarrow> 'e result"
  assumes advance_get: "advance e n = Inr e' \<Longrightarrow> get_epoch e' = Inr n"
    and advance_forward: "advance e n = Inr e' \<Longrightarrow> \<exists>c. get_epoch e = Inr c \<and> c \<le> n"
begin

lemma epoch_monotone:
  "get_epoch e = Inr c \<Longrightarrow> \<exists>c'. get_epoch (advance_all advance e ns) = Inr c' \<and> c \<le> c'"
proof (induction ns arbitrary: e c)
  case (Cons n ns)
  show ?case
  proof (cases "advance e n")
    case (Inl x)
    with Cons show ?thesis by simp
  next
    case (Inr e')
    from advance_forward [OF Inr] Cons.prems have "c \<le> n" by simp
    with Cons.IH [OF advance_get [OF Inr]] Inr show ?thesis by fastforce
  qed
qed simp

end

end
