(* ===== verification/Request_Auth.thy ===== *)
theory Request_Auth
  imports Security Auth_Interfaces
begin

text \<open>
  \<^verbatim>\<open>pmiri/request_auth.py\<close>: attestations and principals, the in-memory registry, replay guard and
  rate limiter, the request binding, and the authorization service. The service is written over a
  record of adapter operations, as the source calls whatever registry, limiter, guard and epoch
  store it was constructed with; \<open>Control_Plane\<close> supplies the SQLite adapters.

  Clock readings are arguments: \<open>current\<close> is the time stamp \<^verbatim>\<open>now or utc_now()\<close>, \<open>clock\<close> the
  reading of the rate limiter's clock in microseconds.
\<close>

section \<open>Attestations and principals\<close>

definition ACTIVE :: string where "ACTIVE = ''ACTIVE''"
definition READ_OPERATION :: string where "READ_OPERATION = ''read''"
definition AUTHORIZATION_ALLOW :: string where "AUTHORIZATION_ALLOW = ''ALLOW''"
definition AUTHORIZATION_DENY :: string where "AUTHORIZATION_DENY = ''DENY''"

record trust_zone_attestation =
  ta_attestation_id :: string
  ta_principal_ref :: string
  ta_zone_id :: string
  ta_issuer_ref :: string
  ta_evidence_refs :: "string list"
  ta_issued_at :: string
  ta_valid_until :: string
  ta_status :: string
  ta_fingerprint :: string

definition attestation_payload ::
  "string \<Rightarrow> string \<Rightarrow> string \<Rightarrow> string list \<Rightarrow> string \<Rightarrow> string \<Rightarrow> string \<Rightarrow> json" where
  "attestation_payload pr zone issuer refs issued until status = JObj
     [(''principal_ref'', JStr pr),
      (''zone_id'', JStr zone),
      (''issuer_ref'', JStr issuer),
      (''evidence_refs'', jstrs refs),
      (''issued_at'', JStr issued),
      (''valid_until'', JStr until),
      (''status'', JStr status)]"

definition issue_attestation ::
  "string \<Rightarrow> string \<Rightarrow> string \<Rightarrow> string list \<Rightarrow> string \<Rightarrow> string \<Rightarrow> string
     \<Rightarrow> trust_zone_attestation result" where
  "issue_attestation pr zone issuer evidence issued until status =
     (let refs = sorted_set evidence in
      if pr = [] \<or> zone = [] \<or> issuer = [] \<or> issued = [] \<or> until = []
      then raise RequestAuthorizationError ''trust_zone_attestation_missing''
      else bind_result (if refs = [] \<or> status \<noteq> ACTIVE then Inr False else valid_interval issued until issued) (\<lambda>ok.
      if \<not> ok then raise RequestAuthorizationError ''trust_zone_attestation_invalid''
      else let fp = sha256_json (attestation_payload pr zone issuer refs issued until status)
           in Inr \<lparr>ta_attestation_id = ''trust-attestation://'' @ take 32 fp,
                   ta_principal_ref = pr, ta_zone_id = zone, ta_issuer_ref = issuer,
                   ta_evidence_refs = refs, ta_issued_at = issued, ta_valid_until = until,
                   ta_status = status, ta_fingerprint = fp\<rparr>))"

definition attestation_is_valid :: "trust_zone_attestation \<Rightarrow> string \<Rightarrow> string \<Rightarrow> bool result" where
  "attestation_is_valid a pr now =
     (if ta_status a = ACTIVE \<and> ta_principal_ref a = pr
      then valid_interval (ta_issued_at a) (ta_valid_until a) now else Inr False)"

record authenticated_principal =
  ap_authentication_ref :: string
  ap_principal_ref :: string
  ap_principal_type :: string
  ap_service_principal_ref :: string
  ap_workload_principal_ref :: "string option"
  ap_human_principal_ref :: "string option"
  ap_trust_zone_attestation :: trust_zone_attestation
  ap_allowed_projects :: "string list"
  ap_allowed_operations :: "string list"
  ap_allowed_purposes :: "string list"
  ap_delegation_grant_refs :: "string list"
  ap_policy_bundle_ref :: string
  ap_policy_version :: string
  ap_policy_epoch :: int
  ap_issued_at :: string
  ap_valid_until :: string
  ap_status :: string
  ap_fingerprint :: string

text \<open>The fingerprinted fields of a principal; its own fingerprint is not among them.\<close>

definition principal_payload :: "authenticated_principal \<Rightarrow> json" where
  "principal_payload p = JObj
     [(''authentication_ref'', JStr (ap_authentication_ref p)),
      (''principal_ref'', JStr (ap_principal_ref p)),
      (''principal_type'', JStr (ap_principal_type p)),
      (''service_principal_ref'', JStr (ap_service_principal_ref p)),
      (''workload_principal_ref'', jopt (ap_workload_principal_ref p)),
      (''human_principal_ref'', jopt (ap_human_principal_ref p)),
      (''trust_zone_attestation_fingerprint'', JStr (ta_fingerprint (ap_trust_zone_attestation p))),
      (''allowed_projects'', jstrs (ap_allowed_projects p)),
      (''allowed_operations'', jstrs (ap_allowed_operations p)),
      (''allowed_purposes'', jstrs (ap_allowed_purposes p)),
      (''delegation_grant_refs'', jstrs (ap_delegation_grant_refs p)),
      (''policy_bundle_ref'', JStr (ap_policy_bundle_ref p)),
      (''policy_version'', JStr (ap_policy_version p)),
      (''policy_epoch'', JInt (ap_policy_epoch p)),
      (''issued_at'', JStr (ap_issued_at p)),
      (''valid_until'', JStr (ap_valid_until p)),
      (''status'', JStr (ap_status p))]"

text \<open>
  \<^verbatim>\<open>AuthenticatedPrincipal.verified\<close>: the keyword arguments are the fields of a draft record,
  whose tuples are sorted and whose fingerprint is computed.
\<close>

definition verified :: "authenticated_principal \<Rightarrow> authenticated_principal result" where
  "verified d =
     (let p = d\<lparr>ap_allowed_projects := sorted_set (ap_allowed_projects d),
                ap_allowed_operations := sorted_set (ap_allowed_operations d),
                ap_allowed_purposes := sorted_set (ap_allowed_purposes d),
                ap_delegation_grant_refs := sorted_set (ap_delegation_grant_refs d)\<rparr>
      in if ap_authentication_ref p = [] \<or> ap_principal_ref p = [] \<or> ap_principal_type p = []
            \<or> ap_service_principal_ref p = [] \<or> ap_policy_bundle_ref p = [] \<or> ap_policy_version p = []
            \<or> ap_issued_at p = [] \<or> ap_valid_until p = []
         then raise RequestAuthorizationError ''principal_required_field_missing''
         else if ap_allowed_projects p = [] \<or> ap_allowed_operations p = [] \<or> ap_allowed_purposes p = []
                 \<or> [] \<in> set (ap_allowed_projects p @ ap_allowed_operations p @ ap_allowed_purposes p)
         then raise RequestAuthorizationError ''principal_authority_empty''
         else if ap_policy_epoch p < 0 \<or> ap_status p \<noteq> ACTIVE
         then raise RequestAuthorizationError ''principal_state_invalid''
         else if ta_principal_ref (ap_trust_zone_attestation p) \<noteq> ap_principal_ref p
         then raise RequestAuthorizationError ''trust_zone_principal_mismatch''
         else bind_result (valid_interval (ap_issued_at p) (ap_valid_until p) (ap_issued_at p)) (\<lambda>ok.
         if \<not> ok then raise RequestAuthorizationError ''principal_validity_invalid''
         else Inr (p\<lparr>ap_fingerprint := sha256_json (principal_payload p)\<rparr>)))"

definition principal_trust_zone :: "authenticated_principal \<Rightarrow> string" where
  "principal_trust_zone p = ta_zone_id (ap_trust_zone_attestation p)"

definition principal_is_valid :: "authenticated_principal \<Rightarrow> string \<Rightarrow> int \<Rightarrow> bool result" where
  "principal_is_valid p now epoch =
     (if ap_status p = ACTIVE \<and> ap_policy_epoch p = epoch
      then bind_result (valid_interval (ap_issued_at p) (ap_valid_until p) now) (\<lambda>ok.
        if ok then attestation_is_valid (ap_trust_zone_attestation p) (ap_principal_ref p) now else Inr False)
      else Inr False)"

lemma principal_is_valid_iff:
  "principal_is_valid p now epoch = Inr True \<longleftrightarrow>
     ap_status p = ACTIVE \<and> ap_policy_epoch p = epoch
     \<and> valid_interval (ap_issued_at p) (ap_valid_until p) now = Inr True
     \<and> attestation_is_valid (ap_trust_zone_attestation p) (ap_principal_ref p) now = Inr True"
  by (auto simp: principal_is_valid_def result_simps split: if_splits)

section \<open>AuthenticationRegistry\<close>

type_synonym registry = "string \<rightharpoonup> authenticated_principal"

definition registry_init :: registry where
  "registry_init = Map.empty"

definition registry_register :: "registry \<Rightarrow> authenticated_principal \<Rightarrow> registry result" where
  "registry_register r p =
     (case r (ap_authentication_ref p) of
        Some existing \<Rightarrow>
          if ap_fingerprint existing \<noteq> ap_fingerprint p
          then raise RequestAuthorizationError ''authentication_reference_rebound''
          else Inr (r(ap_authentication_ref p \<mapsto> p))
      | None \<Rightarrow> Inr (r(ap_authentication_ref p \<mapsto> p)))"

definition registry_resolve :: "registry \<Rightarrow> string option \<Rightarrow> authenticated_principal option" where
  "registry_resolve r a =
     (case a of None \<Rightarrow> None | Some s \<Rightarrow> if s = [] then None else r s)"

section \<open>ReplayGuard\<close>

text \<open>
  \<^verbatim>\<open>_seen\<close> is an insertion-ordered dictionary from a request id to its fingerprint and expiry;
  \<^verbatim>\<open>_order\<close> is the deque of ids, oldest first.
\<close>

record replay_guard =
  rg_max_entries :: int
  rg_seen :: "(string \<times> string \<times> instant) list"
  rg_order :: "string list"

definition replay_guard_init :: "int \<Rightarrow> replay_guard result" where
  "replay_guard_init n =
     (if n < 1 then raise ValueError ''replay_guard_capacity_invalid''
      else Inr \<lparr>rg_max_entries = n, rg_seen = [], rg_order = []\<rparr>)"

definition dict_pop :: "'k \<Rightarrow> ('k \<times> 'v) list \<Rightarrow> ('k \<times> 'v) list" where
  "dict_pop k d = filter (\<lambda>kv. fst kv \<noteq> k) d"

fun purge_front ::
  "instant \<Rightarrow> string list \<Rightarrow> (string \<times> string \<times> instant) list
     \<Rightarrow> string list \<times> (string \<times> string \<times> instant) list" where
  "purge_front now [] seen = ([], seen)"
| "purge_front now (r # rs) seen =
     (if (case map_of seen r of Some (fp, ex) \<Rightarrow> ex | None \<Rightarrow> 0) \<le> now
      then purge_front now rs (dict_pop r seen)
      else (r # rs, seen))"

definition guard_consume_at ::
  "replay_guard \<Rightarrow> string \<Rightarrow> string \<Rightarrow> instant \<Rightarrow> instant \<Rightarrow> (bool \<times> replay_guard) result" where
  "guard_consume_at g rid fp expiry now =
     (let (order, seen) = purge_front now (rg_order g) (rg_seen g);
          g1 = g\<lparr>rg_order := order, rg_seen := seen\<rparr>
      in if map_of seen rid \<noteq> None then Inr (False, g1)
         else if int (length seen) \<ge> rg_max_entries g
         then (case order of
                 [] \<Rightarrow> raise IndexError ''pop from an empty deque''
               | old # order' \<Rightarrow>
                   Inr (True, g1\<lparr>rg_order := order' @ [rid],
                                  rg_seen := dict_put rid (fp, expiry) (dict_pop old seen)\<rparr>))
         else Inr (True, g1\<lparr>rg_order := order @ [rid], rg_seen := dict_put rid (fp, expiry) seen\<rparr>))"

definition guard_consume ::
  "replay_guard \<Rightarrow> string \<Rightarrow> string \<Rightarrow> string \<Rightarrow> string \<Rightarrow> (bool \<times> replay_guard) result" where
  "guard_consume g rid fp expires_at now =
     bind_result (epoch_seconds now) (\<lambda>now_epoch.
     bind_result (epoch_seconds expires_at) (\<lambda>expiry.
       guard_consume_at g rid fp expiry now_epoch))"

section \<open>FixedWindowRateLimiter\<close>

record rate_limiter =
  rl_max_requests :: int
  rl_window_seconds :: int
  rl_windows :: "string \<rightharpoonup> instant \<times> int"

definition rate_limiter_init :: "int \<Rightarrow> int \<Rightarrow> rate_limiter result" where
  "rate_limiter_init max_requests window_seconds =
     (if max_requests < 1 \<or> window_seconds < 1 then raise ValueError ''rate_limit_policy_invalid''
      else Inr \<lparr>rl_max_requests = max_requests, rl_window_seconds = window_seconds, rl_windows = Map.empty\<rparr>)"

definition limiter_consume :: "rate_limiter \<Rightarrow> string \<Rightarrow> instant \<Rightarrow> bool \<times> rate_limiter" where
  "limiter_consume l key current =
     (let (start0, count0) = (case rl_windows l key of None \<Rightarrow> (current, 0) | Some w \<Rightarrow> w);
          (start, count) = (if current - start0 \<ge> rl_window_seconds l * 1000000
                            then (current, 0) else (start0, count0))
      in if count \<ge> rl_max_requests l
         then (False, l\<lparr>rl_windows := (rl_windows l)(key \<mapsto> (start, count))\<rparr>)
         else (True, l\<lparr>rl_windows := (rl_windows l)(key \<mapsto> (start, count + 1))\<rparr>))"

section \<open>RequestAuthorizationBinding\<close>

record request_binding =
  rb_binding_id :: string
  rb_request_id :: string
  rb_request_fingerprint :: string
  rb_authentication_ref :: string
  rb_principal_ref :: string
  rb_subject_chain_fingerprint :: string
  rb_trust_zone_attestation_fingerprint :: string
  rb_trust_zone :: string
  rb_purpose_binding_fingerprint :: string
  rb_operation :: string
  rb_purpose :: string
  rb_project_constraint :: string
  rb_policy_bundle_ref :: string
  rb_policy_version :: string
  rb_policy_epoch :: int
  rb_issued_at :: string
  rb_valid_until :: string
  rb_fingerprint :: string

definition public_lineage :: "request_binding \<Rightarrow> dict" where
  "public_lineage b =
     [(''authorization_ref'', JStr (''auth_'' @ take 32 (sha256_json (JObj
         [(''request_fingerprint'', JStr (rb_request_fingerprint b)),
          (''scope'', JStr ''server-derived-local-read'')])))),
      (''request_fingerprint'', JStr (rb_request_fingerprint b)),
      (''scope'', JStr (rb_project_constraint b))]"

definition binding_is_valid :: "request_binding \<Rightarrow> string \<Rightarrow> int \<Rightarrow> bool result" where
  "binding_is_valid b now epoch =
     (if rb_policy_epoch b = epoch then valid_interval (rb_issued_at b) (rb_valid_until b) now else Inr False)"

lemma binding_is_valid_iff:
  "binding_is_valid b now epoch = Inr True \<longleftrightarrow>
     rb_policy_epoch b = epoch \<and> valid_interval (rb_issued_at b) (rb_valid_until b) now = Inr True"
  by (simp add: binding_is_valid_def)

text \<open>The fingerprinted fields of a binding for the normalized request \<open>n\<close>.\<close>

definition binding_payload :: "dict \<Rightarrow> request_binding \<Rightarrow> json" where
  "binding_payload n b = JObj
     [(''request'', JObj n),
      (''authentication_ref'', JStr (rb_authentication_ref b)),
      (''principal_ref'', JStr (rb_principal_ref b)),
      (''subject_chain_fingerprint'', JStr (rb_subject_chain_fingerprint b)),
      (''trust_zone_attestation_fingerprint'', JStr (rb_trust_zone_attestation_fingerprint b)),
      (''trust_zone'', JStr (rb_trust_zone b)),
      (''purpose_binding_fingerprint'', JStr (rb_purpose_binding_fingerprint b)),
      (''operation'', JStr (rb_operation b)),
      (''project_constraint'', JStr (rb_project_constraint b)),
      (''policy_bundle_ref'', JStr (rb_policy_bundle_ref b)),
      (''policy_version'', JStr (rb_policy_version b)),
      (''policy_epoch'', JInt (rb_policy_epoch b)),
      (''issued_at'', JStr (rb_issued_at b)),
      (''valid_until'', JStr (rb_valid_until b))]"

definition integrity_valid :: "request_binding \<Rightarrow> query_request \<Rightarrow> bool" where
  "integrity_valid b q =
     (case normalized q of
        Inl _ \<Rightarrow> False
      | Inr n \<Rightarrow>
          rb_request_id b = q_request_id q
          \<and> rb_request_fingerprint b = sha256_json (JObj n)
          \<and> rb_fingerprint b = sha256_json (binding_payload n b))"

record authorization_evaluation =
  ev_result :: string
  ev_reason :: string
  ev_binding :: "request_binding option"

definition ev_allowed :: "authorization_evaluation \<Rightarrow> bool" where
  "ev_allowed e = (ev_result e = AUTHORIZATION_ALLOW)"

section \<open>RequestAuthorizationService\<close>

text \<open>
  The operations the service calls on its registry, limiter, guard and epoch store, and its state.
\<close>

record ('r, 'l, 'g, 'e) adapters =
  ad_resolve :: "'r \<Rightarrow> string option \<Rightarrow> authenticated_principal option result"
  ad_limit :: "'l \<Rightarrow> string \<Rightarrow> instant \<Rightarrow> bool \<times> 'l"
  ad_replay :: "'g \<Rightarrow> string \<Rightarrow> string \<Rightarrow> string \<Rightarrow> string \<Rightarrow> (bool \<times> 'g) result"
  ad_epoch :: "'e \<Rightarrow> int result"

record ('r, 'l, 'g, 'e) auth_service =
  sv_registry :: 'r
  sv_limiter :: 'l
  sv_guard :: 'g
  sv_epoch :: 'e
  sv_operation :: string

text \<open>The in-process epoch, used when no epoch store is configured.\<close>

definition local_epoch_get :: "int \<Rightarrow> int result" where
  "local_epoch_get e = Inr e"

definition local_epoch_advance :: "int \<Rightarrow> int \<Rightarrow> int result" where
  "local_epoch_advance cur new_epoch =
     (if new_epoch < cur then raise ValueError ''policy_epoch_cannot_move_backwards'' else Inr new_epoch)"

definition operation_ref :: "string \<Rightarrow> string" where
  "operation_ref oper = ''pmiri://operation/'' @ oper"

definition build_binding ::
  "string \<Rightarrow> query_request \<Rightarrow> authenticated_principal \<Rightarrow> string \<Rightarrow> request_binding result" where
  "build_binding oper q p issued_at =
     bind_result (normalized q) (\<lambda>n.
     bind_result (create_purpose_binding (operation_ref oper) (q_purpose q) (ap_policy_bundle_ref p)) (\<lambda>pb.
     bind_result (verify_requested_purpose pb (Some (q_purpose q))) (\<lambda>_.
     bind_result (derive_subject_chain (ap_service_principal_ref p)
         (ta_attestation_id (ap_trust_zone_attestation p)) (operation_ref oper) (pb_purpose_binding_id pb)
         [[(''project'', Values (ap_allowed_projects p)),
           (''operation'', Values (ap_allowed_operations p)),
           (''purpose'', Values (ap_allowed_purposes p))],
          [(''project'', Values [q_project_constraint q]),
           (''operation'', Values [oper]),
           (''purpose'', Values [q_purpose q])]]
         (ap_human_principal_ref p) (ap_workload_principal_ref p) (ap_delegation_grant_refs p)) (\<lambda>subject.
       let b = \<lparr>rb_binding_id = [],
                rb_request_id = q_request_id q,
                rb_request_fingerprint = sha256_json (JObj n),
                rb_authentication_ref = ap_authentication_ref p,
                rb_principal_ref = ap_principal_ref p,
                rb_subject_chain_fingerprint = subject_chain_fingerprint subject,
                rb_trust_zone_attestation_fingerprint = ta_fingerprint (ap_trust_zone_attestation p),
                rb_trust_zone = principal_trust_zone p,
                rb_purpose_binding_fingerprint = pb_fingerprint pb,
                rb_operation = oper,
                rb_purpose = q_purpose q,
                rb_project_constraint = q_project_constraint q,
                rb_policy_bundle_ref = ap_policy_bundle_ref p,
                rb_policy_version = ap_policy_version p,
                rb_policy_epoch = ap_policy_epoch p,
                rb_issued_at = issued_at,
                rb_valid_until = ap_valid_until p,
                rb_fingerprint = []\<rparr>;
           fp = sha256_json (binding_payload n b)
       in Inr (b\<lparr>rb_binding_id := ''request-auth://'' @ take 32 fp, rb_fingerprint := fp\<rparr>)))))"

definition deny :: "string \<Rightarrow> authorization_evaluation" where
  "deny reason = \<lparr>ev_result = AUTHORIZATION_DENY, ev_reason = reason, ev_binding = None\<rparr>"

text \<open>The handler around \<^verbatim>\<open>evaluate\<close>: the listed exceptions become a denial, others propagate.\<close>

definition handled :: "exc \<Rightarrow> authorization_evaluation result" where
  "handled e = (if caught_tvk e then Inr (deny ''AUTHORIZATION_INVALID'') else Inl e)"

definition limiter_key :: "authenticated_principal \<Rightarrow> string \<Rightarrow> string" where
  "limiter_key p oper = ap_principal_ref p @ '':'' @ oper"

definition evaluate ::
  "('r, 'l, 'g, 'e) adapters \<Rightarrow> ('r, 'l, 'g, 'e) auth_service \<Rightarrow> query_request \<Rightarrow> string option
     \<Rightarrow> string \<Rightarrow> instant \<Rightarrow> authorization_evaluation result \<times> ('r, 'l, 'g, 'e) auth_service" where
  "evaluate ad sv q auth current clock =
     (case normalized q of Inl e \<Rightarrow> (handled e, sv)
      | Inr n \<Rightarrow>
     (case ad_resolve ad (sv_registry sv) auth of Inl e \<Rightarrow> (handled e, sv)
      | Inr None \<Rightarrow> (Inr (deny ''AUTHENTICATION_UNKNOWN''), sv)
      | Inr (Some p) \<Rightarrow>
     (case ad_epoch ad (sv_epoch sv) of Inl e \<Rightarrow> (handled e, sv)
      | Inr epoch \<Rightarrow>
     (case principal_is_valid p current epoch of Inl e \<Rightarrow> (handled e, sv)
      | Inr valid \<Rightarrow>
        if \<not> valid then (Inr (deny ''AUTHORITY_STALE_OR_INVALID''), sv)
        else if q_project_constraint q \<notin> set (ap_allowed_projects p) then (Inr (deny ''SCOPE_MISMATCH''), sv)
        else if sv_operation sv \<notin> set (ap_allowed_operations p) then (Inr (deny ''OPERATION_NOT_ALLOWED''), sv)
        else if q_purpose q \<notin> set (ap_allowed_purposes p) then (Inr (deny ''PURPOSE_NOT_ALLOWED''), sv)
        else let (ok, l) = ad_limit ad (sv_limiter sv) (limiter_key p (sv_operation sv)) clock;
                 sv1 = sv\<lparr>sv_limiter := l\<rparr>
             in if \<not> ok then (Inr (deny ''RATE_LIMITED''), sv1)
                else (case build_binding (sv_operation sv) q p current of Inl e \<Rightarrow> (handled e, sv1)
                 | Inr b \<Rightarrow>
                   (case ad_replay ad (sv_guard sv) (q_request_id q) (rb_fingerprint b) (rb_valid_until b) current of
                      Inl e \<Rightarrow> (handled e, sv1)
                    | Inr (fresh, g) \<Rightarrow>
                        (if fresh
                         then Inr \<lparr>ev_result = AUTHORIZATION_ALLOW, ev_reason = ''NONE'', ev_binding = Some b\<rparr>
                         else Inr (deny ''REQUEST_REPLAY''),
                         sv1\<lparr>sv_guard := g\<rparr>)))))))"

text \<open>\<^verbatim>\<open>revalidate\<close>; the caught exceptions answer no, others propagate.\<close>

definition refused :: "exc \<Rightarrow> bool result" where
  "refused e = (if caught_tvk e then Inr False else Inl e)"

definition revalidate ::
  "('r, 'l, 'g, 'e) adapters \<Rightarrow> ('r, 'l, 'g, 'e) auth_service \<Rightarrow> query_request \<Rightarrow> request_binding
     \<Rightarrow> string \<Rightarrow> bool result" where
  "revalidate ad sv q b current =
     (case normalized q of Inl e \<Rightarrow> refused e
      | Inr n \<Rightarrow>
     (case ad_epoch ad (sv_epoch sv) of Inl e \<Rightarrow> refused e
      | Inr epoch \<Rightarrow>
     (case ad_resolve ad (sv_registry sv) (Some (rb_authentication_ref b)) of Inl e \<Rightarrow> refused e
      | Inr None \<Rightarrow> Inr False
      | Inr (Some p) \<Rightarrow>
     (case principal_is_valid p current epoch of Inl e \<Rightarrow> refused e
      | Inr valid \<Rightarrow>
        if \<not> valid then Inr False
        else if rb_policy_epoch b \<noteq> epoch then Inr False
        else if rb_request_fingerprint b \<noteq> sha256_json (JObj n) then Inr False
        else if rb_principal_ref b \<noteq> ap_principal_ref p then Inr False
        else if q_project_constraint q \<notin> set (ap_allowed_projects p) then Inr False
        else if q_purpose q \<notin> set (ap_allowed_purposes p)
                \<or> sv_operation sv \<notin> set (ap_allowed_operations p) then Inr False
        else (case build_binding (sv_operation sv) q p (rb_issued_at b) of Inl e \<Rightarrow> refused e
              | Inr candidate \<Rightarrow>
                  if candidate \<noteq> b then Inr False
                  else (case binding_is_valid b current epoch of Inl e \<Rightarrow> refused e | Inr fresh \<Rightarrow> Inr fresh))))))"

section \<open>The replay guard keeps its contract\<close>

definition guard_invar :: "replay_guard \<Rightarrow> bool" where
  "guard_invar g =
     (map fst (rg_seen g) = rg_order g \<and> distinct (rg_order g)
      \<and> 1 \<le> rg_max_entries g \<and> int (length (rg_seen g)) \<le> rg_max_entries g)"

definition guard_live :: "replay_guard \<Rightarrow> instant \<Rightarrow> string \<Rightarrow> bool" where
  "guard_live g t rid = (case map_of (rg_seen g) rid of None \<Rightarrow> False | Some (fp, ex) \<Rightarrow> t < ex)"

definition expired :: "instant \<Rightarrow> string \<times> string \<times> instant \<Rightarrow> bool" where
  "expired now kv = (snd (snd kv) \<le> now)"

lemma dict_pop_absent: "k \<notin> fst ` set d \<Longrightarrow> dict_pop k d = d"
  by (induction d) (auto simp: dict_pop_def)

lemma dict_pop_head: "k \<notin> fst ` set d \<Longrightarrow> dict_pop k ((k, v) # d) = d"
  using dict_pop_absent [of k d] by (simp add: dict_pop_def)

lemma dict_put_absent: "k \<notin> fst ` set d \<Longrightarrow> dict_put k v d = d @ [(k, v)]"
  by (induction d) auto

lemma purge_front_dropWhile:
  "distinct (map fst seen) \<Longrightarrow>
     purge_front now (map fst seen) seen =
       (map fst (dropWhile (expired now) seen), dropWhile (expired now) seen)"
proof (induction seen)
  case (Cons kv seen)
  obtain k fp ex where kv: "kv = (k, fp, ex)" by (cases kv) auto
  with Cons.prems have "k \<notin> fst ` set seen" by simp
  with Cons kv show ?case by (simp add: expired_def dict_pop_head)
qed simp

text \<open>One call under the invariant, with the purge written as \<^const>\<open>dropWhile\<close>.\<close>

lemma guard_consume_at_eq:
  fixes now :: instant
  assumes "guard_invar g"
  defines "seen \<equiv> dropWhile (expired now) (rg_seen g)"
  shows "guard_consume_at g rid fp expiry now =
    (let kept = (if rid \<in> fst ` set seen then seen
                 else (if int (length seen) \<ge> rg_max_entries g then tl seen else seen) @ [(rid, fp, expiry)])
     in Inr (rid \<notin> fst ` set seen, g\<lparr>rg_order := map fst kept, rg_seen := kept\<rparr>))"
proof -
  from assms have inv: "map fst (rg_seen g) = rg_order g" "distinct (map fst (rg_seen g))" "1 \<le> rg_max_entries g"
    by (auto simp: guard_invar_def)
  have purge: "purge_front now (rg_order g) (rg_seen g) = (map fst seen, seen)"
    using purge_front_dropWhile [OF inv(2)] inv(1) by (simp add: seen_def)
  have dist: "distinct (map fst seen)" unfolding seen_def using inv(2)
    by (metis dropWhile_eq_drop distinct_drop drop_map)
  show ?thesis
  proof (cases "rid \<in> fst ` set seen")
    case True
    then have "map_of seen rid \<noteq> None" by (simp add: map_of_eq_None_iff)
    with True purge show ?thesis by (simp add: guard_consume_at_def Let_def)
  next
    case new: False
    then have none: "map_of seen rid = None" by (simp add: map_of_eq_None_iff)
    show ?thesis
    proof (cases seen)
      case Nil
      with inv(3) purge show ?thesis by (simp add: guard_consume_at_def Let_def)
    next
      case (Cons kv rest)
      obtain k v where kv: "kv = (k, v)" by (cases kv)
      from dist Cons kv have "dict_pop k seen = rest" by (simp add: dict_pop_head)
      moreover from new Cons have "rid \<notin> fst ` set rest" by simp
      ultimately show ?thesis
        using new none purge Cons kv
        by (simp add: guard_consume_at_def Let_def dict_put_absent)
    qed
  qed
qed

lemma map_of_dropWhile_expired:
  assumes "distinct (map fst seen)" "map_of seen i = Some (f, ex)" "now < ex"
  shows "map_of (dropWhile (expired now) seen) i = Some (f, ex)"
  using assms
proof (induction seen)
  case (Cons kv seen)
  show ?case
  proof (cases "expired now kv")
    case True
    with Cons.prems have "fst kv \<noteq> i" by (auto simp: expired_def)
    with True Cons show ?thesis by simp
  qed (use Cons.prems in simp)
qed simp

lemma guard_invar_consume:
  assumes "guard_invar g" "guard_consume_at g rid fp expiry now = Inr (b, g')"
  shows "guard_invar g'"
proof -
  let ?seen = "dropWhile (expired now) (rg_seen g)"
  have inv: "distinct (map fst (rg_seen g))" "1 \<le> rg_max_entries g"
    "int (length (rg_seen g)) \<le> rg_max_entries g"
    using assms(1) by (auto simp: guard_invar_def)
  have dist: "distinct (map fst ?seen)" using inv(1)
    by (metis dropWhile_eq_drop distinct_drop drop_map)
  have len: "int (length ?seen) \<le> rg_max_entries g"
    using length_dropWhile_le [of "expired now" "rg_seen g"] inv(3) by linarith
  show ?thesis
    using assms(2) dist len inv(2)
    by (cases ?seen)
      (auto simp: guard_consume_at_eq [OF assms(1)] guard_invar_def Let_def split: if_splits)
qed

lemma guard_load_consume:
  assumes "guard_invar g" "guard_consume_at g rid fp expiry now = Inr (b, g')"
  shows "length (rg_seen g') \<le> Suc (length (rg_seen g)) \<and> rg_max_entries g' = rg_max_entries g"
  using assms(2) length_dropWhile_le [of "expired now" "rg_seen g"]
  by (auto simp: guard_consume_at_eq [OF assms(1)] Let_def split: if_splits)

lemma guard_live_refused:
  assumes "guard_invar g" "guard_live g now rid" "guard_consume_at g rid fp expiry now = Inr (b, g')"
  shows "\<not> b"
proof -
  from assms(2) obtain f ex where "map_of (rg_seen g) rid = Some (f, ex)" "now < ex"
    by (auto simp: guard_live_def split: option.splits)
  with map_of_dropWhile_expired [of "rg_seen g" rid f ex now] assms(1)
  have "map_of (dropWhile (expired now) (rg_seen g)) rid = Some (f, ex)" by (simp add: guard_invar_def)
  then have "rid \<in> fst ` set (dropWhile (expired now) (rg_seen g))"
    by (metis map_of_eq_None_iff option.discI)
  with assms(3) show ?thesis by (simp add: guard_consume_at_eq [OF assms(1)] Let_def)
qed

lemma guard_accepted_live:
  assumes "guard_invar g" "guard_consume_at g rid fp expiry now = Inr (True, g')" "t < expiry"
  shows "guard_live g' t rid"
proof -
  let ?seen = "dropWhile (expired now) (rg_seen g)"
  from assms(2) have new: "rid \<notin> fst ` set ?seen"
    and g': "rg_seen g' = (if int (length ?seen) \<ge> rg_max_entries g then tl ?seen else ?seen) @ [(rid, fp, expiry)]"
    by (auto simp: guard_consume_at_eq [OF assms(1)] Let_def split: if_splits)
  have "set (tl ?seen) \<subseteq> set ?seen" by (metis list.set_sel(2) subsetI tl_Nil)
  with new have "rid \<notin> fst ` set (tl ?seen)" by blast
  with new have "map_of (tl ?seen) rid = None" "map_of ?seen rid = None"
    by (simp_all add: map_of_eq_None_iff)
  with g' have "map_of (rg_seen g') rid = Some (fp, expiry)" by (simp add: map_add_def)
  with assms(3) show ?thesis by (simp add: guard_live_def)
qed

lemma guard_live_kept:
  assumes "guard_invar g" "guard_consume_at g rid fp expiry now = Inr (b, g')"
    and "int (Suc (length (rg_seen g))) \<le> rg_max_entries g" "now \<le> t" "guard_live g t i"
  shows "guard_live g' t i"
proof -
  let ?seen = "dropWhile (expired now) (rg_seen g)"
  have room: "\<not> int (length ?seen) \<ge> rg_max_entries g"
    using length_dropWhile_le [of "expired now" "rg_seen g"] assms(3) by linarith
  from assms(5) obtain f ex where m: "map_of (rg_seen g) i = Some (f, ex)" "t < ex"
    by (auto simp: guard_live_def split: option.splits)
  with map_of_dropWhile_expired [of "rg_seen g" i f ex now] assms(1,4)
  have "map_of ?seen i = Some (f, ex)" by (simp add: guard_invar_def)
  moreover from assms(2) room have "rg_seen g' = ?seen \<or> rg_seen g' = ?seen @ [(rid, fp, expiry)]"
    by (auto simp: guard_consume_at_eq [OF assms(1)] Let_def split: if_splits)
  ultimately have "map_of (rg_seen g') i = Some (f, ex)" by (auto simp: map_add_def)
  with m(2) show ?thesis by (simp add: guard_live_def)
qed

interpretation memory_guard: replay_guard_contract guard_consume_at guard_live
  "\<lambda>g. length (rg_seen g)" "\<lambda>g. Some (rg_max_entries g)" guard_invar
proof unfold_locales
  fix g rid fp expiry now
  assume "guard_invar g"
  then show "\<exists>b g'. guard_consume_at g rid fp expiry now = Inr (b, g')"
    by (simp add: guard_consume_at_eq Let_def)
qed (auto simp: within_capacity_def
  dest: guard_invar_consume guard_load_consume guard_live_refused guard_accepted_live guard_live_kept)

section \<open>The rate limiter keeps its contract\<close>

interpretation memory_limiter: rate_limiter_contract limiter_consume rl_windows rl_max_requests
  "\<lambda>l. rl_window_seconds l * 1000000"
  by unfold_locales
    (auto simp: limiter_consume_def effective_window_def Let_def split: if_splits option.splits prod.splits)

section \<open>The registry and the local epoch keep their contracts\<close>

interpretation memory_registry: registry_contract registry_register "\<lambda>r a. Inr (registry_resolve r a)"
  ap_authentication_ref ap_fingerprint "\<lambda>p. ap_authentication_ref p \<noteq> []" "\<lambda>r. True"
  by unfold_locales
    (auto simp: registry_register_def registry_resolve_def raise_def split: option.splits if_splits)

interpretation local_epoch: policy_epoch_contract local_epoch_get local_epoch_advance
  by unfold_locales (auto simp: local_epoch_get_def local_epoch_advance_def split: if_splits)

section \<open>Bindings\<close>

abbreviation request_scopes :: "string \<Rightarrow> query_request \<Rightarrow> authenticated_principal \<Rightarrow> scope list" where
  "request_scopes oper q p \<equiv>
     [[(''project'', Values (ap_allowed_projects p)),
       (''operation'', Values (ap_allowed_operations p)),
       (''purpose'', Values (ap_allowed_purposes p))],
      [(''project'', Values [q_project_constraint q]),
       (''operation'', Values [oper]),
       (''purpose'', Values [q_purpose q])]]"

lemma singleton_list:
  assumes "set vs = {x}" "distinct vs"
  shows "vs = [x]"
proof -
  from assms(1) obtain y ys where vs: "vs = y # ys" by (cases vs) auto
  with assms have "y = x" "x \<notin> set ys" "set ys \<subseteq> {x}" by auto
  then have "ys = []" by (cases ys) auto
  with vs \<open>y = x\<close> show ?thesis by simp
qed

lemma request_scopes_intersect:
  assumes "q_project_constraint q \<in> set (ap_allowed_projects p)"
  obtains r where "intersect_authority (request_scopes oper q p) = Inr r"
    "map_of r ''project'' = Some [q_project_constraint q]"
proof -
  obtain r where r: "intersect_authority (request_scopes oper q p) = Inr r"
    by (auto simp: intersect_authority_def)
  have "common_keys (request_scopes oper q p) = {''project'', ''operation'', ''purpose''}"
    by (auto simp: common_keys_def scope_keys_def)
  with intersect_authority_spec(1) [OF r] have "''project'' \<in> set (map fst r)" by simp
  then have "''project'' \<in> fst ` set r" by (simp only: set_map)
  then obtain vs where vs: "map_of r ''project'' = Some vs"
    by (cases "map_of r ''project''") (simp_all add: map_of_eq_None_iff)
  from intersect_authority_spec(2) [OF r vs] assms
  have "set vs = {q_project_constraint q}" "distinct vs"
    by (auto simp: common_values_def scope_set_def)
  then have "vs = [q_project_constraint q]" by (rule singleton_list)
  with that r vs show ?thesis by simp
qed

lemma build_binding_succeeds:
  assumes "normalized q = Inr n" "q_purpose q \<noteq> []" "ap_policy_bundle_ref p \<noteq> []"
    and "ap_service_principal_ref p \<noteq> []" "ta_attestation_id (ap_trust_zone_attestation p) \<noteq> []"
    and "q_project_constraint q \<in> set (ap_allowed_projects p)"
  shows "\<exists>b. build_binding oper q p t = Inr b"
proof -
  obtain r where r: "intersect_authority (request_scopes oper q p) = Inr r"
    "map_of r ''project'' = Some [q_project_constraint q]"
    using request_scopes_intersect [OF assms(6)] by blast
  from r(2) have "(''project'', [q_project_constraint q]) \<in> set r" by (rule map_of_SomeD)
  then have "r \<noteq> [] \<and> \<not> (\<forall>kv \<in> set r. snd kv = [])" by force
  with r(1) assms(4,5) have "\<exists>c. derive_subject_chain (ap_service_principal_ref p)
      (ta_attestation_id (ap_trust_zone_attestation p)) (operation_ref oper) (pb_purpose_binding_id pb)
      (request_scopes oper q p) h w gs = Inr c" if "pb_purpose_binding_id pb \<noteq> []" for pb h w gs
    using that by (simp add: derive_subject_chain_def operation_ref_def del: list.map)
  moreover obtain pb where "create_purpose_binding (operation_ref oper) (q_purpose q) (ap_policy_bundle_ref p) = Inr pb"
    "pb_recognized_purpose pb = q_purpose q" "pb_purpose_binding_id pb \<noteq> []"
    using assms(2,3) by (auto simp: create_purpose_binding_def operation_ref_def ref_def Let_def)
  ultimately obtain c where "create_purpose_binding (operation_ref oper) (q_purpose q) (ap_policy_bundle_ref p) = Inr pb"
    "pb_recognized_purpose pb = q_purpose q"
    "derive_subject_chain (ap_service_principal_ref p)
      (ta_attestation_id (ap_trust_zone_attestation p)) (operation_ref oper) (pb_purpose_binding_id pb)
      (request_scopes oper q p) (ap_human_principal_ref p) (ap_workload_principal_ref p)
      (ap_delegation_grant_refs p) = Inr c" by blast
  with assms(1) show ?thesis
    by (simp add: build_binding_def verify_requested_purpose_def Let_def)
qed

lemma build_binding_Inr:
  assumes "build_binding oper q p t = Inr b"
  shows "normalized q = Inr (request_dict q)"
    and "rb_request_id b = q_request_id q" "rb_request_fingerprint b = sha256_json (JObj (request_dict q))"
    and "rb_fingerprint b = sha256_json (binding_payload (request_dict q) b)"
    and "rb_binding_id b = ''request-auth://'' @ take 32 (rb_fingerprint b)"
    and "rb_authentication_ref b = ap_authentication_ref p" "rb_principal_ref b = ap_principal_ref p"
    and "rb_operation b = oper" "rb_purpose b = q_purpose q" "rb_project_constraint b = q_project_constraint q"
    and "rb_policy_epoch b = ap_policy_epoch p" "rb_issued_at b = t" "rb_valid_until b = ap_valid_until p"
  using assms
  by (auto simp: build_binding_def result_simps Let_def binding_payload_def normalized_Inr_iff)

lemma build_binding_integrity: "build_binding oper q p t = Inr b \<Longrightarrow> integrity_valid b q"
  using build_binding_Inr(1-4) [of oper q p t b] by (simp add: integrity_valid_def)

lemma build_binding_error: "build_binding oper q p t = Inl e \<Longrightarrow> is_value_error e"
proof -
  have "intersect_authority (request_scopes oper q p) = Inl e \<Longrightarrow> False"
    by (simp add: intersect_authority_def)
  then show "build_binding oper q p t = Inl e \<Longrightarrow> is_value_error e"
    by (auto simp: build_binding_def bind_result_Inl_iff create_purpose_binding_def Let_def
        verify_requested_purpose_def derive_subject_chain_def raise_def is_value_error_def
        dest: normalized_error split: if_splits)
qed

end
