(* ===== verification/Control_Plane.thy ===== *)
theory Control_Plane
  imports Request_Auth
begin

text \<open>
  \<^verbatim>\<open>pmiri/control_plane.py\<close>: the SQLite adapters of the registry, the replay guard, the rate
  limiter and the policy epoch. A table is a map from its primary key to the other columns; every
  operation is one \<^verbatim>\<open>BEGIN IMMEDIATE\<close> transaction, so it is one step on the tables, and a raise
  before the commit leaves them as they were. The payload column holds the JSON value that
  \<^verbatim>\<open>register\<close> wrote; a value whose fields do not have the JSON types \<^verbatim>\<open>register\<close> writes is read as an
  error.
\<close>

section \<open>SQLiteAuthenticationRegistry\<close>

record principal_row =
  row_fingerprint :: string
  row_payload :: dict
  row_revoked_at :: "instant option"

type_synonym principal_table = "string \<rightharpoonup> principal_row"

definition attestation_dict :: "trust_zone_attestation \<Rightarrow> dict" where
  "attestation_dict a =
     [(''attestation_id'', JStr (ta_attestation_id a)),
      (''principal_ref'', JStr (ta_principal_ref a)),
      (''zone_id'', JStr (ta_zone_id a)),
      (''issuer_ref'', JStr (ta_issuer_ref a)),
      (''evidence_refs'', jstrs (ta_evidence_refs a)),
      (''issued_at'', JStr (ta_issued_at a)),
      (''valid_until'', JStr (ta_valid_until a)),
      (''status'', JStr (ta_status a)),
      (''fingerprint'', JStr (ta_fingerprint a))]"

definition stored_payload :: "authenticated_principal \<Rightarrow> dict" where
  "stored_payload p =
     [(''authentication_ref'', JStr (ap_authentication_ref p)),
      (''principal_ref'', JStr (ap_principal_ref p)),
      (''principal_type'', JStr (ap_principal_type p)),
      (''service_principal_ref'', JStr (ap_service_principal_ref p)),
      (''workload_principal_ref'', jopt (ap_workload_principal_ref p)),
      (''human_principal_ref'', jopt (ap_human_principal_ref p)),
      (''trust_zone_attestation'', JObj (attestation_dict (ap_trust_zone_attestation p))),
      (''allowed_projects'', jstrs (ap_allowed_projects p)),
      (''allowed_operations'', jstrs (ap_allowed_operations p)),
      (''allowed_purposes'', jstrs (ap_allowed_purposes p)),
      (''delegation_grant_refs'', jstrs (ap_delegation_grant_refs p)),
      (''policy_bundle_ref'', JStr (ap_policy_bundle_ref p)),
      (''policy_version'', JStr (ap_policy_version p)),
      (''policy_epoch'', JInt (ap_policy_epoch p)),
      (''issued_at'', JStr (ap_issued_at p)),
      (''valid_until'', JStr (ap_valid_until p)),
      (''status'', JStr (ap_status p)),
      (''fingerprint'', JStr (ap_fingerprint p))]"

text \<open>Readers of JSON fields.\<close>

definition str_field :: "dict \<Rightarrow> string \<Rightarrow> string result" where
  "str_field d k =
     (case map_of d k of
        None \<Rightarrow> raise KeyError k
      | Some (JStr s) \<Rightarrow> Inr s
      | Some _ \<Rightarrow> raise TypeError k)"

definition opt_str_field :: "dict \<Rightarrow> string \<Rightarrow> string option result" where
  "opt_str_field d k =
     (case get d k of JNull \<Rightarrow> Inr None | JStr s \<Rightarrow> Inr (Some s) | _ \<Rightarrow> raise TypeError k)"

fun as_str :: "json \<Rightarrow> string result" where
  "as_str (JStr s) = Inr s"
| "as_str _ = raise TypeError []"

definition strs_field :: "dict \<Rightarrow> string \<Rightarrow> string list result" where
  "strs_field d k =
     (case map_of d k of
        None \<Rightarrow> raise KeyError k
      | Some (JList xs) \<Rightarrow> traverse as_str xs
      | Some _ \<Rightarrow> raise TypeError k)"

definition int_field :: "dict \<Rightarrow> string \<Rightarrow> int result" where
  "int_field d k =
     (case map_of d k of
        None \<Rightarrow> raise KeyError k
      | Some (JInt i) \<Rightarrow> Inr i
      | Some _ \<Rightarrow> raise TypeError k)"

definition attestation_fields :: "string list" where
  "attestation_fields =
     [''attestation_id'', ''principal_ref'', ''zone_id'', ''issuer_ref'', ''evidence_refs'', ''issued_at'',
      ''valid_until'', ''status'', ''fingerprint'']"

definition attestation_from_dict :: "dict \<Rightarrow> trust_zone_attestation result" where
  "attestation_from_dict d =
     (if set (map fst d) \<noteq> set attestation_fields then raise TypeError ''TrustZoneAttestation''
      else
      bind_result (str_field d ''attestation_id'') (\<lambda>aid.
      bind_result (str_field d ''principal_ref'') (\<lambda>pr.
      bind_result (str_field d ''zone_id'') (\<lambda>zone.
      bind_result (str_field d ''issuer_ref'') (\<lambda>issuer.
      bind_result (strs_field d ''evidence_refs'') (\<lambda>refs.
      bind_result (str_field d ''issued_at'') (\<lambda>issued.
      bind_result (str_field d ''valid_until'') (\<lambda>until.
      bind_result (str_field d ''status'') (\<lambda>status.
      bind_result (str_field d ''fingerprint'') (\<lambda>fp.
        Inr \<lparr>ta_attestation_id = aid, ta_principal_ref = pr, ta_zone_id = zone, ta_issuer_ref = issuer,
             ta_evidence_refs = refs, ta_issued_at = issued, ta_valid_until = until,
             ta_status = status, ta_fingerprint = fp\<rparr>))))))))))"

definition principal_from_payload :: "dict \<Rightarrow> authenticated_principal result" where
  "principal_from_payload d =
     (case get d ''trust_zone_attestation'' of
        JObj raw \<Rightarrow>
          bind_result (attestation_from_dict raw) (\<lambda>a.
          bind_result (issue_attestation (ta_principal_ref a) (ta_zone_id a) (ta_issuer_ref a)
              (ta_evidence_refs a) (ta_issued_at a) (ta_valid_until a) (ta_status a)) (\<lambda>ea.
          if ea \<noteq> a then raise RequestAuthorizationError ''stored_attestation_fingerprint_mismatch''
          else
          bind_result (str_field d ''authentication_ref'') (\<lambda>aref.
          bind_result (str_field d ''principal_ref'') (\<lambda>pr.
          bind_result (str_field d ''principal_type'') (\<lambda>ptype.
          bind_result (str_field d ''service_principal_ref'') (\<lambda>service.
          bind_result (opt_str_field d ''workload_principal_ref'') (\<lambda>workload.
          bind_result (opt_str_field d ''human_principal_ref'') (\<lambda>human.
          bind_result (strs_field d ''allowed_projects'') (\<lambda>projects.
          bind_result (strs_field d ''allowed_operations'') (\<lambda>operations.
          bind_result (strs_field d ''allowed_purposes'') (\<lambda>purposes.
          bind_result (if has_key d ''delegation_grant_refs'' then strs_field d ''delegation_grant_refs''
                       else Inr []) (\<lambda>grants.
          bind_result (str_field d ''policy_bundle_ref'') (\<lambda>bundle.
          bind_result (str_field d ''policy_version'') (\<lambda>version.
          bind_result (int_field d ''policy_epoch'') (\<lambda>epoch.
          bind_result (str_field d ''issued_at'') (\<lambda>issued.
          bind_result (str_field d ''valid_until'') (\<lambda>until.
          bind_result (if has_key d ''status'' then str_field d ''status'' else Inr ACTIVE) (\<lambda>status.
          bind_result (verified \<lparr>ap_authentication_ref = aref, ap_principal_ref = pr,
              ap_principal_type = ptype, ap_service_principal_ref = service,
              ap_workload_principal_ref = workload, ap_human_principal_ref = human,
              ap_trust_zone_attestation = a, ap_allowed_projects = projects,
              ap_allowed_operations = operations, ap_allowed_purposes = purposes,
              ap_delegation_grant_refs = grants, ap_policy_bundle_ref = bundle,
              ap_policy_version = version, ap_policy_epoch = epoch, ap_issued_at = issued,
              ap_valid_until = until, ap_status = status, ap_fingerprint = []\<rparr>) (\<lambda>p.
            if get d ''fingerprint'' \<noteq> JStr (ap_fingerprint p)
            then raise RequestAuthorizationError ''stored_principal_fingerprint_mismatch''
            else Inr p)))))))))))))))))))
      | _ \<Rightarrow> raise RequestAuthorizationError ''stored_attestation_invalid'')"

definition sql_register :: "principal_table \<Rightarrow> authenticated_principal \<Rightarrow> principal_table result" where
  "sql_register t p =
     (case t (ap_authentication_ref p) of
        Some row \<Rightarrow>
          if row_fingerprint row \<noteq> ap_fingerprint p
          then raise RequestAuthorizationError ''authentication_reference_rebound''
          else if row_revoked_at row \<noteq> None
          then raise RequestAuthorizationError ''principal_revoked''
          else Inr t
      | None \<Rightarrow> Inr (t(ap_authentication_ref p \<mapsto>
          \<lparr>row_fingerprint = ap_fingerprint p, row_payload = stored_payload p, row_revoked_at = None\<rparr>)))"

definition sql_resolve :: "principal_table \<Rightarrow> string option \<Rightarrow> authenticated_principal option result" where
  "sql_resolve t a =
     (case a of None \<Rightarrow> Inr None
      | Some s \<Rightarrow>
          if s = [] then Inr None
          else (case t s of
                  None \<Rightarrow> Inr None
                | Some row \<Rightarrow>
                    if row_revoked_at row \<noteq> None then Inr None
                    else (case principal_from_payload (row_payload row) of
                            Inl e \<Rightarrow> if caught_tvk e then Inr None else Inl e
                          | Inr p \<Rightarrow> Inr (Some p))))"

definition sql_revoke :: "principal_table \<Rightarrow> string \<Rightarrow> instant \<Rightarrow> bool \<times> principal_table" where
  "sql_revoke t a now =
     (case t a of
        None \<Rightarrow> (False, t)
      | Some row \<Rightarrow>
          if row_revoked_at row \<noteq> None then (False, t)
          else (True, t(a \<mapsto> row\<lparr>row_revoked_at := Some now\<rparr>)))"

section \<open>SQLiteReplayGuard\<close>

type_synonym replay_table = "string \<rightharpoonup> string \<times> instant"

definition sql_guard_consume_at ::
  "replay_table \<Rightarrow> string \<Rightarrow> string \<Rightarrow> instant \<Rightarrow> instant \<Rightarrow> (bool \<times> replay_table) result" where
  "sql_guard_consume_at t rid fp expiry now =
     (let kept = (\<lambda>i. case t i of None \<Rightarrow> None | Some (f, ex) \<Rightarrow> if ex \<le> now then None else Some (f, ex))
      in case kept rid of
           Some _ \<Rightarrow> Inr (False, kept)
         | None \<Rightarrow> Inr (True, kept(rid \<mapsto> (fp, expiry))))"

definition sql_guard_consume ::
  "replay_table \<Rightarrow> string \<Rightarrow> string \<Rightarrow> string \<Rightarrow> string \<Rightarrow> (bool \<times> replay_table) result" where
  "sql_guard_consume t rid fp expires_at now =
     bind_result (epoch_seconds now) (\<lambda>now_epoch.
     bind_result (epoch_seconds expires_at) (\<lambda>expiry.
       sql_guard_consume_at t rid fp expiry now_epoch))"

section \<open>SQLiteRateLimiter\<close>

text \<open>The constructor is the in-memory one (\<^verbatim>\<open>super().__init__\<close>); the windows are a table.\<close>

definition sql_limiter_consume :: "rate_limiter \<Rightarrow> string \<Rightarrow> instant \<Rightarrow> bool \<times> rate_limiter" where
  "sql_limiter_consume l key current =
     (let (start0, count0) = (case rl_windows l key of None \<Rightarrow> (current, 0) | Some (s, c) \<Rightarrow> (s, c));
          (start, count) = (if current - start0 \<ge> rl_window_seconds l * 1000000
                            then (current, 0) else (start0, count0));
          allowed = (count < rl_max_requests l);
          count' = (if allowed then count + 1 else count)
      in (allowed, l\<lparr>rl_windows := (rl_windows l)(key \<mapsto> (start, count'))\<rparr>))"

section \<open>SQLitePolicyEpoch\<close>

text \<open>The single row of the table \<^verbatim>\<open>policy_epoch\<close>, absent before \<^verbatim>\<open>initialize\<close>.\<close>

type_synonym epoch_row = "int option"

definition sql_epoch_init :: "int \<Rightarrow> int result" where
  "sql_epoch_init initial_epoch =
     (if initial_epoch < 0 then raise ValueError ''policy_epoch_invalid'' else Inr initial_epoch)"

definition sql_epoch_initialize :: "int \<Rightarrow> epoch_row \<Rightarrow> epoch_row" where
  "sql_epoch_initialize initial_epoch row = (case row of None \<Rightarrow> Some initial_epoch | Some e \<Rightarrow> Some e)"

definition sql_epoch_get :: "epoch_row \<Rightarrow> int result" where
  "sql_epoch_get row =
     (case row of None \<Rightarrow> raise RequestAuthorizationError ''policy_epoch_uninitialized'' | Some e \<Rightarrow> Inr e)"

definition sql_epoch_advance :: "epoch_row \<Rightarrow> int \<Rightarrow> epoch_row result" where
  "sql_epoch_advance row new_epoch =
     (if new_epoch < 0 then raise ValueError ''policy_epoch_invalid''
      else case row of
        None \<Rightarrow> raise RequestAuthorizationError ''policy_epoch_uninitialized''
      | Some cur \<Rightarrow>
          if new_epoch < cur then raise ValueError ''policy_epoch_cannot_move_backwards''
          else Inr (Some new_epoch))"

definition sql_epoch_bump :: "epoch_row \<Rightarrow> (int \<times> epoch_row) result" where
  "sql_epoch_bump row =
     (case row of
        None \<Rightarrow> raise RequestAuthorizationError ''policy_epoch_uninitialized''
      | Some cur \<Rightarrow> Inr (cur + 1, Some (cur + 1)))"

section \<open>Stored principals read back\<close>

text \<open>What \<^verbatim>\<open>issue\<close> and \<^verbatim>\<open>verified\<close> produce: recomputing a value from its own fields gives it back.\<close>

definition wf_attestation :: "trust_zone_attestation \<Rightarrow> bool" where
  "wf_attestation a =
     (issue_attestation (ta_principal_ref a) (ta_zone_id a) (ta_issuer_ref a) (ta_evidence_refs a)
        (ta_issued_at a) (ta_valid_until a) (ta_status a) = Inr a)"

definition wf_principal :: "authenticated_principal \<Rightarrow> bool" where
  "wf_principal p = (verified p = Inr p \<and> wf_attestation (ap_trust_zone_attestation p))"

lemma issue_attestation_Inr_iff:
  "issue_attestation pr z i refs t u st = Inr a \<longleftrightarrow>
     pr \<noteq> [] \<and> z \<noteq> [] \<and> i \<noteq> [] \<and> t \<noteq> [] \<and> u \<noteq> [] \<and> sorted_set refs \<noteq> [] \<and> st = ACTIVE
     \<and> valid_interval t u t = Inr True
     \<and> (let fp = sha256_json (attestation_payload pr z i (sorted_set refs) t u st) in
        a = \<lparr>ta_attestation_id = ''trust-attestation://'' @ take 32 fp,
             ta_principal_ref = pr, ta_zone_id = z, ta_issuer_ref = i,
             ta_evidence_refs = sorted_set refs, ta_issued_at = t, ta_valid_until = u,
             ta_status = st, ta_fingerprint = fp\<rparr>)"
  by (cases "valid_interval t u t") (auto simp: issue_attestation_def Let_def)

lemma issue_attestation_wf:
  "issue_attestation pr z i refs t u st = Inr a \<Longrightarrow> wf_attestation a"
  unfolding wf_attestation_def issue_attestation_Inr_iff by (simp add: Let_def)

lemma verified_shape:
  assumes "verified d = Inr p"
  shows "p = d\<lparr>ap_allowed_projects := sorted_set (ap_allowed_projects d),
               ap_allowed_operations := sorted_set (ap_allowed_operations d),
               ap_allowed_purposes := sorted_set (ap_allowed_purposes d),
               ap_delegation_grant_refs := sorted_set (ap_delegation_grant_refs d),
               ap_fingerprint := ap_fingerprint p\<rparr>"
    and "ap_fingerprint p = sha256_json (principal_payload p)"
    and "ap_authentication_ref p \<noteq> []" "ap_service_principal_ref p \<noteq> []" "ap_policy_bundle_ref p \<noteq> []"
    and "[] \<notin> set (ap_allowed_purposes p)" "ap_status p = ACTIVE" "0 \<le> ap_policy_epoch p"
proof -
  define p0 where "p0 = d\<lparr>ap_allowed_projects := sorted_set (ap_allowed_projects d),
               ap_allowed_operations := sorted_set (ap_allowed_operations d),
               ap_allowed_purposes := sorted_set (ap_allowed_purposes d),
               ap_delegation_grant_refs := sorted_set (ap_delegation_grant_refs d)\<rparr>"
  from assms have p: "p = p0\<lparr>ap_fingerprint := sha256_json (principal_payload p0)\<rparr>"
    by (auto simp: verified_def p0_def Let_def result_simps split: if_splits)
  show "p = d\<lparr>ap_allowed_projects := sorted_set (ap_allowed_projects d),
               ap_allowed_operations := sorted_set (ap_allowed_operations d),
               ap_allowed_purposes := sorted_set (ap_allowed_purposes d),
               ap_delegation_grant_refs := sorted_set (ap_delegation_grant_refs d),
               ap_fingerprint := ap_fingerprint p\<rparr>"
    by (simp add: p p0_def)
  show "ap_fingerprint p = sha256_json (principal_payload p)"
    by (simp add: p principal_payload_def)
  show "ap_authentication_ref p \<noteq> []" "ap_service_principal_ref p \<noteq> []" "ap_policy_bundle_ref p \<noteq> []"
    "[] \<notin> set (ap_allowed_purposes p)" "ap_status p = ACTIVE" "0 \<le> ap_policy_epoch p"
    using assms by (auto simp: p p0_def verified_def Let_def result_simps split: if_splits)
qed

lemma verified_idem: "verified d = Inr p \<Longrightarrow> verified p = Inr p"
proof -
  assume v: "verified d = Inr p"
  define p0 where "p0 = d\<lparr>ap_allowed_projects := sorted_set (ap_allowed_projects d),
               ap_allowed_operations := sorted_set (ap_allowed_operations d),
               ap_allowed_purposes := sorted_set (ap_allowed_purposes d),
               ap_delegation_grant_refs := sorted_set (ap_delegation_grant_refs d)\<rparr>"
  from v have p: "p = p0\<lparr>ap_fingerprint := sha256_json (principal_payload p0)\<rparr>"
    by (auto simp: verified_def p0_def Let_def result_simps split: if_splits)
  have pay: "principal_payload p = principal_payload p0" by (simp add: p principal_payload_def)
  from v show "verified p = Inr p"
    by (auto simp: verified_def Let_def p p0_def principal_payload_def result_simps split: if_splits)
qed

lemma traverse_as_str [simp]: "traverse as_str (map JStr xs) = Inr xs"
  by (induction xs) auto

lemma stored_fields:
  "str_field (stored_payload p) ''authentication_ref'' = Inr (ap_authentication_ref p)"
  "str_field (stored_payload p) ''principal_ref'' = Inr (ap_principal_ref p)"
  "str_field (stored_payload p) ''principal_type'' = Inr (ap_principal_type p)"
  "str_field (stored_payload p) ''service_principal_ref'' = Inr (ap_service_principal_ref p)"
  "opt_str_field (stored_payload p) ''workload_principal_ref'' = Inr (ap_workload_principal_ref p)"
  "opt_str_field (stored_payload p) ''human_principal_ref'' = Inr (ap_human_principal_ref p)"
  "strs_field (stored_payload p) ''allowed_projects'' = Inr (ap_allowed_projects p)"
  "strs_field (stored_payload p) ''allowed_operations'' = Inr (ap_allowed_operations p)"
  "strs_field (stored_payload p) ''allowed_purposes'' = Inr (ap_allowed_purposes p)"
  "strs_field (stored_payload p) ''delegation_grant_refs'' = Inr (ap_delegation_grant_refs p)"
  "has_key (stored_payload p) ''delegation_grant_refs''"
  "str_field (stored_payload p) ''policy_bundle_ref'' = Inr (ap_policy_bundle_ref p)"
  "str_field (stored_payload p) ''policy_version'' = Inr (ap_policy_version p)"
  "int_field (stored_payload p) ''policy_epoch'' = Inr (ap_policy_epoch p)"
  "str_field (stored_payload p) ''issued_at'' = Inr (ap_issued_at p)"
  "str_field (stored_payload p) ''valid_until'' = Inr (ap_valid_until p)"
  "has_key (stored_payload p) ''status''"
  "str_field (stored_payload p) ''status'' = Inr (ap_status p)"
  "get (stored_payload p) ''fingerprint'' = JStr (ap_fingerprint p)"
  "get (stored_payload p) ''trust_zone_attestation'' = JObj (attestation_dict (ap_trust_zone_attestation p))"
  by (simp_all add: stored_payload_def str_field_def opt_str_field_def strs_field_def int_field_def
      jopt_def jstrs_def split: option.splits)

lemma attestation_roundtrip: "attestation_from_dict (attestation_dict a) = Inr a"
  by (simp add: attestation_from_dict_def attestation_dict_def attestation_fields_def str_field_def
      strs_field_def jstrs_def)

lemma stored_roundtrip:
  assumes "wf_principal p"
  shows "principal_from_payload (stored_payload p) = Inr p"
proof -
  from assms have v: "verified p = Inr p" and a: "wf_attestation (ap_trust_zone_attestation p)"
    by (simp_all add: wf_principal_def)
  have "verified (p\<lparr>ap_fingerprint := []\<rparr>) = verified p"
    by (cases "valid_interval (ap_issued_at p) (ap_valid_until p) (ap_issued_at p)")
      (simp_all add: verified_def Let_def principal_payload_def)
  then have "verified \<lparr>ap_authentication_ref = ap_authentication_ref p, ap_principal_ref = ap_principal_ref p,
      ap_principal_type = ap_principal_type p, ap_service_principal_ref = ap_service_principal_ref p,
      ap_workload_principal_ref = ap_workload_principal_ref p, ap_human_principal_ref = ap_human_principal_ref p,
      ap_trust_zone_attestation = ap_trust_zone_attestation p, ap_allowed_projects = ap_allowed_projects p,
      ap_allowed_operations = ap_allowed_operations p, ap_allowed_purposes = ap_allowed_purposes p,
      ap_delegation_grant_refs = ap_delegation_grant_refs p, ap_policy_bundle_ref = ap_policy_bundle_ref p,
      ap_policy_version = ap_policy_version p, ap_policy_epoch = ap_policy_epoch p,
      ap_issued_at = ap_issued_at p, ap_valid_until = ap_valid_until p, ap_status = ap_status p,
      ap_fingerprint = []\<rparr> = Inr p"
    using v by (cases p) simp
  with a show ?thesis
    by (simp add: principal_from_payload_def stored_fields attestation_roundtrip wf_attestation_def)
qed

section \<open>What reading a principal can raise\<close>

lemma field_errors:
  "str_field d k = Inl e \<Longrightarrow> caught_tvk e" "opt_str_field d k = Inl e \<Longrightarrow> caught_tvk e"
  "strs_field d k = Inl e \<Longrightarrow> caught_tvk e" "int_field d k = Inl e \<Longrightarrow> caught_tvk e"
proof -
  have "traverse as_str xs = Inl e \<Longrightarrow> caught_tvk e" for xs
  proof (induction xs)
    case (Cons x xs)
    then show ?case
      by (cases x) (auto simp: bind_result_Inl_iff map_result_Inl_iff raise_def caught_tvk_def)
  qed simp
  then show "strs_field d k = Inl e \<Longrightarrow> caught_tvk e"
    by (auto simp: strs_field_def raise_def caught_tvk_def split: option.splits json.splits)
qed (auto simp: str_field_def opt_str_field_def int_field_def raise_def caught_tvk_def split: option.splits json.splits)

text \<open>The exceptions of the readers are caught by their callers, but for an overflow.\<close>

abbreviation caught_or_overflow :: "exc \<Rightarrow> bool" where
  "caught_or_overflow e \<equiv> caught_tvk e \<or> fst e = OverflowError"

lemma issue_attestation_error: "issue_attestation pr z i refs t u st = Inl e \<Longrightarrow> caught_or_overflow e"
  by (auto simp: issue_attestation_def Let_def bind_result_Inl_iff raise_def caught_tvk_def is_value_error_def
      split: if_splits dest!: valid_interval_error)

lemma verified_error: "verified d = Inl e \<Longrightarrow> caught_or_overflow e"
  by (auto simp: verified_def Let_def bind_result_Inl_iff raise_def caught_tvk_def is_value_error_def
      split: if_splits dest!: valid_interval_error)

lemma attestation_from_dict_error: "attestation_from_dict d = Inl e \<Longrightarrow> caught_tvk e"
  unfolding attestation_from_dict_def
  by (auto simp only: bind_result_Inl_iff raise_def caught_tvk_def fst_conv sum.simps split: if_splits dest: field_errors)

definition only_caught :: "'a result \<Rightarrow> bool" where
  "only_caught r = (case r of Inl e \<Rightarrow> caught_or_overflow e | Inr _ \<Rightarrow> True)"

lemma only_caughtI: "(\<And>e. r = Inl e \<Longrightarrow> caught_or_overflow e) \<Longrightarrow> only_caught r"
  by (cases r) (simp_all add: only_caught_def)

lemma only_caught_bind: "only_caught r \<Longrightarrow> (\<And>x. only_caught (f x)) \<Longrightarrow> only_caught (bind_result r f)"
  by (cases r) (simp_all add: only_caught_def)

lemma only_caught_if: "only_caught r \<Longrightarrow> only_caught s \<Longrightarrow> only_caught (if b then r else s)"
  by simp

lemma only_caught_base: "only_caught (Inr x)" "only_caught (raise RequestAuthorizationError m)"
  by (simp_all add: only_caught_def raise_def caught_tvk_def is_value_error_def)

lemma only_caught_readers:
  "only_caught (str_field d k)" "only_caught (opt_str_field d k)" "only_caught (strs_field d k)" "only_caught (int_field d k)"
  "only_caught (attestation_from_dict d)" "only_caught (issue_attestation pr z i refs t u st)" "only_caught (verified p)"
  by (rule only_caughtI, blast dest: field_errors attestation_from_dict_error issue_attestation_error verified_error)+

lemma principal_from_payload_error: "only_caught (principal_from_payload d)"
proof (cases "get d ''trust_zone_attestation''")
  case (JObj raw)
  show ?thesis unfolding principal_from_payload_def JObj json.case
    by (intro only_caught_bind only_caught_if only_caught_base only_caught_readers)
qed (simp_all add: principal_from_payload_def only_caught_base)

lemma sql_resolve_error: "sql_resolve t a = Inl e \<Longrightarrow> fst e = OverflowError"
  using principal_from_payload_error
  by (fastforce simp: sql_resolve_def only_caught_def split: option.splits if_splits sum.splits)

text \<open>The time stamps of a well-formed principal can be read.\<close>

lemma wf_principal_times:
  assumes "wf_principal p"
  shows "in_calendar (ap_issued_at p)" "in_calendar (ap_valid_until p)"
    "in_calendar (ta_issued_at (ap_trust_zone_attestation p))" "in_calendar (ta_valid_until (ap_trust_zone_attestation p))"
proof -
  have "valid_interval (ap_issued_at p) (ap_valid_until p) (ap_issued_at p) = Inr True"
    using assms by (auto simp: wf_principal_def verified_def Let_def result_simps split: if_splits)
  then show "in_calendar (ap_issued_at p)" "in_calendar (ap_valid_until p)"
    by (auto simp: valid_interval_iff intro: parse_time_in_calendar)
  let ?a = "ap_trust_zone_attestation p"
  have "valid_interval (ta_issued_at ?a) (ta_valid_until ?a) (ta_issued_at ?a) = Inr True"
    using assms by (simp add: wf_principal_def wf_attestation_def issue_attestation_Inr_iff)
  then show "in_calendar (ta_issued_at ?a)" "in_calendar (ta_valid_until ?a)"
    by (auto simp: valid_interval_iff intro: parse_time_in_calendar)
qed

lemma principal_is_valid_error:
  "principal_is_valid p now epoch = Inl e \<Longrightarrow>
     fst e = OverflowError \<and> (wf_principal p \<longrightarrow> \<not> in_calendar now)"
  by (auto simp: principal_is_valid_def attestation_is_valid_def bind_result_Inl_iff wf_principal_times
      split: if_splits dest!: valid_interval_error)

section \<open>The SQLite adapters keep the contracts\<close>

text \<open>Every row was written by \<^verbatim>\<open>register\<close> for a well-formed principal under its own reference.\<close>

definition table_invar :: "principal_table \<Rightarrow> bool" where
  "table_invar t =
     (\<forall>a row. t a = Some row \<longrightarrow>
        (\<exists>p. wf_principal p \<and> ap_authentication_ref p = a \<and> row_fingerprint row = ap_fingerprint p
             \<and> row_payload row = stored_payload p))"

lemma table_invar_resolve:
  assumes "table_invar t" "t a = Some row" "a \<noteq> []"
  shows "if row_revoked_at row = None
    then \<exists>p. sql_resolve t (Some a) = Inr (Some p) \<and> wf_principal p \<and> ap_fingerprint p = row_fingerprint row
    else sql_resolve t (Some a) = Inr None"
proof -
  from assms(1,2) obtain p where "wf_principal p" "row_fingerprint row = ap_fingerprint p"
    "row_payload row = stored_payload p"
    unfolding table_invar_def by blast
  with stored_roundtrip [of p] assms(2,3) show ?thesis by (simp add: sql_resolve_def)
qed

lemma sql_register_invar:
  "table_invar t \<Longrightarrow> wf_principal p \<Longrightarrow> sql_register t p = Inr t' \<Longrightarrow> table_invar t'"
  unfolding table_invar_def sql_register_def
  by (auto split: option.splits if_splits) metis+

lemma wf_principal_ref: "wf_principal p \<Longrightarrow> ap_authentication_ref p \<noteq> []"
  by (auto simp: wf_principal_def dest: verified_shape(3))

lemma sql_register_resolve:
  assumes "table_invar t" "wf_principal p" "sql_register t p = Inr t'"
  shows "\<exists>q. sql_resolve t' (Some (ap_authentication_ref p)) = Inr (Some q) \<and> ap_fingerprint q = ap_fingerprint p"
proof -
  from assms(3) obtain row where "t' (ap_authentication_ref p) = Some row"
    "row_revoked_at row = None" "row_fingerprint row = ap_fingerprint p"
    by (auto simp: sql_register_def split: option.splits if_splits)
  with table_invar_resolve [OF sql_register_invar [OF assms] _ wf_principal_ref [OF assms(2)]]
  show ?thesis by fastforce
qed

lemma sql_no_rebind:
  assumes "table_invar t" "wf_principal p" "sql_resolve t (Some (ap_authentication_ref p)) = Inr (Some q)"
    and "ap_fingerprint q \<noteq> ap_fingerprint p"
  shows "\<exists>e. sql_register t p = Inl e"
proof -
  from assms(3) obtain row where row: "t (ap_authentication_ref p) = Some row" "row_revoked_at row = None"
    by (auto simp: sql_resolve_def split: option.splits if_splits)
  with table_invar_resolve [OF assms(1) row(1) wf_principal_ref [OF assms(2)]] assms(3)
  have "row_fingerprint row = ap_fingerprint q" by auto
  with assms(4) row show ?thesis by (simp add: sql_register_def raise_def)
qed

interpretation sql_registry: registry_contract sql_register sql_resolve ap_authentication_ref
  ap_fingerprint wf_principal table_invar
proof unfold_locales
  show "sql_register r p = Inr r' \<Longrightarrow> a \<noteq> ap_authentication_ref p \<Longrightarrow>
      sql_resolve r' (Some a) = sql_resolve r (Some a)" for r p r' a
    by (auto simp: sql_register_def sql_resolve_def split: option.splits if_splits)
qed (simp_all add: sql_resolve_def [of _ None] sql_resolve_def [of _ "Some []"]
    sql_register_invar sql_register_resolve sql_no_rebind del: split_paired_Ex)

definition sql_guard_live :: "replay_table \<Rightarrow> instant \<Rightarrow> string \<Rightarrow> bool" where
  "sql_guard_live t now rid = (case t rid of None \<Rightarrow> False | Some (f, ex) \<Rightarrow> now < ex)"

interpretation sql_guard: replay_guard_contract sql_guard_consume_at sql_guard_live
  "\<lambda>t. 0" "\<lambda>t. None" "\<lambda>t. True"
  by unfold_locales
    (auto simp: sql_guard_consume_at_def sql_guard_live_def Let_def split: option.splits if_splits)

lemma sql_limiter_eq: "sql_limiter_consume = limiter_consume"
  by (auto simp: fun_eq_iff sql_limiter_consume_def limiter_consume_def Let_def split: option.splits prod.splits)

interpretation sql_limiter: rate_limiter_contract sql_limiter_consume rl_windows rl_max_requests
  "\<lambda>l. rl_window_seconds l * 1000000"
  unfolding sql_limiter_eq by (rule memory_limiter.rate_limiter_contract_axioms)

interpretation sql_epoch: policy_epoch_contract sql_epoch_get sql_epoch_advance
  by unfold_locales (auto simp: sql_epoch_get_def sql_epoch_advance_def split: if_splits option.splits)

section \<open>Revocation\<close>

lemma sql_revoke_resolve: "sql_revoke t a now = (b, t') \<Longrightarrow> sql_resolve t' (Some a) = Inr None"
  by (auto simp: sql_revoke_def sql_resolve_def split: option.splits if_splits)

text \<open>A revoked row stays revoked whatever is registered later.\<close>

lemma revoked_stays:
  "t a = Some row \<Longrightarrow> row_revoked_at row \<noteq> None \<Longrightarrow>
     sql_resolve (register_all sql_register t ps) (Some a) = Inr None"
proof (induction ps arbitrary: t)
  case Nil
  then show ?case by (simp add: sql_resolve_def)
next
  case (Cons p ps)
  have "(case sql_register t p of Inl _ \<Rightarrow> t | Inr t' \<Rightarrow> t') a = Some row"
    using Cons.prems by (auto simp: sql_register_def raise_def split: option.splits)
  with Cons.IH Cons.prems show ?case by simp
qed

end
