(* ===== verification/Auth_Service.thy ===== *)
theory Auth_Service
  imports Control_Plane
begin

text \<open>
  The authorization service over its two sets of adapters: when \<^verbatim>\<open>evaluate\<close> allows, that it allows
  what it should, that \<^verbatim>\<open>revalidate\<close> accepts exactly fresh bindings, and, over sequences of requests,
  that an allowed request id is not allowed again before its binding expires.
\<close>

section \<open>The two configurations\<close>

definition memory_adapters :: "(registry, rate_limiter, replay_guard, int) adapters" where
  "memory_adapters =
     \<lparr>ad_resolve = (\<lambda>r a. Inr (registry_resolve r a)), ad_limit = limiter_consume, ad_replay = guard_consume,
      ad_epoch = local_epoch_get\<rparr>"

definition sqlite_adapters :: "(principal_table, rate_limiter, replay_table, epoch_row) adapters" where
  "sqlite_adapters =
     \<lparr>ad_resolve = sql_resolve, ad_limit = sql_limiter_consume, ad_replay = sql_guard_consume,
      ad_epoch = sql_epoch_get\<rparr>"

text \<open>\<^verbatim>\<open>advance_policy_epoch\<close> with a store: the store advances, the cached number follows.\<close>

definition advance_policy_epoch :: "epoch_row \<Rightarrow> int \<Rightarrow> int \<Rightarrow> (epoch_row \<times> int) result" where
  "advance_policy_epoch store cached new_epoch =
     map_result (\<lambda>row. (row, new_epoch)) (sql_epoch_advance store new_epoch)"

section \<open>One evaluation\<close>

text \<open>What must hold of the principal for the request before the limiter and the guard are asked.\<close>

definition entitled :: "string \<Rightarrow> query_request \<Rightarrow> authenticated_principal \<Rightarrow> string \<Rightarrow> int \<Rightarrow> bool" where
  "entitled oper q p current epoch =
     (principal_is_valid p current epoch = Inr True
      \<and> q_project_constraint q \<in> set (ap_allowed_projects p)
      \<and> oper \<in> set (ap_allowed_operations p)
      \<and> q_purpose q \<in> set (ap_allowed_purposes p))"

lemma deny_not_allowed [simp]: "\<not> ev_allowed (deny r)" "ev_binding (deny r) = None"
  by (simp_all add: ev_allowed_def deny_def AUTHORIZATION_ALLOW_def AUTHORIZATION_DENY_def)

lemma handled_not_allowed: "handled e = Inr ev \<Longrightarrow> \<not> ev_allowed ev \<and> ev_binding ev = None"
  by (auto simp: handled_def split: if_splits)

lemma evaluate_allowD:
  assumes "evaluate ad sv q auth current clock = (Inr ev, sv')" "ev_allowed ev"
  obtains n p epoch l b g where
    "normalized q = Inr n" "ad_resolve ad (sv_registry sv) auth = Inr (Some p)"
    "ad_epoch ad (sv_epoch sv) = Inr epoch" "entitled (sv_operation sv) q p current epoch"
    "ad_limit ad (sv_limiter sv) (limiter_key p (sv_operation sv)) clock = (True, l)"
    "build_binding (sv_operation sv) q p current = Inr b"
    "ad_replay ad (sv_guard sv) (q_request_id q) (rb_fingerprint b) (rb_valid_until b) current = Inr (True, g)"
    "ev_binding ev = Some b" "sv' = sv\<lparr>sv_limiter := l, sv_guard := g\<rparr>"
proof -
  note ev = assms(1)
  note no = handled_not_allowed
  obtain n where n: "normalized q = Inr n"
    using ev assms(2) no by (cases "normalized q") (auto simp: evaluate_def)
  obtain p where p: "ad_resolve ad (sv_registry sv) auth = Inr (Some p)"
    using ev assms(2) n no by (auto simp: evaluate_def split: sum.splits option.splits)
  obtain epoch where epoch: "ad_epoch ad (sv_epoch sv) = Inr epoch"
    using ev assms(2) n p no by (cases "ad_epoch ad (sv_epoch sv)") (auto simp: evaluate_def)
  have ent: "entitled (sv_operation sv) q p current epoch"
    using ev assms(2) n p epoch no by (auto simp: evaluate_def entitled_def split: sum.splits if_splits)
  obtain ok l where l: "ad_limit ad (sv_limiter sv) (limiter_key p (sv_operation sv)) clock = (ok, l)"
    by fastforce
  have rest: "(case build_binding (sv_operation sv) q p current of Inl e \<Rightarrow> (handled e, sv\<lparr>sv_limiter := l\<rparr>)
     | Inr b \<Rightarrow>
       (case ad_replay ad (sv_guard sv) (q_request_id q) (rb_fingerprint b) (rb_valid_until b) current of
          Inl e \<Rightarrow> (handled e, sv\<lparr>sv_limiter := l\<rparr>)
        | Inr (fresh, g) \<Rightarrow>
            (if fresh then Inr \<lparr>ev_result = AUTHORIZATION_ALLOW, ev_reason = ''NONE'', ev_binding = Some b\<rparr>
             else Inr (deny ''REQUEST_REPLAY''), sv\<lparr>sv_limiter := l, sv_guard := g\<rparr>))) = (Inr ev, sv')"
    and ok
    using ev assms(2) n p epoch ent l by (auto simp: evaluate_def entitled_def Let_def split: if_splits)
  obtain b where b: "build_binding (sv_operation sv) q p current = Inr b"
    using rest assms(2) no by (cases "build_binding (sv_operation sv) q p current") auto
  obtain f g where g:
    "ad_replay ad (sv_guard sv) (q_request_id q) (rb_fingerprint b) (rb_valid_until b) current = Inr (f, g)"
    using rest assms(2) no b
    by (cases "ad_replay ad (sv_guard sv) (q_request_id q) (rb_fingerprint b) (rb_valid_until b) current") auto
  have f: "f" "ev_binding ev = Some b" "sv' = sv\<lparr>sv_limiter := l, sv_guard := g\<rparr>"
    using rest assms(2) b g by (auto split: if_splits)
  from that [OF n p epoch ent _ b] l g f \<open>ok\<close> show ?thesis by simp
qed

lemma evaluate_allowI:
  assumes "normalized q = Inr n" "ad_resolve ad (sv_registry sv) auth = Inr (Some p)"
    and "ad_epoch ad (sv_epoch sv) = Inr epoch" "entitled (sv_operation sv) q p current epoch"
    and "ad_limit ad (sv_limiter sv) (limiter_key p (sv_operation sv)) clock = (True, l)"
    and "build_binding (sv_operation sv) q p current = Inr b"
    and "ad_replay ad (sv_guard sv) (q_request_id q) (rb_fingerprint b) (rb_valid_until b) current = Inr (True, g)"
  shows "evaluate ad sv q auth current clock =
    (Inr \<lparr>ev_result = AUTHORIZATION_ALLOW, ev_reason = ''NONE'', ev_binding = Some b\<rparr>,
     sv\<lparr>sv_limiter := l, sv_guard := g\<rparr>)"
  using assms by (simp add: evaluate_def entitled_def)

lemma evaluate_guard:
  assumes "evaluate ad sv q auth current clock = (r, sv')"
  shows "sv_guard sv' = sv_guard sv \<or>
    (\<exists>fp ex f. ad_replay ad (sv_guard sv) (q_request_id q) fp ex current = Inr (f, sv_guard sv'))"
  using assms
  by (auto simp: evaluate_def Let_def split: sum.splits option.splits if_splits prod.splits)

text \<open>
  What can escape: an exception that the handler does not catch, raised by the registry, the epoch
  store, the check of the principal or the replay guard.
\<close>

lemma evaluate_raises:
  assumes "evaluate ad sv q auth current clock = (Inl e, sv')"
  shows "\<not> caught_tvk e"
    and "ad_resolve ad (sv_registry sv) auth = Inl e \<or> ad_epoch ad (sv_epoch sv) = Inl e
      \<or> (\<exists>p. ad_resolve ad (sv_registry sv) auth = Inr (Some p)
           \<and> ((\<exists>epoch. principal_is_valid p current epoch = Inl e)
              \<or> (\<exists>fp. ad_replay ad (sv_guard sv) (q_request_id q) fp (ap_valid_until p) current = Inl e)))"
proof -
  have n: "caught_tvk e" if "normalized q = Inl e" for e
    using normalized_error [OF that] by (simp add: caught_tvk_def is_value_error_def)
  have b: "caught_tvk e" if "build_binding (sv_operation sv) q p current = Inl e" for e p
    using build_binding_error [OF that] by (simp add: caught_tvk_def)
  have until: "rb_valid_until b = ap_valid_until p" if "build_binding (sv_operation sv) q p current = Inr b" for b p
    using build_binding_Inr(13) [OF that] .
  from assms show "\<not> caught_tvk e"
    by (auto simp: evaluate_def handled_def Let_def split: sum.splits option.splits prod.splits if_splits)
  from assms show "ad_resolve ad (sv_registry sv) auth = Inl e \<or> ad_epoch ad (sv_epoch sv) = Inl e
      \<or> (\<exists>p. ad_resolve ad (sv_registry sv) auth = Inr (Some p)
           \<and> ((\<exists>epoch. principal_is_valid p current epoch = Inl e)
              \<or> (\<exists>fp. ad_replay ad (sv_guard sv) (q_request_id q) fp (ap_valid_until p) current = Inl e)))"
    by (auto simp: evaluate_def handled_def Let_def until dest: n b split: sum.splits option.splits prod.splits if_splits)
qed

section \<open>Revalidation\<close>

lemma revalidate_True_iff:
  "revalidate ad sv q b current = Inr True \<longleftrightarrow>
     (\<exists>n epoch p. normalized q = Inr n \<and> ad_epoch ad (sv_epoch sv) = Inr epoch
        \<and> ad_resolve ad (sv_registry sv) (Some (rb_authentication_ref b)) = Inr (Some p)
        \<and> entitled (sv_operation sv) q p current epoch
        \<and> build_binding (sv_operation sv) q p (rb_issued_at b) = Inr b
        \<and> binding_is_valid b current epoch = Inr True)"
  (is "?l \<longleftrightarrow> ?r")
proof
  assume ?l
  then show ?r
    by (auto simp: revalidate_def refused_def entitled_def split: sum.splits option.splits if_splits)
next
  assume ?r
  then obtain n epoch p where h: "normalized q = Inr n" "ad_epoch ad (sv_epoch sv) = Inr epoch"
    "ad_resolve ad (sv_registry sv) (Some (rb_authentication_ref b)) = Inr (Some p)"
    "entitled (sv_operation sv) q p current epoch"
    "build_binding (sv_operation sv) q p (rb_issued_at b) = Inr b" "binding_is_valid b current epoch = Inr True"
    by blast
  from build_binding_Inr [OF h(5)] h(1)
  have "rb_request_fingerprint b = sha256_json (JObj n)" "rb_principal_ref b = ap_principal_ref p"
    by (auto simp: normalized_Inr_iff)
  moreover have "rb_policy_epoch b = epoch" using h(6) by (simp add: binding_is_valid_iff)
  ultimately show ?l using h by (simp add: revalidate_def entitled_def)
qed

lemma entitled_valid: "entitled oper q p current epoch \<Longrightarrow> principal_is_valid p current epoch = Inr True"
  by (simp add: entitled_def)

section \<open>Sequences of requests\<close>

type_synonym service_call = "query_request \<times> string option \<times> string \<times> instant"

fun run_service ::
  "('r, 'l, 'g, 'e) adapters \<Rightarrow> ('r, 'l, 'g, 'e) auth_service \<Rightarrow> service_call list
     \<Rightarrow> authorization_evaluation result list" where
  "run_service ad sv [] = []"
| "run_service ad sv ((q, auth, current, clock) # cs) =
     (case evaluate ad sv q auth current clock of (r, sv') \<Rightarrow> r # run_service ad sv' cs)"

definition allowed_with :: "authorization_evaluation result \<Rightarrow> request_binding \<Rightarrow> bool" where
  "allowed_with r b = (case r of Inr ev \<Rightarrow> ev_allowed ev \<and> ev_binding ev = Some b | Inl _ \<Rightarrow> False)"

abbreviation sc_request_id :: "service_call \<Rightarrow> string" where "sc_request_id c \<equiv> q_request_id (fst c)"
abbreviation sc_current :: "service_call \<Rightarrow> string" where "sc_current c \<equiv> fst (snd (snd c))"

text \<open>
  A service whose replay adapter reads the two time stamps and then consults a guard that keeps
  the guard contract.
\<close>

locale authorization_contract = replay_guard_contract consume live load capacity invar
  for consume :: "'g \<Rightarrow> string \<Rightarrow> string \<Rightarrow> instant \<Rightarrow> instant \<Rightarrow> (bool \<times> 'g) result"
    and live load capacity invar +
  fixes ad :: "('r, 'l, 'g, 'e) adapters"
  assumes replay_adapter: "ad_replay ad g rid fp ex now =
    bind_result (epoch_seconds now) (\<lambda>n. bind_result (epoch_seconds ex) (\<lambda>e. consume g rid fp e n))"
begin

lemma replay_Inr:
  assumes "ad_replay ad g rid fp ex now = Inr (f, g')"
  obtains n e where "parse_time now = Inr n" "parse_time ex = Inr e" "consume g rid fp e n = Inr (f, g')"
  using assms by (auto simp: replay_adapter result_simps epoch_seconds_def)

lemma evaluate_keeps:
  assumes "invar (sv_guard sv)" "evaluate ad sv q auth current clock = (r, sv')"
    and "within_capacity (load (sv_guard sv) + Suc m) (capacity (sv_guard sv))" "parse_time current = Inr now"
  shows "invar (sv_guard sv') \<and> within_capacity (load (sv_guard sv') + m) (capacity (sv_guard sv'))
    \<and> (\<forall>t i. now \<le> t \<longrightarrow> live (sv_guard sv) t i \<longrightarrow> live (sv_guard sv') t i)"
  using evaluate_guard [OF assms(2)]
proof (elim disjE exE)
  assume "sv_guard sv' = sv_guard sv"
  with assms(1,3) show ?thesis by (auto simp: within_capacity_def split: option.splits)
next
  fix fp ex f
  assume "ad_replay ad (sv_guard sv) (q_request_id q) fp ex current = Inr (f, sv_guard sv')"
  then obtain e where cons: "consume (sv_guard sv) (q_request_id q) fp e now = Inr (f, sv_guard sv')"
    using assms(4) by (auto elim!: replay_Inr)
  have "within_capacity (Suc (load (sv_guard sv))) (capacity (sv_guard sv))"
    using assms(3) by (auto simp: within_capacity_def split: option.splits)
  with live_kept [OF assms(1) cons] step_capacity [OF assms(1), of "(q_request_id q, fp, e, now)"]
    cons assms(3)
  show ?thesis by (simp add: guard_step_def)
qed

lemma allowed_consumes:
  assumes "evaluate ad sv q auth current clock = (r, sv')" "allowed_with r b"
  obtains n e where "parse_time current = Inr n" "parse_time (rb_valid_until b) = Inr e"
    "consume (sv_guard sv) (q_request_id q) (rb_fingerprint b) e n = Inr (True, sv_guard sv')"
proof -
  from assms(2) obtain ev where r: "r = Inr ev" "ev_allowed ev" "ev_binding ev = Some b"
    by (auto simp: allowed_with_def split: sum.splits)
  from assms(1) have "evaluate ad sv q auth current clock = (Inr ev, sv')" by (simp add: r)
  then obtain b' g where "ev_binding ev = Some b'"
    "ad_replay ad (sv_guard sv) (q_request_id q) (rb_fingerprint b') (rb_valid_until b') current = Inr (True, g)"
    "sv_guard sv' = g"
    using r(2) by (elim evaluate_allowD) auto
  with r(3) that show ?thesis by (auto elim!: replay_Inr)
qed

lemma service_refuses_live:
  "\<lbrakk>invar (sv_guard sv); within_capacity (load (sv_guard sv) + length cs) (capacity (sv_guard sv));
    list_all2 (\<lambda>c t. parse_time (sc_current c) = Inr t) cs ts; sorted ts; j < length cs;
    live (sv_guard sv) (ts ! j) (sc_request_id (cs ! j))\<rbrakk> \<Longrightarrow> \<not> allowed_with (run_service ad sv cs ! j) b"
proof (induction cs arbitrary: sv ts j)
  case (Cons c cs)
  obtain q auth current clock where c: "c = (q, auth, current, clock)" by (cases c) auto
  obtain r sv' where ev: "evaluate ad sv q auth current clock = (r, sv')" by fastforce
  from Cons.prems(3) obtain t0 ts' where ts: "ts = t0 # ts'" and t0: "parse_time current = Inr t0"
    and ts': "list_all2 (\<lambda>c t. parse_time (sc_current c) = Inr t) cs ts'"
    by (auto simp: c list_all2_Cons1)
  show ?case
  proof (cases j)
    case 0
    have False if a: "allowed_with r b"
      using ev a
    proof (rule allowed_consumes)
      fix n e
      assume "parse_time current = Inr n"
        and cons: "consume (sv_guard sv) (q_request_id q) (rb_fingerprint b) e n = Inr (True, sv_guard sv')"
      with Cons.prems(6) 0 ts t0 c have "live (sv_guard sv) n (q_request_id q)" by simp
      from live_refused [OF Cons.prems(1) this cons] show False by simp
    qed
    with 0 c ev show ?thesis by auto
  next
    case (Suc k)
    with Cons.prems(5) have k: "k < length cs" by simp
    with ts' have len: "k < length ts'" by (simp add: list_all2_lengthD)
    with Cons.prems(4) ts have "t0 \<le> ts' ! k" by simp
    moreover from evaluate_keeps [OF Cons.prems(1) ev _ t0, of "length cs"] Cons.prems(2)
    have kept: "invar (sv_guard sv') \<and> within_capacity (load (sv_guard sv') + length cs) (capacity (sv_guard sv'))
      \<and> (\<forall>t i. t0 \<le> t \<longrightarrow> live (sv_guard sv) t i \<longrightarrow> live (sv_guard sv') t i)" by simp
    ultimately have "live (sv_guard sv') (ts' ! k) (sc_request_id (cs ! k))"
      using Cons.prems(6) Suc ts by simp
    with Cons.IH [OF _ _ ts' _ k] kept Cons.prems(4) ts Suc c ev show ?thesis by simp
  qed
qed simp

lemma service_no_replay:
  "\<lbrakk>invar (sv_guard sv); within_capacity (load (sv_guard sv) + length cs) (capacity (sv_guard sv));
    list_all2 (\<lambda>c t. parse_time (sc_current c) = Inr t) cs ts; sorted ts; i < j; j < length cs;
    sc_request_id (cs ! i) = sc_request_id (cs ! j);
    allowed_with (run_service ad sv cs ! i) b; allowed_with (run_service ad sv cs ! j) b'\<rbrakk> \<Longrightarrow>
     \<exists>e. parse_time (rb_valid_until b) = Inr e \<and> e \<le> ts ! j"
proof (induction cs arbitrary: sv ts i j)
  case (Cons c cs)
  obtain q auth current clock where c: "c = (q, auth, current, clock)" by (cases c) auto
  obtain r sv' where ev: "evaluate ad sv q auth current clock = (r, sv')" by fastforce
  from Cons.prems(3) obtain t0 ts' where ts: "ts = t0 # ts'" and t0: "parse_time current = Inr t0"
    and ts': "list_all2 (\<lambda>c t. parse_time (sc_current c) = Inr t) cs ts'"
    by (auto simp: c list_all2_Cons1)
  from evaluate_keeps [OF Cons.prems(1) ev _ t0, of "length cs"] Cons.prems(2)
  have inv': "invar (sv_guard sv')" and cap': "within_capacity (load (sv_guard sv') + length cs) (capacity (sv_guard sv'))"
    by simp_all
  obtain k where j: "j = Suc k" and k: "k < length cs" using Cons.prems(5,6) by (cases j) auto
  show ?case
  proof (cases i)
    case 0
    from Cons.prems(8) 0 c ev have a: "allowed_with r b" by simp
    from ev a obtain n e where e: "parse_time (rb_valid_until b) = Inr e"
      and cons: "consume (sv_guard sv) (q_request_id q) (rb_fingerprint b) e n = Inr (True, sv_guard sv')"
      by (rule allowed_consumes)
    have "e \<le> ts ! j"
    proof (rule ccontr)
      assume "\<not> e \<le> ts ! j"
      with ts j have "ts' ! k < e" by simp
      from accepted_live [OF Cons.prems(1) cons this]
      have "live (sv_guard sv') (ts' ! k) (sc_request_id (cs ! k))"
        using Cons.prems(7) 0 j c by simp
      from service_refuses_live [OF inv' cap' ts' _ k this] Cons.prems(4,9) ts j c ev show False by simp
    qed
    with e show ?thesis by blast
  next
    case (Suc i')
    from Cons.IH [OF inv' cap' ts', of i' k] Cons.prems Suc j c ev ts show ?thesis by simp
  qed
qed simp

end

interpretation memory_service: authorization_contract guard_consume_at guard_live
  "\<lambda>g. length (rg_seen g)" "\<lambda>g. Some (rg_max_entries g)" guard_invar memory_adapters
  by unfold_locales (simp add: memory_adapters_def guard_consume_def)

interpretation sqlite_service: authorization_contract sql_guard_consume_at sql_guard_live
  "\<lambda>t. 0" "\<lambda>t. None" "\<lambda>t. True" sqlite_adapters
  by unfold_locales (simp add: sqlite_adapters_def sql_guard_consume_def)

end
