(* ===== verification/Checks.thy ===== *)
theory Checks
  imports Canonical
begin

text \<open>
  The record validators of \<^verbatim>\<open>decisions.py\<close>, \<^verbatim>\<open>policy.py\<close>, \<^verbatim>\<open>network.py\<close> and \<^verbatim>\<open>gate_d.py\<close> are sequences
  of guarded raises. A guard is a value of type \<open>unit result\<close>, a validator the list of its guards
  in the order of the code, and its outcome the first failure. A guard that reads a key which an
  earlier guard requires is harmless when the key is missing: the earlier failure is the outcome.
\<close>

section \<open>Guards\<close>

definition fails_if :: "bool \<Rightarrow> exc_class \<Rightarrow> string \<Rightarrow> unit result" where
  "fails_if b c m = (if b then raise c m else Inr ())"

text \<open>A guard whose condition may itself raise.\<close>

definition fails_if_r :: "bool result \<Rightarrow> exc_class \<Rightarrow> string \<Rightarrow> unit result" where
  "fails_if_r r c m = bind_result r (\<lambda>b. fails_if b c m)"

text \<open>Short-circuit \<^verbatim>\<open>or\<close> and \<^verbatim>\<open>and\<close>, and \<^verbatim>\<open>not\<close>, of conditions that may raise.\<close>

definition or_r :: "bool result \<Rightarrow> bool result \<Rightarrow> bool result" where
  "or_r a b = bind_result a (\<lambda>x. if x then Inr True else b)"

definition and_r :: "bool result \<Rightarrow> bool result \<Rightarrow> bool result" where
  "and_r a b = bind_result a (\<lambda>x. if x then b else Inr False)"

definition not_in :: "json \<Rightarrow> string list \<Rightarrow> bool result" where
  "not_in v S = map_result Not (in_set v S)"

fun run_checks :: "unit result list \<Rightarrow> unit result" where
  "run_checks [] = Inr ()"
| "run_checks (c # cs) = (case c of Inl e \<Rightarrow> Inl e | Inr _ \<Rightarrow> run_checks cs)"

text \<open>The keys of a record; \<^verbatim>\<open>{k: v for k, v in r.items() if k not in ks}\<close>.\<close>

definition keys :: "dict \<Rightarrow> string set" where
  "keys r = fst ` set r"

definition without :: "string list \<Rightarrow> dict \<Rightarrow> dict" where
  "without ks r = filter (\<lambda>kv. fst kv \<notin> set ks) r"

definition all_strs :: "json \<Rightarrow> bool" where
  "all_strs v = (case v of JList xs \<Rightarrow> list_all nonempty_str xs | _ \<Rightarrow> False)"

definition is_list :: "json \<Rightarrow> bool" where
  "is_list v = (case v of JList _ \<Rightarrow> True | _ \<Rightarrow> False)"

definition is_str :: "json \<Rightarrow> bool" where
  "is_str v = (case v of JStr _ \<Rightarrow> True | _ \<Rightarrow> False)"

definition is_bool :: "json \<Rightarrow> bool" where
  "is_bool v = (case v of JBool _ \<Rightarrow> True | _ \<Rightarrow> False)"

definition is_obj :: "json \<Rightarrow> bool" where
  "is_obj v = (case v of JObj _ \<Rightarrow> True | _ \<Rightarrow> False)"

text \<open>
  \<^verbatim>\<open>len(set(xs)) == len(xs)\<close> on a list of strings.
\<close>

definition no_repeats :: "json \<Rightarrow> bool" where
  "no_repeats v = (case v of JList xs \<Rightarrow> distinct xs | _ \<Rightarrow> False)"

section \<open>A validator passes exactly when each of its guards does\<close>

named_theorems check_simps "when a guard passes"

lemma run_checks_passes: "run_checks cs = Inr u \<longleftrightarrow> (\<forall>c \<in> set cs. c = Inr ())"
  by (induction cs) (auto split: sum.splits)

lemma run_checks_Cons [simp]: "run_checks (c # cs) = Inr u \<longleftrightarrow> c = Inr () \<and> run_checks cs = Inr ()"
  by (cases c) auto

declare run_checks.simps(2) [simp del]

lemma run_checks_append: "run_checks (cs @ ds) = bind_result (run_checks cs) (\<lambda>_. run_checks ds)"
  by (induction cs) (auto simp: run_checks.simps(2) split: sum.splits)

lemma run_checks_error_of: "run_checks cs = Inl e \<Longrightarrow> Inl e \<in> set cs"
  by (induction cs) (auto simp: run_checks.simps(2) split: sum.splits)

lemma fails_if_passes [check_simps]: "fails_if b c m = Inr u \<longleftrightarrow> \<not> b"
  by (simp add: fails_if_def)

lemma fails_if_error: "fails_if b c m = Inl e \<longleftrightarrow> b \<and> e = (c, m)"
  by (auto simp: fails_if_def raise_def)

lemma fails_if_r_passes [check_simps]: "fails_if_r r c m = Inr u \<longleftrightarrow> r = Inr False"
  by (cases r) (auto simp: fails_if_r_def fails_if_def)

lemma fails_if_r_error: "fails_if_r r c m = Inl e \<longleftrightarrow> r = Inl e \<or> (r = Inr True \<and> e = (c, m))"
  by (cases r) (auto simp: fails_if_r_def fails_if_error)

lemma or_r_False [check_simps]: "or_r a b = Inr False \<longleftrightarrow> a = Inr False \<and> b = Inr False"
  by (cases a) (auto simp: or_r_def)

lemma and_r_False [check_simps]: "and_r a b = Inr False \<longleftrightarrow> a = Inr False \<or> (a = Inr True \<and> b = Inr False)"
  by (cases a) (auto simp: and_r_def)

lemma not_in_False [check_simps]: "not_in v S = Inr False \<longleftrightarrow> (\<exists>s \<in> set S. v = JStr s)"
  by (cases v) (auto simp: not_in_def raise_def)

lemma in_set_False [check_simps]:
  "in_set v S = Inr False \<longleftrightarrow> (\<forall>s \<in> set S. v \<noteq> JStr s) \<and> \<not> is_list v \<and> \<not> is_obj v"
  by (cases v) (auto simp: is_list_def is_obj_def)

lemma in_set_error: "in_set v S = Inl e \<Longrightarrow> fst e = TypeError"
  by (cases v) (auto simp: raise_def)

lemma not_in_error: "not_in v S = Inl e \<Longrightarrow> fst e = TypeError"
  by (cases v) (auto simp: not_in_def raise_def)

lemma or_r_error: "or_r a b = Inl e \<Longrightarrow> a = Inl e \<or> b = Inl e"
  by (cases a) (auto simp: or_r_def split: if_splits)

lemma and_r_error: "and_r a b = Inl e \<Longrightarrow> a = Inl e \<or> b = Inl e"
  by (cases a) (auto simp: and_r_def split: if_splits)

lemma without_absent [simp]: "k \<notin> fst ` set r \<Longrightarrow> without [k] r = r"
  by (induction r) (auto simp: without_def)

lemma without_append_key [simp]: "k \<notin> fst ` set r \<Longrightarrow> without [k] (r @ [(k, v)]) = r"
  by (induction r) (auto simp: without_def)

lemma get_append: "get (r @ s) k = (if has_key r k then get r k else get s k)"
  by (auto simp: get_def has_key_def map_add_def split: option.splits)

lemma has_key_keys: "has_key r k \<longleftrightarrow> k \<in> keys r"
  by (auto simp: has_key_def keys_def map_of_eq_None_iff)


text \<open>
  Lookups in literal records. The rules are few, so that a lookup does not rewrite the entries it
  passes by.
\<close>

lemma get_here: "get ((k, v) # r) k = v" by simp
lemma get_there: "k' \<noteq> k \<Longrightarrow> get ((k', v) # r) k = get r k" by simp
lemma has_key_here: "has_key ((k, v) # r) k" by simp
lemma has_key_there: "k' \<noteq> k \<Longrightarrow> has_key ((k', v) # r) k = has_key r k" by simp

lemmas lookup_simps = get_here get_there has_key_here has_key_there append.simps list.inject char.inject list.distinct
  simp_thms has_key_simps(1) get_simps(1)

lemma keys_snoc: "keys (r @ [(k, v)]) = set (map fst r @ [k])"
  by (simp add: keys_def)

end
