(* ===== verification/Read_Projection.thy ===== *)
theory Read_Projection
  imports Evidence_Runtime Auth_Service Checks
begin

text \<open>
  \<^verbatim>\<open>pmiri/read_projection.py\<close>: the request parser, the shared handler behind the API and MCP facades and
  the parity fingerprint. The handler composes the request authorization, the evidence runtime and the
  disclosure projection. Other threads may change the authorization service while a query runs: the
  environment of a call says what they do to it between the evaluation and the revalidation.
\<close>

section \<open>ProjectionRequest\<close>

definition PROJECTION_VERSION :: string where "PROJECTION_VERSION = ''0.1''"

record projection_request =
  pr_request_id :: string
  pr_project_constraint :: string
  pr_query :: string
  pr_purpose :: string
  pr_max_results :: int
  pr_client_authorization_ref :: "string option"
  pr_client_cursor :: "string option"

text \<open>\<^verbatim>\<open>r.get(k, default)\<close>.\<close>

definition get_or :: "dict \<Rightarrow> string \<Rightarrow> json \<Rightarrow> json" where
  "get_or r k d = (case map_of r k of None \<Rightarrow> d | Some v \<Rightarrow> v)"

definition opt_str :: "json \<Rightarrow> string option" where
  "opt_str v = (case v of JStr s \<Rightarrow> Some s | _ \<Rightarrow> None)"

definition as_text :: "json \<Rightarrow> string" where
  "as_text v = (case v of JStr s \<Rightarrow> s | _ \<Rightarrow> [])"

definition pr_query_request :: "projection_request \<Rightarrow> query_request" where
  "pr_query_request p =
     \<lparr>q_request_id = pr_request_id p, q_project_constraint = pr_project_constraint p, q_query = pr_query p,
      q_purpose = pr_purpose p, q_max_results = pr_max_results p\<rparr>"

definition request_fields :: "string list" where
  "request_fields = [''request_id'', ''project_constraint'', ''query'', ''purpose'', ''max_results'', ''authorization_ref'', ''cursor'']"

definition cursor_shape :: "string \<Rightarrow> bool" where
  "cursor_shape c = (py_len c = 71 \<and> startswith c ''cursor_'' \<and> is_sha256_str (drop 7 c))"

definition from_mapping :: "json \<Rightarrow> projection_request result" where
  "from_mapping v =
     (case v of
        JObj raw \<Rightarrow>
          if \<exists>k \<in> set (map fst raw). k \<notin> set request_fields then raise ValueError ''projection_request_field_not_allowed''
          else
            let purpose = get_or raw ''purpose'' (JStr ''local_read'');
                max_results = get_or raw ''max_results'' (JInt 20);
                auth = get raw ''authorization_ref'';
                cursor = get raw ''cursor''
            in if \<not> (is_str (get raw ''request_id'') \<and> is_str (get raw ''project_constraint'')
                      \<and> is_str (get raw ''query'') \<and> is_str purpose)
               then raise ValueError ''projection_request_types_invalid''
               else if auth \<noteq> JNull \<and> \<not> is_str auth then raise ValueError ''projection_authorization_ref_invalid''
               else if cursor \<noteq> JNull \<and> \<not> is_str cursor then raise ValueError ''projection_cursor_invalid''
               else (case max_results of
                       JInt n \<Rightarrow>
                         let p = \<lparr>pr_request_id = as_text (get raw ''request_id''),
                                  pr_project_constraint = as_text (get raw ''project_constraint''),
                                  pr_query = as_text (get raw ''query''), pr_purpose = as_text purpose,
                                  pr_max_results = n, pr_client_authorization_ref = opt_str auth,
                                  pr_client_cursor = opt_str cursor\<rparr>
                         in bind_result (normalized (pr_query_request p)) (\<lambda>_.
                              case pr_client_cursor p of
                                None \<Rightarrow> Inr p
                              | Some c \<Rightarrow> if cursor_shape c then Inr p else raise ValueError ''projection_cursor_invalid'')
                     | _ \<Rightarrow> raise ValueError ''projection_max_results_invalid'')
      | _ \<Rightarrow> raise ValueError ''projection_request_must_be_object'')"

definition server_binding :: "query_request \<Rightarrow> dict result" where
  "server_binding q =
     map_result (\<lambda>n.
       let fp = sha256_json (JObj n)
       in [(''authorization_ref'', JStr (''auth_'' @ take 32 (sha256_json (JObj
              [(''request_fingerprint'', JStr fp), (''scope'', JStr ''server-derived-local-read'')])))),
           (''request_fingerprint'', JStr fp), (''scope'', JStr (q_project_constraint q))])
       (normalized q)"

section \<open>ReadProjectionService\<close>

text \<open>
  The service holds the runtime (Unicode tables, context bound and store) and an optional
  authorization service with its adapters. A call carries the time it is evaluated at, the reading of
  the limiter's clock, the time it is revalidated at, and what happens to the service in between.
\<close>

record read_runtime =
  rt_unicode :: unicode_tables
  rt_bound :: nat
  rt_list :: "string \<Rightarrow> source_record list result"

record ('r, 'l, 'g, 'e) call_env =
  ce_current :: string
  ce_clock :: instant
  ce_later :: string
  ce_meanwhile :: "('r, 'l, 'g, 'e) auth_service \<Rightarrow> ('r, 'l, 'g, 'e) auth_service"

definition query_of :: "read_runtime \<Rightarrow> query_request \<Rightarrow> query_result result" where
  "query_of rt q = runtime_query (rt_unicode rt) (rt_bound rt) (rt_list rt) q"

definition members_of :: "json \<Rightarrow> dict" where
  "members_of v = (case v of JObj d \<Rightarrow> d | _ \<Rightarrow> [])"

definition continuation_of :: "dict \<Rightarrow> dict \<Rightarrow> string" where
  "continuation_of binding result =
     ''cursor_'' @ sha256_json (JObj
       [(''binding'', JObj binding), (''evidence'', get (members_of (get result ''lineage'')) ''evidence_refs'')])"

definition handle :: "read_runtime \<Rightarrow> json \<Rightarrow> dict result" where
  "handle rt raw =
     bind_result (from_mapping raw) (\<lambda>p.
     bind_result (server_binding (pr_query_request p)) (\<lambda>binding.
     bind_result (query_of rt (pr_query_request p)) (\<lambda>qr.
     map_result (\<lambda>result.
       [(''projection_version'', JStr PROJECTION_VERSION), (''request'', get result ''request''),
        (''result'', get result ''result''), (''evidence'', get result ''evidence''),
        (''lineage'', JObj (dict_merge (members_of (get result ''lineage'')) binding)),
        (''context'', get result ''context''), (''continuation'', JStr (continuation_of binding result))])
       (structured qr))))"

definition handle_disclosed ::
  "read_runtime \<Rightarrow> json \<Rightarrow> bool \<Rightarrow> dict option \<Rightarrow> (query_request \<Rightarrow> bool result) option \<Rightarrow> dict result" where
  "handle_disclosed rt raw authorized given_binding revalidate_call =
     bind_result (from_mapping raw) (\<lambda>p.
       let q = pr_query_request p
       in bind_result (case given_binding of
                         Some b \<Rightarrow> if b = [] then server_binding q else Inr b
                       | None \<Rightarrow> server_binding q) (\<lambda>binding.
          bind_result (query_of rt q) (\<lambda>qr.
          bind_result (case revalidate_call of
                         Some f \<Rightarrow> if authorized then f q else Inr authorized
                       | None \<Rightarrow> Inr authorized) (\<lambda>still.
          map_result (\<lambda>result.
            dict_put ''continuation'' (JStr (continuation_of binding result))
              (dict_put ''lineage'' (JObj (dict_merge (members_of (get result ''lineage'')) binding)) result))
            (project_query_result qr still)))))"

type_synonym ('r, 'l, 'g, 'e) authority = "('r, 'l, 'g, 'e) adapters \<times> ('r, 'l, 'g, 'e) auth_service"

definition handle_authenticated ::
  "read_runtime \<Rightarrow> ('r, 'l, 'g, 'e) authority option \<Rightarrow> ('r, 'l, 'g, 'e) call_env \<Rightarrow> json \<Rightarrow> string option
     \<Rightarrow> dict result \<times> ('r, 'l, 'g, 'e) authority option" where
  "handle_authenticated rt authority env raw authentication_ref =
     (case authority of
        None \<Rightarrow> (raise ValueError ''authorization_service_required'', authority)
      | Some (ad, sv) \<Rightarrow>
          (case from_mapping raw of
             Inl e \<Rightarrow> (Inl e, authority)
           | Inr p \<Rightarrow>
               (case evaluate ad sv (pr_query_request p) authentication_ref (ce_current env) (ce_clock env) of
                  (Inl e, sv1) \<Rightarrow> (Inl e, Some (ad, sv1))
                | (Inr ev, sv1) \<Rightarrow>
                    let sv2 = ce_meanwhile env sv1
                    in (handle_disclosed rt raw (ev_allowed ev) (map_option public_lineage (ev_binding ev))
                          (map_option (\<lambda>b q. revalidate ad sv2 q b (ce_later env)) (ev_binding ev)),
                        Some (ad, sv2)))))"

definition projection_api :: "read_runtime \<Rightarrow> ('r, 'l, 'g, 'e) authority option \<Rightarrow> json \<Rightarrow> dict result" where
  "projection_api rt authority raw =
     (if authority \<noteq> None then raise ValueError ''authenticated_adapter_required'' else handle rt raw)"

definition projection_mcp :: "read_runtime \<Rightarrow> ('r, 'l, 'g, 'e) authority option \<Rightarrow> json \<Rightarrow> dict result" where
  "projection_mcp rt authority raw =
     (if authority \<noteq> None then raise ValueError ''authenticated_adapter_required'' else handle rt raw)"

definition api_disclosed :: "read_runtime \<Rightarrow> ('r, 'l, 'g, 'e) authority option \<Rightarrow> json \<Rightarrow> bool \<Rightarrow> dict result" where
  "api_disclosed rt authority raw authorized =
     (if authority \<noteq> None then raise ValueError ''caller_authorization_flag_not_authority''
      else handle_disclosed rt raw authorized None None)"

definition mcp_disclosed :: "read_runtime \<Rightarrow> ('r, 'l, 'g, 'e) authority option \<Rightarrow> json \<Rightarrow> bool \<Rightarrow> dict result" where
  "mcp_disclosed rt authority raw authorized =
     (if authority \<noteq> None then raise ValueError ''caller_authorization_flag_not_authority''
      else handle_disclosed rt raw authorized None None)"

definition api_authenticated where
  "api_authenticated rt authority env raw auth = handle_authenticated rt authority env raw auth"

definition mcp_authenticated where
  "mcp_authenticated rt authority env raw auth = handle_authenticated rt authority env raw auth"

section \<open>Parity\<close>

text \<open>\<^verbatim>\<open>r[k]\<close>.\<close>

definition item :: "dict \<Rightarrow> string \<Rightarrow> json result" where
  "item r k = (case map_of r k of None \<Rightarrow> raise KeyError k | Some v \<Rightarrow> Inr v)"

definition semantic_projection :: "dict \<Rightarrow> dict result" where
  "semantic_projection r =
     map_result (\<lambda>vs. (''projection_version'', get_or r ''projection_version'' (get r ''disclosure_version'')) # vs)
       (traverse (\<lambda>k. map_result (\<lambda>v. (k, v)) (item r k))
          [''request'', ''result'', ''evidence'', ''lineage'', ''context'', ''continuation''])"

definition parity_fingerprint :: "dict \<Rightarrow> dict \<Rightarrow> (bool \<times> string \<times> string) result" where
  "parity_fingerprint api mcp =
     bind_result (semantic_projection api) (\<lambda>a.
     map_result (\<lambda>b. let fa = sha256_json (JObj a); fb = sha256_json (JObj b) in (fa = fb, fa, fb))
       (semantic_projection mcp))"

section \<open>The response of the authenticated handler\<close>

text \<open>The response built from a binding and a projected result.\<close>

definition respond :: "dict \<Rightarrow> dict \<Rightarrow> dict" where
  "respond binding result =
     dict_put ''continuation'' (JStr (continuation_of binding result))
       (dict_put ''lineage'' (JObj (dict_merge (members_of (get result ''lineage'')) binding)) result)"

lemma evaluate_binding:
  assumes "evaluate ad sv q auth current clock = (Inr ev, sv')"
  shows "ev_allowed ev = (ev_binding ev \<noteq> None)" "ev_binding ev = Some b \<Longrightarrow> server_binding q = Inr (public_lineage b)"
proof -
  show al: "ev_allowed ev = (ev_binding ev \<noteq> None)"
    using assms
    by (auto simp: evaluate_def Let_def ev_allowed_def deny_def AUTHORIZATION_ALLOW_def AUTHORIZATION_DENY_def handled_def
        split: sum.splits option.splits if_splits prod.splits)
  assume b: "ev_binding ev = Some b"
  with al evaluate_allowD [OF assms] obtain p where "build_binding (sv_operation sv) q p current = Inr b" by auto
  from build_binding_Inr [OF this] show "server_binding q = Inr (public_lineage b)"
    by (simp add: server_binding_def public_lineage_def Let_def)
qed

lemma public_lineage_not_Nil [simp]: "public_lineage b \<noteq> []"
  by (simp add: public_lineage_def)

text \<open>Whatever the evaluation says, the binding of a response is the one the server derives from the request.\<close>

lemma handle_authenticated_Inr:
  assumes "handle_authenticated rt (Some (ad, sv)) env raw auth = (Inr resp, au')"
  obtains p ev sv1 qr still binding result where
    "from_mapping raw = Inr p" "evaluate ad sv (pr_query_request p) auth (ce_current env) (ce_clock env) = (Inr ev, sv1)"
    "server_binding (pr_query_request p) = Inr binding" "query_of rt (pr_query_request p) = Inr qr"
    "still = (case ev_binding ev of Some b \<Rightarrow> revalidate ad (ce_meanwhile env sv1) (pr_query_request p) b (ce_later env) = Inr True | None \<Rightarrow> False)"
    "project_query_result qr still = Inr result" "resp = respond binding result"
proof -
  obtain p where p: "from_mapping raw = Inr p"
    using assms by (cases "from_mapping raw") (auto simp: handle_authenticated_def)
  let ?q = "pr_query_request p"
  obtain er sv1 where er: "evaluate ad sv ?q auth (ce_current env) (ce_clock env) = (er, sv1)" by fastforce
  obtain ev where ev: "evaluate ad sv ?q auth (ce_current env) (ce_clock env) = (Inr ev, sv1)"
    using assms er by (cases er) (auto simp: handle_authenticated_def p)
  note eb = evaluate_binding [OF ev]
  have h: "handle_disclosed rt raw (ev_allowed ev) (map_option public_lineage (ev_binding ev))
      (map_option (\<lambda>b q. revalidate ad (ce_meanwhile env sv1) q b (ce_later env)) (ev_binding ev)) = Inr resp"
    using assms by (simp add: handle_authenticated_def p ev Let_def)
  show ?thesis
  proof (cases "ev_binding ev")
    case None
    then obtain binding qr result where r: "server_binding ?q = Inr binding" "query_of rt ?q = Inr qr"
      "project_query_result qr False = Inr result" "resp = respond binding result"
      using h eb(1) by (auto simp: handle_disclosed_def p Let_def result_simps respond_def)
    show ?thesis by (rule that [OF p ev r(1,2) refl]) (use None r in auto)
  next
    case (Some b)
    then obtain qr still result where r: "query_of rt ?q = Inr qr"
      "revalidate ad (ce_meanwhile env sv1) ?q b (ce_later env) = Inr still"
      "project_query_result qr still = Inr result" "resp = respond (public_lineage b) result"
      using h eb(1) by (auto simp: handle_disclosed_def p Let_def result_simps respond_def)
    show ?thesis by (rule that [OF p ev eb(2) [OF Some] r(1) refl]) (use Some r in auto)
  qed
qed

lemma get_respond: "k \<noteq> ''continuation'' \<Longrightarrow> k \<noteq> ''lineage'' \<Longrightarrow> get (respond binding result) k = get result k"
  by (simp add: respond_def get_def)

lemma query_of_fields: "query_of rt q = Inr qr \<Longrightarrow> r_request qr = q \<and> c_bound (r_context qr) = rt_bound rt"
  by (auto simp: query_of_def runtime_query_Inr_iff compile_fields)

lemma project_evidence:
  assumes "project_query_result qr still = Inr result"
  shows "get result ''evidence'' = JList (if still then map (\<lambda>e. JObj (item_public_dict e)) (r_evidence qr) else [])"
  using assms by (auto simp: project_query_result_def empty_projection_def structured_def result_simps get_def Let_def split: if_splits)

lemma project_empty:
  assumes "project_query_result qr still = Inr result" "get result ''evidence'' = JList []"
  shows "empty_projection qr = Inr result"
proof -
  have "\<not> still \<or> r_evidence qr = []" using project_evidence [OF assms(1)] assms(2) by (simp split: if_splits)
  with assms(1) show ?thesis by (auto simp: project_query_result_def)
qed

end
