(* ===== verification/Read_Operations.thy ===== *)
theory Read_Operations
  imports Read_Projection
begin

text \<open>
  \<^verbatim>\<open>pmiri/read_operations.py\<close>: the seven read operations over the shared projection handler, the
  continuation bound to the operation, the typed result and the final emission fence.
\<close>

section \<open>The emission fence\<close>

definition READ_OPERATIONS :: "string list" where
  "READ_OPERATIONS =
     [''search'', ''fetch_evidence'', ''resolve_current_state'', ''retrieve_history'', ''timeline'', ''explain'', ''status'']"

abbreviation read_error :: "string \<Rightarrow> 'a result" where
  "read_error m \<equiv> raise ExternalReadEmissionError m"

record emission_fence =
  ef_operation :: string
  ef_projection_fingerprint :: string
  ef_typed_result_fingerprint :: string
  ef_status :: string

definition fence_create :: "string \<Rightarrow> dict \<Rightarrow> dict \<Rightarrow> emission_fence result" where
  "fence_create operation projection typed_result =
     (if operation \<notin> set READ_OPERATIONS then read_error ''read_operation_unknown''
      else Inr \<lparr>ef_operation = operation, ef_projection_fingerprint = disclosure_fingerprint projection,
                ef_typed_result_fingerprint = sha256_json (JObj typed_result), ef_status = ''EMIT_VALID''\<rparr>)"

definition fence_structured :: "emission_fence \<Rightarrow> dict" where
  "fence_structured f =
     [(''record_type'', JStr ''PMIRI_EXTERNAL_READ_EMISSION_FENCE''), (''schema_version'', JStr ''0.1''),
      (''operation'', JStr (ef_operation f)), (''projection_fingerprint'', JStr (ef_projection_fingerprint f)),
      (''typed_result_fingerprint'', JStr (ef_typed_result_fingerprint f)), (''status'', JStr (ef_status f))]"

text \<open>\<^verbatim>\<open>list(v)\<close>: the elements of a list, the characters of a text, the keys of a mapping.\<close>

definition list_of :: "json \<Rightarrow> json list result" where
  "list_of v =
     (case v of
        JList xs \<Rightarrow> Inr xs
      | JStr s \<Rightarrow> Inr (map JStr (uchars s))
      | JObj d \<Rightarrow> Inr (map (\<lambda>kv. JStr (fst kv)) d)
      | _ \<Rightarrow> raise TypeError ''object is not iterable'')"

definition fence_assert_valid :: "emission_fence \<Rightarrow> dict \<Rightarrow> unit result" where
  "fence_assert_valid f envelope =
     (let pv = get envelope ''projection''; tv = get envelope ''typed_result'';
          projection = members_of pv; typed = members_of tv;
          result = members_of (get projection ''result''); lineage = members_of (get projection ''lineage'')
      in run_checks
        [fails_if (ef_status f \<noteq> ''EMIT_VALID'') ExternalReadEmissionError ''read_emission_not_valid'',
         fails_if (\<not> py_eq (get envelope ''operation'') (JStr (ef_operation f))) ExternalReadEmissionError ''read_operation_binding_mismatch'',
         fails_if (\<not> is_obj pv \<or> \<not> is_obj tv) ExternalReadEmissionError ''read_emission_shape_invalid'',
         fails_if (disclosure_fingerprint projection \<noteq> ef_projection_fingerprint f) ExternalReadEmissionError ''read_projection_fingerprint_mismatch'',
         fails_if (sha256_json (JObj typed) \<noteq> ef_typed_result_fingerprint f) ExternalReadEmissionError ''read_typed_result_fingerprint_mismatch'',
         fails_if (\<not> py_eq (get typed ''operation'') (JStr (ef_operation f))) ExternalReadEmissionError ''read_typed_result_operation_mismatch'',
         fails_if (\<not> is_obj (get projection ''result'') \<or> \<not> is_obj (get projection ''lineage'')) ExternalReadEmissionError ''read_projection_authority_shape_invalid'',
         fails_if (\<not> py_eq (get typed ''projection_fingerprint'') (JStr (ef_projection_fingerprint f))) ExternalReadEmissionError ''read_typed_result_projection_binding_mismatch'',
         fails_if (\<not> py_eq (get typed ''disposition'') (get result ''disposition'')) ExternalReadEmissionError ''read_typed_result_not_authoritative'',
         fails_if (\<not> py_eq (get typed ''coverage'') (get result ''coverage'')) ExternalReadEmissionError ''read_typed_result_coverage_mismatch'',
         fails_if (\<not> py_eq (get typed ''authorization_ref'') (get lineage ''authorization_ref'')) ExternalReadEmissionError ''read_typed_result_authorization_mismatch'',
         bind_result (list_of (get_or lineage ''evidence_refs'' (JList []))) (\<lambda>refs.
           fails_if (\<not> py_eq (get typed ''evidence_refs'') (JList refs)) ExternalReadEmissionError ''read_typed_result_evidence_mismatch'')])"

section \<open>ReadOperationService\<close>

definition strip_transport_operation :: "string \<Rightarrow> json \<Rightarrow> dict result" where
  "strip_transport_operation operation raw =
     (if operation \<notin> set READ_OPERATIONS then read_error ''read_operation_unknown''
      else (case raw of
              JObj d \<Rightarrow>
                if get d ''operation'' \<noteq> JNull \<and> \<not> py_eq (get d ''operation'') (JStr operation)
                then read_error ''read_operation_substitution''
                else Inr (without [''operation''] d)
            | _ \<Rightarrow> read_error ''read_request_must_be_object''))"

definition operation_cursor :: "string \<Rightarrow> dict \<Rightarrow> string result" where
  "operation_cursor operation projection =
     (case (get projection ''lineage'', get projection ''continuation'') of
        (JObj lineage, JStr base_cursor) \<Rightarrow>
          Inr (''cursor_'' @ sha256_json (JObj
            [(''operation'', JStr operation), (''request_fingerprint'', get lineage ''request_fingerprint''),
             (''base_continuation'', JStr base_cursor)]))
      | _ \<Rightarrow> read_error ''read_continuation_binding_missing'')"

text \<open>\<^verbatim>\<open>v[k]\<close> and \<^verbatim>\<open>v.get(k)\<close> on a value that must be a mapping.\<close>

definition item_of :: "json \<Rightarrow> string \<Rightarrow> json result" where
  "item_of v k = (case v of JObj d \<Rightarrow> item d k | _ \<Rightarrow> raise TypeError ''not a mapping'')"

definition typed_result_of :: "string \<Rightarrow> dict \<Rightarrow> dict result" where
  "typed_result_of operation projection =
     bind_result (item projection ''result'') (\<lambda>result.
     bind_result (item_of result ''disposition'') (\<lambda>disposition.
     bind_result (item_of result ''coverage'') (\<lambda>coverage.
     bind_result (item projection ''lineage'') (\<lambda>lineage.
     map_result (\<lambda>refs.
       [(''record_type'', JStr ''PMIRI_EXTERNAL_READ_TYPED_RESULT''), (''schema_version'', JStr ''0.1''),
        (''operation'', JStr operation), (''disposition'', disposition), (''coverage'', coverage),
        (''authorization_ref'', get (members_of lineage) ''authorization_ref''), (''evidence_refs'', JList refs),
        (''projection_fingerprint'', JStr (disclosure_fingerprint projection))])
       (list_of (get_or (members_of lineage) ''evidence_refs'' (JList [])))))))"

text \<open>What follows once the projection handler has answered.\<close>

definition finish_operation :: "string \<Rightarrow> dict \<Rightarrow> dict \<Rightarrow> dict result" where
  "finish_operation operation payload projection0 =
     bind_result (operation_cursor operation projection0) (\<lambda>expected.
       if get payload ''cursor'' \<noteq> JNull \<and> \<not> py_eq (get payload ''cursor'') (JStr expected)
       then read_error ''read_cursor_binding_mismatch''
       else
         let projection = dict_put ''continuation'' (JStr expected) projection0
         in bind_result (typed_result_of operation projection) (\<lambda>typed.
              let envelope = [(''operation'', JStr operation), (''projection'', JObj projection), (''typed_result'', JObj typed)]
              in bind_result (fence_create operation projection typed) (\<lambda>fence.
                 map_result (\<lambda>_. envelope @ [(''emission_fence'', JObj (fence_structured fence))])
                   (fence_assert_valid fence envelope))))"

definition choose_projection ::
  "read_runtime \<Rightarrow> ('r, 'l, 'g, 'e) authority option \<Rightarrow> ('r, 'l, 'g, 'e) call_env \<Rightarrow> dict \<Rightarrow> string \<Rightarrow> bool option
     \<Rightarrow> string option \<Rightarrow> dict result \<times> ('r, 'l, 'g, 'e) authority option" where
  "choose_projection rt authority env payload adapter authorized authentication_ref =
     (if authority \<noteq> None then
        if authorized \<noteq> None then (read_error ''caller_authorization_flag_not_authority'', authority)
        else if adapter = ''api'' then api_authenticated rt authority env (JObj payload) authentication_ref
        else if adapter = ''mcp'' then mcp_authenticated rt authority env (JObj payload) authentication_ref
        else (read_error ''read_adapter_unknown'', authority)
      else if authentication_ref \<noteq> None then (read_error ''authorization_service_required'', authority)
      else if adapter = ''api'' then
        (case authorized of None \<Rightarrow> projection_api rt authority (JObj payload)
         | Some a \<Rightarrow> api_disclosed rt authority (JObj payload) a, authority)
      else if adapter = ''mcp'' then
        (case authorized of None \<Rightarrow> projection_mcp rt authority (JObj payload)
         | Some a \<Rightarrow> mcp_disclosed rt authority (JObj payload) a, authority)
      else (read_error ''read_adapter_unknown'', authority))"

definition execute ::
  "read_runtime \<Rightarrow> ('r, 'l, 'g, 'e) authority option \<Rightarrow> ('r, 'l, 'g, 'e) call_env \<Rightarrow> string \<Rightarrow> json \<Rightarrow> string
     \<Rightarrow> bool option \<Rightarrow> string option \<Rightarrow> dict result \<times> ('r, 'l, 'g, 'e) authority option" where
  "execute rt authority env operation raw adapter authorized authentication_ref =
     (case strip_transport_operation operation raw of
        Inl e \<Rightarrow> (Inl e, authority)
      | Inr payload \<Rightarrow>
          (case choose_projection rt authority env payload adapter authorized authentication_ref of
             (Inl e, authority') \<Rightarrow> (Inl e, authority')
           | (Inr projection, authority') \<Rightarrow> (finish_operation operation payload projection, authority')))"

definition operation_api where
  "operation_api rt authority env operation raw authorized = execute rt authority env operation raw ''api'' authorized None"

definition operation_mcp where
  "operation_mcp rt authority env operation raw authorized = execute rt authority env operation raw ''mcp'' authorized None"

definition operation_api_authenticated where
  "operation_api_authenticated rt authority env operation raw auth = execute rt authority env operation raw ''api'' None auth"

definition operation_mcp_authenticated where
  "operation_mcp_authenticated rt authority env operation raw auth = execute rt authority env operation raw ''mcp'' None auth"

definition parity_value :: "dict \<Rightarrow> dict result" where
  "parity_value r =
     (case get r ''projection'' of
        JObj p \<Rightarrow>
          map_result (\<lambda>sp. [(''operation'', get r ''operation''), (''projection'', JObj sp), (''typed_result'', get r ''typed_result'')])
            (semantic_projection p)
      | _ \<Rightarrow> read_error ''read_projection_missing'')"

definition operation_parity_fingerprint :: "dict \<Rightarrow> dict \<Rightarrow> (bool \<times> string \<times> string) result" where
  "operation_parity_fingerprint api mcp =
     (if \<not> is_obj (get api ''projection'') \<or> \<not> is_obj (get mcp ''projection'') then read_error ''read_projection_missing''
      else bind_result (parity_value api) (\<lambda>a.
           map_result (\<lambda>b. let fa = sha256_json (JObj a); fb = sha256_json (JObj b) in (fa = fb, fa, fb)) (parity_value mcp)))"

end
