(* ===== verification/Auth_Properties.thy ===== *)
theory Auth_Properties
  imports Auth_Service
begin

text \<open>
  What the authorization layer as a whole guarantees, for the in-memory and for the SQLite
  configuration, and a sample principal and request on which the guarantees are exercised.
\<close>

section \<open>A sample principal\<close>

definition sample_issued :: string where "sample_issued = ''2026-01-01T00:00:00Z''"
definition sample_until :: string where "sample_until = ''2026-01-02T00:00:00Z''"
definition sample_noon :: string where "sample_noon = ''2026-01-01T12:00:00Z''"

definition sample_attestation :: trust_zone_attestation where
  "sample_attestation =
     (let fp = sha256_json (attestation_payload ''principal://reader'' ''local'' ''issuer://a'' [''evidence://1'']
                 sample_issued sample_until ''ACTIVE'')
      in \<lparr>ta_attestation_id = ''trust-attestation://'' @ take 32 fp,
          ta_principal_ref = ''principal://reader'', ta_zone_id = ''local'', ta_issuer_ref = ''issuer://a'',
          ta_evidence_refs = [''evidence://1''], ta_issued_at = sample_issued, ta_valid_until = sample_until,
          ta_status = ''ACTIVE'', ta_fingerprint = fp\<rparr>)"

definition sample_draft :: authenticated_principal where
  "sample_draft =
     \<lparr>ap_authentication_ref = ''auth://1'', ap_principal_ref = ''principal://reader'',
      ap_principal_type = ''SERVICE'', ap_service_principal_ref = ''service://1'',
      ap_workload_principal_ref = None, ap_human_principal_ref = None,
      ap_trust_zone_attestation = sample_attestation, ap_allowed_projects = [''project-a''],
      ap_allowed_operations = [''read''], ap_allowed_purposes = [''retrieval''],
      ap_delegation_grant_refs = [], ap_policy_bundle_ref = ''policy://1'', ap_policy_version = ''1'',
      ap_policy_epoch = 3, ap_issued_at = sample_issued, ap_valid_until = sample_until,
      ap_status = ''ACTIVE'', ap_fingerprint = []\<rparr>"

definition sample_principal :: authenticated_principal where
  "sample_principal = sample_draft\<lparr>ap_fingerprint := sha256_json (principal_payload sample_draft)\<rparr>"

definition sample_request :: query_request where
  "sample_request = \<lparr>q_request_id = ''r1'', q_project_constraint = ''project-a'', q_query = ''alpha'',
     q_purpose = ''retrieval'', q_max_results = 5\<rparr>"

lemmas sample_times = sample_issued_def sample_until_def sample_noon_def

lemma sample_interval [simp]:
  "valid_interval sample_issued sample_until sample_issued = Inr True"
  "valid_interval sample_issued sample_until sample_noon = Inr True"
  "valid_interval sample_issued sample_until sample_until = Inr True"
  by code_simp+

lemma sorted_set_single [simp]: "sorted_set [x] = [x]" "sorted_set [] = []"
  by (simp_all add: sorted_set_def)

lemma sample_nonempty [simp]: "sample_issued \<noteq> []" "sample_until \<noteq> []" "sample_noon \<noteq> []"
  by (simp_all add: sample_times)

lemma sample_principal_wf: "wf_principal sample_principal"
  by (simp add: wf_principal_def wf_attestation_def verified_def issue_attestation_def ACTIVE_def
      sample_principal_def sample_draft_def sample_attestation_def principal_payload_def Let_def)

lemma sample_normalized: "normalized sample_request = Inr (request_dict sample_request)"
  by (simp add: normalized_def sample_request_def) code_simp

lemma sample_entitled:
  "t \<in> {sample_issued, sample_noon, sample_until} \<Longrightarrow> entitled ''read'' sample_request sample_principal t 3"
  by (auto simp: entitled_def principal_is_valid_def attestation_is_valid_def sample_principal_def
      sample_draft_def sample_attestation_def sample_request_def ACTIVE_def Let_def)


section \<open>Sample services\<close>

definition sample_limiter :: rate_limiter where
  "sample_limiter = \<lparr>rl_max_requests = 2, rl_window_seconds = 60, rl_windows = Map.empty\<rparr>"

definition sample_memory :: "(registry, rate_limiter, replay_guard, int) auth_service" where
  "sample_memory = \<lparr>sv_registry = [''auth://1'' \<mapsto> sample_principal], sv_limiter = sample_limiter,
     sv_guard = \<lparr>rg_max_entries = 2, rg_seen = [], rg_order = []\<rparr>, sv_epoch = 3, sv_operation = ''read''\<rparr>"

definition sample_table :: principal_table where
  "sample_table = [''auth://1'' \<mapsto> \<lparr>row_fingerprint = ap_fingerprint sample_principal,
     row_payload = stored_payload sample_principal, row_revoked_at = None\<rparr>]"

definition sample_sqlite :: "(principal_table, rate_limiter, replay_table, epoch_row) auth_service" where
  "sample_sqlite = \<lparr>sv_registry = sample_table, sv_limiter = sample_limiter, sv_guard = Map.empty,
     sv_epoch = Some 3, sv_operation = ''read''\<rparr>"

lemma sample_ref [simp]: "ap_authentication_ref sample_principal = ''auth://1''"
  "ap_valid_until sample_principal = sample_until" "ap_policy_epoch sample_principal = 3"
  by (simp_all add: sample_principal_def sample_draft_def)

lemma sample_table_invar: "table_invar sample_table"
  using sample_principal_wf sample_ref by (fastforce simp: table_invar_def sample_table_def split: if_splits)

lemma sample_resolve:
  "ad_resolve memory_adapters (sv_registry sample_memory) (Some ''auth://1'') = Inr (Some sample_principal)"
  "ad_resolve sqlite_adapters (sv_registry sample_sqlite) (Some ''auth://1'') = Inr (Some sample_principal)"
  using stored_roundtrip [OF sample_principal_wf]
  by (simp_all add: memory_adapters_def sqlite_adapters_def sample_memory_def sample_sqlite_def
      registry_resolve_def sql_resolve_def sample_table_def)

lemma sample_binding: "\<exists>b. build_binding ''read'' sample_request sample_principal t = Inr b"
  using build_binding_succeeds [OF sample_normalized]
  by (simp add: sample_request_def sample_principal_def sample_draft_def sample_attestation_def Let_def)

definition sample_start :: instant where "sample_start = 1767225600000000"
definition sample_end :: instant where "sample_end = 1767312000000000"

lemma sample_parse [simp]:
  "parse_time sample_issued = Inr sample_start" "parse_time sample_until = Inr sample_end"
  unfolding sample_start_def sample_end_def by code_simp+


definition sample_calls :: "service_call list" where
  "sample_calls =
     [(sample_request, Some ''auth://1'', sample_issued, 0), (sample_request, Some ''auth://1'', sample_until, 0)]"

lemma sample_fields [simp]:
  "ap_principal_ref sample_principal = ''principal://reader''" "q_request_id sample_request = ''r1''"
  by (simp_all add: sample_principal_def sample_draft_def sample_request_def)

lemma sample_memory_run:
  "\<exists>b b'. allowed_with (run_service memory_adapters sample_memory sample_calls ! 0) b
     \<and> allowed_with (run_service memory_adapters sample_memory sample_calls ! 1) b'"
proof -
  obtain b b' where b: "build_binding ''read'' sample_request sample_principal sample_issued = Inr b"
    and b': "build_binding ''read'' sample_request sample_principal sample_until = Inr b'"
    using sample_binding by blast
  let ?l1 = "sample_limiter\<lparr>rl_windows := [''principal://reader:read'' \<mapsto> (0, 1)]\<rparr>"
  let ?l2 = "sample_limiter\<lparr>rl_windows := [''principal://reader:read'' \<mapsto> (0, 2)]\<rparr>"
  let ?g1 = "\<lparr>rg_max_entries = 2, rg_seen = [(''r1'', rb_fingerprint b, sample_end)], rg_order = [''r1'']\<rparr>"
  let ?g2 = "\<lparr>rg_max_entries = 2, rg_seen = [(''r1'', rb_fingerprint b', sample_end)], rg_order = [''r1'']\<rparr>"
  note until = build_binding_Inr(13) [OF b] build_binding_Inr(13) [OF b']
  note defs = sample_memory_def memory_adapters_def limiter_consume_def limiter_key_def sample_limiter_def
    local_epoch_get_def guard_consume_def epoch_seconds_def guard_consume_at_def dict_pop_def
  have 1: "evaluate memory_adapters sample_memory sample_request (Some ''auth://1'') sample_issued 0 =
     (Inr \<lparr>ev_result = AUTHORIZATION_ALLOW, ev_reason = ''NONE'', ev_binding = Some b\<rparr>,
      sample_memory\<lparr>sv_limiter := ?l1, sv_guard := ?g1\<rparr>)"
    by (rule evaluate_allowI [OF sample_normalized sample_resolve(1), where epoch = 3])
      (use sample_entitled b until in \<open>simp_all add: defs\<close>)
  have 2: "evaluate memory_adapters (sample_memory\<lparr>sv_limiter := ?l1, sv_guard := ?g1\<rparr>)
      sample_request (Some ''auth://1'') sample_until 0 =
     (Inr \<lparr>ev_result = AUTHORIZATION_ALLOW, ev_reason = ''NONE'', ev_binding = Some b'\<rparr>,
      sample_memory\<lparr>sv_limiter := ?l1, sv_guard := ?g1\<rparr>\<lparr>sv_limiter := ?l2, sv_guard := ?g2\<rparr>)"
    by (rule evaluate_allowI [OF sample_normalized, where epoch = 3 and p = sample_principal])
      (use sample_entitled sample_resolve(1) b' until in \<open>simp_all add: defs\<close>)
  show ?thesis
    by (intro exI [of _ b] exI [of _ b']) (simp add: sample_calls_def 1 2 allowed_with_def ev_allowed_def)
qed

lemma sample_sqlite_run:
  "\<exists>b b'. allowed_with (run_service sqlite_adapters sample_sqlite sample_calls ! 0) b
     \<and> allowed_with (run_service sqlite_adapters sample_sqlite sample_calls ! 1) b'"
proof -
  obtain b b' where b: "build_binding ''read'' sample_request sample_principal sample_issued = Inr b"
    and b': "build_binding ''read'' sample_request sample_principal sample_until = Inr b'"
    using sample_binding by blast
  let ?l1 = "sample_limiter\<lparr>rl_windows := [''principal://reader:read'' \<mapsto> (0, 1)]\<rparr>"
  let ?l2 = "sample_limiter\<lparr>rl_windows := [''principal://reader:read'' \<mapsto> (0, 2)]\<rparr>"
  let ?g1 = "[''r1'' \<mapsto> (rb_fingerprint b, sample_end)]"
  let ?g2 = "[''r1'' \<mapsto> (rb_fingerprint b', sample_end)]"
  note until = build_binding_Inr(13) [OF b] build_binding_Inr(13) [OF b']
  note defs = sample_sqlite_def sqlite_adapters_def sql_limiter_consume_def limiter_key_def sample_limiter_def
    sql_epoch_get_def sql_guard_consume_def epoch_seconds_def sql_guard_consume_at_def
  have 1: "evaluate sqlite_adapters sample_sqlite sample_request (Some ''auth://1'') sample_issued 0 =
     (Inr \<lparr>ev_result = AUTHORIZATION_ALLOW, ev_reason = ''NONE'', ev_binding = Some b\<rparr>,
      sample_sqlite\<lparr>sv_limiter := ?l1, sv_guard := ?g1\<rparr>)"
    by (rule evaluate_allowI [OF sample_normalized sample_resolve(2), where epoch = 3])
      (use sample_entitled b until in \<open>simp_all add: defs\<close>)
  have 2: "evaluate sqlite_adapters (sample_sqlite\<lparr>sv_limiter := ?l1, sv_guard := ?g1\<rparr>)
      sample_request (Some ''auth://1'') sample_until 0 =
     (Inr \<lparr>ev_result = AUTHORIZATION_ALLOW, ev_reason = ''NONE'', ev_binding = Some b'\<rparr>,
      sample_sqlite\<lparr>sv_limiter := ?l1, sv_guard := ?g1\<rparr>\<lparr>sv_limiter := ?l2, sv_guard := ?g2\<rparr>)"
    by (rule evaluate_allowI [OF sample_normalized, where epoch = 3 and p = sample_principal])
      (use sample_entitled sample_resolve(2) b' until in \<open>simp_all add: defs fun_eq_iff\<close>)
  show ?thesis
    by (intro exI [of _ b] exI [of _ b']) (simp add: sample_calls_def 1 2 allowed_with_def ev_allowed_def)
qed


section \<open>What the adapters can raise\<close>

text \<open>Every principal of the in-process registry was built by \<^verbatim>\<open>verified\<close> over an issued attestation.\<close>

definition registry_invar :: "registry \<Rightarrow> bool" where
  "registry_invar r = (\<forall>a p. r a = Some p \<longrightarrow> wf_principal p)"

lemma registry_resolve_wf: "registry_invar r \<Longrightarrow> registry_resolve r a = Some p \<Longrightarrow> wf_principal p"
  by (auto simp: registry_invar_def registry_resolve_def split: option.splits if_splits)

lemma sql_resolve_wf:
  assumes "table_invar t"
  shows "sql_resolve t a \<noteq> Inl e" "sql_resolve t a = Inr (Some p) \<Longrightarrow> wf_principal p"
proof -
  have row: "\<exists>q. wf_principal q \<and> principal_from_payload (row_payload row) = Inr q" if "t b = Some row" for b row
  proof -
    from assms that obtain q where "wf_principal q" "row_payload row = stored_payload q"
      unfolding table_invar_def by blast
    with stored_roundtrip [of q] show ?thesis by auto
  qed
  show "sql_resolve t a \<noteq> Inl e" "sql_resolve t a = Inr (Some p) \<Longrightarrow> wf_principal p"
    by (auto simp: sql_resolve_def split: option.splits if_splits sum.splits dest!: row)
qed

lemma replay_times_error:
  assumes "bind_result (epoch_seconds now) (\<lambda>n. bind_result (epoch_seconds until) (\<lambda>u. f n u)) = Inl e"
    and "\<And>n u. f n u \<noteq> Inl e" "\<not> caught_tvk e"
  shows "fst e = OverflowError \<and> \<not> (in_calendar now \<and> in_calendar until)"
  using assms
  by (auto simp: bind_result_Inl_iff epoch_seconds_def caught_tvk_def is_value_error_def dest!: parse_time_error)

lemma sqlite_replay_error:
  "sql_guard_consume g rid fp until now = Inl e \<Longrightarrow> \<not> caught_tvk e \<Longrightarrow>
     fst e = OverflowError \<and> \<not> (in_calendar now \<and> in_calendar until)"
  unfolding sql_guard_consume_def
  by (erule replay_times_error) (auto simp: sql_guard_consume_at_def Let_def split: option.splits)

lemma memory_replay_error:
  "guard_consume g rid fp until now = Inl e \<Longrightarrow> \<not> caught_tvk e \<Longrightarrow> guard_invar g \<Longrightarrow>
     fst e = OverflowError \<and> \<not> (in_calendar now \<and> in_calendar until)"
  unfolding guard_consume_def
  by (erule replay_times_error) (auto simp: guard_consume_at_eq Let_def)

lemma sqlite_epoch_error: "sql_epoch_get r = Inl e \<Longrightarrow> caught_tvk e"
  by (auto simp: sql_epoch_get_def raise_def caught_tvk_def is_value_error_def split: option.splits)

lemma total_if_no_escape: "(\<And>e s. x = (Inl e, s) \<Longrightarrow> False) \<Longrightarrow> \<exists>v s. x = (Inr v, s)"
  by (cases x, cases "fst x") auto

section \<open>Decisions\<close>

text \<open>
  C1. The service allows a request with binding \<open>b\<close> exactly when the request is well formed, its
  authentication resolves to a principal that is active, unexpired, of the current policy epoch and
  attested, the project, operation and purpose are granted to it, the rate limiter admits it, and
  the replay guard takes the binding's fingerprint as new. No other path allows.
\<close>

theorem evaluate_allows_iff:
  "(\<exists>ev sv'. evaluate ad sv q auth current clock = (Inr ev, sv') \<and> ev_allowed ev \<and> ev_binding ev = Some b)
   \<longleftrightarrow>
   (\<exists>p epoch l g. normalized q = Inr (request_dict q)
      \<and> ad_resolve ad (sv_registry sv) auth = Inr (Some p) \<and> ad_epoch ad (sv_epoch sv) = Inr epoch
      \<and> principal_is_valid p current epoch = Inr True
      \<and> q_project_constraint q \<in> set (ap_allowed_projects p)
      \<and> sv_operation sv \<in> set (ap_allowed_operations p)
      \<and> q_purpose q \<in> set (ap_allowed_purposes p)
      \<and> ad_limit ad (sv_limiter sv) (limiter_key p (sv_operation sv)) clock = (True, l)
      \<and> build_binding (sv_operation sv) q p current = Inr b
      \<and> ad_replay ad (sv_guard sv) (q_request_id q) (rb_fingerprint b) (rb_valid_until b) current = Inr (True, g))"
  (is "?l \<longleftrightarrow> ?r")
proof
  assume ?l
  then obtain ev sv' where ev: "evaluate ad sv q auth current clock = (Inr ev, sv')" "ev_allowed ev"
    and b: "ev_binding ev = Some b" by blast
  from ev show ?r
  proof (rule evaluate_allowD)
    fix n p epoch l b' g
    assume "normalized q = Inr n" "ad_resolve ad (sv_registry sv) auth = Inr (Some p)"
      "ad_epoch ad (sv_epoch sv) = Inr epoch" "entitled (sv_operation sv) q p current epoch"
      "ad_limit ad (sv_limiter sv) (limiter_key p (sv_operation sv)) clock = (True, l)"
      "build_binding (sv_operation sv) q p current = Inr b'"
      "ad_replay ad (sv_guard sv) (q_request_id q) (rb_fingerprint b') (rb_valid_until b') current = Inr (True, g)"
      "ev_binding ev = Some b'"
    with b show ?r by (auto simp: entitled_def normalized_Inr_iff)
  qed
next
  assume ?r
  then obtain p epoch l g where h: "normalized q = Inr (request_dict q)"
    "ad_resolve ad (sv_registry sv) auth = Inr (Some p)" "ad_epoch ad (sv_epoch sv) = Inr epoch"
    "entitled (sv_operation sv) q p current epoch"
    "ad_limit ad (sv_limiter sv) (limiter_key p (sv_operation sv)) clock = (True, l)"
    "build_binding (sv_operation sv) q p current = Inr b"
    "ad_replay ad (sv_guard sv) (q_request_id q) (rb_fingerprint b) (rb_valid_until b) current = Inr (True, g)"
    unfolding entitled_def by blast
  from evaluate_allowI [OF h] show ?l by (simp add: ev_allowed_def)
qed

text \<open>
  C6. Evaluation fails closed. Over the SQLite adapters the only exception that escapes is the
  overflow of a time stamp off the calendar; and when the current time is on the calendar and the
  registry holds well-formed principals only, every request gets a decision, allowed or denied,
  over the SQLite adapters and over the in-memory ones.
\<close>

theorem evaluate_fails_closed:
  "(\<forall>e sv'. evaluate sqlite_adapters ss q auth current clock = (Inl e, sv') \<longrightarrow> fst e = OverflowError)
   \<and> (in_calendar current \<and> table_invar (sv_registry ss) \<longrightarrow>
        (\<exists>ev sv'. evaluate sqlite_adapters ss q auth current clock = (Inr ev, sv')))
   \<and> (in_calendar current \<and> registry_invar (sv_registry sm) \<and> guard_invar (sv_guard sm) \<longrightarrow>
        (\<exists>ev sv'. evaluate memory_adapters sm q auth current clock = (Inr ev, sv')))"
proof (intro conjI impI allI)
  fix e sv'
  assume "evaluate sqlite_adapters ss q auth current clock = (Inl e, sv')"
  from evaluate_raises [OF this] show "fst e = OverflowError"
    by (auto simp: sqlite_adapters_def
        dest: sql_resolve_error principal_is_valid_error sqlite_replay_error sqlite_epoch_error)
next
  assume h: "in_calendar current \<and> table_invar (sv_registry ss)"
  show "\<exists>ev sv'. evaluate sqlite_adapters ss q auth current clock = (Inr ev, sv')"
  proof (rule total_if_no_escape)
    fix e sv'
    assume "evaluate sqlite_adapters ss q auth current clock = (Inl e, sv')"
    from evaluate_raises [OF this] h show False
      by (auto simp: sqlite_adapters_def sql_resolve_wf(1) dest!: principal_is_valid_error sqlite_replay_error
          dest: sqlite_epoch_error sql_resolve_wf(2) [OF conjunct2 [OF h]] wf_principal_times(2))
  qed
next
  assume h: "in_calendar current \<and> registry_invar (sv_registry sm) \<and> guard_invar (sv_guard sm)"
  show "\<exists>ev sv'. evaluate memory_adapters sm q auth current clock = (Inr ev, sv')"
  proof (rule total_if_no_escape)
    fix e sv'
    assume "evaluate memory_adapters sm q auth current clock = (Inl e, sv')"
    from evaluate_raises [OF this] h show False
      by (auto simp: memory_adapters_def local_epoch_get_def
          dest!: principal_is_valid_error memory_replay_error dest: registry_resolve_wf wf_principal_times(2))
  qed
qed

theorem evaluate_fails_closed_witness:
  "\<exists>ev sv'. evaluate memory_adapters sample_memory sample_request None sample_noon 0 = (Inr ev, sv')"
proof -
  have "in_calendar sample_noon" by code_simp
  moreover have "registry_invar (sv_registry sample_memory)"
    using sample_principal_wf by (simp add: registry_invar_def sample_memory_def)
  moreover have "guard_invar (sv_guard sample_memory)" by (simp add: guard_invar_def sample_memory_def)
  ultimately show ?thesis
    using evaluate_fails_closed [of sample_sqlite sample_request None sample_noon 0 sample_memory] by blast
qed

text \<open>
  The overflow does escape: at a current time whose instant lies before the year 1 an allowed
  principal's request gets no decision but an exception.
\<close>

lemma overflow_escapes:
  "evaluate memory_adapters sample_memory sample_request (Some ''auth://1'') ''0001-01-01T00:00:00+01:00'' 0 =
     (raise OverflowError ''date value out of range'', sample_memory)"
proof -
  have "valid_interval sample_issued sample_until ''0001-01-01T00:00:00+01:00'' = raise OverflowError ''date value out of range''"
    by code_simp
  then have "principal_is_valid sample_principal ''0001-01-01T00:00:00+01:00'' 3 = raise OverflowError ''date value out of range''"
    by (simp add: principal_is_valid_def sample_principal_def sample_draft_def ACTIVE_def raise_def)
  then show ?thesis
    using sample_resolve(1)
    by (simp add: evaluate_def sample_normalized)
      (simp add: sample_memory_def memory_adapters_def local_epoch_get_def raise_def handled_def caught_tvk_def is_value_error_def)
qed

section \<open>Revalidation after a decision\<close>

lemma allowed_revalidates_generic:
  assumes "evaluate ad sv q (Some a) current clock = (Inr ev, sv')" "ev_allowed ev" "ev_binding ev = Some b"
    and own: "\<And>p. ad_resolve ad (sv_registry sv) (Some a) = Inr (Some p) \<Longrightarrow> ap_authentication_ref p = a"
  shows "revalidate ad sv' q b current = Inr True"
  using assms(1,2)
proof (rule evaluate_allowD)
  fix n p epoch l b' g
  assume h: "normalized q = Inr n" "ad_resolve ad (sv_registry sv) (Some a) = Inr (Some p)"
    "ad_epoch ad (sv_epoch sv) = Inr epoch" "entitled (sv_operation sv) q p current epoch"
    "build_binding (sv_operation sv) q p current = Inr b'" "ev_binding ev = Some b'"
    and sv': "sv' = sv\<lparr>sv_limiter := l, sv_guard := g\<rparr>"
  with assms(3) have b: "build_binding (sv_operation sv) q p current = Inr b" by simp
  note f = build_binding_Inr(6,11-13) [OF b]
  from entitled_valid [OF h(4)] have "principal_is_valid p current epoch = Inr True" .
  with f have "binding_is_valid b current epoch = Inr True"
    by (auto simp: binding_is_valid_iff principal_is_valid_iff valid_interval_iff)
  with h b f own [OF h(2)] sv' show ?thesis unfolding revalidate_True_iff by auto
qed

text \<open>
  C7. A binding just issued by the SQLite-backed service revalidates at the same instant: the
  re-read principal, epoch and recomputed binding agree with what was issued.
\<close>

theorem allowed_revalidates:
  assumes "table_invar (sv_registry sv)"
    and "evaluate sqlite_adapters sv q (Some a) current clock = (Inr ev, sv')" "ev_allowed ev"
    and "ev_binding ev = Some b"
  shows "revalidate sqlite_adapters sv' q b current = Inr True"
  using assms(2-4)
proof (rule allowed_revalidates_generic)
  fix p
  assume "ad_resolve sqlite_adapters (sv_registry sv) (Some a) = Inr (Some p)"
  then obtain row where row: "sv_registry sv a = Some row" "principal_from_payload (row_payload row) = Inr p"
    by (auto simp: sqlite_adapters_def sql_resolve_def split: if_splits option.splits sum.splits)
  with assms(1) obtain p' where "wf_principal p'" "ap_authentication_ref p' = a"
    "row_payload row = stored_payload p'"
    unfolding table_invar_def by blast
  with row(2) stored_roundtrip [of p'] show "ap_authentication_ref p = a" by simp
qed

theorem allowed_revalidates_witness:
  "\<exists>b ev sv'. evaluate sqlite_adapters sample_sqlite sample_request (Some ''auth://1'') sample_issued 0 = (Inr ev, sv')
     \<and> ev_binding ev = Some b \<and> revalidate sqlite_adapters sv' sample_request b sample_issued = Inr True"
proof -
  obtain b where a: "allowed_with (run_service sqlite_adapters sample_sqlite sample_calls ! 0) b"
    using sample_sqlite_run by blast
  obtain r sv' where r: "evaluate sqlite_adapters sample_sqlite sample_request (Some ''auth://1'') sample_issued 0 = (r, sv')"
    by fastforce
  with a have "allowed_with r b" by (simp add: sample_calls_def)
  then obtain ev where ev: "r = Inr ev" "ev_allowed ev" "ev_binding ev = Some b"
    by (auto simp: allowed_with_def split: sum.splits)
  have "table_invar (sv_registry sample_sqlite)" using sample_table_invar by (simp add: sample_sqlite_def)
  from allowed_revalidates [OF this _ ev(2,3)] r ev show ?thesis by blast
qed

text \<open>
  C8. Advancing the policy epoch cuts off every binding of an earlier epoch: no request and no
  later time makes one revalidate, whatever further advances follow.
\<close>

theorem epoch_advance_invalidates:
  assumes "sql_epoch_advance e new_epoch = Inr e'" "rb_policy_epoch b < new_epoch"
    and "sv_epoch sv = advance_all sql_epoch_advance e' ns"
  shows "revalidate sqlite_adapters sv q b current \<noteq> Inr True"
proof
  assume "revalidate sqlite_adapters sv q b current = Inr True"
  then obtain epoch where "sql_epoch_get (sv_epoch sv) = Inr epoch" "rb_policy_epoch b = epoch"
    unfolding revalidate_True_iff by (auto simp: sqlite_adapters_def binding_is_valid_iff)
  moreover from sql_epoch.epoch_monotone [OF sql_epoch.advance_get [OF assms(1)], of ns]
  obtain c where "sql_epoch_get (advance_all sql_epoch_advance e' ns) = Inr c" "new_epoch \<le> c" by blast
  ultimately show False using assms(2,3) by simp
qed

theorem epoch_advance_invalidates_witness:
  "\<exists>b. rb_policy_epoch b = 3 \<and>
     revalidate sqlite_adapters (sample_sqlite\<lparr>sv_epoch := Some 5\<rparr>) sample_request b sample_issued \<noteq> Inr True"
proof -
  obtain b where b: "build_binding ''read'' sample_request sample_principal sample_issued = Inr b"
    using sample_binding by blast
  have e: "sql_epoch_advance (Some 3) 4 = Inr (Some 4)"
    "sv_epoch (sample_sqlite\<lparr>sv_epoch := Some 5\<rparr>) = advance_all sql_epoch_advance (Some 4) [5]"
    by (simp_all add: sql_epoch_advance_def)
  have p: "rb_policy_epoch b = 3" using build_binding_Inr(11) [OF b] by simp
  from epoch_advance_invalidates [OF e(1) _ e(2)] p show ?thesis by auto
qed

text \<open>
  C5. Revoking a principal in the SQLite registry is final: after the revocation and any later
  registrations, including of the same principal, none of its bindings revalidates and no request
  under its authentication reference is allowed.
\<close>

theorem revocation_is_final:
  assumes "sql_revoke t a now = (True, t')" "sv_registry sv = register_all sql_register t' ps"
  shows "(rb_authentication_ref b = a \<longrightarrow> revalidate sqlite_adapters sv q b current \<noteq> Inr True)
    \<and> (\<exists>ev sv'. evaluate sqlite_adapters sv q (Some a) current clock = (Inr ev, sv') \<and> \<not> ev_allowed ev)"
proof -
  from assms(1) obtain row where "t' a = Some row" "row_revoked_at row \<noteq> None"
    by (auto simp: sql_revoke_def split: option.splits if_splits)
  from revoked_stays [of t' a row ps] this have none: "ad_resolve sqlite_adapters (sv_registry sv) (Some a) = Inr None"
    by (simp add: assms(2) sqlite_adapters_def)
  then have "evaluate sqlite_adapters sv q (Some a) current clock = (Inr (deny ''AUTHENTICATION_UNKNOWN''), sv)
     \<or> (\<exists>e. normalized q = Inl e \<and> evaluate sqlite_adapters sv q (Some a) current clock = (handled e, sv))"
    by (cases "normalized q") (simp_all add: evaluate_def)
  moreover have "\<exists>ev. handled e = Inr ev \<and> \<not> ev_allowed ev" if "normalized q = Inl e" for e
    using normalized_error [OF that] by (simp add: handled_def caught_tvk_def is_value_error_def)
  ultimately have "\<exists>ev sv'. evaluate sqlite_adapters sv q (Some a) current clock = (Inr ev, sv') \<and> \<not> ev_allowed ev"
    using deny_not_allowed(1) by fastforce
  with none show ?thesis unfolding revalidate_True_iff by auto
qed

theorem revocation_is_final_witness:
  "\<exists>t' ev sv'. sql_revoke sample_table ''auth://1'' 7 = (True, t')
     \<and> evaluate sqlite_adapters (sample_sqlite\<lparr>sv_registry := register_all sql_register t' [sample_principal]\<rparr>)
         sample_request (Some ''auth://1'') sample_noon 0 = (Inr ev, sv') \<and> \<not> ev_allowed ev"
proof -
  obtain t' where t': "sql_revoke sample_table ''auth://1'' 7 = (True, t')"
    by (simp add: sql_revoke_def sample_table_def)
  from revocation_is_final [OF t', of "sample_sqlite\<lparr>sv_registry := register_all sql_register t' [sample_principal]\<rparr>"
      "[sample_principal]"] t'
  show ?thesis by auto
qed


section \<open>Sequences of requests\<close>

text \<open>
  C4. Over any sequence of requests to the SQLite-backed service at non-decreasing times, if one
  request id is allowed twice then the first binding had expired by the time of the second.
\<close>

theorem sqlite_service_no_replay:
  assumes "list_all2 (\<lambda>c t. parse_time (sc_current c) = Inr t) cs ts" "sorted ts"
    and "i < j" "j < length cs" "sc_request_id (cs ! i) = sc_request_id (cs ! j)"
    and "allowed_with (run_service sqlite_adapters sv cs ! i) b"
    and "allowed_with (run_service sqlite_adapters sv cs ! j) b'"
  shows "\<exists>e. parse_time (rb_valid_until b) = Inr e \<and> e \<le> ts ! j"
  by (rule sqlite_service.service_no_replay [OF _ _ assms]) (simp_all add: within_capacity_def)

theorem sqlite_service_no_replay_witness:
  "\<exists>b b' e. allowed_with (run_service sqlite_adapters sample_sqlite sample_calls ! 0) b
     \<and> allowed_with (run_service sqlite_adapters sample_sqlite sample_calls ! 1) b'
     \<and> parse_time (rb_valid_until b) = Inr e \<and> e \<le> sample_end"
proof -
  obtain b b' where r: "allowed_with (run_service sqlite_adapters sample_sqlite sample_calls ! 0) b"
    "allowed_with (run_service sqlite_adapters sample_sqlite sample_calls ! 1) b'"
    using sample_sqlite_run by blast
  have "\<exists>e. parse_time (rb_valid_until b) = Inr e \<and> e \<le> [sample_start, sample_end] ! 1"
    by (rule sqlite_service_no_replay [OF _ _ _ _ _ r])
      (simp_all add: sample_calls_def sample_start_def sample_end_def)
  with r show ?thesis by auto
qed

text \<open>
  C13. The same for the in-memory service as long as the guard is not asked to remember more
  requests than its capacity.
\<close>

theorem memory_service_no_replay:
  assumes "guard_invar (sv_guard sv)"
    and "int (length (rg_seen (sv_guard sv)) + length cs) \<le> rg_max_entries (sv_guard sv)"
    and "list_all2 (\<lambda>c t. parse_time (sc_current c) = Inr t) cs ts" "sorted ts"
    and "i < j" "j < length cs" "sc_request_id (cs ! i) = sc_request_id (cs ! j)"
    and "allowed_with (run_service memory_adapters sv cs ! i) b"
    and "allowed_with (run_service memory_adapters sv cs ! j) b'"
  shows "\<exists>e. parse_time (rb_valid_until b) = Inr e \<and> e \<le> ts ! j"
  by (rule memory_service.service_no_replay [OF assms(1) _ assms(3-9)])
    (use assms(2) in \<open>simp add: within_capacity_def\<close>)

theorem memory_service_no_replay_witness:
  "\<exists>b b' e. allowed_with (run_service memory_adapters sample_memory sample_calls ! 0) b
     \<and> allowed_with (run_service memory_adapters sample_memory sample_calls ! 1) b'
     \<and> parse_time (rb_valid_until b) = Inr e \<and> e \<le> sample_end"
proof -
  obtain b b' where r: "allowed_with (run_service memory_adapters sample_memory sample_calls ! 0) b"
    "allowed_with (run_service memory_adapters sample_memory sample_calls ! 1) b'"
    using sample_memory_run by blast
  have "\<exists>e. parse_time (rb_valid_until b) = Inr e \<and> e \<le> [sample_start, sample_end] ! 1"
    by (rule memory_service_no_replay [OF _ _ _ _ _ _ _ r])
      (simp_all add: guard_invar_def sample_memory_def sample_calls_def sample_start_def sample_end_def)
  with r show ?thesis by auto
qed

text \<open>
  C14. The rate limiter: among any calls for one key whose times lie in a span of one window width,
  at most twice the limit are admitted, and at most the limit when the key had no window before.
  The SQLite limiter makes the same decisions as the in-memory one, so the bound is for both.
\<close>

theorem rate_limit_bounds:
  assumes "counts_within (rl_max_requests l) (rl_windows l)"
    and "\<forall>(k', t) \<in> set cs. k' = k \<longrightarrow> a \<le> t \<and> t < a + rl_window_seconds l * 1000000"
  shows "admitted k cs (run_limiter limiter_consume l cs) \<le> 2 * rl_max_requests l
    \<and> (rl_windows l k = None \<longrightarrow> admitted k cs (run_limiter limiter_consume l cs) \<le> rl_max_requests l)
    \<and> run_limiter sql_limiter_consume l cs = run_limiter limiter_consume l cs"
  using memory_limiter.admitted_le_twice_limit [OF assms]
    memory_limiter.admitted_le_limit_fresh [OF assms(1) _ assms(2)]
  by (simp add: sql_limiter_eq)

theorem rate_limit_bounds_witness:
  "admitted ''k'' [(''k'', 0), (''k'', 1), (''k'', 2)]
     (run_limiter sql_limiter_consume sample_limiter [(''k'', 0), (''k'', 1), (''k'', 2)]) \<le> 2"
  using rate_limit_bounds [of sample_limiter "[(''k'', 0), (''k'', 1), (''k'', 2)]" "''k''" 0]
  by (simp add: sample_limiter_def counts_within_def)

section \<open>Principals and bindings\<close>

text \<open>
  An authentication reference is never rebound: once the SQLite registry resolves it to a
  principal, after any sequence of registrations of well-formed principals it resolves to one with
  the same fingerprint, hence with the same fingerprinted fields unless SHA-256 collides.
\<close>

theorem registry_never_rebinds:
  assumes "table_invar t" "\<forall>p \<in> set ps. wf_principal p" "sql_resolve t (Some a) = Inr (Some q)"
  shows "\<exists>q'. sql_resolve (register_all sql_register t ps) (Some a) = Inr (Some q')
     \<and> ap_fingerprint q' = ap_fingerprint q"
  using sql_registry.binding_stable [OF assms] .

theorem registry_never_rebinds_witness:
  "\<exists>q'. sql_resolve (register_all sql_register sample_table [sample_principal]) (Some ''auth://1'') = Inr (Some q')
     \<and> ap_fingerprint q' = ap_fingerprint sample_principal"
  using registry_never_rebinds [of sample_table "[sample_principal]" "''auth://1''" sample_principal]
    sample_table_invar sample_principal_wf sample_resolve(2)
  by (simp add: sample_sqlite_def sqlite_adapters_def)

text \<open>
  C15. A principal built by \<^verbatim>\<open>verified\<close> over an issued attestation and written to the principals
  table is read back unchanged.
\<close>

theorem principal_roundtrip:
  assumes "issue_attestation pr zone issuer refs issued until status = Inr att"
    and "verified d = Inr p" "ap_trust_zone_attestation d = att"
  shows "principal_from_payload (stored_payload p) = Inr p"
proof (rule stored_roundtrip)
  have "ap_trust_zone_attestation p = att"
    using arg_cong [OF verified_shape(1) [OF assms(2)], of ap_trust_zone_attestation] assms(3) by simp
  with issue_attestation_wf [OF assms(1)] verified_idem [OF assms(2)] show "wf_principal p"
    by (simp add: wf_principal_def)
qed

theorem principal_roundtrip_witness:
  "principal_from_payload (stored_payload sample_principal) = Inr sample_principal"
proof -
  have w: "wf_principal sample_principal" by (rule sample_principal_wf)
  show ?thesis
    by (rule principal_roundtrip [OF _ _ refl]) (use w in \<open>auto simp: wf_principal_def wf_attestation_def\<close>)
qed

lemma binding_payload_inj:
  assumes "sort_keys (binding_payload n b) = sort_keys (binding_payload n' b')"
  shows "sort_keys (JObj n) = sort_keys (JObj n') \<and> rb_authentication_ref b = rb_authentication_ref b'
    \<and> rb_principal_ref b = rb_principal_ref b' \<and> rb_operation b = rb_operation b'
    \<and> rb_project_constraint b = rb_project_constraint b' \<and> rb_policy_epoch b = rb_policy_epoch b'
    \<and> rb_issued_at b = rb_issued_at b' \<and> rb_valid_until b = rb_valid_until b'
    \<and> rb_purpose_binding_fingerprint b = rb_purpose_binding_fingerprint b'
    \<and> rb_subject_chain_fingerprint b = rb_subject_chain_fingerprint b'
    \<and> rb_trust_zone_attestation_fingerprint b = rb_trust_zone_attestation_fingerprint b'
    \<and> rb_trust_zone b = rb_trust_zone b' \<and> rb_policy_bundle_ref b = rb_policy_bundle_ref b'
    \<and> rb_policy_version b = rb_policy_version b'"
  using assms by (simp add: binding_payload_def sort_keys_JObj_eq)

lemma request_dict_keys:
  "sort_keys (JObj (request_dict q)) = sort_keys (JObj (request_dict q')) \<longleftrightarrow> q = q'"
  by (cases q, cases q') (auto simp: request_dict_def)

text \<open>
  Two bindings that pass the integrity check for their requests and carry the same
  fingerprint agree on the request and on every fingerprinted field, or their two
  fingerprinted texts collide under SHA-256: a binding cannot be altered in those fields or moved to another request.
\<close>

theorem binding_tamper_evident:
  assumes "integrity_valid b q" "integrity_valid b' q'" "rb_fingerprint b = rb_fingerprint b'"
  shows "(q = q' \<and> b' = b\<lparr>rb_purpose := rb_purpose b', rb_binding_id := rb_binding_id b'\<rparr>)
    \<or> sha_collision (canonical_json (binding_payload (request_dict q) b)) (canonical_json (binding_payload (request_dict q') b'))"
proof -
  from assms have q: "normalized q = Inr (request_dict q)" "normalized q' = Inr (request_dict q')"
    by (auto simp: integrity_valid_def normalized_Inr_iff split: sum.splits)
  with assms have "sha256_json (binding_payload (request_dict q) b) = sha256_json (binding_payload (request_dict q') b')"
    and id: "rb_request_id b = q_request_id q" "rb_request_id b' = q_request_id q'"
    and fp: "rb_request_fingerprint b = sha256_json (JObj (request_dict q))"
      "rb_request_fingerprint b' = sha256_json (JObj (request_dict q'))"
    by (simp_all add: integrity_valid_def)
  then consider "sort_keys (binding_payload (request_dict q) b) = sort_keys (binding_payload (request_dict q') b')"
    | "sha_collision (canonical_json (binding_payload (request_dict q) b)) (canonical_json (binding_payload (request_dict q') b'))"
    using sha256_json_eqD by blast
  then show ?thesis
  proof cases
    case 1
    note inj = binding_payload_inj [OF 1]
    then have "q = q'" using request_dict_keys [of q q'] by (simp only:)
    with inj id fp assms(3) show ?thesis by (intro disjI1 conjI request_binding.equality) simp_all
  qed blast
qed

theorem binding_tamper_evident_witness:
  "\<exists>b b'. integrity_valid b sample_request \<and> integrity_valid b' sample_request \<and> b \<noteq> b'
     \<and> (b' = b\<lparr>rb_purpose := rb_purpose b', rb_binding_id := rb_binding_id b'\<rparr> 
          \<or> sha_collision (canonical_json (binding_payload (request_dict sample_request) b)) (canonical_json (binding_payload (request_dict sample_request) b')))"
proof -
  obtain b where b: "build_binding ''read'' sample_request sample_principal sample_issued = Inr b"
    using sample_binding by blast
  note i = build_binding_integrity [OF b]
  let ?b' = "b\<lparr>rb_purpose := ''other''\<rparr>"
  from i have i': "integrity_valid ?b' sample_request"
    by (simp add: integrity_valid_def binding_payload_def split: sum.splits)
  have "rb_purpose b \<noteq> ''other''" using build_binding_Inr(9) [OF b] by (simp add: sample_request_def)
  then have ne: "b \<noteq> ?b'" by (cases b) simp
  have "rb_fingerprint b = rb_fingerprint ?b'" by simp
  from binding_tamper_evident [OF i i' this]
  have "?b' = b\<lparr>rb_purpose := rb_purpose ?b', rb_binding_id := rb_binding_id ?b'\<rparr> 
    \<or> sha_collision (canonical_json (binding_payload (request_dict sample_request) b)) (canonical_json (binding_payload (request_dict sample_request) ?b'))"
    by (rule disj_forward) simp_all
  with i i' ne show ?thesis by (intro exI [of _ b] exI [of _ ?b'] conjI) assumption+
qed

text \<open>
  The integrity check does not look at the purpose or the binding id of a binding: replacing
  either leaves its verdict unchanged, although the purpose is part of what was authorized. Only
  revalidation, which recomputes the whole binding, refuses an altered purpose.
\<close>

theorem integrity_ignores_purpose:
  "integrity_valid (b\<lparr>rb_purpose := x, rb_binding_id := y\<rparr>) q = integrity_valid b q
   \<and> (rb_purpose b \<noteq> q_purpose q \<longrightarrow> revalidate ad sv q b current \<noteq> Inr True)"
proof
  show "integrity_valid (b\<lparr>rb_purpose := x, rb_binding_id := y\<rparr>) q = integrity_valid b q"
    by (simp add: integrity_valid_def binding_payload_def split: sum.splits)
  show "rb_purpose b \<noteq> q_purpose q \<longrightarrow> revalidate ad sv q b current \<noteq> Inr True"
    unfolding revalidate_True_iff by (auto dest: build_binding_Inr(9))
qed

theorem integrity_ignores_purpose_witness:
  "\<exists>b. integrity_valid (b\<lparr>rb_purpose := ''other''\<rparr>) sample_request
     \<and> revalidate sqlite_adapters sample_sqlite sample_request (b\<lparr>rb_purpose := ''other''\<rparr>) sample_noon \<noteq> Inr True"
proof -
  obtain b where b: "build_binding ''read'' sample_request sample_principal sample_issued = Inr b"
    using sample_binding by blast
  from integrity_ignores_purpose [where b = b and x = "''other''" and y = "rb_binding_id b" and q = sample_request,
      THEN conjunct1] build_binding_integrity [OF b]
  have "integrity_valid (b\<lparr>rb_purpose := ''other''\<rparr>) sample_request" by (cases b) simp
  moreover have "revalidate sqlite_adapters sample_sqlite sample_request (b\<lparr>rb_purpose := ''other''\<rparr>) sample_noon \<noteq> Inr True"
    using integrity_ignores_purpose [where b = "b\<lparr>rb_purpose := ''other''\<rparr>" and q = sample_request,
        THEN conjunct2, THEN mp]
    by (simp add: sample_request_def)
  ultimately show ?thesis by blast
qed

end
