(* ===== verification/Read_Properties.thy ===== *)
theory Read_Properties
  imports Read_Operations Auth_Properties
begin

text \<open>
  The properties of the read facade, over the composition of request authorization, retrieval,
  disclosure and the emission fence: what a refused caller can see, what evidence in a response
  implies, that both transports answer alike, and what the fence accepts.
\<close>

section \<open>The shape of a projection\<close>

definition read_shape :: "dict \<Rightarrow> bool" where
  "read_shape d =
     (\<exists>disp cov aref refs lin cont.
        map_of d ''result'' = Some (JObj [(''disposition'', JStr disp), (''coverage'', JStr cov)])
        \<and> map_of d ''lineage'' = Some (JObj lin) \<and> map_of lin ''authorization_ref'' = Some (JStr aref)
        \<and> map_of lin ''evidence_refs'' = Some (jstrs refs) \<and> map_of d ''continuation'' = Some (JStr cont)
        \<and> (\<forall>k \<in> {''request'', ''evidence'', ''context''}. map_of d k \<noteq> None))"

definition binding_shape :: "dict \<Rightarrow> bool" where
  "binding_shape b = (\<exists>a f s. b = [(''authorization_ref'', JStr a), (''request_fingerprint'', JStr f), (''scope'', JStr s)])"

lemma binding_shapes: "server_binding q = Inr b \<Longrightarrow> binding_shape b" "binding_shape (public_lineage rb)"
  by (auto simp: binding_shape_def server_binding_def public_lineage_def result_simps Let_def)

lemma merged_lineage:
  "binding_shape b \<Longrightarrow> \<exists>a f s. dict_merge [(''authorization_ref'', x), (''evidence_refs'', y)] b =
     [(''authorization_ref'', JStr a), (''evidence_refs'', y), (''request_fingerprint'', JStr f), (''scope'', JStr s)]"
  by (auto simp: binding_shape_def dict_merge_def)

lemma respond_shape:
  assumes "binding_shape binding"
    and "map_of result ''result'' = Some (JObj [(''disposition'', JStr disp), (''coverage'', JStr cov)])"
    and "get result ''lineage'' = JObj [(''authorization_ref'', x), (''evidence_refs'', jstrs refs)]"
    and "\<forall>k \<in> {''request'', ''evidence'', ''context''}. map_of result k \<noteq> None"
  shows "read_shape (respond binding result)"
proof -
  from merged_lineage [OF assms(1), of x "jstrs refs"] obtain a f s where
    "dict_merge (members_of (get result ''lineage'')) binding =
       [(''authorization_ref'', JStr a), (''evidence_refs'', jstrs refs), (''request_fingerprint'', JStr f), (''scope'', JStr s)]"
    by (auto simp: assms(3) members_of_def)
  with assms(2,4) show ?thesis by (auto simp: read_shape_def respond_def)
qed

lemma project_shape:
  assumes "binding_shape binding" "project_query_result qr still = Inr result"
  shows "read_shape (respond binding result)"
proof (cases "\<not> still \<or> r_evidence qr = []")
  case True
  with assms(2) have r: "empty_projection qr = Inr result" by (auto simp: project_query_result_def)
  show ?thesis
    by (rule respond_shape [OF assms(1), where disp = "''EMPTY''" and cov = "''unknown''"
          and x = "JStr (lineage_of (r_request qr))" and refs = "[]"])
      (use r in \<open>auto simp: empty_projection_def result_simps Let_def get_def jstrs_def\<close>)
next
  case False
  with assms(2) obtain s where s: "structured qr = Inr s" and r: "result =
        [(''disclosure_version'', JStr DISCLOSURE_VERSION),
         (''request'', JObj [(''request_id'', JStr (q_request_id (r_request qr))),
            (''project_constraint'', JStr (q_project_constraint (r_request qr))),
            (''purpose'', JStr (q_purpose (r_request qr)))]),
         (''result'', get s ''result''), (''evidence'', get s ''evidence''),
         (''lineage'', get s ''lineage''), (''context'', get s ''context'')]"
    by (auto simp: project_query_result_def result_simps)
  show ?thesis
    by (rule respond_shape [OF assms(1), where disp = "disposition_value (r_disposition qr)"
          and cov = "coverage_value (r_coverage qr)" and x = "JStr (r_authorization_lineage qr)"
          and refs = "map e_evidence_ref (r_evidence qr)"])
      (use s in \<open>auto simp: r structured_def result_simps get_def\<close>)
qed

lemma handle_shape:
  assumes "handle rt raw = Inr d"
  shows "read_shape d"
proof -
  from assms obtain p binding qr s where b: "server_binding (pr_query_request p) = Inr binding" and s: "structured qr = Inr s"
    and d: "d = [(''projection_version'', JStr PROJECTION_VERSION), (''request'', get s ''request''),
        (''result'', get s ''result''), (''evidence'', get s ''evidence''),
        (''lineage'', JObj (dict_merge (members_of (get s ''lineage'')) binding)),
        (''context'', get s ''context''), (''continuation'', JStr (continuation_of binding s))]"
    by (auto simp: handle_def result_simps)
  have lin: "get s ''lineage'' = JObj [(''authorization_ref'', JStr (r_authorization_lineage qr)),
      (''evidence_refs'', jstrs (map e_evidence_ref (r_evidence qr)))]"
    and res: "get s ''result'' = JObj [(''disposition'', JStr (disposition_value (r_disposition qr))),
      (''coverage'', JStr (coverage_value (r_coverage qr)))]"
    using s by (auto simp: structured_def result_simps get_def)
  from merged_lineage [OF binding_shapes(1) [OF b]] obtain a f z where
    "dict_merge (members_of (get s ''lineage'')) binding =
       [(''authorization_ref'', JStr a), (''evidence_refs'', jstrs (map e_evidence_ref (r_evidence qr))),
        (''request_fingerprint'', JStr f), (''scope'', JStr z)]"
    by (fastforce simp: lin members_of_def)
  then show ?thesis by (auto simp: read_shape_def d res)
qed

lemma handle_disclosed_shape:
  assumes "handle_disclosed rt raw authorized given f = Inr d" "\<And>b. given = Some b \<Longrightarrow> binding_shape b"
  shows "read_shape d"
proof -
  from assms(1) obtain p binding qr still result where
    "(case given of Some b \<Rightarrow> if b = [] then server_binding (pr_query_request p) else Inr b
      | None \<Rightarrow> server_binding (pr_query_request p)) = Inr binding"
    and r: "project_query_result qr still = Inr result" "d = respond binding result"
    by (auto simp: handle_disclosed_def result_simps Let_def respond_def)
  then have "binding_shape binding" using assms(2) binding_shapes(1) by (auto split: option.splits if_splits)
  from project_shape [OF this r(1)] r(2) show ?thesis by simp
qed

lemma choose_projection_shape:
  assumes "choose_projection rt au env payload adapter authorized auth = (Inr d, au')"
  shows "read_shape d"
proof (cases au)
  case None
  with assms show ?thesis
    by (auto simp: choose_projection_def projection_api_def projection_mcp_def api_disclosed_def mcp_disclosed_def
        split: if_splits option.splits intro: handle_shape handle_disclosed_shape)
next
  case (Some a)
  obtain ad sv where a: "a = (ad, sv)" by (cases a)
  from assms Some a have "handle_authenticated rt (Some (ad, sv)) env (JObj payload) auth = (Inr d, au')"
    by (auto simp: choose_projection_def api_authenticated_def mcp_authenticated_def split: if_splits)
  then obtain p qr still binding result where "server_binding (pr_query_request p) = Inr binding"
    "project_query_result qr still = Inr result" "d = respond binding result"
    by (rule handle_authenticated_Inr)
  then show ?thesis using project_shape binding_shapes(1) by blast
qed

section \<open>The fence accepts what the service builds\<close>

lemma py_eq_jstrs [simp]: "py_eq (jstrs xs) (jstrs xs)"
proof -
  have "py_eq_list (map JStr xs) (map JStr xs)" by (induction xs) simp_all
  then show ?thesis by (simp add: jstrs_def)
qed

text \<open>The fence and the envelope of an operation, its projection and its typed result.\<close>

definition own_fence :: "string \<Rightarrow> dict \<Rightarrow> dict \<Rightarrow> emission_fence" where
  "own_fence operation projection typed =
     \<lparr>ef_operation = operation, ef_projection_fingerprint = disclosure_fingerprint projection,
      ef_typed_result_fingerprint = sha256_json (JObj typed), ef_status = ''EMIT_VALID''\<rparr>"

definition own_envelope :: "string \<Rightarrow> dict \<Rightarrow> dict \<Rightarrow> dict" where
  "own_envelope operation projection typed =
     [(''operation'', JStr operation), (''projection'', JObj projection), (''typed_result'', JObj typed)]"

lemma finish_operation_shape:
  assumes "read_shape d" "operation \<in> set READ_OPERATIONS"
  obtains c typed where "operation_cursor operation d = Inr c"
    "fence_assert_valid (own_fence operation (dict_put ''continuation'' (JStr c) d) typed)
       (own_envelope operation (dict_put ''continuation'' (JStr c) d) typed) = Inr ()"
    "finish_operation operation payload d =
       (if get payload ''cursor'' \<noteq> JNull \<and> get payload ''cursor'' \<noteq> JStr c then read_error ''read_cursor_binding_mismatch''
        else Inr (own_envelope operation (dict_put ''continuation'' (JStr c) d) typed
          @ [(''emission_fence'', JObj (fence_structured (own_fence operation (dict_put ''continuation'' (JStr c) d) typed)))]))"
proof -
  from assms(1) obtain disp cov aref refs lin cont where sh:
    "map_of d ''result'' = Some (JObj [(''disposition'', JStr disp), (''coverage'', JStr cov)])"
    "map_of d ''lineage'' = Some (JObj lin)" "map_of lin ''authorization_ref'' = Some (JStr aref)"
    "map_of lin ''evidence_refs'' = Some (jstrs refs)" "map_of d ''continuation'' = Some (JStr cont)"
    unfolding read_shape_def by blast
  obtain c where c: "operation_cursor operation d = Inr c"
    using sh by (simp add: operation_cursor_def get_def)
  let ?p = "dict_put ''continuation'' (JStr c) d"
  let ?t = "[(''record_type'', JStr ''PMIRI_EXTERNAL_READ_TYPED_RESULT''), (''schema_version'', JStr ''0.1''),
        (''operation'', JStr operation), (''disposition'', JStr disp), (''coverage'', JStr cov),
        (''authorization_ref'', JStr aref), (''evidence_refs'', jstrs refs),
        (''projection_fingerprint'', JStr (disclosure_fingerprint ?p))]"
  have t: "typed_result_of operation ?p = Inr ?t"
    using sh by (simp add: typed_result_of_def item_def item_of_def members_of_def get_def get_or_def list_of_def jstrs_def)
  have v: "fence_assert_valid (own_fence operation ?p ?t) (own_envelope operation ?p ?t) = Inr ()"
    using sh py_eq_jstrs [of refs]
    by (simp add: fence_assert_valid_def own_fence_def own_envelope_def fails_if_def members_of_def is_obj_def get_def
        get_or_def list_of_def jstrs_def)
  have "fence_create operation ?p ?t = Inr (own_fence operation ?p ?t)"
    using assms(2) by (simp add: fence_create_def own_fence_def)
  then have "finish_operation operation payload d =
       (if get payload ''cursor'' \<noteq> JNull \<and> get payload ''cursor'' \<noteq> JStr c then read_error ''read_cursor_binding_mismatch''
        else Inr (own_envelope operation ?p ?t @ [(''emission_fence'', JObj (fence_structured (own_fence operation ?p ?t)))]))"
    using v by (simp add: finish_operation_def c t Let_def own_envelope_def)
  with c v that show ?thesis by blast
qed

lemma own_envelope_get [simp]:
  "get (own_envelope operation p typed @ xs) ''projection'' = JObj p"
  "get (own_envelope operation p typed @ xs) ''operation'' = JStr operation"
  by (simp_all add: own_envelope_def get_def)

lemma strip_operation_known: "strip_transport_operation operation raw = Inr payload \<Longrightarrow> operation \<in> set READ_OPERATIONS"
  by (auto simp: strip_transport_operation_def split: if_splits)

text \<open>
  C18. Once the request is accepted and the projection handler has answered, a read operation returns
  a fenced response, except when the caller presents a cursor that is not the one of this operation,
  request and evidence: the fence never refuses a response the service built.
\<close>

theorem fence_never_refuses_own_response:
  assumes "strip_transport_operation operation raw = Inr payload"
    and "choose_projection rt au env payload adapter authorized auth = (Inr projection, au')"
  shows "\<exists>c. operation_cursor operation projection = Inr c
    \<and> (if get payload ''cursor'' = JNull \<or> get payload ''cursor'' = JStr c
       then \<exists>resp. execute rt au env operation raw adapter authorized auth = (Inr resp, au')
              \<and> get resp ''projection'' = JObj (dict_put ''continuation'' (JStr c) projection)
       else execute rt au env operation raw adapter authorized auth = (Inl (ExternalReadEmissionError, ''read_cursor_binding_mismatch''), au'))"
proof -
  obtain c typed where c: "operation_cursor operation projection = Inr c"
    and f: "finish_operation operation payload projection =
       (if get payload ''cursor'' \<noteq> JNull \<and> get payload ''cursor'' \<noteq> JStr c then read_error ''read_cursor_binding_mismatch''
        else Inr (own_envelope operation (dict_put ''continuation'' (JStr c) projection) typed
          @ [(''emission_fence'', JObj (fence_structured (own_fence operation (dict_put ''continuation'' (JStr c) projection) typed)))]))"
    by (rule finish_operation_shape [OF choose_projection_shape [OF assms(2)] strip_operation_known [OF assms(1)]])
  have "execute rt au env operation raw adapter authorized auth = (finish_operation operation payload projection, au')"
    by (simp add: execute_def assms)
  then show ?thesis using c f by (auto simp: raise_def)
qed

text \<open>
  The fence of a response binds it: an envelope that passes the fence made for an operation, a
  projection and a typed result names that operation and carries, up to the order of keys, that
  projection and that typed result, or two of these texts collide under SHA-256.
\<close>

theorem fence_tamper_evident:
  assumes "fence_create operation projection typed = Inr f" "fence_assert_valid f envelope = Inr ()"
  shows "get envelope ''operation'' = JStr operation
    \<and> (sort_keys (get envelope ''projection'') = sort_keys (JObj projection)
       \<or> sha_collision (canonical_json (get envelope ''projection'')) (canonical_json (JObj projection)))
    \<and> (sort_keys (get envelope ''typed_result'') = sort_keys (JObj typed)
       \<or> sha_collision (canonical_json (get envelope ''typed_result'')) (canonical_json (JObj typed)))"
proof -
  have f: "ef_operation f = operation" "ef_projection_fingerprint f = sha256_json (JObj projection)"
    "ef_typed_result_fingerprint f = sha256_json (JObj typed)"
    using assms(1) by (auto simp: fence_create_def disclosure_fingerprint_def split: if_splits)
  note v = assms(2) [unfolded fence_assert_valid_def Let_def run_checks_passes, simplified list.set ball_simps fails_if_passes]
  have pv: "get envelope ''projection'' = JObj (members_of (get envelope ''projection''))"
    and tv: "get envelope ''typed_result'' = JObj (members_of (get envelope ''typed_result''))"
    using v by (auto simp: is_obj_def members_of_def split: json.splits)
  have "py_eq (get envelope ''operation'') (JStr operation)"
    and p: "sha256_json (get envelope ''projection'') = sha256_json (JObj projection)"
    and t: "sha256_json (get envelope ''typed_result'') = sha256_json (JObj typed)"
    using v f pv tv by (simp_all add: disclosure_fingerprint_def)
  with sha256_json_eqD [OF p] sha256_json_eqD [OF t] py_eq_JStr [of "get envelope ''operation''" operation] show ?thesis by blast
qed

section \<open>A sample service\<close>

definition read_raw :: json where
  "read_raw = JObj [(''request_id'', JStr ''r1''), (''project_constraint'', JStr ''project-a''), (''query'', JStr ''alpha''),
     (''purpose'', JStr ''retrieval''), (''max_results'', JInt 5)]"

definition read_source :: source_record where
  "read_source = sample_source\<lparr>s_content := ''alpha''\<rparr>"

definition read_rt :: "source_record list \<Rightarrow> read_runtime" where
  "read_rt sources = \<lparr>rt_unicode = ascii_tables, rt_bound = 128, rt_list = (\<lambda>_. Inr sources)\<rparr>"

definition read_env :: "(principal_table, rate_limiter, replay_table, epoch_row) call_env" where
  "read_env = \<lparr>ce_current = sample_issued, ce_clock = 0, ce_later = sample_issued, ce_meanwhile = (\<lambda>sv. sv)\<rparr>"

lemma read_raw_parsed: "\<exists>p. from_mapping read_raw = Inr p \<and> pr_query_request p = sample_request"
proof -
  let ?p = "\<lparr>pr_request_id = ''r1'', pr_project_constraint = ''project-a'', pr_query = ''alpha'', pr_purpose = ''retrieval'',
    pr_max_results = 5, pr_client_authorization_ref = None, pr_client_cursor = None\<rparr>"
  have q: "pr_query_request ?p = sample_request" by (simp add: pr_query_request_def sample_request_def)
  have "from_mapping read_raw = Inr ?p" by code_simp
  with q show ?thesis by blast
qed

lemma read_query:
  "\<exists>qr. query_of (read_rt sources) sample_request = Inr qr \<and> r_evidence qr = es_items (evidence_for ascii_tables sources sample_request)"
proof -
  have "tokens ascii_tables (q_query sample_request) \<noteq> []" unfolding sample_request_def by code_simp
  then show ?thesis
    by (simp add: query_of_def read_rt_def runtime_query_Inr_iff search_Inr_iff sample_normalized)
qed

lemma read_evidence: "es_items (evidence_for ascii_tables [read_source] sample_request) \<noteq> []"
  "es_items (evidence_for ascii_tables [] sample_request) = []"
proof -
  have "matching_spans ascii_tables ''alpha'' (tokens ascii_tables ''alpha'') \<noteq> []" by code_simp
  then have "scored ascii_tables [read_source] (tokens ascii_tables ''alpha'') \<noteq> []"
    by (simp add: scored_def read_source_def)
  then show "es_items (evidence_for ascii_tables [read_source] sample_request) \<noteq> []"
    by (simp add: evidence_for_def Let_def sample_request_def) (metis length_0_conv length_sort)
qed (simp add: evidence_for_def Let_def scored_def)

lemma read_allowed:
  "\<exists>ev sv1 b. evaluate sqlite_adapters sample_sqlite sample_request (Some ''auth://1'') sample_issued 0 = (Inr ev, sv1)
     \<and> ev_allowed ev \<and> ev_binding ev = Some b \<and> revalidate sqlite_adapters sv1 sample_request b sample_issued = Inr True"
proof -
  obtain b where a: "allowed_with (run_service sqlite_adapters sample_sqlite sample_calls ! 0) b"
    using sample_sqlite_run by blast
  obtain r sv1 where r: "evaluate sqlite_adapters sample_sqlite sample_request (Some ''auth://1'') sample_issued 0 = (r, sv1)"
    by fastforce
  with a have "allowed_with r b" by (simp add: sample_calls_def)
  then obtain ev where ev: "r = Inr ev" "ev_allowed ev" "ev_binding ev = Some b"
    by (auto simp: allowed_with_def split: sum.splits)
  have "revalidate sqlite_adapters sv1 sample_request b sample_issued = Inr True"
    by (rule allowed_revalidates_generic [OF r [unfolded ev(1)] ev(2,3)]) (simp add: sample_resolve)
  with r ev show ?thesis by blast
qed

lemma handle_authenticated_allowed:
  assumes "from_mapping raw = Inr p" "evaluate ad sv (pr_query_request p) auth (ce_current env) (ce_clock env) = (Inr ev, sv1)"
    and "ev_binding ev = Some b" "revalidate ad (ce_meanwhile env sv1) (pr_query_request p) b (ce_later env) = Inr still"
    and "query_of rt (pr_query_request p) = Inr qr" "project_query_result qr still = Inr result"
  shows "handle_authenticated rt (Some (ad, sv)) env raw auth =
    (Inr (respond (public_lineage b) result), Some (ad, ce_meanwhile env sv1))"
  using assms evaluate_binding(1) [OF assms(2)]
  by (simp add: handle_authenticated_def handle_disclosed_def Let_def respond_def)

lemma projectable: "normalized (r_request qr) = Inr n \<Longrightarrow> \<exists>result. project_query_result qr still = Inr result"
  by (simp add: project_query_result_def empty_projection_def structured_def)

lemma read_response:
  "\<exists>resp sv'. handle_authenticated (read_rt sources) (Some (sqlite_adapters, sample_sqlite)) read_env read_raw (Some ''auth://1'')
       = (Inr resp, Some (sqlite_adapters, sv'))
     \<and> get resp ''evidence'' = JList (map (\<lambda>e. JObj (item_public_dict e)) (es_items (evidence_for ascii_tables sources sample_request)))"
proof -
  obtain p where p: "from_mapping read_raw = Inr p" "pr_query_request p = sample_request" using read_raw_parsed by blast
  obtain ev sv1 b where ev: "evaluate sqlite_adapters sample_sqlite sample_request (Some ''auth://1'') sample_issued 0 = (Inr ev, sv1)"
    "ev_binding ev = Some b" "revalidate sqlite_adapters sv1 sample_request b sample_issued = Inr True" using read_allowed by blast
  obtain qr where qr: "query_of (read_rt sources) sample_request = Inr qr"
    "r_evidence qr = es_items (evidence_for ascii_tables sources sample_request)" using read_query by blast
  obtain result where result: "project_query_result qr True = Inr result"
    using projectable query_of_fields [OF qr(1)] sample_normalized by metis
  have "handle_authenticated (read_rt sources) (Some (sqlite_adapters, sample_sqlite)) read_env read_raw (Some ''auth://1'')
      = (Inr (respond (public_lineage b) result), Some (sqlite_adapters, ce_meanwhile read_env sv1))"
    by (rule handle_authenticated_allowed [OF p(1)]) (use p ev qr result in \<open>simp_all add: read_env_def\<close>)
  then show ?thesis using project_evidence [OF result] qr(2) by (auto simp: get_respond)
qed

lemma read_denied:
  "\<exists>resp au'. handle_authenticated (read_rt sources) (Some (sqlite_adapters, sample_sqlite)) read_env read_raw None = (Inr resp, au')
     \<and> get resp ''evidence'' = JList []"
proof -
  obtain p where p: "from_mapping read_raw = Inr p" "pr_query_request p = sample_request" using read_raw_parsed by blast
  have ev: "evaluate sqlite_adapters sample_sqlite sample_request None sample_issued 0 = (Inr (deny ''AUTHENTICATION_UNKNOWN''), sample_sqlite)"
    by (simp add: evaluate_def sample_normalized sqlite_adapters_def sql_resolve_def)
  obtain qr where qr: "query_of (read_rt sources) sample_request = Inr qr" using read_query by blast
  obtain result where result: "project_query_result qr False = Inr result"
    using projectable query_of_fields [OF qr(1)] sample_normalized by metis
  obtain binding where "server_binding sample_request = Inr binding" by (simp add: server_binding_def sample_normalized Let_def)
  then have "handle_authenticated (read_rt sources) (Some (sqlite_adapters, sample_sqlite)) read_env read_raw None
      = (Inr (respond binding result), Some (sqlite_adapters, ce_meanwhile read_env sample_sqlite))"
    using p ev qr result by (simp add: handle_authenticated_def handle_disclosed_def Let_def respond_def read_env_def)
  then show ?thesis using project_evidence [OF result] by (simp add: get_respond)
qed

section \<open>What a caller sees\<close>

text \<open>
  C16. A caller cannot tell a refusal from an empty result: two responses without evidence to the same
  request are equal, context, lineage and continuation included, whatever the two authorization
  services, credentials, times and stored sources were.
\<close>

theorem empty_responses_equal:
  assumes "handle_authenticated rt au env raw auth = (Inr resp, au')" "handle_authenticated rt2 au2 env2 raw auth2 = (Inr resp2, au2')"
    and "rt_bound rt = rt_bound rt2" "get resp ''evidence'' = JList []" "get resp2 ''evidence'' = JList []"
  shows "resp = resp2"
proof -
  obtain ad sv ad2 sv2 where au: "au = Some (ad, sv)" "au2 = Some (ad2, sv2)"
    using assms(1,2) by (auto simp: handle_authenticated_def raise_def split: option.splits)
  obtain p binding qr still result where r: "from_mapping raw = Inr p" "server_binding (pr_query_request p) = Inr binding"
    "query_of rt (pr_query_request p) = Inr qr" "project_query_result qr still = Inr result" "resp = respond binding result"
    by (rule handle_authenticated_Inr [OF assms(1) [unfolded au]])
  obtain p2 binding2 qr2 still2 result2 where r2: "from_mapping raw = Inr p2" "server_binding (pr_query_request p2) = Inr binding2"
    "query_of rt2 (pr_query_request p2) = Inr qr2" "project_query_result qr2 still2 = Inr result2" "resp2 = respond binding2 result2"
    by (rule handle_authenticated_Inr [OF assms(2) [unfolded au]])
  have e: "empty_projection qr = Inr result" "empty_projection qr2 = Inr result2"
    using project_empty [OF r(4)] project_empty [OF r2(4)] assms(4,5) r(5) r2(5) by (simp_all add: get_respond)
  have same: "p2 = p" "binding2 = binding" using r r2 by simp_all
  from query_of_fields [OF r(3)] query_of_fields [OF r2(3)] same assms(3)
  have "empty_projection qr = empty_projection qr2" by (simp add: empty_projection_def)
  with e r(5) r2(5) same show ?thesis by simp
qed

theorem empty_responses_equal_witness:
  "\<exists>resp au1 au2. handle_authenticated (read_rt [read_source]) (Some (sqlite_adapters, sample_sqlite)) read_env read_raw None = (Inr resp, au1)
     \<and> handle_authenticated (read_rt []) (Some (sqlite_adapters, sample_sqlite)) read_env read_raw (Some ''auth://1'') = (Inr resp, au2)"
proof -
  obtain resp au1 where r1: "handle_authenticated (read_rt [read_source]) (Some (sqlite_adapters, sample_sqlite)) read_env read_raw None = (Inr resp, au1)"
    "get resp ''evidence'' = JList []" using read_denied by blast
  obtain resp2 sv2 where r2: "handle_authenticated (read_rt []) (Some (sqlite_adapters, sample_sqlite)) read_env read_raw (Some ''auth://1'')
      = (Inr resp2, Some (sqlite_adapters, sv2))" "get resp2 ''evidence'' = JList []"
    using read_response [of "[]"] by (auto simp: read_evidence)
  have "resp = resp2" by (rule empty_responses_equal [OF r1(1) r2(1) _ r1(2) r2(2)]) (simp add: read_rt_def)
  with r1 r2 show ?thesis by blast
qed

lemma evidence_entitled:
  assumes "handle_authenticated rt (Some (ad, sv)) env raw auth = (Inr resp, Some (ad', sv'))" "get resp ''evidence'' \<noteq> JList []"
  shows "\<exists>p ev sv1 b principal epoch.
    from_mapping raw = Inr p \<and> evaluate ad sv (pr_query_request p) auth (ce_current env) (ce_clock env) = (Inr ev, sv1)
    \<and> ev_allowed ev \<and> ev_binding ev = Some b \<and> sv' = ce_meanwhile env sv1
    \<and> ad_epoch ad (sv_epoch sv') = Inr epoch
    \<and> ad_resolve ad (sv_registry sv') (Some (rb_authentication_ref b)) = Inr (Some principal)
    \<and> entitled (sv_operation sv') (pr_query_request p) principal (ce_later env) epoch
    \<and> binding_is_valid b (ce_later env) epoch = Inr True"
proof -
  obtain p ev sv1 qr still binding result where r: "from_mapping raw = Inr p"
    "evaluate ad sv (pr_query_request p) auth (ce_current env) (ce_clock env) = (Inr ev, sv1)"
    "still = (case ev_binding ev of Some b \<Rightarrow> revalidate ad (ce_meanwhile env sv1) (pr_query_request p) b (ce_later env) = Inr True | None \<Rightarrow> False)"
    "project_query_result qr still = Inr result" "resp = respond binding result"
    by (rule handle_authenticated_Inr [OF assms(1)])
  have still using project_evidence [OF r(4)] assms(2) r(5) by (auto simp: get_respond split: if_splits)
  then obtain b where b: "ev_binding ev = Some b" "revalidate ad (ce_meanwhile env sv1) (pr_query_request p) b (ce_later env) = Inr True"
    using r(3) by (auto split: option.splits)
  have sv': "sv' = ce_meanwhile env sv1" using assms(1) by (simp add: handle_authenticated_def r(1,2) Let_def)
  have "ev_allowed ev" using evaluate_binding(1) [OF r(2)] b(1) by simp
  with r(1,2) b sv' show ?thesis by (auto simp: revalidate_True_iff)
qed

text \<open>
  C17. A response with evidence was entitled twice: the request was allowed when it came in, and when
  the query had run the binding still held in the state and at the time of the revalidation, for a
  principal who resolves, is valid, and has the project, the purpose and the operation. Evidence
  retrieved before a revocation or a policy change does not get out after it.
\<close>

theorem evidence_needs_current_authority:
  assumes "handle_authenticated rt (Some (ad, sv)) env raw auth = (Inr resp, Some (ad', sv'))" "get resp ''evidence'' \<noteq> JList []"
  shows "\<exists>p ev sv1 b principal epoch.
    from_mapping raw = Inr p \<and> evaluate ad sv (pr_query_request p) auth (ce_current env) (ce_clock env) = (Inr ev, sv1)
    \<and> ev_allowed ev \<and> ev_binding ev = Some b \<and> sv' = ce_meanwhile env sv1
    \<and> ad_epoch ad (sv_epoch sv') = Inr epoch
    \<and> ad_resolve ad (sv_registry sv') (Some (rb_authentication_ref b)) = Inr (Some principal)
    \<and> entitled (sv_operation sv') (pr_query_request p) principal (ce_later env) epoch
    \<and> binding_is_valid b (ce_later env) epoch = Inr True"
  by (rule evidence_entitled [OF assms])

theorem evidence_needs_current_authority_witness:
  "\<exists>resp sv' (b :: request_binding) principal epoch.
     handle_authenticated (read_rt [read_source]) (Some (sqlite_adapters, sample_sqlite)) read_env read_raw (Some ''auth://1'')
       = (Inr resp, Some (sqlite_adapters, sv'))
     \<and> ad_resolve sqlite_adapters (sv_registry sv') (Some (rb_authentication_ref b)) = Inr (Some principal)
     \<and> entitled (sv_operation sv') sample_request principal sample_issued epoch"
proof -
  obtain resp sv' where r: "handle_authenticated (read_rt [read_source]) (Some (sqlite_adapters, sample_sqlite)) read_env read_raw (Some ''auth://1'')
      = (Inr resp, Some (sqlite_adapters, sv'))" "get resp ''evidence'' \<noteq> JList []"
    using read_response [of "[read_source]"] read_evidence(1) by auto
  obtain p where p: "from_mapping read_raw = Inr p" "pr_query_request p = sample_request" using read_raw_parsed by blast
  from evidence_needs_current_authority [OF r] obtain p' and b :: request_binding and principal epoch where
    "from_mapping read_raw = Inr p'" "ad_resolve sqlite_adapters (sv_registry sv') (Some (rb_authentication_ref b)) = Inr (Some principal)"
    "entitled (sv_operation sv') (pr_query_request p') principal (ce_later read_env) epoch" by blast
  with p have "ad_resolve sqlite_adapters (sv_registry sv') (Some (rb_authentication_ref b)) = Inr (Some principal)"
    "entitled (sv_operation sv') sample_request principal sample_issued epoch" by (simp_all add: read_env_def)
  with r(1) show ?thesis by blast
qed

section \<open>Parity of the transports\<close>

lemma semantic_projection_ok: "read_shape d \<Longrightarrow> \<exists>sp. semantic_projection d = Inr sp"
  by (auto simp: read_shape_def semantic_projection_def item_def)

text \<open>
  C19. The API and the MCP facade of every read operation are the same function of the request, the
  credential and the service, errors and effects on the service included, and the parity check on a
  pair of their responses succeeds with equal fingerprints.
\<close>

theorem transports_agree:
  "operation_api rt au env operation raw authorized = operation_mcp rt au env operation raw authorized
   \<and> operation_api_authenticated rt au env operation raw auth = operation_mcp_authenticated rt au env operation raw auth
   \<and> (\<forall>r1 r2 au1 au2. operation_api_authenticated rt au env operation raw auth = (Inr r1, au1) \<longrightarrow>
        operation_mcp_authenticated rt au env operation raw auth = (Inr r2, au2) \<longrightarrow>
        (\<exists>fp. operation_parity_fingerprint r1 r2 = Inr (True, fp, fp)))"
proof -
  have ch: "choose_projection rt au env payload ''api'' authorized auth = choose_projection rt au env payload ''mcp'' authorized auth"
    for payload authorized auth
    by (simp add: choose_projection_def api_authenticated_def mcp_authenticated_def projection_api_def projection_mcp_def
        api_disclosed_def mcp_disclosed_def split: option.split)
  have ex: "execute rt au env operation raw ''api'' authorized auth = execute rt au env operation raw ''mcp'' authorized auth" for authorized auth
    by (simp add: execute_def ch cong: sum.case_cong)
  have parity: "\<exists>fp. operation_parity_fingerprint r r = Inr (True, fp, fp)"
    if "operation_api_authenticated rt au env operation raw auth = (Inr r, au1)" for r au1
  proof -
    from that have e: "execute rt au env operation raw ''api'' None auth = (Inr r, au1)" by (simp add: operation_api_authenticated_def)
    then obtain payload where payload: "strip_transport_operation operation raw = Inr payload"
      by (cases "strip_transport_operation operation raw") (auto simp: execute_def)
    obtain pr au2 where pr: "choose_projection rt au env payload ''api'' None auth = (pr, au2)" by fastforce
    obtain d where d: "pr = Inr d" using e payload pr by (cases pr) (auto simp: execute_def)
    note shape = choose_projection_shape [OF pr [unfolded d]]
    have fin: "finish_operation operation payload d = Inr r" using e payload pr d by (simp add: execute_def)
    obtain c typed where "finish_operation operation payload d =
       (if get payload ''cursor'' \<noteq> JNull \<and> get payload ''cursor'' \<noteq> JStr c then read_error ''read_cursor_binding_mismatch''
        else Inr (own_envelope operation (dict_put ''continuation'' (JStr c) d) typed
          @ [(''emission_fence'', JObj (fence_structured (own_fence operation (dict_put ''continuation'' (JStr c) d) typed)))]))"
      by (rule finish_operation_shape [OF shape strip_operation_known [OF payload]])
    with fin have "get r ''projection'' = JObj (dict_put ''continuation'' (JStr c) d)" by (auto split: if_splits)
    moreover have "read_shape (dict_put ''continuation'' (JStr c) d)" using shape by (auto simp: read_shape_def)
    then obtain sp where "semantic_projection (dict_put ''continuation'' (JStr c) d) = Inr sp" using semantic_projection_ok by blast
    ultimately show ?thesis by (simp add: operation_parity_fingerprint_def parity_value_def is_obj_def Let_def)
  qed
  show ?thesis using ex parity by (auto simp: operation_api_def operation_mcp_def operation_api_authenticated_def operation_mcp_authenticated_def)
qed

section \<open>Witnesses on the sample service\<close>

definition search_raw :: json where
  "search_raw = JObj ((''operation'', JStr ''search'') # members_of read_raw)"

lemma search_raw_stripped: "strip_transport_operation ''search'' search_raw = Inr (members_of read_raw)"
  by code_simp

lemma read_raw_obj [simp]: "JObj (members_of read_raw) = read_raw" "get (members_of read_raw) ''cursor'' = JNull"
  by (simp_all add: read_raw_def members_of_def get_def)

lemma read_chosen:
  "\<exists>projection au'. choose_projection (read_rt [read_source]) (Some (sqlite_adapters, sample_sqlite)) read_env
      (members_of read_raw) ''api'' None (Some ''auth://1'') = (Inr projection, au')"
  using read_response [of "[read_source]"] by (auto simp: choose_projection_def api_authenticated_def)

theorem fence_never_refuses_own_response_witness:
  "\<exists>resp au'. execute (read_rt [read_source]) (Some (sqlite_adapters, sample_sqlite)) read_env ''search'' search_raw ''api'' None
     (Some ''auth://1'') = (Inr resp, au')"
proof -
  obtain projection au' where "choose_projection (read_rt [read_source]) (Some (sqlite_adapters, sample_sqlite)) read_env
      (members_of read_raw) ''api'' None (Some ''auth://1'') = (Inr projection, au')" using read_chosen by blast
  from fence_never_refuses_own_response [OF search_raw_stripped this] show ?thesis by auto
qed

definition search_call ::
  "dict result \<times> (principal_table, rate_limiter, replay_table, epoch_row) authority option" where
  "search_call = operation_api_authenticated (read_rt [read_source]) (Some (sqlite_adapters, sample_sqlite)) read_env ''search'' search_raw (Some ''auth://1'')"

lemma search_call_ok: "\<exists>resp au'. search_call = (Inr resp, au')"
proof -
  obtain d au' where d: "choose_projection (read_rt [read_source]) (Some (sqlite_adapters, sample_sqlite)) read_env
      (members_of read_raw) ''api'' None (Some ''auth://1'') = (Inr d, au')" using read_chosen by blast
  have "\<exists>r. finish_operation ''search'' (members_of read_raw) d = Inr r"
    by (rule finish_operation_shape [OF choose_projection_shape [OF d] strip_operation_known [OF search_raw_stripped], of "members_of read_raw"])
      simp
  then show ?thesis
    by (auto simp: search_call_def operation_api_authenticated_def execute_def search_raw_stripped d)
qed

theorem transports_agree_witness:
  "\<exists>r au1 fp. search_call = (Inr r, au1) \<and> operation_parity_fingerprint r r = Inr (True, fp, fp)"
proof -
  obtain r au1 where r: "search_call = (Inr r, au1)" using search_call_ok by blast
  with transports_agree [of "read_rt [read_source]" "Some (sqlite_adapters, sample_sqlite)" read_env "''search''" search_raw None "Some ''auth://1''"]
  show ?thesis by (auto simp: search_call_def)
qed

theorem fence_tamper_evident_witness:
  "\<exists>projection typed f. fence_create ''search'' projection typed = Inr f
     \<and> fence_assert_valid f (own_envelope ''search'' projection typed) = Inr ()
     \<and> get (own_envelope ''search'' projection typed) ''operation'' = JStr ''search''"
proof -
  obtain d au' where d: "choose_projection (read_rt [read_source]) (Some (sqlite_adapters, sample_sqlite)) read_env
      (members_of read_raw) ''api'' None (Some ''auth://1'') = (Inr d, au')" using read_chosen by blast
  obtain c typed where v: "fence_assert_valid (own_fence ''search'' (dict_put ''continuation'' (JStr c) d) typed)
       (own_envelope ''search'' (dict_put ''continuation'' (JStr c) d) typed) = Inr ()"
    by (rule finish_operation_shape [OF choose_projection_shape [OF d] strip_operation_known [OF search_raw_stripped]])
  have f: "fence_create ''search'' p t = Inr (own_fence ''search'' p t)" for p t
    using strip_operation_known [OF search_raw_stripped] by (simp add: fence_create_def own_fence_def)
  from fence_tamper_evident [OF f v] f v show ?thesis by blast
qed

end
