(* ===== verification/Decisions.thy ===== *)
theory Decisions
  imports Checks Timestamps
begin

text \<open>
  \<^verbatim>\<open>pmiri/decisions.py\<close>: the Gate-D vocabularies, the validators of trust, capability, lifecycle
  and outbound records, and the cross-record check before an external emission. The life cycle of
  fetched content is a state machine; a validated record is shown to hold a run of it.
\<close>

section \<open>Vocabularies\<close>

definition OPERATIONS :: "string list" where
  "OPERATIONS = [''provider_call'', ''connector_fetch'', ''attachment_fetch'', ''external_fetch'']"

definition PURPOSES :: "string list" where
  "PURPOSES = [''retrieval'', ''context_delivery'', ''external_fetch'', ''attachment_import'', ''provider_call'']"

definition ACTIONS :: "string list" where
  "ACTIONS = [''ALLOW'', ''ALLOW_WITH_CONSTRAINTS'', ''DENY'', ''REQUIRE_REVIEW'', ''REQUIRE_REVALIDATION'',
     ''LOCAL_ONLY'']"

definition ALLOWING :: "string list" where
  "ALLOWING = [''ALLOW'', ''ALLOW_WITH_CONSTRAINTS'']"

definition LIFECYCLES :: "string list" where
  "LIFECYCLES = [''NOT_APPLICABLE'', ''QUARANTINED'', ''ADMITTED_TYPED_DATA'', ''REJECTED'', ''DISCARDED'', ''ABORTED'']"

definition LEGAL_TRANSITIONS :: "((string \<times> string) \<times> string) list" where
  "LEGAL_TRANSITIONS =
     [((''NOT_APPLICABLE'', ''QUARANTINED''), ''FETCH_COMPLETED''),
      ((''QUARANTINED'', ''ADMITTED_TYPED_DATA''), ''ADMISSION_APPROVED''),
      ((''QUARANTINED'', ''REJECTED''), ''REJECTED''),
      ((''QUARANTINED'', ''DISCARDED''), ''DISCARDED''),
      ((''QUARANTINED'', ''ABORTED''), ''ABORTED''),
      ((''ADMITTED_TYPED_DATA'', ''DISCARDED''), ''DISCARDED''),
      ((''ADMITTED_TYPED_DATA'', ''ABORTED''), ''ABORTED'')]"

definition TRUST_STATES :: "string list" where
  "TRUST_STATES = [''TRUSTED_FOR_BOUND_PURPOSE'', ''CONDITIONALLY_TRUSTED'', ''UNTRUSTED'', ''UNKNOWN'', ''EXPIRED'',
     ''REVOKED'', ''CONTRADICTED'', ''INVALID'']"

definition NON_TRUSTED :: "string list" where
  "NON_TRUSTED = [''UNTRUSTED'', ''UNKNOWN'', ''EXPIRED'', ''REVOKED'', ''CONTRADICTED'', ''INVALID'']"

definition CAPABILITY_STATES :: "string list" where
  "CAPABILITY_STATES = [''FRESH'', ''STALE'', ''MISSING'', ''REVOKED'', ''CONTRADICTED'', ''INVALID'', ''OUT_OF_SCOPE'']"

definition REASON_CLASSES :: "string list" where
  "REASON_CLASSES =
     [''NONE'', ''AUTHORITY_MISSING'', ''AUTHORITY_CONFLICT'', ''EXACT_BINDING_MISSING'', ''SCOPE_MISMATCH'',
      ''POLICY_UNKNOWN'', ''POLICY_STALE'', ''POLICY_CONTRADICTION'', ''STALE_EVIDENCE'', ''REVOKED_EVIDENCE'',
      ''CLASSIFICATION_MISMATCH'', ''MATERIAL_FINGERPRINT_MISMATCH'', ''CAPABILITY_MISSING'', ''CAPABILITY_OUT_OF_SCOPE'',
      ''DESTINATION_NOT_ALLOWLISTED'', ''CREDENTIAL_SCOPE_INVALID'', ''CREDENTIAL_VISIBILITY_RISK'', ''URL_INVALID'',
      ''UNSUPPORTED_SCHEME'', ''PRIVATE_ADDRESS'', ''DNS_REBINDING'', ''REDIRECT_UNAUTHORIZED'', ''TLS_IDENTITY_MISMATCH'',
      ''RESOURCE_LIMIT_EXCEEDED'', ''CONTENT_TYPE_DISALLOWED'', ''SEMANTIC_OBLIGATION_UNSATISFIABLE'', ''CITATION_INVALID'',
      ''HIDDEN_RETRIEVAL_ATTEMPT'', ''POLICY_EPOCH_CHANGED'', ''TEARDOWN_UNPROVEN'', ''UNTRUSTED_EXTERNAL_CONTROL_TEXT'',
      ''INTERNAL_CONTRACT_INVALID'', ''REVIEW_REQUIRED'']"

abbreviation violation_if :: "bool \<Rightarrow> string \<Rightarrow> unit result" where
  "violation_if b m \<equiv> fails_if b ContractViolation m"

abbreviation violation_if_r :: "bool result \<Rightarrow> string \<Rightarrow> unit result" where
  "violation_if_r r m \<equiv> fails_if_r r ContractViolation m"

definition required :: "dict \<Rightarrow> string list \<Rightarrow> string \<Rightarrow> unit result" where
  "required r fields label =
     (let missing = filter (\<lambda>f. \<not> has_key r f) fields
      in violation_if (missing \<noteq> []) (label @ ''_missing:'' @ join '','' missing))"

lemma required_passes [check_simps]: "required r fields label = Inr u \<longleftrightarrow> set fields \<subseteq> keys r"
  by (auto simp: required_def Let_def fails_if_passes filter_empty_conv has_key_keys)

section \<open>Trust and capability decisions\<close>

definition trust_required :: "string list" where
  "trust_required =
     [''record_type'', ''schema_version'', ''decision_id'', ''destination_binding_ref'', ''purpose_binding_ref'',
      ''material_manifest_ref'', ''trust_assertion_refs'', ''capability_decision_ref'', ''authority_manifest_fingerprint'',
      ''freshness_profile_id'', ''freshness_profile_fingerprint'', ''validity_ref'', ''trust_state'', ''action_result'',
      ''content_lifecycle'', ''reason_class'', ''decision_fingerprint'']"

definition trust_optional :: "string list" where
  "trust_optional = [''constraint_artifact_ref'', ''allowed_feature_refs'', ''redaction_profile_ref'']"

definition validate_trust_decision :: "dict \<Rightarrow> unit result" where
  "validate_trust_decision r = run_checks
     [required r trust_required ''trust_decision'',
      violation_if (\<not> keys r \<subseteq> set trust_required \<union> set trust_optional
          \<or> get r ''record_type'' \<noteq> JStr ''PMIRI_D2_TRUST_DECISION'' \<or> get r ''schema_version'' \<noteq> JStr ''0.3'')
        ''trust_decision_schema_invalid'',
      violation_if (\<not> is_list (get r ''trust_assertion_refs'') \<or> \<not> truthy (get r ''trust_assertion_refs''))
        ''trust_assertion_refs_invalid'',
      violation_if (\<not> all_strs (get r ''trust_assertion_refs'')) ''trust_assertion_refs_invalid'',
      violation_if (\<not> is_sha256 (get r ''authority_manifest_fingerprint'')
          \<or> \<not> is_sha256 (get r ''freshness_profile_fingerprint'')) ''trust_fingerprint_invalid'',
      violation_if (\<not> is_sha256 (get r ''decision_fingerprint'')) ''trust_decision_fingerprint_invalid'',
      violation_if (get r ''decision_fingerprint'' \<noteq> JStr (sha256_json (JObj (without [''decision_fingerprint''] r))))
        ''trust_decision_fingerprint_mismatch'',
      violation_if_r (not_in (get r ''trust_state'') TRUST_STATES) ''trust_state_unknown'',
      violation_if_r (not_in (get r ''reason_class'') REASON_CLASSES) ''trust_reason_class_invalid'',
      violation_if_r (not_in (get r ''action_result'') ACTIONS) ''action_unknown'',
      violation_if (get r ''content_lifecycle'' \<noteq> JStr ''NOT_APPLICABLE'')
        ''trust_content_lifecycle_must_be_not_applicable'',
      violation_if_r (and_r (in_set (get r ''trust_state'') NON_TRUSTED) (in_set (get r ''action_result'') ALLOWING))
        ''non_trusted_trust_cannot_allow'',
      violation_if (get r ''trust_state'' = JStr ''CONDITIONALLY_TRUSTED''
          \<and> get r ''action_result'' \<noteq> JStr ''ALLOW_WITH_CONSTRAINTS'') ''conditional_trust_requires_constraints'',
      violation_if (get r ''action_result'' = JStr ''ALLOW_WITH_CONSTRAINTS''
          \<and> \<not> (nonempty_str (get r ''constraint_artifact_ref'') \<and> nonempty_str (get r ''redaction_profile_ref'')))
        ''trust_constraints_missing'',
      violation_if (has_key r ''allowed_feature_refs'' \<and> \<not> all_strs (get r ''allowed_feature_refs''))
        ''trust_allowed_features_invalid'']"

definition capability_required :: "string list" where
  "capability_required =
     [''record_type'', ''schema_version'', ''decision_id'', ''subject_binding'', ''purpose'', ''material_manifest_ref'',
      ''material_manifest_fingerprint'', ''capability_profile_fingerprint'', ''observation_refs'', ''policy_version'',
      ''invalidation_epoch'', ''authority_manifest_fingerprint'', ''freshness_profile_id'', ''freshness_profile_fingerprint'',
      ''capability_state'', ''action_result'', ''reason_class'', ''validity_ref'', ''decision_fingerprint'']"

definition validate_capability_decision :: "dict \<Rightarrow> unit result" where
  "validate_capability_decision r = run_checks
     [required r capability_required ''capability_decision'',
      violation_if (keys r \<noteq> set capability_required
          \<or> get r ''record_type'' \<noteq> JStr ''PMIRI_D2_CAPABILITY_DECISION'' \<or> get r ''schema_version'' \<noteq> JStr ''0.2'')
        ''capability_decision_schema_invalid'',
      violation_if (\<not> all_strs (get r ''observation_refs'')) ''capability_observation_refs_invalid'',
      violation_if (get r ''capability_state'' \<noteq> JStr ''MISSING'' \<and> \<not> truthy (get r ''observation_refs''))
        ''capability_observation_refs_missing'',
      violation_if (\<not> list_all (\<lambda>f. is_sha256 (get r f))
          [''material_manifest_fingerprint'', ''capability_profile_fingerprint'', ''authority_manifest_fingerprint'',
           ''freshness_profile_fingerprint'', ''decision_fingerprint'']) ''capability_decision_fingerprint_invalid'',
      violation_if (get r ''decision_fingerprint'' \<noteq> JStr (sha256_json (JObj (without [''decision_fingerprint''] r))))
        ''capability_decision_fingerprint_mismatch'',
      violation_if (\<not> int_at_least 0 (get r ''invalidation_epoch'')) ''capability_decision_epoch_invalid'',
      violation_if_r (or_r (not_in (get r ''capability_state'') CAPABILITY_STATES)
          (not_in (get r ''action_result'') ACTIONS)) ''capability_vocabulary_invalid'',
      violation_if_r (not_in (get r ''reason_class'') REASON_CLASSES) ''capability_reason_class_invalid'',
      violation_if_r (and_r (Inr (get r ''capability_state'' \<noteq> JStr ''FRESH''))
          (in_set (get r ''action_result'') ALLOWING)) ''non_fresh_capability_cannot_allow'',
      violation_if (get r ''capability_state'' = JStr ''MISSING'' \<and> get r ''reason_class'' \<noteq> JStr ''CAPABILITY_MISSING'')
        ''capability_missing_reason_mismatch'']"


section \<open>The life cycle of fetched content\<close>

definition lifecycle_required :: "string list" where
  "lifecycle_required =
     [''record_type'', ''schema_version'', ''content_id'', ''operation'', ''purpose'', ''origin_binding_ref'',
      ''destination_binding_ref'', ''response_fingerprint'', ''terminal_response_fingerprint'', ''observed_content_type'',
      ''response_size_bytes'', ''initial_classification'', ''trust_state'', ''history_start_state'', ''history_terminal_state'',
      ''admission_state'', ''retrieval_visibility'', ''canonical_or_control_influence_prohibited'', ''transitions'',
      ''authority_manifest_fingerprint'', ''lifecycle_fingerprint'']"

definition lifecycle_optional :: "string list" where
  "lifecycle_optional = [''admission_predicate'', ''typed_data_schema_ref'', ''typed_data_fingerprint'']"

definition predicate_fields :: "string list" where
  "predicate_fields =
     [''explicit_operation'', ''explicit_operation_ref'', ''origin_bound'', ''parser_result_ref'', ''classification_ref'',
      ''validation_result_ref'', ''content_policy_result_ref'', ''instruction_influence_prohibited'',
      ''control_influence_prohibited'']"

definition transition_fields :: "string list" where
  "transition_fields =
     [''sequence'', ''from_state'', ''to_state'', ''event'', ''observed_at'', ''actor_ref'', ''reason_class'']"

text \<open>The visibility a terminal state demands; \<^verbatim>\<open>None\<close> for a state outside the table.\<close>

definition visibility_of :: "json \<Rightarrow> json" where
  "visibility_of st =
     (if st = JStr ''QUARANTINED'' then JStr ''QUARANTINE_ONLY''
      else if st = JStr ''ADMITTED_TYPED_DATA'' then JStr ''TYPED_DATA_ONLY''
      else if st = JStr ''REJECTED'' \<or> st = JStr ''DISCARDED'' \<or> st = JStr ''ABORTED'' then JStr ''NONE''
      else JNull)"

text \<open>
  \<^verbatim>\<open>str(...)\<close> of a value that is not a string never reads as a time stamp with an offset and is never
  the name of a state, so both are failures.
\<close>

definition transition_time :: "json \<Rightarrow> instant option \<Rightarrow> instant result" where
  "transition_time v previous_time =
     (case v of
        JStr s \<Rightarrow>
          (case parse_aware s of
             Inl _ \<Rightarrow> raise ContractViolation ''lifecycle_transition_time_invalid''
           | Inr t \<Rightarrow>
               (case previous_time of
                  None \<Rightarrow> Inr t
                | Some p \<Rightarrow> if t < p then raise ContractViolation ''lifecycle_transition_time_invalid'' else Inr t))
      | _ \<Rightarrow> raise ContractViolation ''lifecycle_transition_time_invalid'')"

definition legal_event :: "json \<Rightarrow> json \<Rightarrow> string option" where
  "legal_event from_state to_state =
     (case (from_state, to_state) of
        (JStr a, JStr b) \<Rightarrow> map_of LEGAL_TRANSITIONS (a, b)
      | _ \<Rightarrow> None)"

definition check_transition :: "nat \<Rightarrow> json \<Rightarrow> instant option \<Rightarrow> json \<Rightarrow> (json \<times> instant) result" where
  "check_transition sequence previous previous_time transition =
     (case transition of
        JObj t \<Rightarrow>
          bind_result (run_checks
            [violation_if (keys t \<noteq> set transition_fields) ''lifecycle_transition_schema_invalid'',
             violation_if (\<not> py_eq (get t ''sequence'') (JInt (int sequence)) \<or> \<not> py_eq (get t ''from_state'') previous)
               ''lifecycle_history_disconnected'',
             violation_if_r (not_in (get t ''reason_class'') REASON_CLASSES) ''lifecycle_transition_reason_invalid'']) (\<lambda>_.
          bind_result (transition_time (get t ''observed_at'') previous_time) (\<lambda>timestamp.
            (case legal_event (get t ''from_state'') (get t ''to_state'') of
               None \<Rightarrow> raise ContractViolation ''lifecycle_transition_forbidden''
             | Some ev \<Rightarrow>
                 if get t ''event'' \<noteq> JStr ev then raise ContractViolation ''lifecycle_transition_forbidden''
                 else Inr (get t ''to_state'', timestamp))))
      | _ \<Rightarrow> raise ContractViolation ''lifecycle_transition_invalid'')"

fun check_transitions :: "nat \<Rightarrow> json \<Rightarrow> instant option \<Rightarrow> json list \<Rightarrow> json result" where
  "check_transitions n previous previous_time [] = Inr previous"
| "check_transitions n previous previous_time (t # ts) =
     bind_result (check_transition n previous previous_time t) (\<lambda>(st, timestamp).
       check_transitions (Suc n) st (Some timestamp) ts)"

text \<open>The part of the validator that looks at the admission predicate and the projections.\<close>

definition lifecycle_projection :: "dict \<Rightarrow> unit result" where
  "lifecycle_projection r =
     (if get r ''history_terminal_state'' = JStr ''NOT_APPLICABLE''
      then violation_if (get r ''retrieval_visibility'' \<noteq> JStr ''NONE'' \<or> has_key r ''admission_predicate''
               \<or> has_key r ''typed_data_schema_ref'' \<or> has_key r ''typed_data_fingerprint'')
             ''lifecycle_not_applicable_projection_invalid''
      else (case get r ''admission_predicate'' of
        JObj p \<Rightarrow> run_checks
          [violation_if (keys p \<noteq> set predicate_fields) ''lifecycle_admission_predicate_schema_invalid'',
           required p predicate_fields ''lifecycle_admission_predicate'',
           violation_if (\<not> py_eq (get p ''explicit_operation'') (get r ''operation'') \<or> get p ''origin_bound'' \<noteq> JBool True)
             ''lifecycle_admission_binding_invalid'',
           violation_if (get p ''instruction_influence_prohibited'' \<noteq> JBool True
               \<or> get p ''control_influence_prohibited'' \<noteq> JBool True) ''lifecycle_control_influence_not_prohibited'',
           violation_if (\<not> py_eq (get r ''retrieval_visibility'') (visibility_of (get r ''history_terminal_state'')))
             ''lifecycle_visibility_mismatch'',
           violation_if (get r ''history_terminal_state'' = JStr ''ADMITTED_TYPED_DATA''
               \<and> \<not> (nonempty_str (get r ''typed_data_schema_ref'') \<and> nonempty_str (get r ''typed_data_fingerprint'')))
             ''lifecycle_typed_data_proof_missing'',
           violation_if (get r ''history_terminal_state'' \<noteq> JStr ''ADMITTED_TYPED_DATA''
               \<and> (has_key r ''typed_data_schema_ref'' \<or> has_key r ''typed_data_fingerprint''))
             ''lifecycle_typed_data_projection_invalid'']
      | _ \<Rightarrow> raise ContractViolation ''lifecycle_admission_predicate_missing''))"

definition lifecycle_history :: "dict \<Rightarrow> unit result" where
  "lifecycle_history r =
     (case get r ''transitions'' of
        JList ts \<Rightarrow>
          bind_result (check_transitions 0 (JStr ''NOT_APPLICABLE'') None ts) (\<lambda>previous. run_checks
            [violation_if (get r ''history_terminal_state'' \<noteq> JStr ''NOT_APPLICABLE'' \<and> ts = []) ''lifecycle_history_missing'',
             violation_if (ts \<noteq> [] \<and> \<not> py_eq previous (get r ''history_terminal_state''))
               ''lifecycle_terminal_transition_mismatch''])
      | _ \<Rightarrow> raise ContractViolation ''lifecycle_transitions_invalid'')"

definition validate_lifecycle :: "dict \<Rightarrow> unit result" where
  "validate_lifecycle r = run_checks
     [required r lifecycle_required ''lifecycle'',
      violation_if (\<not> keys r \<subseteq> set lifecycle_required \<union> set lifecycle_optional
          \<or> get r ''record_type'' \<noteq> JStr ''PMIRI_D2_FETCHED_CONTENT_LIFECYCLE'' \<or> get r ''schema_version'' \<noteq> JStr ''0.3'')
        ''lifecycle_schema_invalid'',
      violation_if (\<not> list_all (\<lambda>f. nonempty_str (get r f))
          [''content_id'', ''origin_binding_ref'', ''destination_binding_ref'', ''observed_content_type'',
           ''initial_classification'']) ''lifecycle_identity_field_invalid'',
      violation_if_r (or_r (not_in (get r ''operation'') OPERATIONS) (not_in (get r ''purpose'') PURPOSES))
        ''lifecycle_operation_or_purpose_invalid'',
      violation_if_r (or_r (Inr (get r ''history_start_state'' \<noteq> JStr ''NOT_APPLICABLE''))
          (not_in (get r ''history_terminal_state'') LIFECYCLES)) ''lifecycle_state_invalid'',
      violation_if (\<not> py_eq (get r ''admission_state'') (get r ''history_terminal_state'')) ''lifecycle_terminal_state_mismatch'',
      violation_if (\<not> is_sha256 (get r ''response_fingerprint'') \<or> \<not> is_sha256 (get r ''terminal_response_fingerprint'')
          \<or> \<not> is_sha256 (get r ''authority_manifest_fingerprint'')) ''lifecycle_response_fingerprint_invalid'',
      violation_if (\<not> py_eq (get r ''terminal_response_fingerprint'') (get r ''response_fingerprint''))
        ''lifecycle_terminal_response_mismatch'',
      violation_if (\<not> int_at_least 0 (get r ''response_size_bytes'')) ''lifecycle_response_size_invalid'',
      violation_if (get r ''canonical_or_control_influence_prohibited'' \<noteq> JBool True)
        ''lifecycle_control_influence_not_prohibited'',
      violation_if (\<not> is_sha256 (get r ''lifecycle_fingerprint'')
          \<or> get r ''lifecycle_fingerprint'' \<noteq> JStr (sha256_json (JObj (without [''lifecycle_fingerprint''] r))))
        ''lifecycle_fingerprint_invalid'',
      lifecycle_projection r,
      lifecycle_history r]"

section \<open>Outbound decisions and external emission\<close>

definition decision_fingerprint :: "dict \<Rightarrow> string" where
  "decision_fingerprint r = sha256_json (JObj (without [''decision_fingerprint'', ''captured_at''] r))"

definition lifecycle_fields :: "string list" where
  "lifecycle_fields =
     [''fetched_content_lifecycle_ref'', ''fetched_content_lifecycle_fingerprint'', ''fetched_content_origin_binding_ref'',
      ''fetched_content_destination_binding_ref'', ''fetched_content_admission_state'',
      ''fetched_content_retrieval_visibility'', ''fetched_content_history_terminal_state'',
      ''fetched_content_terminal_response_fingerprint'']"

definition allow_requirements :: "(string \<times> string) list" where
  "allow_requirements =
     [(''tls_identity_status'', ''MATCHED''), (''resolution_set_status'', ''ALL_ALLOWLISTED_PUBLIC''),
      (''connection_binding_status'', ''VALIDATED''), (''final_revalidation_result'', ''MATCHED'')]"

definition outbound_binding :: "dict \<Rightarrow> unit result" where
  "outbound_binding r =
     (if get r ''operation'' = JStr ''provider_call''
      then violation_if (list_ex (\<lambda>f. get r f \<noteq> JNull) lifecycle_fields) ''provider_call_lifecycle_binding_forbidden''
      else run_checks
        [required r lifecycle_fields ''content_operation'',
         violation_if (list_ex (\<lambda>f. get r f = JNull) lifecycle_fields) ''content_operation_requires_lifecycle_binding'',
         violation_if (\<not> is_sha256 (get r ''fetched_content_lifecycle_fingerprint'')
             \<or> \<not> is_sha256 (get r ''fetched_content_terminal_response_fingerprint''))
           ''content_operation_lifecycle_fingerprint_invalid'',
         violation_if (get r ''content_lifecycle'' = JStr ''NOT_APPLICABLE'') ''content_operation_lifecycle_not_applicable''])"

definition outbound_allow :: "dict \<Rightarrow> unit result" where
  "outbound_allow r =
     bind_result (in_set (get r ''action_result'') ALLOWING) (\<lambda>allowing.
       if allowing
       then run_checks (map (\<lambda>(k, v). violation_if (get r k \<noteq> JStr v) (''allow_requires_'' @ k)) allow_requirements)
       else Inr ())"

definition validate_outbound_decision :: "dict \<Rightarrow> unit result" where
  "validate_outbound_decision r = run_checks
     [required r [''operation'', ''purpose'', ''action_result'', ''content_lifecycle'', ''reason_class''] ''outbound_decision'',
      violation_if_r (or_r (not_in (get r ''operation'') OPERATIONS) (not_in (get r ''purpose'') PURPOSES))
        ''outbound_operation_or_purpose_invalid'',
      violation_if_r (not_in (get r ''reason_class'') REASON_CLASSES) ''outbound_reason_class_invalid'',
      violation_if_r (or_r (not_in (get r ''action_result'') ACTIONS) (not_in (get r ''content_lifecycle'') LIFECYCLES))
        ''outbound_vocabulary_invalid'',
      violation_if (get r ''operation'' = JStr ''provider_call'' \<and> get r ''content_lifecycle'' \<noteq> JStr ''NOT_APPLICABLE'')
        ''provider_call_lifecycle_must_be_not_applicable'',
      outbound_binding r,
      outbound_allow r,
      violation_if (truthy (get r ''decision_fingerprint'') \<and> \<not> is_sha256 (get r ''decision_fingerprint''))
        ''decision_fingerprint_invalid'',
      violation_if (truthy (get r ''decision_fingerprint'')
          \<and> get r ''decision_fingerprint'' \<noteq> JStr (decision_fingerprint r)) ''decision_fingerprint_mismatch'']"

definition validate_integrated_envelope :: "dict \<Rightarrow> unit result" where
  "validate_integrated_envelope r = run_checks
     [required r [''operation'', ''purpose'', ''action_result'', ''authority_manifest_fingerprint''] ''integrated_envelope'',
      violation_if_r (or_r (not_in (get r ''operation'') OPERATIONS)
          (or_r (not_in (get r ''purpose'') PURPOSES) (not_in (get r ''action_result'') ACTIONS)))
        ''integrated_vocabulary_invalid'',
      violation_if_r (and_r (Inr (get r ''reason_class'' \<noteq> JNull)) (not_in (get r ''reason_class'') REASON_CLASSES))
        ''integrated_reason_class_invalid'',
      violation_if (\<not> is_sha256 (get r ''authority_manifest_fingerprint'')) ''authority_fingerprint_invalid'',
      violation_if (get r ''operation'' = JStr ''provider_call'' \<and> truthy (get r ''fetched_content_lifecycle_ref''))
        ''provider_call_cannot_bind_fetched_content'']"

definition exact_fields :: "(string \<times> string) list" where
  "exact_fields =
     [(''fetched_content_origin_binding_ref'', ''origin_binding_ref''),
      (''fetched_content_destination_binding_ref'', ''destination_binding_ref''),
      (''fetched_content_admission_state'', ''admission_state''),
      (''fetched_content_retrieval_visibility'', ''retrieval_visibility''),
      (''fetched_content_history_terminal_state'', ''history_terminal_state''),
      (''fetched_content_terminal_response_fingerprint'', ''terminal_response_fingerprint'')]"

definition emission_lifecycle :: "dict \<Rightarrow> dict \<Rightarrow> dict \<Rightarrow> unit result" where
  "emission_lifecycle envelope network lifecycle =
     (let lifecycle_fingerprint =
        (if has_key lifecycle ''lifecycle_fingerprint'' then get lifecycle ''lifecycle_fingerprint''
         else get lifecycle ''fingerprint'')
      in run_checks
       ([validate_lifecycle lifecycle,
         violation_if (\<not> is_str lifecycle_fingerprint) ''lifecycle_fingerprint_missing'']
        @ map (\<lambda>f. violation_if (\<not> py_eq (get lifecycle f) (get envelope f) \<or> \<not> py_eq (get lifecycle f) (get network f))
             (''lifecycle_'' @ f @ ''_mismatch'')) [''operation'', ''purpose'']
        @ [violation_if (\<not> py_eq (get network ''destination_binding_ref'') (get envelope ''destination_binding_ref''))
             ''destination_binding_mismatch'',
           violation_if (\<not> py_eq (get network ''fetched_content_lifecycle_ref'') (get envelope ''fetched_content_lifecycle_ref''))
             ''lifecycle_ref_mismatch'',
           violation_if (\<not> py_eq (get network ''fetched_content_lifecycle_fingerprint'') lifecycle_fingerprint
               \<or> \<not> py_eq (get envelope ''fetched_content_lifecycle_fingerprint'') lifecycle_fingerprint)
             ''lifecycle_fingerprint_mismatch'']
        @ map (\<lambda>(p, f). violation_if (\<not> py_eq (get network p) (get lifecycle f) \<or> \<not> py_eq (get envelope p) (get lifecycle f))
             (''lifecycle_'' @ f @ ''_mismatch'')) exact_fields
        @ [violation_if (\<not> py_eq (get lifecycle ''terminal_response_fingerprint'') (get lifecycle ''response_fingerprint''))
             ''lifecycle_terminal_response_mismatch'']))"

definition optional_binding :: "dict \<Rightarrow> string \<Rightarrow> dict \<Rightarrow> string \<Rightarrow> bool" where
  "optional_binding envelope f network g = (get envelope f \<noteq> JNull \<and> \<not> py_eq (get envelope f) (get network g))"

definition validate_external_emission :: "dict \<Rightarrow> dict \<Rightarrow> dict option \<Rightarrow> unit result" where
  "validate_external_emission envelope network lifecycle = run_checks
     ([validate_integrated_envelope envelope,
       validate_outbound_decision network,
       violation_if_r (and_r (in_set (get envelope ''action_result'') ALLOWING)
           (map_result Not (in_set (get network ''action_result'') ALLOWING))) ''integrated_allow_without_network_allow'']
      @ map (\<lambda>f. violation_if (\<not> py_eq (get envelope f) (get network f)) (''cross_record_'' @ f @ ''_mismatch''))
          [''operation'', ''purpose'', ''action_result'']
      @ [violation_if (optional_binding envelope ''network_binding_fingerprint'' network ''connection_binding_fingerprint'')
           ''network_binding_fingerprint_mismatch'',
         violation_if (optional_binding envelope ''outbound_network_decision_ref'' network ''decision_id'')
           ''outbound_network_decision_binding_mismatch'',
         violation_if (optional_binding envelope ''outbound_network_decision_fingerprint'' network ''decision_fingerprint'')
           ''outbound_network_decision_binding_mismatch'',
         violation_if (get network ''destination_binding_ref'' \<noteq> JNull
             \<and> optional_binding envelope ''destination_binding_ref'' network ''destination_binding_ref'')
           ''destination_binding_mismatch'',
         (if get envelope ''operation'' = JStr ''provider_call'' then Inr ()
          else case lifecycle of
            None \<Rightarrow> raise ContractViolation ''lifecycle_required_for_content_operation''
          | Some l \<Rightarrow> emission_lifecycle envelope network l)])"


section \<open>The life cycle as a state machine\<close>

inductive lifecycle_step :: "string \<Rightarrow> string \<Rightarrow> string \<Rightarrow> bool" where
  fetched: "lifecycle_step ''NOT_APPLICABLE'' ''FETCH_COMPLETED'' ''QUARANTINED''"
| admitted: "lifecycle_step ''QUARANTINED'' ''ADMISSION_APPROVED'' ''ADMITTED_TYPED_DATA''"
| rejected: "lifecycle_step ''QUARANTINED'' ''REJECTED'' ''REJECTED''"
| discarded: "st \<in> {''QUARANTINED'', ''ADMITTED_TYPED_DATA''} \<Longrightarrow> lifecycle_step st ''DISCARDED'' ''DISCARDED''"
| aborted: "st \<in> {''QUARANTINED'', ''ADMITTED_TYPED_DATA''} \<Longrightarrow> lifecycle_step st ''ABORTED'' ''ABORTED''"

inductive_cases lifecycle_stepE: "lifecycle_step a e b"

inductive_simps lifecycle_step_from:
  "lifecycle_step ''NOT_APPLICABLE'' e b" "lifecycle_step ''QUARANTINED'' e b"
  "lifecycle_step ''ADMITTED_TYPED_DATA'' e b" "lifecycle_step ''REJECTED'' e b"
  "lifecycle_step ''DISCARDED'' e b" "lifecycle_step ''ABORTED'' e b"

lemma legal_transition_iff: "map_of LEGAL_TRANSITIONS (a, b) = Some e \<longleftrightarrow> lifecycle_step a e b"
proof
  assume "map_of LEGAL_TRANSITIONS (a, b) = Some e"
  then have "((a, b), e) \<in> set LEGAL_TRANSITIONS" by (rule map_of_SomeD)
  then show "lifecycle_step a e b"
    unfolding LEGAL_TRANSITIONS_def by (auto intro: lifecycle_step.intros)
next
  assume "lifecycle_step a e b"
  then show "map_of LEGAL_TRANSITIONS (a, b) = Some e"
    by (cases rule: lifecycle_step.cases) (auto simp: LEGAL_TRANSITIONS_def)
qed

text \<open>A history is a list of events with the state reached and the time of each.\<close>

type_synonym history = "(string \<times> string \<times> instant) list"

inductive lifecycle_run :: "string \<Rightarrow> history \<Rightarrow> string \<Rightarrow> bool" where
  run_start: "lifecycle_run st [] st"
| run_step: "lifecycle_step a e b \<Longrightarrow> lifecycle_run b h c \<Longrightarrow> lifecycle_run a ((e, b, t) # h) c"

inductive_simps lifecycle_run_simps: "lifecycle_run a [] c" "lifecycle_run a (x # h) c"

text \<open>Every step leads to a state of smaller rank, so a run is at most as long as the rank of its start.\<close>

definition lifecycle_rank :: "string \<Rightarrow> nat" where
  "lifecycle_rank st =
     (if st = ''NOT_APPLICABLE'' then 3 else if st = ''QUARANTINED'' then 2
      else if st = ''ADMITTED_TYPED_DATA'' then 1 else 0)"

lemma lifecycle_step_rank: "lifecycle_step a e b \<Longrightarrow> lifecycle_rank b < lifecycle_rank a"
  by (erule lifecycle_stepE) (auto simp: lifecycle_rank_def)

lemma lifecycle_run_length: "lifecycle_run a h c \<Longrightarrow> length h + lifecycle_rank c \<le> lifecycle_rank a"
  by (induction rule: lifecycle_run.induct) (auto dest: lifecycle_step_rank)

lemma lifecycle_run_admitted:
  assumes "lifecycle_run ''NOT_APPLICABLE'' h ''ADMITTED_TYPED_DATA''"
  shows "map fst h = [''FETCH_COMPLETED'', ''ADMISSION_APPROVED'']"
proof -
  from lifecycle_run_length [OF assms] have "length h \<le> 2" by (simp add: lifecycle_rank_def)
  then consider "h = []" | x where "h = [x]" | x y where "h = [x, y]"
    by (cases h; cases "tl h") (auto simp: le_Suc_eq numeral_2_eq_2)
  then show ?thesis
    using assms by cases (auto simp: lifecycle_run_simps lifecycle_step.simps)
qed

lemma lifecycle_run_leaves:
  assumes "lifecycle_run ''NOT_APPLICABLE'' h st" "h \<noteq> []"
  shows "fst (hd h) = ''FETCH_COMPLETED'' \<and> st \<noteq> ''NOT_APPLICABLE''"
  using assms lifecycle_run_length [OF assms(1)]
  by (cases h) (auto simp: lifecycle_run_simps lifecycle_step_from lifecycle_rank_def)

section \<open>A validated record holds a run\<close>

definition records_event :: "json \<Rightarrow> string \<times> string \<times> instant \<Rightarrow> bool" where
  "records_event v x =
     (case x of (e, st, t) \<Rightarrow> \<exists>d s. v = JObj d \<and> get d ''event'' = JStr e \<and> get d ''to_state'' = JStr st
        \<and> get d ''observed_at'' = JStr s \<and> parse_aware s = Inr t)"

lemma check_transition_Inr:
  assumes "check_transition n previous pt v = Inr (st, t)"
  obtains a e b where "previous = JStr a" "st = JStr b" "lifecycle_step a e b" "records_event v (e, b, t)"
    "\<forall>p. pt = Some p \<longrightarrow> p \<le> t"
proof (cases v)
  case (JObj d)
  with assms obtain ev where c: "py_eq (get d ''from_state'') previous"
    "transition_time (get d ''observed_at'') pt = Inr t"
    "legal_event (get d ''from_state'') (get d ''to_state'') = Some ev" "get d ''event'' = JStr ev"
    "st = get d ''to_state''"
    by (auto simp: check_transition_def result_simps run_checks_passes check_simps split: option.splits if_splits)
  from c(3) obtain a b where ab: "get d ''from_state'' = JStr a" "get d ''to_state'' = JStr b"
    "map_of LEGAL_TRANSITIONS (a, b) = Some ev"
    by (auto simp: legal_event_def split: json.splits)
  from c(2) obtain s where "get d ''observed_at'' = JStr s" "parse_aware s = Inr t" "\<forall>p. pt = Some p \<longrightarrow> p \<le> t"
    by (auto simp: transition_time_def split: json.splits sum.splits option.splits if_splits)
  with that [of a b ev] c ab JObj show ?thesis by (auto simp: legal_transition_iff records_event_def)
qed (use assms in \<open>simp_all add: check_transition_def\<close>)

lemma check_transitions_run:
  "check_transitions n (JStr a) pt ts = Inr fin \<Longrightarrow>
     \<exists>h b. fin = JStr b \<and> lifecycle_run a h b \<and> list_all2 records_event ts h
       \<and> sorted (map (\<lambda>x. snd (snd x)) h) \<and> (\<forall>p. pt = Some p \<longrightarrow> (\<forall>x \<in> set h. p \<le> snd (snd x)))"
proof (induction n "JStr a" pt ts arbitrary: a rule: check_transitions.induct)
  case 1
  then show ?case by (auto intro: run_start)
next
  case (2 n pt t ts)
  from 2(2) obtain st tm where c: "check_transition n (JStr a) pt t = Inr (st, tm)"
    and r: "check_transitions (Suc n) st (Some tm) ts = Inr fin"
    by (auto simp: result_simps)
  from c obtain e b where b: "st = JStr b" "lifecycle_step a e b" "records_event t (e, b, tm)"
    "\<forall>p. pt = Some p \<longrightarrow> p \<le> tm"
    by (rule check_transition_Inr) simp
  from 2(1) [of b tm] r b(1) obtain h c' where
    "fin = JStr c'" "lifecycle_run b h c'" "list_all2 records_event ts h"
    "sorted (map (\<lambda>x. snd (snd x)) h)" "\<forall>x \<in> set h. tm \<le> snd (snd x)"
    by auto
  with b show ?case
    by (intro exI [of _ "(e, b, tm) # h"] exI [of _ c']) (auto intro: run_step)
qed


section \<open>Sample records\<close>

definition sample_fp :: string where "sample_fp = replicate 64 CHR ''0''"

lemma sample_fp_sha [simp]: "is_sha256_str sample_fp"
  by (simp add: is_sha256_str_def sample_fp_def)

lemma sample_fp_nonempty [simp]: "sample_fp \<noteq> []"
  by (simp add: sample_fp_def)

definition sample_transition :: "int \<Rightarrow> string \<Rightarrow> string \<Rightarrow> string \<Rightarrow> json" where
  "sample_transition n a e b = JObj
     [(''sequence'', JInt n), (''from_state'', JStr a), (''to_state'', JStr b), (''event'', JStr e),
      (''observed_at'', JStr ''2026-01-01T00:00:00Z''), (''actor_ref'', JStr ''actor''), (''reason_class'', JStr ''NONE'')]"

definition sample_predicate :: dict where
  "sample_predicate =
     [(''explicit_operation'', JStr ''external_fetch''), (''explicit_operation_ref'', JStr ''op''), (''origin_bound'', JBool True),
      (''parser_result_ref'', JStr ''p''), (''classification_ref'', JStr ''c''), (''validation_result_ref'', JStr ''v''),
      (''content_policy_result_ref'', JStr ''cp''), (''instruction_influence_prohibited'', JBool True),
      (''control_influence_prohibited'', JBool True)]"

definition sample_lifecycle_fields :: dict where
  "sample_lifecycle_fields =
     [(''record_type'', JStr ''PMIRI_D2_FETCHED_CONTENT_LIFECYCLE''), (''schema_version'', JStr ''0.3''),
      (''content_id'', JStr ''content-1''), (''operation'', JStr ''external_fetch''), (''purpose'', JStr ''retrieval''),
      (''origin_binding_ref'', JStr ''origin''), (''destination_binding_ref'', JStr ''dest''),
      (''response_fingerprint'', JStr sample_fp), (''terminal_response_fingerprint'', JStr sample_fp),
      (''observed_content_type'', JStr ''text/plain''), (''response_size_bytes'', JInt 10),
      (''initial_classification'', JStr ''INTERNAL''), (''trust_state'', JStr ''UNTRUSTED''),
      (''history_start_state'', JStr ''NOT_APPLICABLE''), (''history_terminal_state'', JStr ''ADMITTED_TYPED_DATA''),
      (''admission_state'', JStr ''ADMITTED_TYPED_DATA''), (''retrieval_visibility'', JStr ''TYPED_DATA_ONLY''),
      (''canonical_or_control_influence_prohibited'', JBool True),
      (''transitions'', JList [sample_transition 0 ''NOT_APPLICABLE'' ''FETCH_COMPLETED'' ''QUARANTINED'',
                              sample_transition 1 ''QUARANTINED'' ''ADMISSION_APPROVED'' ''ADMITTED_TYPED_DATA'']),
      (''authority_manifest_fingerprint'', JStr sample_fp), (''admission_predicate'', JObj sample_predicate),
      (''typed_data_schema_ref'', JStr ''schema''), (''typed_data_fingerprint'', JStr sample_fp)]"

definition sample_lifecycle :: dict where
  "sample_lifecycle = sample_lifecycle_fields @
     [(''lifecycle_fingerprint'', JStr (sha256_json (JObj sample_lifecycle_fields)))]"

lemma sample_time: "parse_aware ''2026-01-01T00:00:00Z'' = Inr 1767225600000000"
  by code_simp

lemma sample_reason: "''NONE'' \<in> set REASON_CLASSES"
  by (simp add: REASON_CLASSES_def)

lemma sample_history: "lifecycle_history sample_lifecycle = Inr ()"
proof -
  have "check_transition 0 (JStr ''NOT_APPLICABLE'') None
      (sample_transition 0 ''NOT_APPLICABLE'' ''FETCH_COMPLETED'' ''QUARANTINED'') = Inr (JStr ''QUARANTINED'', 1767225600000000)"
    by (simp add: check_transition_def sample_transition_def check_simps transition_time_def sample_time sample_reason
        keys_def transition_fields_def legal_event_def LEGAL_TRANSITIONS_def result_simps insert_commute)
  moreover have "check_transition 1 (JStr ''QUARANTINED'') (Some 1767225600000000)
      (sample_transition 1 ''QUARANTINED'' ''ADMISSION_APPROVED'' ''ADMITTED_TYPED_DATA'')
      = Inr (JStr ''ADMITTED_TYPED_DATA'', 1767225600000000)"
    by (simp add: check_transition_def sample_transition_def check_simps transition_time_def sample_time sample_reason
        keys_def transition_fields_def legal_event_def LEGAL_TRANSITIONS_def result_simps insert_commute)
  ultimately show ?thesis
    by (simp add: lifecycle_history_def sample_lifecycle_def sample_lifecycle_fields_def check_simps)
qed

lemma sample_lifecycle_keys:
  "keys sample_lifecycle \<subseteq> set lifecycle_required \<union> set lifecycle_optional"
  "set lifecycle_required \<subseteq> keys sample_lifecycle"
proof -
  have k: "keys sample_lifecycle = set (map fst sample_lifecycle_fields @ [''lifecycle_fingerprint''])"
    by (simp add: sample_lifecycle_def keys_def)
  show "keys sample_lifecycle \<subseteq> set lifecycle_required \<union> set lifecycle_optional"
    unfolding k by code_simp
  show "set lifecycle_required \<subseteq> keys sample_lifecycle"
    unfolding k by code_simp
qed

lemma sample_lifecycle_get:
  "get sample_lifecycle ''record_type'' = JStr ''PMIRI_D2_FETCHED_CONTENT_LIFECYCLE''"
  "get sample_lifecycle ''schema_version'' = JStr ''0.3''"
  "get sample_lifecycle ''content_id'' = JStr ''content-1''"
  "get sample_lifecycle ''operation'' = JStr ''external_fetch''"
  "get sample_lifecycle ''purpose'' = JStr ''retrieval''"
  "get sample_lifecycle ''origin_binding_ref'' = JStr ''origin''"
  "get sample_lifecycle ''destination_binding_ref'' = JStr ''dest''"
  "get sample_lifecycle ''response_fingerprint'' = JStr sample_fp"
  "get sample_lifecycle ''terminal_response_fingerprint'' = JStr sample_fp"
  "get sample_lifecycle ''observed_content_type'' = JStr ''text/plain''"
  "get sample_lifecycle ''response_size_bytes'' = JInt 10"
  "get sample_lifecycle ''initial_classification'' = JStr ''INTERNAL''"
  "get sample_lifecycle ''history_start_state'' = JStr ''NOT_APPLICABLE''"
  "get sample_lifecycle ''history_terminal_state'' = JStr ''ADMITTED_TYPED_DATA''"
  "get sample_lifecycle ''admission_state'' = JStr ''ADMITTED_TYPED_DATA''"
  "get sample_lifecycle ''retrieval_visibility'' = JStr ''TYPED_DATA_ONLY''"
  "get sample_lifecycle ''canonical_or_control_influence_prohibited'' = JBool True"
  "get sample_lifecycle ''authority_manifest_fingerprint'' = JStr sample_fp"
  "get sample_lifecycle ''admission_predicate'' = JObj sample_predicate"
  "get sample_lifecycle ''typed_data_schema_ref'' = JStr ''schema''"
  "get sample_lifecycle ''typed_data_fingerprint'' = JStr sample_fp"
  "get sample_lifecycle ''lifecycle_fingerprint'' = JStr (sha256_json (JObj sample_lifecycle_fields))"
  by (simp_all only: sample_lifecycle_def sample_lifecycle_fields_def lookup_simps)

lemma sample_predicate_facts:
  "set predicate_fields = keys sample_predicate"
  "get sample_predicate ''explicit_operation'' = JStr ''external_fetch''" "get sample_predicate ''origin_bound'' = JBool True"
  "get sample_predicate ''instruction_influence_prohibited'' = JBool True"
  "get sample_predicate ''control_influence_prohibited'' = JBool True"
  by code_simp+

lemma sample_projection: "lifecycle_projection sample_lifecycle = Inr ()"
  by (simp add: lifecycle_projection_def sample_lifecycle_get sample_predicate_facts check_simps visibility_of_def)

lemma sample_lifecycle_valid: "validate_lifecycle sample_lifecycle = Inr ()"
proof -
  have w: "without [''lifecycle_fingerprint''] sample_lifecycle = sample_lifecycle_fields"
    unfolding sample_lifecycle_def by (rule without_append_key) code_simp
  show ?thesis
    unfolding validate_lifecycle_def w
    by (simp add: check_simps sample_lifecycle_keys sample_lifecycle_get sample_projection sample_history
        OPERATIONS_def PURPOSES_def LIFECYCLES_def)
qed

section \<open>What validation guarantees\<close>

lemma is_sha256E: "is_sha256 v \<Longrightarrow> \<exists>s. v = JStr s \<and> is_sha256_str s"
  by (cases v) auto

lemma validate_lifecycle_history:
  assumes "validate_lifecycle r = Inr ()"
  obtains ts h terminal where "get r ''transitions'' = JList ts" "get r ''history_terminal_state'' = JStr terminal"
    "lifecycle_run ''NOT_APPLICABLE'' h terminal" "list_all2 records_event ts h"
    "sorted (map (\<lambda>x. snd (snd x)) h)" "terminal \<noteq> ''NOT_APPLICABLE'' \<longrightarrow> ts \<noteq> []"
proof -
  from assms have h: "lifecycle_history r = Inr ()" and "\<exists>s \<in> set LIFECYCLES. get r ''history_terminal_state'' = JStr s"
    by (simp_all add: validate_lifecycle_def check_simps)
  then obtain terminal where t: "get r ''history_terminal_state'' = JStr terminal" by blast
  from h obtain ts fin where ts: "get r ''transitions'' = JList ts"
    and c: "check_transitions 0 (JStr ''NOT_APPLICABLE'') None ts = Inr fin"
    and rest: "get r ''history_terminal_state'' \<noteq> JStr ''NOT_APPLICABLE'' \<longrightarrow> ts \<noteq> []"
      "ts \<noteq> [] \<longrightarrow> py_eq fin (get r ''history_terminal_state'')"
    by (auto simp: lifecycle_history_def result_simps check_simps split: json.splits)
  from check_transitions_run [OF c] obtain h b where run: "fin = JStr b" "lifecycle_run ''NOT_APPLICABLE'' h b"
    "list_all2 records_event ts h" "sorted (map (\<lambda>x. snd (snd x)) h)" by blast
  have "b = terminal"
  proof (cases "ts = []")
    case True
    with run rest t show ?thesis by (auto simp: lifecycle_run_simps)
  qed (use rest t run in auto)
  with that [OF ts t _ run(3,4)] run rest t show ?thesis by auto
qed

text \<open>
  C27. The history of a validated life-cycle record is a run of the life-cycle machine from
  \<^verbatim>\<open>NOT_APPLICABLE\<close> to the recorded terminal state, event by event and with non-decreasing times. It
  has at most three transitions, and content recorded as admitted was fetched into quarantine and
  then approved, with nothing else in its history.
\<close>

theorem validated_lifecycle_is_run:
  assumes "validate_lifecycle r = Inr ()"
  shows "\<exists>ts h terminal. get r ''transitions'' = JList ts \<and> get r ''history_terminal_state'' = JStr terminal
    \<and> lifecycle_run ''NOT_APPLICABLE'' h terminal \<and> list_all2 records_event ts h
    \<and> sorted (map (\<lambda>x. snd (snd x)) h) \<and> length ts \<le> 3
    \<and> (terminal = ''ADMITTED_TYPED_DATA'' \<longrightarrow> map fst h = [''FETCH_COMPLETED'', ''ADMISSION_APPROVED''])
    \<and> (terminal \<noteq> ''NOT_APPLICABLE'' \<longrightarrow> ts \<noteq> [])"
  using assms
proof (rule validate_lifecycle_history)
  fix ts h terminal
  assume run: "get r ''transitions'' = JList ts" "get r ''history_terminal_state'' = JStr terminal"
    "lifecycle_run ''NOT_APPLICABLE'' h terminal" "list_all2 records_event ts h"
    "sorted (map (\<lambda>x. snd (snd x)) h)" "terminal \<noteq> ''NOT_APPLICABLE'' \<longrightarrow> ts \<noteq> []"
  from run(4) have "length ts = length h" by (rule list_all2_lengthD)
  with lifecycle_run_length [OF run(3)] have len: "length ts \<le> 3" by (simp add: lifecycle_rank_def)
  have adm: "terminal = ''ADMITTED_TYPED_DATA'' \<longrightarrow> map fst h = [''FETCH_COMPLETED'', ''ADMISSION_APPROVED'']"
    using lifecycle_run_admitted run(3) by blast
  show ?thesis by (intro exI conjI) (fact run len adm)+
qed

theorem validated_lifecycle_is_run_witness:
  "\<exists>ts h terminal. get sample_lifecycle ''transitions'' = JList ts \<and> lifecycle_run ''NOT_APPLICABLE'' h terminal
    \<and> terminal = ''ADMITTED_TYPED_DATA'' \<and> length ts \<le> 3 \<and> map fst h = [''FETCH_COMPLETED'', ''ADMISSION_APPROVED'']"
proof -
  have t: "get sample_lifecycle ''history_terminal_state'' = JStr ''ADMITTED_TYPED_DATA''"
    by (rule sample_lifecycle_get)
  from validated_lifecycle_is_run [OF sample_lifecycle_valid] obtain ts h terminal where
    "get sample_lifecycle ''transitions'' = JList ts" "get sample_lifecycle ''history_terminal_state'' = JStr terminal"
    "lifecycle_run ''NOT_APPLICABLE'' h terminal" "length ts \<le> 3"
    "terminal = ''ADMITTED_TYPED_DATA'' \<longrightarrow> map fst h = [''FETCH_COMPLETED'', ''ADMISSION_APPROVED'']"
    by (elim exE conjE) (rule that)
  with t show ?thesis by (intro exI [of _ ts] exI [of _ h] exI [of _ terminal]) simp
qed

text \<open>
  An allowing decision needs trust and freshness: a validated trust decision that allows is
  for the bound purpose, or conditional with constraints and both constraint references present; a
  validated capability decision that allows is fresh and rests on observations.
\<close>

theorem allow_needs_trust_and_freshness:
  assumes "validate_trust_decision t = Inr ()" "validate_capability_decision c = Inr ()"
  shows "((\<exists>a \<in> set ALLOWING. get t ''action_result'' = JStr a) \<longrightarrow>
      get t ''trust_state'' \<in> {JStr ''TRUSTED_FOR_BOUND_PURPOSE'', JStr ''CONDITIONALLY_TRUSTED''}
      \<and> (get t ''trust_state'' = JStr ''CONDITIONALLY_TRUSTED'' \<longrightarrow>
           get t ''action_result'' = JStr ''ALLOW_WITH_CONSTRAINTS''
           \<and> nonempty_str (get t ''constraint_artifact_ref'') \<and> nonempty_str (get t ''redaction_profile_ref'')))
    \<and> ((\<exists>a \<in> set ALLOWING. get c ''action_result'' = JStr a) \<longrightarrow>
      get c ''capability_state'' = JStr ''FRESH'' \<and> truthy (get c ''observation_refs''))"
proof (intro conjI impI)
  have t: "\<exists>s \<in> set TRUST_STATES. get t ''trust_state'' = JStr s"
    "and_r (in_set (get t ''trust_state'') NON_TRUSTED) (in_set (get t ''action_result'') ALLOWING) = Inr False"
    "get t ''trust_state'' = JStr ''CONDITIONALLY_TRUSTED'' \<longrightarrow> get t ''action_result'' = JStr ''ALLOW_WITH_CONSTRAINTS''"
    "get t ''action_result'' = JStr ''ALLOW_WITH_CONSTRAINTS'' \<longrightarrow>
      nonempty_str (get t ''constraint_artifact_ref'') \<and> nonempty_str (get t ''redaction_profile_ref'')"
    using assms(1) by (simp_all add: validate_trust_decision_def fails_if_passes fails_if_r_passes not_in_False)
  show "get t ''trust_state'' \<in> {JStr ''TRUSTED_FOR_BOUND_PURPOSE'', JStr ''CONDITIONALLY_TRUSTED''}"
    if "\<exists>a \<in> set ALLOWING. get t ''action_result'' = JStr a"
  proof -
    from that t(2) have "in_set (get t ''trust_state'') NON_TRUSTED = Inr False" by (auto simp: and_r_False)
    with t(1) obtain s where s: "s \<in> set TRUST_STATES" "s \<notin> set NON_TRUSTED" "get t ''trust_state'' = JStr s" by auto
    have "filter (\<lambda>s. s \<notin> set NON_TRUSTED) TRUST_STATES = [''TRUSTED_FOR_BOUND_PURPOSE'', ''CONDITIONALLY_TRUSTED'']"
      by code_simp
    moreover from s(1,2) have "s \<in> set (filter (\<lambda>s. s \<notin> set NON_TRUSTED) TRUST_STATES)" by simp
    ultimately have "s \<in> set [''TRUSTED_FOR_BOUND_PURPOSE'', ''CONDITIONALLY_TRUSTED'']" by (simp only:)
    with s(3) show ?thesis by auto
  qed
  show "get t ''action_result'' = JStr ''ALLOW_WITH_CONSTRAINTS''" "nonempty_str (get t ''constraint_artifact_ref'')"
    "nonempty_str (get t ''redaction_profile_ref'')" if "get t ''trust_state'' = JStr ''CONDITIONALLY_TRUSTED''"
    using t(3,4) that by simp_all
  have c: "and_r (Inr (get c ''capability_state'' \<noteq> JStr ''FRESH'')) (in_set (get c ''action_result'') ALLOWING) = Inr False"
    "get c ''capability_state'' = JStr ''MISSING'' \<or> truthy (get c ''observation_refs'')"
    using assms(2) by (simp_all add: validate_capability_decision_def fails_if_passes fails_if_r_passes)
  show fresh: "get c ''capability_state'' = JStr ''FRESH''" if "\<exists>a \<in> set ALLOWING. get c ''action_result'' = JStr a"
    using that c(1) by (auto simp: and_r_def split: if_splits)
  show "truthy (get c ''observation_refs'')" if "\<exists>a \<in> set ALLOWING. get c ''action_result'' = JStr a"
    using fresh [OF that] c(2) by simp
qed

definition sample_trust_fields :: dict where
  "sample_trust_fields =
     [(''record_type'', JStr ''PMIRI_D2_TRUST_DECISION''), (''schema_version'', JStr ''0.3''), (''decision_id'', JStr ''d1''),
      (''destination_binding_ref'', JStr ''dest''), (''purpose_binding_ref'', JStr ''purpose''),
      (''material_manifest_ref'', JStr ''manifest''), (''trust_assertion_refs'', JList [JStr ''assertion'']),
      (''capability_decision_ref'', JStr ''cap''), (''authority_manifest_fingerprint'', JStr sample_fp),
      (''freshness_profile_id'', JStr ''profile''), (''freshness_profile_fingerprint'', JStr sample_fp),
      (''validity_ref'', JStr ''validity''), (''trust_state'', JStr ''TRUSTED_FOR_BOUND_PURPOSE''),
      (''action_result'', JStr ''ALLOW''), (''content_lifecycle'', JStr ''NOT_APPLICABLE''), (''reason_class'', JStr ''NONE'')]"

definition sample_trust :: dict where
  "sample_trust = sample_trust_fields @ [(''decision_fingerprint'', JStr (sha256_json (JObj sample_trust_fields)))]"

definition sample_capability_fields :: dict where
  "sample_capability_fields =
     [(''record_type'', JStr ''PMIRI_D2_CAPABILITY_DECISION''), (''schema_version'', JStr ''0.2''), (''decision_id'', JStr ''d2''),
      (''subject_binding'', JStr ''subject''), (''purpose'', JStr ''retrieval''), (''material_manifest_ref'', JStr ''manifest''),
      (''material_manifest_fingerprint'', JStr sample_fp), (''capability_profile_fingerprint'', JStr sample_fp),
      (''observation_refs'', JList [JStr ''observation'']), (''policy_version'', JStr ''1''), (''invalidation_epoch'', JInt 0),
      (''authority_manifest_fingerprint'', JStr sample_fp), (''freshness_profile_id'', JStr ''profile''),
      (''freshness_profile_fingerprint'', JStr sample_fp), (''capability_state'', JStr ''FRESH''),
      (''action_result'', JStr ''ALLOW''), (''reason_class'', JStr ''NONE''), (''validity_ref'', JStr ''validity'')]"

definition sample_capability :: dict where
  "sample_capability =
     sample_capability_fields @ [(''decision_fingerprint'', JStr (sha256_json (JObj sample_capability_fields)))]"

lemma sample_trust_valid: "validate_trust_decision sample_trust = Inr ()"
proof -
  have k: "keys sample_trust = set (map fst sample_trust_fields @ [''decision_fingerprint''])"
    by (simp add: sample_trust_def keys_def)
  have 1: "set trust_required \<subseteq> keys sample_trust" "keys sample_trust \<subseteq> set trust_required \<union> set trust_optional"
    unfolding k by code_simp+
  have w: "without [''decision_fingerprint''] sample_trust = sample_trust_fields"
    unfolding sample_trust_def by (rule without_append_key) code_simp
  have g: "get sample_trust ''record_type'' = JStr ''PMIRI_D2_TRUST_DECISION''"
    "get sample_trust ''schema_version'' = JStr ''0.3''"
    "get sample_trust ''trust_assertion_refs'' = JList [JStr ''assertion'']"
    "get sample_trust ''authority_manifest_fingerprint'' = JStr sample_fp"
    "get sample_trust ''freshness_profile_fingerprint'' = JStr sample_fp"
    "get sample_trust ''decision_fingerprint'' = JStr (sha256_json (JObj sample_trust_fields))"
    "get sample_trust ''trust_state'' = JStr ''TRUSTED_FOR_BOUND_PURPOSE''"
    "get sample_trust ''action_result'' = JStr ''ALLOW''" "get sample_trust ''reason_class'' = JStr ''NONE''"
    "get sample_trust ''content_lifecycle'' = JStr ''NOT_APPLICABLE''" "\<not> has_key sample_trust ''allowed_feature_refs''"
    by (simp_all only: sample_trust_def sample_trust_fields_def lookup_simps)
  show ?thesis
    unfolding validate_trust_decision_def w
    by (simp add: check_simps 1 g sample_reason TRUST_STATES_def ACTIONS_def NON_TRUSTED_def is_list_def is_obj_def
        all_strs_def)
qed

lemma sample_capability_valid: "validate_capability_decision sample_capability = Inr ()"
proof -
  have k: "keys sample_capability = set (map fst sample_capability_fields @ [''decision_fingerprint''])"
    by (simp add: sample_capability_def keys_def)
  have 1: "keys sample_capability = set capability_required"
    unfolding k by code_simp
  have w: "without [''decision_fingerprint''] sample_capability = sample_capability_fields"
    unfolding sample_capability_def by (rule without_append_key) code_simp
  have g: "get sample_capability ''record_type'' = JStr ''PMIRI_D2_CAPABILITY_DECISION''"
    "get sample_capability ''schema_version'' = JStr ''0.2''"
    "get sample_capability ''observation_refs'' = JList [JStr ''observation'']"
    "get sample_capability ''material_manifest_fingerprint'' = JStr sample_fp"
    "get sample_capability ''capability_profile_fingerprint'' = JStr sample_fp"
    "get sample_capability ''authority_manifest_fingerprint'' = JStr sample_fp"
    "get sample_capability ''freshness_profile_fingerprint'' = JStr sample_fp"
    "get sample_capability ''decision_fingerprint'' = JStr (sha256_json (JObj sample_capability_fields))"
    "get sample_capability ''invalidation_epoch'' = JInt 0" "get sample_capability ''capability_state'' = JStr ''FRESH''"
    "get sample_capability ''action_result'' = JStr ''ALLOW''" "get sample_capability ''reason_class'' = JStr ''NONE''"
    by (simp_all only: sample_capability_def sample_capability_fields_def lookup_simps)
  show ?thesis
    unfolding validate_capability_decision_def w
    by (simp add: check_simps 1 g sample_reason CAPABILITY_STATES_def ACTIONS_def is_list_def is_obj_def all_strs_def)
qed

theorem allow_needs_trust_and_freshness_witness:
  "get sample_trust ''action_result'' = JStr ''ALLOW''
   \<and> get sample_trust ''trust_state'' \<in> {JStr ''TRUSTED_FOR_BOUND_PURPOSE'', JStr ''CONDITIONALLY_TRUSTED''}
   \<and> get sample_capability ''action_result'' = JStr ''ALLOW'' \<and> truthy (get sample_capability ''observation_refs'')"
proof -
  have a: "get sample_trust ''action_result'' = JStr ''ALLOW''" "get sample_capability ''action_result'' = JStr ''ALLOW''"
    by (simp_all add: sample_trust_def sample_trust_fields_def sample_capability_def sample_capability_fields_def)
  have "''ALLOW'' \<in> set ALLOWING" by (simp add: ALLOWING_def)
  with allow_needs_trust_and_freshness [OF sample_trust_valid sample_capability_valid] a show ?thesis by blast
qed


section \<open>External emission\<close>

lemma validate_lifecycle_strs:
  assumes "validate_lifecycle l = Inr ()" "f \<in> snd ` set exact_fields"
  shows "\<exists>s. get l f = JStr s"
proof -
  note v = assms(1) [unfolded validate_lifecycle_def run_checks_Cons fails_if_passes fails_if_r_passes]
  from v obtain fin where fin: "get l ''history_terminal_state'' = JStr fin" "fin \<in> set LIFECYCLES"
    by (auto simp: check_simps)
  have adm: "get l ''admission_state'' = JStr fin" using v fin by simp
  have o: "nonempty_str (get l ''origin_binding_ref'')" "nonempty_str (get l ''destination_binding_ref'')"
    "is_sha256 (get l ''terminal_response_fingerprint'')" using v by simp_all
  have p: "lifecycle_projection l = Inr ()" using v by simp
  have vis: "\<exists>s. get l ''retrieval_visibility'' = JStr s"
  proof (cases "fin = ''NOT_APPLICABLE''")
    case True
    with p fin show ?thesis by (simp add: lifecycle_projection_def fails_if_passes)
  next
    case False
    with fin(2) have "\<exists>s. visibility_of (JStr fin) = JStr s" by (auto simp: LIFECYCLES_def visibility_of_def)
    moreover from p fin False have "py_eq (get l ''retrieval_visibility'') (visibility_of (JStr fin))"
      by (auto simp: lifecycle_projection_def fails_if_passes split: json.splits)
    ultimately show ?thesis by auto
  qed
  have "f \<in> set (map snd exact_fields)" using assms(2) by simp
  then have "f \<in> set [''origin_binding_ref'', ''destination_binding_ref'', ''admission_state'', ''retrieval_visibility'',
      ''history_terminal_state'', ''terminal_response_fingerprint'']"
    by (simp only: exact_fields_def list.map snd_conv)
  then show ?thesis
    using adm fin(1) vis o by (simp only: list.set insert_iff empty_iff) (elim disjE FalseE; simp only:; blast dest: nonempty_strE is_sha256E)
qed

text \<open>What the life cycle of a content operation is checked for against both records.\<close>

lemma emission_lifecycle_bound:
  assumes "emission_lifecycle env net l = Inr ()"
  shows "validate_lifecycle l = Inr ()" "\<forall>(p, f) \<in> set exact_fields. get net p = get l f \<and> get env p = get l f"
    and "get net ''fetched_content_lifecycle_fingerprint'' = get l ''lifecycle_fingerprint''"
    and "get env ''fetched_content_lifecycle_fingerprint'' = get l ''lifecycle_fingerprint''"
    and "py_eq (get l ''operation'') (get net ''operation'')" "py_eq (get l ''purpose'') (get net ''purpose'')"
    and "py_eq (get net ''destination_binding_ref'') (get env ''destination_binding_ref'')"
    and "py_eq (get net ''fetched_content_lifecycle_ref'') (get env ''fetched_content_lifecycle_ref'')"
proof -
  show val: "validate_lifecycle l = Inr ()" using assms by (simp add: emission_lifecycle_def Let_def)
  then have fp: "has_key l ''lifecycle_fingerprint''" "is_sha256 (get l ''lifecycle_fingerprint'')"
    by (auto simp: validate_lifecycle_def required_passes fails_if_passes has_key_keys lifecycle_required_def)
  note c = assms [unfolded emission_lifecycle_def Let_def run_checks_passes]
  have "py_eq (get net p) (get l f) \<and> py_eq (get env p) (get l f)" if "(p, f) \<in> set exact_fields" for p f
    using c that by (force simp: fails_if_passes)
  moreover have "\<exists>s. get l f = JStr s" if "(p, f) \<in> set exact_fields" for p f
    using validate_lifecycle_strs [OF val] that by force
  ultimately show "\<forall>(p, f) \<in> set exact_fields. get net p = get l f \<and> get env p = get l f" by fastforce
  from is_sha256E [OF fp(2)] obtain s where "get l ''lifecycle_fingerprint'' = JStr s" by blast
  with c fp(1) show "get net ''fetched_content_lifecycle_fingerprint'' = get l ''lifecycle_fingerprint''"
    "get env ''fetched_content_lifecycle_fingerprint'' = get l ''lifecycle_fingerprint''"
    by (simp_all add: fails_if_passes)
  show "py_eq (get l ''operation'') (get net ''operation'')" "py_eq (get l ''purpose'') (get net ''purpose'')"
    "py_eq (get net ''destination_binding_ref'') (get env ''destination_binding_ref'')"
    "py_eq (get net ''fetched_content_lifecycle_ref'') (get env ''fetched_content_lifecycle_ref'')"
    using c by (simp_all add: fails_if_passes)
qed

text \<open>
  C28. What \<^verbatim>\<open>validate_external_emission\<close> lets pass: the envelope and the network decision name one
  operation, purpose and action of the vocabularies; the authority fingerprint of the envelope is a digest, and a
  fingerprint the network decision carries is its own; what the envelope says of the connection binding, of the
  network decision and of the destination is what the network decision says, where it says anything. An allowing action comes with
  a matched TLS identity, a resolution set of allow-listed public addresses, a validated connection
  binding and a matched final revalidation. A provider call binds no fetched content; any other operation has a
  validated life cycle of this operation and purpose whose fingerprint and projected fields are exactly those of both
  records. The validator accepts agreeing denials too and does not look at trust or capability, which is left to the
  final fence.
\<close>

theorem external_emission_sound:
  assumes "validate_external_emission env net life = Inr ()"
  shows "\<exists>oper \<in> set OPERATIONS. \<exists>purpose \<in> set PURPOSES. \<exists>action \<in> set ACTIONS.
    get env ''operation'' = JStr oper \<and> get net ''operation'' = JStr oper
    \<and> get env ''purpose'' = JStr purpose \<and> get net ''purpose'' = JStr purpose
    \<and> get env ''action_result'' = JStr action \<and> get net ''action_result'' = JStr action
    \<and> is_sha256 (get env ''authority_manifest_fingerprint'')
    \<and> (truthy (get net ''decision_fingerprint'') \<longrightarrow> get net ''decision_fingerprint'' = JStr (decision_fingerprint net))
    \<and> (\<forall>(k, k') \<in> set [(''network_binding_fingerprint'', ''connection_binding_fingerprint''),
          (''outbound_network_decision_ref'', ''decision_id''), (''outbound_network_decision_fingerprint'', ''decision_fingerprint'')].
         get env k = JNull \<or> py_eq (get env k) (get net k'))
    \<and> (get env ''destination_binding_ref'' = JNull \<or> get net ''destination_binding_ref'' = JNull
        \<or> py_eq (get env ''destination_binding_ref'') (get net ''destination_binding_ref''))
    \<and> (action \<in> set ALLOWING \<longrightarrow> (\<forall>(k, v) \<in> set allow_requirements. get net k = JStr v))
    \<and> (oper = ''provider_call'' \<longrightarrow>
        \<not> truthy (get env ''fetched_content_lifecycle_ref'') \<and> get net ''content_lifecycle'' = JStr ''NOT_APPLICABLE''
        \<and> (\<forall>f \<in> set lifecycle_fields. get net f = JNull))
    \<and> (oper \<noteq> ''provider_call'' \<longrightarrow>
        (\<exists>l. life = Some l \<and> validate_lifecycle l = Inr () \<and> get l ''operation'' = JStr oper \<and> get l ''purpose'' = JStr purpose
          \<and> py_eq (get net ''destination_binding_ref'') (get env ''destination_binding_ref'')
          \<and> py_eq (get net ''fetched_content_lifecycle_ref'') (get env ''fetched_content_lifecycle_ref'')
          \<and> (\<forall>(p, f) \<in> set exact_fields. get net p = get l f \<and> get env p = get l f)
          \<and> get net ''fetched_content_lifecycle_fingerprint'' = get l ''lifecycle_fingerprint''
          \<and> get env ''fetched_content_lifecycle_fingerprint'' = get l ''lifecycle_fingerprint''))"
proof -
  note v = assms [unfolded validate_external_emission_def append.simps list.map run_checks_Cons fails_if_passes
      fails_if_r_passes]
  have out: "validate_outbound_decision net = Inr ()" and env: "validate_integrated_envelope env = Inr ()"
    using v by simp_all
  from env obtain oper purpose action where e: "oper \<in> set OPERATIONS" "purpose \<in> set PURPOSES" "action \<in> set ACTIONS"
    "get env ''operation'' = JStr oper" "get env ''purpose'' = JStr purpose" "get env ''action_result'' = JStr action"
    by (auto simp: validate_integrated_envelope_def fails_if_passes fails_if_r_passes or_r_False not_in_False)
  have n: "get net ''operation'' = JStr oper" "get net ''purpose'' = JStr purpose" "get net ''action_result'' = JStr action"
    using v e(4-6) by simp_all
  have a: "is_sha256 (get env ''authority_manifest_fingerprint'')"
    "oper = ''provider_call'' \<Longrightarrow> \<not> truthy (get env ''fetched_content_lifecycle_ref'')"
    using env e(4) by (simp_all add: validate_integrated_envelope_def fails_if_passes)
  have d: "truthy (get net ''decision_fingerprint'') \<longrightarrow> get net ''decision_fingerprint'' = JStr (decision_fingerprint net)"
    "outbound_allow net = Inr ()" "outbound_binding net = Inr ()"
    "oper = ''provider_call'' \<Longrightarrow> get net ''content_lifecycle'' = JStr ''NOT_APPLICABLE''"
    using out n(1) by (auto simp: validate_outbound_decision_def fails_if_passes)
  have req: "\<forall>(k, x) \<in> set allow_requirements. get net k = JStr x" if "action \<in> set ALLOWING"
    using d(2) that n(3) by (auto simp: outbound_allow_def run_checks_passes fails_if_passes)
  have null: "\<forall>f \<in> set lifecycle_fields. get net f = JNull" if "oper = ''provider_call''"
    using d(3) n(1) that by (simp add: outbound_binding_def fails_if_passes list_ex_iff)
  have bound: "\<forall>(k, k') \<in> set [(''network_binding_fingerprint'', ''connection_binding_fingerprint''),
          (''outbound_network_decision_ref'', ''decision_id''), (''outbound_network_decision_fingerprint'', ''decision_fingerprint'')].
         get env k = JNull \<or> py_eq (get env k) (get net k')"
    and dest: "get env ''destination_binding_ref'' = JNull \<or> get net ''destination_binding_ref'' = JNull
        \<or> py_eq (get env ''destination_binding_ref'') (get net ''destination_binding_ref'')"
    using v by (simp_all add: optional_binding_def) blast
  have life: "\<exists>l. life = Some l \<and> emission_lifecycle env net l = Inr ()" if "oper \<noteq> ''provider_call''"
    using v e(4) that by (cases life) simp_all
  have lc: "\<exists>l. life = Some l \<and> validate_lifecycle l = Inr () \<and> get l ''operation'' = JStr oper \<and> get l ''purpose'' = JStr purpose
          \<and> py_eq (get net ''destination_binding_ref'') (get env ''destination_binding_ref'')
          \<and> py_eq (get net ''fetched_content_lifecycle_ref'') (get env ''fetched_content_lifecycle_ref'')
          \<and> (\<forall>(p, f) \<in> set exact_fields. get net p = get l f \<and> get env p = get l f)
          \<and> get net ''fetched_content_lifecycle_fingerprint'' = get l ''lifecycle_fingerprint''
          \<and> get env ''fetched_content_lifecycle_fingerprint'' = get l ''lifecycle_fingerprint''"
    if "oper \<noteq> ''provider_call''"
  proof -
    from life [OF that] obtain l where l: "life = Some l" "emission_lifecycle env net l = Inr ()" by blast
    from emission_lifecycle_bound [OF l(2)] l(1) n show ?thesis by simp
  qed
  show ?thesis
    by (intro bexI [OF _ e(1)] bexI [OF _ e(2)] bexI [OF _ e(3)] conjI impI)
      (fact e n a(1) bound dest | rule a(2) mp [OF d(1)] d(4) req null lc, assumption)+
qed


definition sample_bound_fields :: dict where
  "sample_bound_fields =
     [(''operation'', JStr ''external_fetch''), (''purpose'', JStr ''retrieval''), (''action_result'', JStr ''ALLOW''),
      (''reason_class'', JStr ''NONE''),
      (''fetched_content_lifecycle_ref'', JStr ''life''),
      (''fetched_content_lifecycle_fingerprint'', JStr (sha256_json (JObj sample_lifecycle_fields))),
      (''fetched_content_origin_binding_ref'', JStr ''origin''), (''fetched_content_destination_binding_ref'', JStr ''dest''),
      (''fetched_content_admission_state'', JStr ''ADMITTED_TYPED_DATA''),
      (''fetched_content_retrieval_visibility'', JStr ''TYPED_DATA_ONLY''),
      (''fetched_content_history_terminal_state'', JStr ''ADMITTED_TYPED_DATA''),
      (''fetched_content_terminal_response_fingerprint'', JStr sample_fp)]"

definition sample_network :: dict where
  "sample_network = sample_bound_fields @
     [(''content_lifecycle'', JStr ''ADMITTED_TYPED_DATA''), (''tls_identity_status'', JStr ''MATCHED''),
      (''resolution_set_status'', JStr ''ALL_ALLOWLISTED_PUBLIC''), (''connection_binding_status'', JStr ''VALIDATED''),
      (''final_revalidation_result'', JStr ''MATCHED'')]"

definition sample_envelope :: dict where
  "sample_envelope = sample_bound_fields @ [(''authority_manifest_fingerprint'', JStr sample_fp)]"

lemma sample_bound_get:
  assumes "r = sample_network \<or> r = sample_envelope"
  shows "get r ''operation'' = JStr ''external_fetch''" "get r ''purpose'' = JStr ''retrieval''"
    "get r ''action_result'' = JStr ''ALLOW''" "get r ''reason_class'' = JStr ''NONE''"
    "get r ''fetched_content_lifecycle_ref'' = JStr ''life''"
    "get r ''fetched_content_lifecycle_fingerprint'' = JStr (sha256_json (JObj sample_lifecycle_fields))"
    "get r ''fetched_content_origin_binding_ref'' = JStr ''origin''"
    "get r ''fetched_content_destination_binding_ref'' = JStr ''dest''"
    "get r ''fetched_content_admission_state'' = JStr ''ADMITTED_TYPED_DATA''"
    "get r ''fetched_content_retrieval_visibility'' = JStr ''TYPED_DATA_ONLY''"
    "get r ''fetched_content_history_terminal_state'' = JStr ''ADMITTED_TYPED_DATA''"
    "get r ''fetched_content_terminal_response_fingerprint'' = JStr sample_fp"
    "get r ''decision_fingerprint'' = JNull" "get r ''destination_binding_ref'' = JNull"
    "get r ''network_binding_fingerprint'' = JNull" "get r ''outbound_network_decision_ref'' = JNull"
    "get r ''outbound_network_decision_fingerprint'' = JNull"
  using assms
  by (elim disjE; simp only: sample_network_def sample_envelope_def sample_bound_fields_def lookup_simps)+

lemma sample_network_get:
  "get sample_network ''content_lifecycle'' = JStr ''ADMITTED_TYPED_DATA''"
  "get sample_network ''tls_identity_status'' = JStr ''MATCHED''"
  "get sample_network ''resolution_set_status'' = JStr ''ALL_ALLOWLISTED_PUBLIC''"
  "get sample_network ''connection_binding_status'' = JStr ''VALIDATED''"
  "get sample_network ''final_revalidation_result'' = JStr ''MATCHED''"
  "get sample_envelope ''authority_manifest_fingerprint'' = JStr sample_fp"
  by (simp_all only: sample_network_def sample_envelope_def sample_bound_fields_def lookup_simps)

lemmas sample_emission_get = sample_bound_get [OF disjI1 [OF refl]] sample_bound_get [OF disjI2 [OF refl]]
  sample_network_get

lemma sample_emission_keys:
  "keys sample_network = {''operation'', ''purpose'', ''action_result'', ''reason_class''} \<union> set lifecycle_fields
     \<union> {''content_lifecycle'', ''tls_identity_status'', ''resolution_set_status'', ''connection_binding_status'',
        ''final_revalidation_result''}"
  "keys sample_envelope = {''operation'', ''purpose'', ''action_result'', ''reason_class''} \<union> set lifecycle_fields
     \<union> {''authority_manifest_fingerprint''}"
proof -
  have "map fst sample_bound_fields = [''operation'', ''purpose'', ''action_result'', ''reason_class''] @ lifecycle_fields"
    by (simp only: sample_bound_fields_def lifecycle_fields_def list.map append.simps fst_conv)
  from arg_cong [OF this, of set]
  have b: "fst ` set sample_bound_fields = {''operation'', ''purpose'', ''action_result'', ''reason_class''} \<union> set lifecycle_fields"
    by (simp only: set_map set_append list.set)
  show "keys sample_network = {''operation'', ''purpose'', ''action_result'', ''reason_class''} \<union> set lifecycle_fields
     \<union> {''content_lifecycle'', ''tls_identity_status'', ''resolution_set_status'', ''connection_binding_status'',
        ''final_revalidation_result''}"
    by (simp only: keys_def sample_network_def set_append image_Un b list.set image_insert image_empty fst_conv)
  show "keys sample_envelope = {''operation'', ''purpose'', ''action_result'', ''reason_class''} \<union> set lifecycle_fields
     \<union> {''authority_manifest_fingerprint''}"
    by (simp only: keys_def sample_envelope_def set_append image_Un b list.set image_insert image_empty fst_conv)
qed

lemma sample_network_valid: "validate_outbound_decision sample_network = Inr ()"
proof -
  have 1: "set [''operation'', ''purpose'', ''action_result'', ''content_lifecycle'', ''reason_class''] \<subseteq> keys sample_network"
    "set lifecycle_fields \<subseteq> keys sample_network"
    unfolding sample_emission_keys by simp blast
  have b: "outbound_binding sample_network = Inr ()"
    using 1(2)
    by (simp add: outbound_binding_def sample_emission_get required_passes fails_if_passes)
      (simp add: lifecycle_fields_def sample_emission_get)
  have a: "outbound_allow sample_network = Inr ()"
    by (simp add: outbound_allow_def sample_emission_get ALLOWING_def allow_requirements_def fails_if_passes)
  show ?thesis
    unfolding validate_outbound_decision_def
    using 1(1) a b sample_reason
    by (simp add: check_simps sample_emission_get OPERATIONS_def PURPOSES_def ACTIONS_def LIFECYCLES_def)
qed

lemma sample_emission: "validate_external_emission sample_envelope sample_network (Some sample_lifecycle) = Inr ()"
proof -
  have 1: "set [''operation'', ''purpose'', ''action_result'', ''authority_manifest_fingerprint''] \<subseteq> keys sample_envelope"
    unfolding sample_emission_keys by simp
  have e: "validate_integrated_envelope sample_envelope = Inr ()"
    unfolding validate_integrated_envelope_def using 1 sample_reason
    by (simp add: check_simps sample_emission_get OPERATIONS_def PURPOSES_def ACTIONS_def)
  have "has_key sample_lifecycle ''lifecycle_fingerprint''"
    by (simp only: sample_lifecycle_def sample_lifecycle_fields_def lookup_simps)
  then have l: "emission_lifecycle sample_envelope sample_network sample_lifecycle = Inr ()"
    by (simp add: emission_lifecycle_def sample_lifecycle_valid fails_if_passes sample_emission_get sample_lifecycle_get
        is_str_def exact_fields_def)
  show ?thesis
    unfolding validate_external_emission_def
    by (simp add: e l sample_network_valid check_simps sample_emission_get optional_binding_def ALLOWING_def)
qed

theorem external_emission_sound_witness:
  "get sample_network ''action_result'' = JStr ''ALLOW''
    \<and> list_all (\<lambda>(k, v). get sample_network k = JStr v) allow_requirements
    \<and> validate_lifecycle sample_lifecycle = Inr ()
    \<and> list_all (\<lambda>(p, f). get sample_network p = get sample_lifecycle f \<and> get sample_envelope p = get sample_lifecycle f) exact_fields"
proof -
  have o: "get sample_envelope ''operation'' = JStr ''external_fetch''"
    and a: "get sample_network ''action_result'' = JStr ''ALLOW''" by (simp_all only: sample_emission_get)
  have m: "''ALLOW'' \<in> set ALLOWING" by (simp add: ALLOWING_def)
  have ne: "''external_fetch'' \<noteq> ''provider_call''" by simp
  from external_emission_sound [OF sample_emission] show ?thesis
  proof (elim bexE conjE)
    fix oper purpose action
    assume oper: "get sample_envelope ''operation'' = JStr oper" and action: "get sample_network ''action_result'' = JStr action"
      and h: "action \<in> set ALLOWING \<longrightarrow> (\<forall>(k, v) \<in> set allow_requirements. get sample_network k = JStr v)"
        "oper \<noteq> ''provider_call'' \<longrightarrow>
        (\<exists>l. Some sample_lifecycle = Some l \<and> validate_lifecycle l = Inr () \<and> get l ''operation'' = JStr oper \<and> get l ''purpose'' = JStr purpose
          \<and> py_eq (get sample_network ''destination_binding_ref'') (get sample_envelope ''destination_binding_ref'')
          \<and> py_eq (get sample_network ''fetched_content_lifecycle_ref'') (get sample_envelope ''fetched_content_lifecycle_ref'')
          \<and> (\<forall>(p, f) \<in> set exact_fields. get sample_network p = get l f \<and> get sample_envelope p = get l f)
          \<and> get sample_network ''fetched_content_lifecycle_fingerprint'' = get l ''lifecycle_fingerprint''
          \<and> get sample_envelope ''fetched_content_lifecycle_fingerprint'' = get l ''lifecycle_fingerprint'')"
    from oper o action a have "oper = ''external_fetch''" "action = ''ALLOW''" by (simp_all only: json.inject)
    with h m ne a show ?thesis unfolding list_all_iff by blast
  qed
qed

section \<open>Which exceptions leave the validators\<close>

definition vocabulary_error :: "exc \<Rightarrow> bool" where
  "vocabulary_error e = (fst e \<in> {ContractViolation, TypeError})"

definition only_vocabulary :: "'a result \<Rightarrow> bool" where
  "only_vocabulary r = (\<forall>e. r = Inl e \<longrightarrow> vocabulary_error e)"

named_theorems vocabulary_intros

lemma only_vocabulary_Inr [vocabulary_intros]: "only_vocabulary (Inr x)"
  by (simp add: only_vocabulary_def)

lemma only_vocabulary_raise [vocabulary_intros]: "only_vocabulary (raise ContractViolation m)"
  by (simp add: only_vocabulary_def vocabulary_error_def raise_def)

lemma only_vocabulary_if [vocabulary_intros]: "only_vocabulary (violation_if b m)"
  by (simp add: only_vocabulary_def fails_if_error vocabulary_error_def)

lemma only_vocabulary_if_r [vocabulary_intros]: "only_vocabulary r \<Longrightarrow> only_vocabulary (violation_if_r r m)"
  by (auto simp: only_vocabulary_def fails_if_r_error vocabulary_error_def)

lemma only_vocabulary_in [vocabulary_intros]: "only_vocabulary (in_set v S)" "only_vocabulary (not_in v S)"
  by (auto simp: only_vocabulary_def vocabulary_error_def dest: in_set_error not_in_error)

lemma only_vocabulary_or [vocabulary_intros]:
  "only_vocabulary a \<Longrightarrow> only_vocabulary b \<Longrightarrow> only_vocabulary (or_r a b)"
  "only_vocabulary a \<Longrightarrow> only_vocabulary b \<Longrightarrow> only_vocabulary (and_r a b)"
  by (auto simp: only_vocabulary_def dest: or_r_error and_r_error)

lemma only_vocabulary_bind [vocabulary_intros]:
  "only_vocabulary r \<Longrightarrow> (\<And>x. only_vocabulary (f x)) \<Longrightarrow> only_vocabulary (bind_result r f)"
  "only_vocabulary r \<Longrightarrow> only_vocabulary (map_result g r)"
  by (cases r; auto simp: only_vocabulary_def)+

lemma only_vocabulary_checks [vocabulary_intros]: "list_all only_vocabulary cs \<Longrightarrow> only_vocabulary (run_checks cs)"
  by (auto simp: only_vocabulary_def list_all_iff dest: run_checks_error_of)

lemma only_vocabulary_required [vocabulary_intros]: "only_vocabulary (required r fs l)"
  by (simp add: required_def Let_def only_vocabulary_if)

lemma only_vocabulary_transition: "only_vocabulary (check_transition n p pt v)"
proof -
  have "only_vocabulary (transition_time w q)" for w q
    by (auto simp: transition_time_def intro: vocabulary_intros split: json.splits sum.splits option.splits)
  then show ?thesis
    by (auto simp: check_transition_def split: json.splits option.splits intro!: vocabulary_intros)
qed

lemma only_vocabulary_transitions: "only_vocabulary (check_transitions n p pt ts)"
  by (induction n p pt ts rule: check_transitions.induct)
    (auto intro!: vocabulary_intros only_vocabulary_transition)

lemma only_vocabulary_lifecycle: "only_vocabulary (validate_lifecycle r)"
proof -
  have "only_vocabulary (lifecycle_history r)"
    by (auto simp: lifecycle_history_def split: json.splits intro!: vocabulary_intros only_vocabulary_transitions)
  moreover have "only_vocabulary (lifecycle_projection r)"
    by (auto simp: lifecycle_projection_def split: json.splits intro!: vocabulary_intros)
  ultimately show ?thesis
    unfolding validate_lifecycle_def by (intro vocabulary_intros) (simp add: vocabulary_intros)
qed

text \<open>
  A refused emission is refused with a contract violation, or with the \<^verbatim>\<open>TypeError\<close> that
  membership in a vocabulary raises for a field holding a list or an object; no other exception
  leaves the validators.
\<close>


theorem emission_errors:
  assumes "validate_external_emission env net life = Inl e"
  shows "fst e = ContractViolation \<or> fst e = TypeError"
proof -
  have "only_vocabulary (outbound_allow net)" "only_vocabulary (outbound_binding net)"
    by (auto simp: outbound_allow_def outbound_binding_def allow_requirements_def intro!: vocabulary_intros)
  then have o: "only_vocabulary (validate_outbound_decision net)"
    unfolding validate_outbound_decision_def by (intro vocabulary_intros) (simp add: vocabulary_intros)
  have i: "only_vocabulary (validate_integrated_envelope env)"
    unfolding validate_integrated_envelope_def by (intro vocabulary_intros) (simp add: vocabulary_intros)
  have "only_vocabulary (emission_lifecycle env net l)" for l
    unfolding emission_lifecycle_def Let_def
    by (intro vocabulary_intros) (simp add: vocabulary_intros only_vocabulary_lifecycle exact_fields_def)
  with o i have "only_vocabulary (validate_external_emission env net life)"
    unfolding validate_external_emission_def
    by (intro vocabulary_intros) (simp add: vocabulary_intros split: option.split)
  with assms show ?thesis by (simp add: only_vocabulary_def vocabulary_error_def)
qed

theorem emission_errors_witness:
  "\<exists>e. validate_external_emission [] [] None = Inl e \<and> (fst e = ContractViolation \<or> fst e = TypeError)"
proof -
  have "validate_external_emission [] [] None \<noteq> Inr ()"
    by (simp add: validate_external_emission_def validate_integrated_envelope_def required_passes keys_def)
  then obtain e where "validate_external_emission [] [] None = Inl e"
    by (cases "validate_external_emission [] [] None") auto
  with emission_errors show ?thesis by blast
qed

end
