(* ===== verification/Store_Interface.thy ===== *)
theory Store_Interface
  imports Models "HOL-Library.Product_Lexorder" "HOL-Library.Multiset"
begin

text \<open>
  What the two stores share and what their clients rely on. A store is an append-only collection of
  source versions, seen through \<^verbatim>\<open>list_sources\<close>. The locale \<open>source_store\<close> states the contract over the
  list of stored records; its lemmas are proved once for both stores.
\<close>

section \<open>Names and identities\<close>

text \<open>
  \<^verbatim>\<open>Path(name).is_absolute()\<close> and \<^verbatim>\<open>".." in Path(name).parts\<close> on a POSIX system; a backslash is an
  ordinary character there.
\<close>

definition bad_identity :: "string \<Rightarrow> string \<Rightarrow> bool" where
  "bad_identity project_id source_name =
     (project_id = [] \<or> source_name = [] \<or> startswith source_name ''/'' \<or> ''..'' \<in> set (split_on CHR ''/'' source_name))"

definition normalize_name :: "string \<Rightarrow> string" where
  "normalize_name s = map (\<lambda>c. if c = CHR 0x5C then CHR ''/'' else c) s"

definition source_id_of :: "string \<Rightarrow> string \<Rightarrow> string" where
  "source_id_of project_id source_name =
     ''src_'' @ take 32 (sha256_json (JObj [(''project_id'', JStr project_id), (''source_name'', JStr source_name)]))"

text \<open>
  The record \<^verbatim>\<open>register_bytes\<close> builds from its arguments and the decoded text. A metadata mapping is
  represented with its keys in order.
\<close>

definition make_record :: "string \<Rightarrow> string \<Rightarrow> string \<Rightarrow> string \<Rightarrow> (string \<times> string) list \<Rightarrow> source_record" where
  "make_record project_id source_name content capture_time metadata =
     \<lparr>s_source_id = source_id_of project_id (normalize_name source_name),
      s_version_id = ''ver_'' @ sha256_bytes content, s_project_id = project_id,
      s_source_name = normalize_name source_name, s_content_fingerprint = sha256_bytes content,
      s_content = content, s_capture_time = capture_time, s_metadata = sort_key fst metadata\<rparr>"

abbreviation version_key :: "source_record \<Rightarrow> string \<times> string" where
  "version_key s \<equiv> (s_source_id s, s_version_id s)"

definition order_key :: "source_record \<Rightarrow> string \<times> string \<times> string" where
  "order_key s = (s_project_id s, s_source_id s, s_version_id s)"

section \<open>The latest version of each source\<close>

text \<open>
  The dictionary loop of \<^verbatim>\<open>list_sources\<close>: for each source id the entry with the greatest capture time
  and version id, compared as text.
\<close>

definition newer :: "string \<times> string \<times> string \<Rightarrow> string \<times> string \<times> string \<Rightarrow> bool" where
  "newer a b = (snd b < snd a)"

definition latest_step :: "('a \<Rightarrow> string \<times> string \<times> string) \<Rightarrow> 'a \<Rightarrow> (string \<times> 'a) list \<Rightarrow> (string \<times> 'a) list" where
  "latest_step f x latest =
     (case map_of latest (fst (f x)) of
        None \<Rightarrow> dict_put (fst (f x)) x latest
      | Some current \<Rightarrow> if newer (f x) (f current) then dict_put (fst (f x)) x latest else latest)"

definition latest_by :: "('a \<Rightarrow> string \<times> string \<times> string) \<Rightarrow> 'a list \<Rightarrow> 'a list" where
  "latest_by f xs = map snd (fold (latest_step f) xs [])"

abbreviation record_age :: "source_record \<Rightarrow> string \<times> string \<times> string" where
  "record_age s \<equiv> (s_source_id s, s_capture_time s, s_version_id s)"

text \<open>What \<^verbatim>\<open>list_sources\<close> answers when every stored record can be read.\<close>

definition view :: "string option \<Rightarrow> bool \<Rightarrow> source_record list \<Rightarrow> source_record list" where
  "view project_id include_history rs =
     (let xs = filter (\<lambda>s. case project_id of None \<Rightarrow> True | Some p \<Rightarrow> s_project_id s = p) rs
      in sort_key order_key (if include_history then xs else latest_by record_age xs))"

text \<open>The first stored version that matches (\<^verbatim>\<open>get_source\<close>).\<close>

definition first_match :: "string \<Rightarrow> string option \<Rightarrow> source_record list \<Rightarrow> source_record result" where
  "first_match source_id version_id rs =
     (case find (\<lambda>s. s_source_id s = source_id \<and> (case version_id of None \<Rightarrow> True | Some v \<Rightarrow> s_version_id s = v)) rs of
        None \<Rightarrow> raise KeyError ''source_not_found''
      | Some s \<Rightarrow> Inr s)"

section \<open>The latest version, specified\<close>

lemma fold_latest:
  "distinct (map fst (fold (latest_step f) xs []))"
  "map_of (fold (latest_step f) xs []) k = Some x \<Longrightarrow>
     x \<in> set xs \<and> fst (f x) = k \<and> (\<forall>y \<in> set xs. fst (f y) = k \<longrightarrow> snd (f y) \<le> snd (f x))"
  "x \<in> set xs \<Longrightarrow> \<exists>y. map_of (fold (latest_step f) xs []) (fst (f x)) = Some y"
proof (induction xs arbitrary: k x rule: rev_induct)
  case (snoc z xs)
  let ?m = "fold (latest_step f) xs []"
  note st = latest_step_def [of f z ?m]
  {
    case 1
    show ?case using snoc(1) by (simp add: st split: option.splits)
  next
    case 2
    show ?case
    proof (cases "map_of ?m (fst (f z))")
      case None
      with snoc(3) have no: "fst (f y) \<noteq> fst (f z)" if "y \<in> set xs" for y using that by fastforce
      show ?thesis
      proof (cases "k = fst (f z)")
        case True
        with 2 None no show ?thesis by (auto simp: st)
      next
        case False
        with 2 None have "map_of ?m k = Some x" by (simp add: st)
        with snoc(2) False show ?thesis by auto
      qed
    next
      case (Some current)
      note cur = snoc(2) [OF Some]
      show ?thesis
      proof (cases "k = fst (f z)")
        case k: True
        show ?thesis
        proof (cases "newer (f z) (f current)")
          case True
          with 2 Some k have "x = z" by (simp add: st)
          with cur True k show ?thesis by (auto simp: newer_def)
        next
          case False
          with 2 Some k have "x = current" by (simp add: st)
          with cur False k show ?thesis by (auto simp: newer_def not_less)
        qed
      next
        case False
        with 2 Some have "map_of ?m k = Some x" by (simp add: st split: if_splits)
        with snoc(2) False show ?thesis by auto
      qed
    qed
  next
    case 3
    then consider "x = z" | "x \<in> set xs" by auto
    then show ?case
    proof cases
      case 1
      then show ?thesis by (simp add: st split: option.splits)
    next
      case 2
      with snoc(3) obtain y where "map_of ?m (fst (f x)) = Some y" by blast
      then show ?thesis by (simp add: st split: option.splits)
    qed
  }
qed simp_all

lemma latest_by_iff:
  assumes "x \<in> set (latest_by f xs)"
  shows "x \<in> set xs \<and> (\<forall>y \<in> set xs. fst (f y) = fst (f x) \<longrightarrow> snd (f y) \<le> snd (f x))"
proof -
  let ?m = "fold (latest_step f) xs []"
  from assms obtain k where "(k, x) \<in> set ?m" by (auto simp: latest_by_def)
  with fold_latest(1) [of f xs] have "map_of ?m k = Some x" by simp
  from fold_latest(2) [OF this] show ?thesis by blast
qed

lemma latest_by_covers:
  assumes "x \<in> set xs"
  shows "\<exists>y \<in> set (latest_by f xs). fst (f y) = fst (f x)"
proof -
  from fold_latest(3) [OF assms] obtain y where y: "map_of (fold (latest_step f) xs []) (fst (f x)) = Some y" by blast
  from fold_latest(2) [OF y] have "fst (f y) = fst (f x)" by blast
  moreover from y have "y \<in> set (latest_by f xs)" by (force simp: latest_by_def dest: map_of_SomeD)
  ultimately show ?thesis by blast
qed

lemma latest_by_distinct: "distinct (map (\<lambda>x. fst (f x)) (latest_by f xs))"
proof -
  let ?m = "fold (latest_step f) xs []"
  have k: "fst (f x) = k" if "(k, x) \<in> set ?m" for k x
    using fold_latest(2) [of f xs k x] fold_latest(1) [of f xs] that by simp
  then have "map (\<lambda>x. fst (f x)) (latest_by f xs) = map fst ?m" by (auto simp: latest_by_def)
  with fold_latest(1) show ?thesis by simp
qed

lemma fold_latest_map:
  "fold (latest_step f) (map g xs) (map (\<lambda>(k, x). (k, g x)) m) =
     map (\<lambda>(k, x). (k, g x)) (fold (latest_step (\<lambda>x. f (g x))) xs m)"
proof (induction xs arbitrary: m)
  case (Cons x xs)
  have mo: "map_of (map (\<lambda>(k, x). (k, g x)) m) k = map_option g (map_of m k)" for k by (induction m) auto
  have dp: "dict_put k (g y) (map (\<lambda>(k, x). (k, g x)) m) = map (\<lambda>(k, x). (k, g x)) (dict_put k y m)" for k y
    by (induction m) auto
  have "latest_step f (g x) (map (\<lambda>(k, x). (k, g x)) m) = map (\<lambda>(k, x). (k, g x)) (latest_step (\<lambda>x. f (g x)) x m)"
    by (simp add: latest_step_def mo dp split: option.splits)
  with Cons.IH show ?case by simp
qed simp

lemma latest_by_map: "latest_by f (map g xs) = map g (latest_by (\<lambda>x. f (g x)) xs)"
  using fold_latest_map [of f g xs "[]"] by (simp add: latest_by_def case_prod_unfold comp_def)

lemma sort_key_map: "sort_key k (map g xs) = map g (sort_key (\<lambda>x. k (g x)) xs)"
proof (induction xs)
  case (Cons x xs)
  have "insort_key k (g x) (map g ys) = map g (insort_key (\<lambda>x. k (g x)) x ys)" for ys by (induction ys) auto
  with Cons show ?case by simp
qed simp

lemma sort_key_append_sorted:
  assumes "inj_on k (set (xs @ [x]))"
  shows "sort_key k (sort_key k xs @ [x]) = sort_key k (xs @ [x])"
  by (rule sort_key_inj_key_eq) (use assms in auto)


section \<open>The contract of a store\<close>

text \<open>Adding a version: one with the same source and version id is already there or it is inserted in order.\<close>

definition add_record :: "source_record \<Rightarrow> source_record list \<Rightarrow> source_record list" where
  "add_record r rs =
     (if version_key r \<in> set (map version_key rs) then rs else sort_key order_key (rs @ [r]))"

type_synonym metadata = "(string \<times> string) list"
type_synonym registration = "string \<times> string \<times> string \<times> string \<times> metadata"

text \<open>Registrations in sequence; a refused one leaves the store as it was.\<close>

definition register_step ::
  "('s \<Rightarrow> string \<Rightarrow> string \<Rightarrow> string \<Rightarrow> string \<Rightarrow> metadata \<Rightarrow> (source_record \<times> 's) result)
     \<Rightarrow> registration \<Rightarrow> 's \<Rightarrow> 's" where
  "register_step register c st =
     (case c of (p, n, raw, t, md) \<Rightarrow> (case register st p n raw t md of Inl _ \<Rightarrow> st | Inr (r, st') \<Rightarrow> st'))"

text \<open>What one registration does to the list of records.\<close>

definition spec_step :: "registration \<Rightarrow> source_record list \<Rightarrow> source_record list" where
  "spec_step c rs =
     (case c of (p, n, raw, t, md) \<Rightarrow>
        if bad_identity p n then rs
        else (case normalize_text raw of Inl _ \<Rightarrow> rs | Inr body \<Rightarrow> add_record (make_record p n body t md) rs))"

definition texts_of :: "registration list \<Rightarrow> string set" where
  "texts_of cs = {body. \<exists>c \<in> set cs. normalize_text (fst (snd (snd c))) = Inr body}"

lemma add_record_subset: "set rs \<subseteq> set (add_record r rs)"
  by (auto simp: add_record_def)

lemma add_record_new: "version_key r \<notin> set (map version_key rs) \<Longrightarrow> r \<in> set (add_record r rs)"
  by (auto simp: add_record_def)

lemma add_record_keys: "version_key r \<in> set (map version_key (add_record r rs))"
  by (auto simp: add_record_def)

lemma add_record_idem: "add_record r (add_record r rs) = add_record r rs"
  using add_record_keys [of r rs] by (simp add: add_record_def [of r "add_record r rs"] del: list.set_map set_map)

lemma distinct_map_sort_key: "distinct (map f (sort_key k xs)) = distinct (map f xs)"
  by (metis distinct_map distinct_sort set_sort)

lemma add_record_distinct: "distinct (map version_key rs) \<Longrightarrow> distinct (map version_key (add_record r rs))"
  by (auto simp: add_record_def distinct_map_sort_key)

lemma view_history [simp]: "view None True rs = sort_key order_key rs"
  by (simp add: view_def)

lemma view_project: "s \<in> set (view (Some p) h rs) \<Longrightarrow> s \<in> set rs \<and> s_project_id s = p"
  by (auto simp: view_def Let_def split: if_splits dest!: latest_by_iff)

lemma first_match_unique:
  assumes "distinct (map version_key rs)" "r \<in> set rs"
  shows "first_match (s_source_id r) (Some (s_version_id r)) rs = Inr r"
proof -
  have "find (\<lambda>s. s_source_id s = s_source_id r \<and> s_version_id s = s_version_id r) rs = Some r"
    using assms
  proof (induction rs)
    case (Cons a rs)
    then show ?case by (cases "a = r") (auto simp: rev_image_eqI)
  qed simp
  then show ?thesis by (simp add: first_match_def)
qed

locale source_store =
  fixes register :: "'s \<Rightarrow> string \<Rightarrow> string \<Rightarrow> string \<Rightarrow> string \<Rightarrow> metadata \<Rightarrow> (source_record \<times> 's) result"
    and list_sources :: "'s \<Rightarrow> string option \<Rightarrow> bool \<Rightarrow> source_record list result"
    and records :: "'s \<Rightarrow> source_record list"
    and contents :: "'s \<Rightarrow> string set"
    and invar :: "'s \<Rightarrow> bool"
  assumes list_view: "invar st \<Longrightarrow> list_sources st po h = Inr (view po h (records st))"
    and keys_distinct: "invar st \<Longrightarrow> distinct (map version_key (records st))"
    and register_accepts: "invar st \<Longrightarrow> \<not> bad_identity p n \<Longrightarrow> normalize_text raw = Inr body \<Longrightarrow>
      \<exists>st'. register st p n raw t md = Inr (make_record p n body t md, st')"
    and register_refuses: "bad_identity p n \<or> normalize_text raw = Inl e \<Longrightarrow> \<exists>e'. register st p n raw t md = Inl e'"
    and register_invar: "invar st \<Longrightarrow> register st p n raw t md = Inr (r, st') \<Longrightarrow> invar st'"
    and register_contents: "invar st \<Longrightarrow> register st p n raw t md = Inr (r, st') \<Longrightarrow>
      contents st' \<subseteq> insert (s_content r) (contents st)"
    and register_records: "invar st \<Longrightarrow> register st p n raw t md = Inr (r, st') \<Longrightarrow>
      inj_on sha256_bytes (insert (s_content r) (contents st)) \<Longrightarrow> records st' = add_record r (records st)"
begin

lemma register_result:
  assumes "invar st" "register st p n raw t md = Inr (r, st')"
  obtains body where "normalize_text raw = Inr body" "r = make_record p n body t md" "\<not> bad_identity p n"
proof -
  have ok: "\<not> bad_identity p n" using register_refuses [of p n raw _ st t md] assms(2) by auto
  have "\<exists>body. normalize_text raw = Inr body"
  proof (cases "normalize_text raw")
    case (Inl e)
    with register_refuses [of p n raw e st t md] assms(2) show ?thesis by auto
  qed simp
  then obtain body where body: "normalize_text raw = Inr body" by blast
  with register_accepts [OF assms(1) ok body, of t md] assms(2) ok that show ?thesis by auto
qed

lemma registered_is_found:
  assumes "invar st" "register st p n raw t md = Inr (r, st')"
    and "inj_on sha256_bytes (insert (s_content r) (contents st))" "version_key r \<notin> set (map version_key (records st))"
  shows "bind_result (list_sources st' None True) (first_match (s_source_id r) (Some (s_version_id r))) = Inr r"
proof -
  note inv' = register_invar [OF assms(1,2)]
  have "r \<in> set (records st')" using register_records [OF assms(1-3)] add_record_new [OF assms(4)] by simp
  moreover have "distinct (map version_key (sort_key order_key (records st')))"
    using keys_distinct [OF inv'] by (simp add: distinct_map_sort_key)
  ultimately show ?thesis by (simp add: list_view [OF inv'] first_match_unique)
qed

lemma history_kept:
  assumes "invar st" "register st p n raw t md = Inr (r, st')"
    and "inj_on sha256_bytes (insert (s_content r) (contents st))"
  shows "set (records st) \<subseteq> set (records st')"
  using register_records [OF assms] add_record_subset by simp

lemma step_refines:
  assumes "invar st" "inj_on sha256_bytes (contents st \<union> texts_of [c])"
  shows "invar (register_step register c st) \<and> contents (register_step register c st) \<subseteq> contents st \<union> texts_of [c]
    \<and> records (register_step register c st) = spec_step c (records st)"
proof -
  obtain p n raw t md where c: "c = (p, n, raw, t, md)" by (cases c) auto
  show ?thesis
  proof (cases "register st p n raw t md")
    case (Inl e)
    have "bad_identity p n \<or> (\<exists>e. normalize_text raw = Inl e)"
      using register_accepts [OF assms(1), of p n raw _ t md] Inl by (cases "normalize_text raw") auto
    with Inl assms(1) show ?thesis by (auto simp: c register_step_def spec_step_def)
  next
    case (Inr rs)
    obtain r st' where rs: "rs = (r, st')" by (cases rs)
    with Inr have reg: "register st p n raw t md = Inr (r, st')" by simp
    from register_result [OF assms(1) reg] obtain body where body: "normalize_text raw = Inr body"
      "r = make_record p n body t md" "\<not> bad_identity p n" by blast
    then have r: "s_content r = body" "body \<in> texts_of [c]" by (auto simp: make_record_def texts_of_def c)
    have "inj_on sha256_bytes (insert (s_content r) (contents st))"
      by (rule inj_on_subset [OF assms(2)]) (use r in auto)
    from register_records [OF assms(1) reg this] register_invar [OF assms(1) reg]
      register_contents [OF assms(1) reg] r reg body
    show ?thesis by (auto simp: c register_step_def spec_step_def)
  qed
qed

text \<open>Over a sequence of registrations the records are those of the specification.\<close>

lemma run_refines:
  "\<lbrakk>invar st; inj_on sha256_bytes (contents st \<union> texts_of cs)\<rbrakk> \<Longrightarrow>
     invar (fold (register_step register) cs st)
     \<and> records (fold (register_step register) cs st) = fold spec_step cs (records st)"
proof (induction cs arbitrary: st)
  case (Cons c cs)
  have split: "texts_of (c # cs) = texts_of [c] \<union> texts_of cs" by (auto simp: texts_of_def)
  have inj1: "inj_on sha256_bytes (contents st \<union> texts_of [c])"
    by (rule inj_on_subset [OF Cons.prems(2)]) (use split in auto)
  note step = step_refines [OF Cons.prems(1) inj1]
  then have "contents (register_step register c st) \<union> texts_of cs \<subseteq> contents st \<union> texts_of (c # cs)"
    using split by auto
  then have "inj_on sha256_bytes (contents (register_step register c st) \<union> texts_of cs)"
    using Cons.prems(2) inj_on_subset by blast
  with Cons.IH [of "register_step register c st"] step show ?case by simp
qed simp

end

end
