(* ===== verification/Store.thy ===== *)
theory Store
  imports Store_Interface
begin

text \<open>
  \<^verbatim>\<open>pmiri/store.py\<close>: the JSON-indexed \<^verbatim>\<open>LocalStore\<close> and the transactional \<^verbatim>\<open>SQLiteStore\<close>. A file or a table
  is a map; the write lock and the transactions make each operation one step. Both are shown to
  keep the contract of \<open>source_store\<close>, so they answer alike, and a migration carries every version
  over.
\<close>

section \<open>Index entries\<close>

record index_entry =
  ix_source_id :: string
  ix_version_id :: string
  ix_project_id :: string
  ix_source_name :: string
  ix_content_fingerprint :: string
  ix_capture_time :: string
  ix_metadata :: metadata

definition entry_of :: "source_record \<Rightarrow> index_entry" where
  "entry_of s =
     \<lparr>ix_source_id = s_source_id s, ix_version_id = s_version_id s, ix_project_id = s_project_id s,
      ix_source_name = s_source_name s, ix_content_fingerprint = s_content_fingerprint s,
      ix_capture_time = s_capture_time s, ix_metadata = s_metadata s\<rparr>"

definition record_of :: "index_entry \<Rightarrow> string \<Rightarrow> source_record" where
  "record_of e content =
     \<lparr>s_source_id = ix_source_id e, s_version_id = ix_version_id e, s_project_id = ix_project_id e,
      s_source_name = ix_source_name e, s_content_fingerprint = ix_content_fingerprint e,
      s_content = content, s_capture_time = ix_capture_time e, s_metadata = ix_metadata e\<rparr>"

definition entry_key :: "index_entry \<Rightarrow> string \<times> string \<times> string" where
  "entry_key e = (ix_project_id e, ix_source_id e, ix_version_id e)"

abbreviation entry_version :: "index_entry \<Rightarrow> string \<times> string" where
  "entry_version e \<equiv> (ix_source_id e, ix_version_id e)"

abbreviation entry_age :: "index_entry \<Rightarrow> string \<times> string \<times> string" where
  "entry_age e \<equiv> (ix_source_id e, ix_capture_time e, ix_version_id e)"

definition in_project :: "string option \<Rightarrow> index_entry \<Rightarrow> bool" where
  "in_project project_id e = (case project_id of None \<Rightarrow> True | Some p \<Rightarrow> ix_project_id e = p)"

definition selected_entries :: "string option \<Rightarrow> bool \<Rightarrow> index_entry list \<Rightarrow> index_entry list" where
  "selected_entries project_id include_history es =
     (let xs = filter (in_project project_id) es
      in sort_key entry_key (if include_history then xs else latest_by entry_age xs))"

definition index_json :: "source_record list \<Rightarrow> json" where
  "index_json rs = JObj
     [(''format'', JStr ''pmiri-s0''), (''version'', JInt 1),
      (''sources'', JList (map (\<lambda>s. JObj (source_public_dict s)) rs))]"

section \<open>LocalStore\<close>

datatype index_file = No_Index | Bad_Index string | Index "index_entry list"

record local_store =
  ls_index :: index_file
  ls_blobs :: "string \<rightharpoonup> string"

definition read_index :: "local_store \<Rightarrow> index_entry list result" where
  "read_index st =
     (case ls_index st of
        No_Index \<Rightarrow> Inr []
      | Bad_Index m \<Rightarrow> raise ValueError m
      | Index es \<Rightarrow> Inr es)"

text \<open>A file is written to a temporary beside it and moved into place, so a write takes effect as a whole.\<close>

definition write_index :: "index_entry list \<Rightarrow> local_store \<Rightarrow> local_store" where
  "write_index es st = st\<lparr>ls_index := Index es\<rparr>"

definition write_blob :: "string \<Rightarrow> string \<Rightarrow> local_store \<Rightarrow> local_store" where
  "write_blob fingerprint content st = st\<lparr>ls_blobs := (ls_blobs st)(fingerprint \<mapsto> content)\<rparr>"

definition local_initialize :: "local_store \<Rightarrow> local_store" where
  "local_initialize st = (if ls_index st = No_Index then write_index [] st else st)"

definition local_register ::
  "local_store \<Rightarrow> string \<Rightarrow> string \<Rightarrow> string \<Rightarrow> string \<Rightarrow> metadata \<Rightarrow> (source_record \<times> local_store) result" where
  "local_register st project_id source_name raw capture_time metadata =
     (if bad_identity project_id source_name then raise ValueError ''source_identity_invalid''
      else bind_result (normalize_text raw) (\<lambda>content.
        let r = make_record project_id source_name content capture_time metadata;
            fingerprint = s_content_fingerprint r;
            st1 = local_initialize st
        in bind_result (read_index st1) (\<lambda>es.
             if \<exists>e \<in> set es. entry_version e = version_key r then Inr (r, st1)
             else
               let keep = (case ls_blobs st1 fingerprint of None \<Rightarrow> False | Some b \<Rightarrow> sha256_bytes b = fingerprint);
                   st2 = (if keep then st1 else write_blob fingerprint content st1)
               in Inr (r, write_index (sort_key entry_key (es @ [entry_of r])) st2))))"

text \<open>
  \<^verbatim>\<open>register_bytes\<close> with its keyword arguments, \<^verbatim>\<open>register_file\<close> and \<^verbatim>\<open>ingest_directory\<close>. A missing or
  empty capture time is read from the clock. A directory is the list of the eligible files below it,
  by relative path, with the file name and the contents; each is registered at its own instant and
  the first refused one ends the loop, the earlier ones staying registered.
\<close>

definition effective_time :: "string \<Rightarrow> string option \<Rightarrow> string" where
  "effective_time now capture_time =
     (case capture_time of None \<Rightarrow> now | Some t \<Rightarrow> if t = [] then now else t)"

type_synonym 's registrar = "'s \<Rightarrow> string \<Rightarrow> string \<Rightarrow> string \<Rightarrow> string \<Rightarrow> metadata \<Rightarrow> (source_record \<times> 's) result"

definition register_file ::
  "'s registrar \<Rightarrow> string \<Rightarrow> 's \<Rightarrow> string \<Rightarrow> string \<Rightarrow> string option \<Rightarrow> string \<Rightarrow> (source_record \<times> 's) result" where
  "register_file register now st project_id file_name source_name raw =
     register st project_id
       (case source_name of None \<Rightarrow> file_name | Some n \<Rightarrow> if n = [] then file_name else n) raw
       (effective_time now None) [(''input_path'', file_name)]"

record dir_file =
  df_path :: string
  df_name :: string
  df_bytes :: string
  df_now :: string

fun ingest_files :: "'s registrar \<Rightarrow> 's \<Rightarrow> string \<Rightarrow> dir_file list \<Rightarrow> source_record list result \<times> 's" where
  "ingest_files register st project_id [] = (Inr [], st)"
| "ingest_files register st project_id (f # fs) =
     (case register_file register (df_now f) st project_id (df_name f) (Some (df_path f)) (df_bytes f) of
        Inl e \<Rightarrow> (Inl e, st)
      | Inr (r, st') \<Rightarrow>
          (case ingest_files register st' project_id fs of
             (res, st'') \<Rightarrow> (map_result (\<lambda>rs. r # rs) res, st'')))"

definition ingest_directory ::
  "'s registrar \<Rightarrow> 's \<Rightarrow> string \<Rightarrow> dir_file list option \<Rightarrow> source_record list result \<times> 's" where
  "ingest_directory register st project_id directory =
     (case directory of
        None \<Rightarrow> (raise ValueError ''ingest_root_not_directory'', st)
      | Some fs \<Rightarrow> ingest_files register st project_id (sort_key df_path fs))"

definition local_register_file where
  "local_register_file = register_file local_register"

definition local_ingest_directory where
  "local_ingest_directory = ingest_directory local_register"

definition local_record_from_entry :: "local_store \<Rightarrow> index_entry \<Rightarrow> source_record result" where
  "local_record_from_entry st e =
     (case ls_blobs st (ix_content_fingerprint e) of
        None \<Rightarrow> raise ValueError ''source_blob_missing_or_invalid''
      | Some raw \<Rightarrow>
          if \<not> valid_utf8 raw then raise ValueError ''source_blob_missing_or_invalid''
          else if sha256_bytes raw \<noteq> ix_content_fingerprint e then raise ValueError ''source_blob_fingerprint_mismatch''
          else Inr (record_of e raw))"

definition local_list_sources :: "local_store \<Rightarrow> string option \<Rightarrow> bool \<Rightarrow> source_record list result" where
  "local_list_sources st project_id include_history =
     bind_result (read_index st) (\<lambda>es.
       traverse (local_record_from_entry st) (selected_entries project_id include_history es))"

definition local_get_source :: "local_store \<Rightarrow> string \<Rightarrow> string option \<Rightarrow> source_record result" where
  "local_get_source st source_id version_id =
     bind_result (local_list_sources st None True) (first_match source_id version_id)"

text \<open>The fingerprint of the index as written; contents play no part in \<^verbatim>\<open>public_dict\<close>.\<close>

definition local_canonical_fingerprint :: "local_store \<Rightarrow> string result" where
  "local_canonical_fingerprint st =
     map_result (\<lambda>es. sha256_json (index_json (map (\<lambda>e. record_of e []) es))) (read_index st)"

section \<open>SQLiteStore\<close>

text \<open>The optional \<^verbatim>\<open>BlobCipher\<close>; its operations fail with \<^verbatim>\<open>StorageEncryptionError\<close>.\<close>

record blob_cipher =
  bc_encrypt :: "string \<Rightarrow> string \<Rightarrow> string result"
  bc_decrypt :: "string \<Rightarrow> string \<Rightarrow> string result"

record sqlite_db =
  db_version :: int
  db_blobs :: "string \<rightharpoonup> string"
  db_sources :: "index_entry list"

type_synonym sqlite_store = "sqlite_db option"

definition SCHEMA_VERSION :: int where "SCHEMA_VERSION = 1"

definition ensure_schema :: "sqlite_store \<Rightarrow> sqlite_db result" where
  "ensure_schema st =
     (case st of
        None \<Rightarrow> Inr \<lparr>db_version = SCHEMA_VERSION, db_blobs = Map.empty, db_sources = []\<rparr>
      | Some db \<Rightarrow> if db_version db \<noteq> SCHEMA_VERSION then raise ValueError ''sqlite_schema_version_unsupported'' else Inr db)"

definition sql_initialize :: "sqlite_store \<Rightarrow> sqlite_store result" where
  "sql_initialize st = map_result Some (ensure_schema st)"

definition seal_blob :: "blob_cipher option \<Rightarrow> string \<Rightarrow> string \<Rightarrow> string result" where
  "seal_blob c fingerprint plain = (case c of None \<Rightarrow> Inr plain | Some bc \<Rightarrow> bc_encrypt bc fingerprint plain)"

definition open_blob :: "blob_cipher option \<Rightarrow> string \<Rightarrow> string \<Rightarrow> string result" where
  "open_blob c fingerprint raw =
     (case c of
        None \<Rightarrow> Inr raw
      | Some bc \<Rightarrow>
          (case bc_decrypt bc fingerprint raw of
             Inl e \<Rightarrow> if fst e = StorageEncryptionError then raise ValueError ''source_blob_decryption_failed'' else Inl e
           | Inr x \<Rightarrow> Inr x))"

definition sql_register_bytes ::
  "blob_cipher option \<Rightarrow> sqlite_store \<Rightarrow> string \<Rightarrow> string \<Rightarrow> string \<Rightarrow> string \<Rightarrow> metadata
     \<Rightarrow> (source_record \<times> sqlite_store) result" where
  "sql_register_bytes c st project_id source_name raw capture_time metadata =
     (if bad_identity project_id source_name then raise ValueError ''source_identity_invalid''
      else bind_result (normalize_text raw) (\<lambda>content.
        let r = make_record project_id source_name content capture_time metadata;
            fingerprint = s_content_fingerprint r
        in bind_result (ensure_schema st) (\<lambda>db.
           bind_result (seal_blob c fingerprint content) (\<lambda>stored.
             let blobs = (case db_blobs db fingerprint of
                            Some _ \<Rightarrow> db_blobs db | None \<Rightarrow> (db_blobs db)(fingerprint \<mapsto> stored));
                 rows = (if \<exists>e \<in> set (db_sources db). entry_version e = version_key r
                         then db_sources db else db_sources db @ [entry_of r])
             in Inr (r, Some (db\<lparr>db_blobs := blobs, db_sources := rows\<rparr>))))))"

definition sql_register_file where
  "sql_register_file c = register_file (sql_register_bytes c)"

definition sql_ingest_directory where
  "sql_ingest_directory c = ingest_directory (sql_register_bytes c)"

definition sql_rows :: "sqlite_store \<Rightarrow> string option \<Rightarrow> index_entry list result" where
  "sql_rows st project_id =
     (case st of
        None \<Rightarrow> Inr []
      | Some db \<Rightarrow>
          if db_version db \<noteq> SCHEMA_VERSION then raise ValueError ''sqlite_schema_version_unsupported''
          else Inr (sort_key entry_key (filter (in_project project_id) (db_sources db))))"

definition sql_record_from_row :: "blob_cipher option \<Rightarrow> sqlite_db \<Rightarrow> index_entry \<Rightarrow> source_record result" where
  "sql_record_from_row c db e =
     (case db_blobs db (ix_content_fingerprint e) of
        None \<Rightarrow> raise ValueError ''source_blob_missing_or_invalid''
      | Some stored \<Rightarrow>
          bind_result (open_blob c (ix_content_fingerprint e) stored) (\<lambda>raw.
            if sha256_bytes raw \<noteq> ix_content_fingerprint e then raise ValueError ''source_blob_fingerprint_mismatch''
            else if \<not> valid_utf8 raw then raise ValueError ''source_blob_missing_or_invalid''
            else Inr (record_of e raw)))"

definition sql_list_sources ::
  "blob_cipher option \<Rightarrow> sqlite_store \<Rightarrow> string option \<Rightarrow> bool \<Rightarrow> source_record list result" where
  "sql_list_sources c st project_id include_history =
     bind_result (sql_rows st project_id) (\<lambda>rows.
       let chosen = sort_key entry_key (if include_history then rows else latest_by entry_age rows)
       in (case st of None \<Rightarrow> Inr [] | Some db \<Rightarrow> traverse (sql_record_from_row c db) chosen))"

definition sql_get_source :: "blob_cipher option \<Rightarrow> sqlite_store \<Rightarrow> string \<Rightarrow> string option \<Rightarrow> source_record result" where
  "sql_get_source c st source_id version_id =
     bind_result (sql_list_sources c st None True) (first_match source_id version_id)"

definition sql_canonical_fingerprint :: "blob_cipher option \<Rightarrow> sqlite_store \<Rightarrow> string result" where
  "sql_canonical_fingerprint c st = map_result (\<lambda>rs. sha256_json (index_json rs)) (sql_list_sources c st None True)"

record migration_report =
  mr_source_count :: nat
  mr_source_fingerprint :: string
  mr_target_fingerprint :: string

text \<open>
  The copy loop stops at the first refused record and leaves what it has written: an exception comes
  with the state of the target.
\<close>

fun migrate_records ::
  "blob_cipher option \<Rightarrow> source_record list \<Rightarrow> sqlite_store \<Rightarrow> unit result \<times> sqlite_store" where
  "migrate_records c [] st = (Inr (), st)"
| "migrate_records c (r # rs) st =
     (case sql_register_bytes c st (s_project_id r) (s_source_name r) (s_content r) (s_capture_time r) (s_metadata r) of
        Inl e \<Rightarrow> (Inl e, st)
      | Inr (r', st') \<Rightarrow> migrate_records c rs st')"

definition migrate_from_local_store ::
  "blob_cipher option \<Rightarrow> sqlite_store \<Rightarrow> local_store \<Rightarrow> migration_report result \<times> sqlite_store" where
  "migrate_from_local_store c st source =
     (if st \<noteq> None then (raise ValueError ''migration_target_exists'', st)
      else case bind_result (local_canonical_fingerprint source) (\<lambda>fp.
                  bind_result (local_list_sources source None True) (\<lambda>rs.
                    map_result (\<lambda>st0. (fp, rs, st0)) (sql_initialize st))) of
             Inl e \<Rightarrow> (Inl e, st)
           | Inr (source_fp, rs, st0) \<Rightarrow>
               (case migrate_records c rs st0 of
                  (Inl e, st1) \<Rightarrow> (Inl e, st1)
                | (Inr _, st1) \<Rightarrow>
                    (map_result (\<lambda>target_fp. \<lparr>mr_source_count = length rs, mr_source_fingerprint = source_fp,
                                               mr_target_fingerprint = target_fp\<rparr>)
                       (sql_canonical_fingerprint c st1), st1)))"

text \<open>
  \<^verbatim>\<open>migration_plan\<close>: the counts and the readiness it reports, for a target directory that is or is not
  empty; it reads only.
\<close>

record migration_plan_report =
  mp_source_count :: nat
  mp_project_count :: nat
  mp_source_fingerprint :: string
  mp_target_exists :: bool
  mp_target_root_non_empty :: bool
  mp_write_performed :: bool
  mp_ready_for_migration :: bool

definition migration_plan :: "sqlite_store \<Rightarrow> bool \<Rightarrow> local_store \<Rightarrow> migration_plan_report result" where
  "migration_plan st root_non_empty source =
     bind_result (local_canonical_fingerprint source) (\<lambda>fp.
       map_result (\<lambda>rs.
           \<lparr>mp_source_count = length rs, mp_project_count = length (remdups (map s_project_id rs)),
            mp_source_fingerprint = fp, mp_target_exists = (st \<noteq> None), mp_target_root_non_empty = root_non_empty,
            mp_write_performed = False, mp_ready_for_migration = (st = None \<and> \<not> root_non_empty)\<rparr>)
         (local_list_sources source None True))"

text \<open>
  \<^verbatim>\<open>backup_to\<close>: SQLite's backup copies the database; the copy is read through the same cipher and its
  fingerprint compared. \<^verbatim>\<open>restore_from_backup\<close> is a backup into a destination that must not exist.
\<close>

definition backup_to :: "blob_cipher option \<Rightarrow> sqlite_store \<Rightarrow> sqlite_store \<Rightarrow> (string \<times> sqlite_store) result" where
  "backup_to c st destination =
     (case st of
        None \<Rightarrow> raise ValueError ''sqlite_store_not_initialized''
      | Some db \<Rightarrow>
          if destination \<noteq> None then raise ValueError ''backup_destination_exists''
          else bind_result (sql_canonical_fingerprint c st) (\<lambda>source_fp.
               let target = Some db
               in bind_result (sql_canonical_fingerprint c target) (\<lambda>target_fp.
                    if source_fp \<noteq> target_fp then raise ValueError ''sqlite_backup_fingerprint_mismatch''
                    else Inr (target_fp, target))))"

definition restore_from_backup ::
  "blob_cipher option \<Rightarrow> sqlite_store \<Rightarrow> bool \<Rightarrow> (string \<times> sqlite_store) result" where
  "restore_from_backup c st destination_exists =
     (if st = None then raise ValueError ''sqlite_backup_not_initialized''
      else if destination_exists then raise ValueError ''restore_destination_exists''
      else backup_to c st None)"


section \<open>Selected entries and views\<close>

lemma record_of_simps [simp]:
  "order_key (record_of e x) = entry_key e" "version_key (record_of e x) = entry_version e"
  "record_age (record_of e x) = entry_age e" "s_project_id (record_of e x) = ix_project_id e"
  "s_content (record_of e x) = x"
  by (simp_all add: record_of_def order_key_def entry_key_def)

lemma record_entry [simp]: "record_of (entry_of r) (s_content r) = r"
  by (simp add: record_of_def entry_of_def)

lemma entry_of_simps [simp]:
  "entry_version (entry_of r) = version_key r" "entry_key (entry_of r) = order_key r"
  "ix_content_fingerprint (entry_of r) = s_content_fingerprint r"
  by (simp_all add: entry_of_def entry_key_def order_key_def)

lemma view_map:
  assumes "\<And>e. order_key (g e) = entry_key e" "\<And>e. record_age (g e) = entry_age e"
    and "\<And>e. s_project_id (g e) = ix_project_id e"
  shows "view p h (map g es) = map g (selected_entries p h es)"
proof -
  have f: "filter (\<lambda>s. case p of None \<Rightarrow> True | Some p \<Rightarrow> s_project_id s = p) (map g es) = map g (filter (in_project p) es)"
  proof (cases p)
    case None
    then have "in_project p = (\<lambda>e. True)" by (simp add: in_project_def fun_eq_iff)
    with None show ?thesis by simp
  next
    case (Some q)
    then have "in_project p = (\<lambda>e. ix_project_id e = q)" by (simp add: in_project_def fun_eq_iff)
    with Some show ?thesis by (simp add: filter_map comp_def assms(3))
  qed
  show ?thesis
    unfolding view_def Let_def selected_entries_def f
    by (simp add: sort_key_map latest_by_map assms(1,2))
qed

lemma selected_entries_subset: "set (selected_entries p h es) \<subseteq> set es"
  by (auto simp: selected_entries_def Let_def dest: latest_by_iff)

section \<open>LocalStore keeps the contract\<close>

text \<open>An entry is sound when its blob has its fingerprint and it is what \<^verbatim>\<open>register_bytes\<close> writes for the blob.\<close>

definition sound_entry :: "(string \<rightharpoonup> string) \<Rightarrow> index_entry \<Rightarrow> bool" where
  "sound_entry blobs e =
     (\<exists>raw. blobs (ix_content_fingerprint e) = Some raw \<and> normalize_text raw = Inr raw
        \<and> sha256_bytes raw = ix_content_fingerprint e
        \<and> (\<exists>n. ix_source_name e = normalize_name n
             \<and> record_of e raw = make_record (ix_project_id e) n raw (ix_capture_time e) (ix_metadata e)))"

definition local_entries :: "local_store \<Rightarrow> index_entry list" where
  "local_entries st = (case ls_index st of Index es \<Rightarrow> es | _ \<Rightarrow> [])"

definition local_invar :: "local_store \<Rightarrow> bool" where
  "local_invar st =
     ((\<forall>m. ls_index st \<noteq> Bad_Index m) \<and> sorted (map entry_key (local_entries st))
      \<and> distinct (map entry_version (local_entries st)) \<and> (\<forall>e \<in> set (local_entries st). sound_entry (ls_blobs st) e)
      \<and> (\<forall>k b. ls_blobs st k = Some b \<longrightarrow> sha256_bytes b = k \<longrightarrow> normalize_text b = Inr b))"

definition local_records :: "local_store \<Rightarrow> source_record list" where
  "local_records st = map (\<lambda>e. record_of e (the (ls_blobs st (ix_content_fingerprint e)))) (local_entries st)"

lemma normalize_text_self: "normalize_text raw = Inr raw \<Longrightarrow> valid_utf8 raw"
  by (rule normalize_text_valid)

lemma local_read_sound:
  "sound_entry (ls_blobs st) e \<Longrightarrow>
     local_record_from_entry st e = Inr (record_of e (the (ls_blobs st (ix_content_fingerprint e))))"
  by (auto simp: sound_entry_def local_record_from_entry_def normalize_text_self)

lemma read_index_local: "local_invar st \<Longrightarrow> read_index st = Inr (local_entries st)"
  by (auto simp: read_index_def local_entries_def local_invar_def split: index_file.splits)

lemma local_list_view:
  assumes "local_invar st"
  shows "local_list_sources st p h = Inr (view p h (local_records st))"
proof -
  let ?g = "\<lambda>e. record_of e (the (ls_blobs st (ix_content_fingerprint e)))"
  have "traverse (local_record_from_entry st) (selected_entries p h (local_entries st)) =
      Inr (map ?g (selected_entries p h (local_entries st)))"
    using selected_entries_subset [of p h "local_entries st"] assms
    by (intro traverse_Inr_map local_read_sound) (auto simp: local_invar_def)
  moreover have "view p h (local_records st) = map ?g (selected_entries p h (local_entries st))"
    unfolding local_records_def by (rule view_map) simp_all
  ultimately show ?thesis by (simp add: local_list_sources_def read_index_local [OF assms])
qed

lemma local_initialize_simps [simp]:
  "local_entries (local_initialize st) = local_entries st" "ls_blobs (local_initialize st) = ls_blobs st"
  "local_invar (local_initialize st) = local_invar st" "local_records (local_initialize st) = local_records st"
  by (auto simp: local_initialize_def write_index_def local_entries_def local_invar_def local_records_def)

lemma normalize_name_idem [simp]: "normalize_name (normalize_name n) = normalize_name n"
  by (simp add: normalize_name_def)

lemma make_record_simps [simp]:
  "s_content (make_record p n c t md) = c" "s_content_fingerprint (make_record p n c t md) = sha256_bytes c"
  "s_project_id (make_record p n c t md) = p" "s_source_name (make_record p n c t md) = normalize_name n"
  "s_version_id (make_record p n c t md) = ''ver_'' @ sha256_bytes c"
  "s_capture_time (make_record p n c t md) = t" "s_metadata (make_record p n c t md) = sort_key fst md"
  by (simp_all add: make_record_def)

text \<open>The entry of a new record is sound for any blob with its fingerprint.\<close>

lemma sort_key_sorted: "sorted (map f xs) \<Longrightarrow> sort_key f xs = xs"
proof (induction xs)
  case (Cons x xs)
  then have "insort_key f x xs = x # xs" by (cases xs) auto
  with Cons show ?case by simp
qed simp

lemma sound_new_entry:
  assumes "blobs (sha256_bytes c) = Some raw" "sha256_bytes raw = sha256_bytes c" "normalize_text raw = Inr raw"
  shows "sound_entry blobs (entry_of (make_record p n c t md))"
proof -
  let ?e = "entry_of (make_record p n c t md)"
  have "record_of ?e raw = make_record (ix_project_id ?e) n raw (ix_capture_time ?e) (ix_metadata ?e)"
    using assms(2) by (simp add: entry_of_def record_of_def make_record_def sort_key_sorted)
  moreover have "ix_source_name ?e = normalize_name n" by (simp add: entry_of_def)
  ultimately show ?thesis using assms unfolding sound_entry_def by auto
qed

lemma sound_entry_mono:
  assumes "sound_entry blobs e" "\<And>k b. blobs k = Some b \<Longrightarrow> sha256_bytes b = k \<Longrightarrow> blobs' k = Some b"
  shows "sound_entry blobs' e \<and> blobs' (ix_content_fingerprint e) = blobs (ix_content_fingerprint e)"
  using assms unfolding sound_entry_def by fastforce

lemma local_register_Inr:
  assumes "local_invar st" "local_register st p n raw t md = Inr (r, st')"
  obtains c where "\<not> bad_identity p n" "normalize_text raw = Inr c" "r = make_record p n c t md"
    "version_key r \<in> set (map entry_version (local_entries st)) \<and> st' = local_initialize st
     \<or> version_key r \<notin> set (map entry_version (local_entries st))
       \<and> (\<exists>b. ls_blobs st' = b \<and> local_entries st' = sort_key entry_key (local_entries st @ [entry_of r])
           \<and> ls_index st' = Index (local_entries st')
           \<and> (if \<exists>x. ls_blobs st (sha256_bytes c) = Some x \<and> sha256_bytes x = sha256_bytes c
              then b = ls_blobs st else b = (ls_blobs st)(sha256_bytes c \<mapsto> c)))"
proof -
  from assms(2) have ok: "\<not> bad_identity p n" by (auto simp: local_register_def split: if_splits)
  with assms(2) obtain c where c: "normalize_text raw = Inr c"
    by (cases "normalize_text raw") (auto simp: local_register_def)
  have ri: "read_index (local_initialize st) = Inr (local_entries st)"
    using read_index_local [of "local_initialize st"] assms(1) by simp
  let ?r = "make_record p n c t md"
  let ?keep = "case ls_blobs st (sha256_bytes c) of None \<Rightarrow> False | Some b \<Rightarrow> sha256_bytes b = sha256_bytes c"
  have res: "local_register st p n raw t md =
     (if \<exists>e \<in> set (local_entries st). entry_version e = version_key ?r then Inr (?r, local_initialize st)
      else Inr (?r, write_index (sort_key entry_key (local_entries st @ [entry_of ?r]))
                      (if ?keep then local_initialize st else write_blob (sha256_bytes c) c (local_initialize st))))"
    unfolding local_register_def c ri if_not_P [OF ok] bind_result.simps Let_def make_record_simps local_initialize_simps ..
  have ex: "(\<exists>e \<in> set (local_entries st). entry_version e = version_key ?r) \<longleftrightarrow>
      version_key ?r \<in> set (map entry_version (local_entries st))" by force
  have kp: "?keep \<longleftrightarrow> (\<exists>x. ls_blobs st (sha256_bytes c) = Some x \<and> sha256_bytes x = sha256_bytes c)"
    by (simp split: option.splits)
  show ?thesis
  proof (cases "version_key ?r \<in> set (map entry_version (local_entries st))")
    case True
    with res ex assms(2) have "r = ?r" "st' = local_initialize st" by auto
    with True that ok c show ?thesis by blast
  next
    case False
    with res ex assms(2) have st': "r = ?r" "ls_blobs st' = (if ?keep then ls_blobs st else (ls_blobs st)(sha256_bytes c \<mapsto> c))"
      "ls_index st' = Index (sort_key entry_key (local_entries st @ [entry_of ?r]))" by (auto simp: write_index_def write_blob_def)
    then have "local_entries st' = sort_key entry_key (local_entries st @ [entry_of ?r])" by (simp add: local_entries_def)
    with False st' kp that [OF ok c] show ?thesis by auto
  qed
qed


lemma local_blobs_kept:
  assumes "if \<exists>x. m (sha256_bytes c) = Some x \<and> sha256_bytes x = sha256_bytes c
           then b = m else b = m(sha256_bytes c \<mapsto> c)"
  shows "\<And>k x. m k = Some x \<Longrightarrow> sha256_bytes x = k \<Longrightarrow> b k = Some x"
    and "\<exists>x. b (sha256_bytes c) = Some x \<and> sha256_bytes x = sha256_bytes c"
    and "ran b \<subseteq> insert c (ran m)"
    and "b k = Some x \<Longrightarrow> x = c \<or> m k = Some x"
  using assms by (auto split: if_splits simp: ran_def)

lemma version_keys_records: "map version_key (local_records st) = map entry_version (local_entries st)"
  by (simp add: local_records_def comp_def)

lemma local_step:
  assumes inv: "local_invar st" and reg: "local_register st p n raw t md = Inr (r, st')"
  shows "local_invar st'" "ran (ls_blobs st') \<subseteq> insert (s_content r) (ran (ls_blobs st))"
    and "inj_on sha256_bytes (insert (s_content r) (ran (ls_blobs st))) \<Longrightarrow> local_records st' = add_record r (local_records st)"
proof -
  from local_register_Inr [OF inv reg] obtain c where c: "normalize_text raw = Inr c" "r = make_record p n c t md"
    and dich: "version_key r \<in> set (map entry_version (local_entries st)) \<and> st' = local_initialize st
     \<or> version_key r \<notin> set (map entry_version (local_entries st))
       \<and> (\<exists>b. ls_blobs st' = b \<and> local_entries st' = sort_key entry_key (local_entries st @ [entry_of r])
           \<and> ls_index st' = Index (local_entries st')
           \<and> (if \<exists>x. ls_blobs st (sha256_bytes c) = Some x \<and> sha256_bytes x = sha256_bytes c
              then b = ls_blobs st else b = (ls_blobs st)(sha256_bytes c \<mapsto> c)))" by blast
  have rc: "s_content r = c" "s_content_fingerprint r = sha256_bytes c" by (simp_all add: c)
  from dich consider
      (old) "version_key r \<in> set (map entry_version (local_entries st))" "st' = local_initialize st"
    | (new) "version_key r \<notin> set (map entry_version (local_entries st))"
        "local_entries st' = sort_key entry_key (local_entries st @ [entry_of r])" "ls_index st' = Index (local_entries st')"
        "if \<exists>x. ls_blobs st (sha256_bytes c) = Some x \<and> sha256_bytes x = sha256_bytes c
              then ls_blobs st' = ls_blobs st else ls_blobs st' = (ls_blobs st)(sha256_bytes c \<mapsto> c)"
    by blast
  then have "local_invar st' \<and> ran (ls_blobs st') \<subseteq> insert c (ran (ls_blobs st))
    \<and> (inj_on sha256_bytes (insert c (ran (ls_blobs st))) \<longrightarrow> local_records st' = add_record r (local_records st))"
  proof cases
    case old
    with inv show ?thesis by (auto simp: add_record_def version_keys_records simp del: set_map)
  next
    case new
    note kept = local_blobs_kept [OF new(4)]
    have snd: "sound_entry (ls_blobs st) e" if "e \<in> set (local_entries st)" for e using inv that by (simp add: local_invar_def)
    have old: "sound_entry (ls_blobs st') e \<and> ls_blobs st' (ix_content_fingerprint e) = ls_blobs st (ix_content_fingerprint e)"
      if "e \<in> set (local_entries st)" for e
      by (rule sound_entry_mono [OF snd [OF that]]) (rule kept(1))
    have norm: "normalize_text x = Inr x" if "ls_blobs st' k = Some x" "sha256_bytes x = k" for k x
      using kept(4) [OF that(1)] that inv normalize_text_idem [OF c(1)] by (auto simp: local_invar_def)
    obtain x where x: "ls_blobs st' (sha256_bytes c) = Some x" "sha256_bytes x = sha256_bytes c" using kept(2) by blast
    have "sound_entry (ls_blobs st') (entry_of r)"
      unfolding c(2) by (rule sound_new_entry [where raw = x]) (rule x(1), rule x(2), rule norm [OF x])
    with old have sound: "sound_entry (ls_blobs st') e" if "e \<in> set (local_entries st')" for e
      using that new(2) by auto
    have "distinct (map entry_version (local_entries st'))"
      unfolding new(2) using new(1) inv by (auto simp: distinct_map_sort_key local_invar_def)
    moreover have "sorted (map entry_key (local_entries st'))" unfolding new(2) by simp
    ultimately have inv': "local_invar st'" using new(3) sound norm by (auto simp: local_invar_def)
    have "local_records st' = add_record r (local_records st)" if inj: "inj_on sha256_bytes (insert c (ran (ls_blobs st)))"
    proof -
      have "x \<in> insert c (ran (ls_blobs st))" using kept(4) [OF x(1)] by (auto simp: ran_def)
      then have "x = c" using inj_onD [OF inj x(2)] by blast
      let ?g = "\<lambda>e. record_of e (the (ls_blobs st (ix_content_fingerprint e)))"
      let ?g' = "\<lambda>e. record_of e (the (ls_blobs st' (ix_content_fingerprint e)))"
      have gs: "map ?g' (local_entries st @ [entry_of r]) = map ?g (local_entries st) @ [r]"
        using old x(1) rc \<open>x = c\<close> record_entry [of r] by auto
      have "local_records st' = sort_key order_key (local_records st @ [r])"
        unfolding local_records_def new(2) gs [symmetric] sort_key_map record_of_simps ..
      with new(1) show ?thesis by (simp add: add_record_def version_keys_records del: set_map)
    qed
    with inv' kept(3) show ?thesis by simp
  qed
  with rc show "local_invar st'" "ran (ls_blobs st') \<subseteq> insert (s_content r) (ran (ls_blobs st))"
    "inj_on sha256_bytes (insert (s_content r) (ran (ls_blobs st))) \<Longrightarrow> local_records st' = add_record r (local_records st)"
    by simp_all
qed

lemma local_register_accepts:
  assumes "local_invar st" "\<not> bad_identity p n" "normalize_text raw = Inr body"
  shows "\<exists>st'. local_register st p n raw t md = Inr (make_record p n body t md, st')"
proof -
  have "read_index (local_initialize st) = Inr (local_entries st)"
    using read_index_local [of "local_initialize st"] assms(1) by simp
  with assms show ?thesis by (auto simp: local_register_def Let_def)
qed

interpretation local_files:
  source_store local_register local_list_sources local_records "\<lambda>st. ran (ls_blobs st)" local_invar
proof (unfold_locales, goal_cases)
  case (2 st)
  then show ?case by (simp only: version_keys_records) (simp add: local_invar_def)
next
  case (4 p n raw e st t md)
  then show ?case by (auto simp: local_register_def raise_def)
qed (simp_all add: local_list_view local_register_accepts local_step)

section \<open>SQLiteStore keeps the contract\<close>

text \<open>What the store needs of the cipher: it can seal any text under its fingerprint, and opening gives it back.\<close>

definition cipher_law :: "blob_cipher option \<Rightarrow> bool" where
  "cipher_law c = (\<forall>x. \<exists>s. seal_blob c (sha256_bytes x) x = Inr s \<and> open_blob c (sha256_bytes x) s = Inr x)"

definition opened :: "blob_cipher option \<Rightarrow> sqlite_db \<Rightarrow> string \<rightharpoonup> string" where
  "opened c db k = (case db_blobs db k of None \<Rightarrow> None | Some s \<Rightarrow> (case open_blob c k s of Inl e \<Rightarrow> None | Inr x \<Rightarrow> Some x))"

definition db_invar :: "blob_cipher option \<Rightarrow> sqlite_db \<Rightarrow> bool" where
  "db_invar c db =
     (db_version db = SCHEMA_VERSION \<and> distinct (map entry_version (db_sources db))
      \<and> (\<forall>e \<in> set (db_sources db). sound_entry (opened c db) e)
      \<and> (\<forall>k s. db_blobs db k = Some s \<longrightarrow>
             (\<exists>x. open_blob c k s = Inr x \<and> sha256_bytes x = k \<and> normalize_text x = Inr x)))"

definition sql_invar :: "blob_cipher option \<Rightarrow> sqlite_store \<Rightarrow> bool" where
  "sql_invar c st = (case st of None \<Rightarrow> True | Some db \<Rightarrow> db_invar c db)"

definition db_record :: "blob_cipher option \<Rightarrow> sqlite_db \<Rightarrow> index_entry \<Rightarrow> source_record" where
  "db_record c db e = record_of e (the (opened c db (ix_content_fingerprint e)))"

definition sql_records :: "blob_cipher option \<Rightarrow> sqlite_store \<Rightarrow> source_record list" where
  "sql_records c st = (case st of None \<Rightarrow> [] | Some db \<Rightarrow> sort_key order_key (map (db_record c db) (db_sources db)))"

definition sql_contents :: "blob_cipher option \<Rightarrow> sqlite_store \<Rightarrow> string set" where
  "sql_contents c st = (case st of None \<Rightarrow> {} | Some db \<Rightarrow> ran (opened c db))"

lemma db_record_simps [simp]:
  "order_key (db_record c db e) = entry_key e" "version_key (db_record c db e) = entry_version e"
  "record_age (db_record c db e) = entry_age e" "s_project_id (db_record c db e) = ix_project_id e"
  by (simp_all add: db_record_def del: prod.inject)

lemma sql_read_sound:
  assumes "sound_entry (opened c db) e"
  shows "sql_record_from_row c db e = Inr (db_record c db e)"
proof -
  from assms obtain raw where raw: "opened c db (ix_content_fingerprint e) = Some raw" "normalize_text raw = Inr raw"
    "sha256_bytes raw = ix_content_fingerprint e" by (auto simp: sound_entry_def)
  from raw(1) obtain s where "db_blobs db (ix_content_fingerprint e) = Some s" "open_blob c (ix_content_fingerprint e) s = Inr raw"
    by (auto simp: opened_def split: option.splits sum.splits)
  with raw show ?thesis by (simp add: sql_record_from_row_def db_record_def normalize_text_self)
qed

lemma selected_entries_sorted:
  "selected_entries p h (sort_key entry_key es) =
     (let xs = sort_key entry_key (filter (in_project p) es)
      in sort_key entry_key (if h then xs else latest_by entry_age xs))"
  by (simp add: selected_entries_def sort_key_filter)

lemma sql_list_view:
  assumes "sql_invar c st"
  shows "sql_list_sources c st p h = Inr (view p h (sql_records c st))"
proof (cases st)
  case None
  then show ?thesis
    by (simp add: sql_list_sources_def sql_rows_def sql_records_def view_def latest_by_def Let_def cong: option.case_cong)
next
  case (Some db)
  with assms have inv: "db_invar c db" by (simp add: sql_invar_def)
  let ?es = "sort_key entry_key (db_sources db)"
  have "sql_list_sources c st p h = traverse (sql_record_from_row c db) (selected_entries p h ?es)"
    using inv Some by (simp add: sql_list_sources_def sql_rows_def db_invar_def selected_entries_sorted)
  also have "\<dots> = Inr (map (db_record c db) (selected_entries p h ?es))"
    using selected_entries_subset [of p h ?es] inv
    by (intro traverse_Inr_map sql_read_sound) (auto simp: db_invar_def)
  also have "map (db_record c db) (selected_entries p h ?es) = view p h (map (db_record c db) ?es)"
    by (rule view_map [symmetric]) simp_all
  also have "map (db_record c db) ?es = sql_records c st"
    by (simp add: sql_records_def Some sort_key_map)
  finally show ?thesis .
qed

lemma ensure_schema_invar:
  assumes "sql_invar c st"
  obtains db where "ensure_schema st = Inr db" "db_invar c db" "sql_records c (Some db) = sql_records c st"
    "sql_contents c (Some db) = sql_contents c st"
proof (cases st)
  case None
  let ?db = "\<lparr>db_version = SCHEMA_VERSION, db_blobs = Map.empty, db_sources = []\<rparr>"
  have "opened c ?db = Map.empty" by (simp add: opened_def fun_eq_iff)
  with None that [of ?db] show ?thesis by (simp add: ensure_schema_def db_invar_def sql_records_def sql_contents_def)
next
  case (Some db)
  with assms that [of db] show ?thesis by (simp add: ensure_schema_def sql_invar_def db_invar_def)
qed

text \<open>The database after a registration of the text \<open>x\<close>, stored as \<open>s\<close>.\<close>

definition db_after :: "sqlite_db \<Rightarrow> source_record \<Rightarrow> string \<Rightarrow> sqlite_db" where
  "db_after db r s = db\<lparr>
     db_blobs := (case db_blobs db (s_content_fingerprint r) of
                    Some _ \<Rightarrow> db_blobs db | None \<Rightarrow> (db_blobs db)(s_content_fingerprint r \<mapsto> s)),
     db_sources := (if \<exists>e \<in> set (db_sources db). entry_version e = version_key r
                    then db_sources db else db_sources db @ [entry_of r])\<rparr>"

lemma db_after_sources: "set (db_sources (db_after db r s)) \<subseteq> insert (entry_of r) (set (db_sources db))"
  by (auto simp: db_after_def)

lemma sql_register_db:
  "\<lbrakk>\<not> bad_identity p n; normalize_text raw = Inr x; ensure_schema st = Inr db; seal_blob c (sha256_bytes x) x = Inr s\<rbrakk> \<Longrightarrow>
     sql_register_bytes c st p n raw t md = Inr (make_record p n x t md, Some (db_after db (make_record p n x t md) s))"
  by (simp add: sql_register_bytes_def db_after_def Let_def)

lemma sql_register_Inr:
  assumes "sql_invar c st" "sql_register_bytes c st p n raw t md = Inr (r, st')" "cipher_law c"
  obtains x s db where "normalize_text raw = Inr x" "r = make_record p n x t md" "ensure_schema st = Inr db"
    "db_invar c db" "sql_records c (Some db) = sql_records c st" "sql_contents c (Some db) = sql_contents c st"
    "open_blob c (sha256_bytes x) s = Inr x" "st' = Some (db_after db r s)"
proof -
  from assms(2) have ok: "\<not> bad_identity p n" by (auto simp: sql_register_bytes_def split: if_splits)
  with assms(2) obtain x where x: "normalize_text raw = Inr x"
    by (cases "normalize_text raw") (auto simp: sql_register_bytes_def)
  from ensure_schema_invar [OF assms(1)] obtain db where db: "ensure_schema st = Inr db" "db_invar c db"
    "sql_records c (Some db) = sql_records c st" "sql_contents c (Some db) = sql_contents c st" by blast
  from assms(3) obtain s where s: "seal_blob c (sha256_bytes x) x = Inr s" "open_blob c (sha256_bytes x) s = Inr x"
    unfolding cipher_law_def by blast
  show ?thesis
    using that [OF x _ db(1) db(2) db(3) db(4) s(2)] sql_register_db [OF ok x db(1) s(1), of t md] assms(2) by simp
qed

lemma opened_after:
  assumes inv: "db_invar c db" and s: "open_blob c (sha256_bytes x) s = Inr x" and r: "s_content_fingerprint r = sha256_bytes x"
  shows "\<And>k y. opened c db k = Some y \<Longrightarrow> opened c (db_after db r s) k = Some y"
    and "\<exists>y. opened c (db_after db r s) (sha256_bytes x) = Some y \<and> sha256_bytes y = sha256_bytes x"
    and "opened c (db_after db r s) k = Some y \<Longrightarrow> y = x \<or> opened c db k = Some y"
proof -
  show "opened c (db_after db r s) k = Some y" if "opened c db k = Some y" for k y
    using that by (auto simp: opened_def db_after_def r split: option.splits)
  show "\<exists>y. opened c (db_after db r s) (sha256_bytes x) = Some y \<and> sha256_bytes y = sha256_bytes x"
  proof (cases "db_blobs db (sha256_bytes x)")
    case None
    then show ?thesis by (simp add: opened_def db_after_def r s)
  next
    case (Some b)
    with inv obtain y where "open_blob c (sha256_bytes x) b = Inr y" "sha256_bytes y = sha256_bytes x"
      unfolding db_invar_def by blast
    with Some show ?thesis by (simp add: opened_def db_after_def r)
  qed
  show "y = x \<or> opened c db k = Some y" if "opened c (db_after db r s) k = Some y"
    using that s by (auto simp: opened_def db_after_def r split: option.splits if_splits)
qed

lemma opened_normal:
  "db_invar c db \<Longrightarrow> opened c db k = Some y \<Longrightarrow> sha256_bytes y = k \<and> normalize_text y = Inr y"
  unfolding db_invar_def opened_def by (fastforce split: option.splits sum.splits)

lemma db_after_invar:
  assumes inv: "db_invar c db" and s: "open_blob c (sha256_bytes x) s = Inr x"
    and r: "r = make_record p n x t md" "normalize_text raw = Inr x"
  shows "db_invar c (db_after db r s)"
proof -
  have fp: "s_content_fingerprint r = sha256_bytes x" by (simp add: r)
  note kept = opened_after [OF inv s fp]
  let ?db = "db_after db r s"
  have nx: "normalize_text x = Inr x" by (rule normalize_text_idem [OF r(2)])
  have old: "sound_entry (opened c ?db) e" if "e \<in> set (db_sources db)" for e
    using sound_entry_mono [of "opened c db" e "opened c ?db"] that inv kept(1) by (auto simp: db_invar_def)
  obtain y where y: "opened c ?db (sha256_bytes x) = Some y" "sha256_bytes y = sha256_bytes x" using kept(2) by blast
  have ny: "normalize_text y = Inr y" using kept(3) [OF y(1)] opened_normal [OF inv] nx by auto
  have "sound_entry (opened c ?db) (entry_of r)"
    unfolding r(1) by (rule sound_new_entry [where raw = y]) (use y ny r(1) in simp_all)
  with old db_after_sources [of db r s] have "\<forall>e \<in> set (db_sources ?db). sound_entry (opened c ?db) e" by blast
  moreover have "distinct (map entry_version (db_sources ?db))"
    using inv by (auto simp: db_after_def db_invar_def)
  moreover have "\<exists>z. open_blob c k b = Inr z \<and> sha256_bytes z = k \<and> normalize_text z = Inr z" if b: "db_blobs ?db k = Some b" for k b
  proof (cases "db_blobs db k = Some b")
    case True
    with inv show ?thesis unfolding db_invar_def by blast
  next
    case False
    with b have "k = sha256_bytes x" "b = s" by (auto simp: db_after_def fp split: option.splits if_splits)
    with s nx show ?thesis by simp
  qed
  ultimately show ?thesis using inv by (simp add: db_invar_def) (simp add: db_after_def)
qed

lemma db_after_records:
  assumes inv: "db_invar c db" and s: "open_blob c (sha256_bytes x) s = Inr x" and r: "r = make_record p n x t md"
    and inj: "inj_on sha256_bytes (insert x (ran (opened c db)))"
  shows "sql_records c (Some (db_after db r s)) = add_record r (sql_records c (Some db))"
proof -
  have fp: "s_content_fingerprint r = sha256_bytes x" "s_content r = x" by (simp_all add: r)
  let ?db = "db_after db r s"
  note kept = opened_after [OF inv s fp(1)]
  have old: "map (db_record c ?db) (db_sources db) = map (db_record c db) (db_sources db)"
  proof (rule map_cong [OF refl])
    fix e assume "e \<in> set (db_sources db)"
    with inv obtain y where "opened c db (ix_content_fingerprint e) = Some y"
      unfolding db_invar_def sound_entry_def by blast
    with kept(1) [OF this] show "db_record c ?db e = db_record c db e" by (simp add: db_record_def)
  qed
  obtain y where y: "opened c ?db (sha256_bytes x) = Some y" "sha256_bytes y = sha256_bytes x" using kept(2) by blast
  then have "y \<in> insert x (ran (opened c db))" using kept(3) by (auto simp: ran_def)
  then have "y = x" using inj_onD [OF inj y(2)] by blast
  then have new: "db_record c ?db (entry_of r) = r" using y(1) fp record_entry [of r] by (simp add: db_record_def)
  have keys: "set (map version_key (sql_records c (Some db))) = set (map entry_version (db_sources db))"
    by (simp add: sql_records_def image_image)
  show ?thesis
  proof (cases "\<exists>e \<in> set (db_sources db). entry_version e = version_key r")
    case True
    then have "version_key r \<in> set (map entry_version (db_sources db))" by force
    moreover have "db_sources ?db = db_sources db" unfolding db_after_def using True by simp
    ultimately show ?thesis unfolding add_record_def keys by (simp only: if_True) (simp add: sql_records_def old)
  next
    case False
    then have out: "version_key r \<notin> set (map entry_version (db_sources db))" by force
    have src: "db_sources ?db = db_sources db @ [entry_of r]" unfolding db_after_def using False by simp
    let ?xs = "map (db_record c db) (db_sources db)"
    have "inj_on order_key (set (?xs @ [r]))"
    proof -
      have "distinct (map version_key (?xs @ [r]))" using inv out by (simp add: db_invar_def comp_def)
      then have "inj_on version_key (set (?xs @ [r]))" by (simp only: distinct_map)
      then show ?thesis by (fastforce simp: inj_on_def order_key_def)
    qed
    from sort_key_append_sorted [OF this] out show ?thesis
      unfolding add_record_def keys by (simp add: sql_records_def src old new)
  qed
qed

lemma sql_step:
  assumes "cipher_law c" "sql_invar c st" "sql_register_bytes c st p n raw t md = Inr (r, st')"
  shows "sql_invar c st'" "sql_contents c st' \<subseteq> insert (s_content r) (sql_contents c st)"
    and "inj_on sha256_bytes (insert (s_content r) (sql_contents c st)) \<Longrightarrow> sql_records c st' = add_record r (sql_records c st)"
proof -
  from sql_register_Inr [OF assms(2,3,1)] obtain x s db where x: "normalize_text raw = Inr x" "r = make_record p n x t md"
    and db: "db_invar c db" "sql_records c (Some db) = sql_records c st" "sql_contents c (Some db) = sql_contents c st"
    and s: "open_blob c (sha256_bytes x) s = Inr x" and st': "st' = Some (db_after db r s)" by metis
  show "sql_invar c st'" using db_after_invar [OF db(1) s x(2,1)] by (simp add: st' sql_invar_def)
  have fp: "s_content_fingerprint r = sha256_bytes x" "s_content r = x" by (simp_all add: x)
  show "sql_contents c st' \<subseteq> insert (s_content r) (sql_contents c st)"
    using opened_after(3) [OF db(1) s fp(1)] unfolding db(3) [symmetric]
    by (auto simp: sql_contents_def st' ran_def fp)
  show "sql_records c st' = add_record r (sql_records c st)"
    if "inj_on sha256_bytes (insert (s_content r) (sql_contents c st))"
    using db_after_records [OF db(1) s x(2)] that db(2) unfolding db(3) [symmetric] by (simp add: st' fp sql_contents_def)
qed

lemma sql_source_store:
  assumes "cipher_law c"
  shows "source_store (sql_register_bytes c) (sql_list_sources c) (sql_records c) (sql_contents c) (sql_invar c)"
proof (unfold_locales, goal_cases)
  case (2 st)
  then show ?case
    by (cases st) (simp_all add: sql_invar_def db_invar_def sql_records_def distinct_map_sort_key comp_def)
next
  case (3 st p n raw body t md)
  from ensure_schema_invar [OF 3(1)] obtain db where db: "ensure_schema st = Inr db" by blast
  from assms obtain s where "seal_blob c (sha256_bytes body) body = Inr s" unfolding cipher_law_def by blast
  from sql_register_db [OF 3(2,3) db this] show ?case by blast
next
  case (4 p n raw e st t md)
  then show ?case by (auto simp: sql_register_bytes_def raise_def)
qed (simp_all add: sql_list_view sql_step [OF assms])

lemma cipher_law_None: "cipher_law None"
  by (simp add: cipher_law_def seal_blob_def open_blob_def)

interpretation sqlite_files: source_store "sql_register_bytes None" "sql_list_sources None" "sql_records None"
  "sql_contents None" "sql_invar None"
  by (rule sql_source_store [OF cipher_law_None])

end
