(* ===== verification/Store_Properties.thy ===== *)
theory Store_Properties
  imports Store
begin

text \<open>
  The properties of the source stores: both answer as the specification of the contract says, a
  registered version is found again, every listed text has its fingerprint, the listing shows the
  latest version of each source of the project, and a migration carries every version over or leaves
  a target that refuses to be migrated into again.
\<close>

section \<open>Fresh stores\<close>

definition fresh_local :: local_store where
  "fresh_local = \<lparr>ls_index = No_Index, ls_blobs = Map.empty\<rparr>"

definition fresh_sqlite :: sqlite_store where
  "fresh_sqlite = None"

lemma fresh_local_facts [simp]:
  "local_invar fresh_local" "ls_blobs fresh_local = Map.empty" "local_records fresh_local = []" "local_entries fresh_local = []"
  by (simp_all add: fresh_local_def local_invar_def local_entries_def local_records_def)

lemma fresh_sqlite_facts [simp]:
  "sql_invar c fresh_sqlite" "sql_contents c fresh_sqlite = {}" "sql_records c fresh_sqlite = []"
  by (simp_all add: fresh_sqlite_def sql_invar_def sql_contents_def sql_records_def)

text \<open>Two registrations of one text under two names of a project, used by the witnesses.\<close>

definition sample_registrations :: "registration list" where
  "sample_registrations =
     [(''alpha'', ''a.md'', ''hello'', ''2026-01-01T00:00:00Z'', []),
      (''alpha'', ''b.md'', ''hello'', ''2026-01-02T00:00:00Z'', [])]"

lemma sample_text: "normalize_text ''hello'' = Inr ''hello''"
  by code_simp

lemma sample_texts: "texts_of sample_registrations = {''hello''}"
  by (auto simp: texts_of_def sample_registrations_def sample_text)

section \<open>Refinement of the contract, and agreement of the two stores\<close>

text \<open>
  C24. Over any sequence of registrations whose texts have distinct fingerprints, both stores answer
  every listing as the list specification does, whatever cipher the SQLite store uses: the
  JSON-indexed store and the SQLite store are interchangeable.
\<close>

theorem stores_agree:
  assumes "cipher_law c" "inj_on sha256_bytes (texts_of cs)"
  shows "local_list_sources (fold (register_step local_register) cs fresh_local) p h = Inr (view p h (fold spec_step cs []))
    \<and> sql_list_sources c (fold (register_step (sql_register_bytes c)) cs fresh_sqlite) p h = Inr (view p h (fold spec_step cs []))"
proof -
  have "local_invar (fold (register_step local_register) cs fresh_local)
      \<and> local_records (fold (register_step local_register) cs fresh_local) = fold spec_step cs []"
    using local_files.run_refines [of fresh_local cs] assms(2) by simp
  moreover have "sql_invar c (fold (register_step (sql_register_bytes c)) cs fresh_sqlite)
      \<and> sql_records c (fold (register_step (sql_register_bytes c)) cs fresh_sqlite) = fold spec_step cs []"
    using source_store.run_refines [OF sql_source_store [OF assms(1)], of fresh_sqlite cs] assms(2) by simp
  ultimately show ?thesis by (simp add: local_list_view sql_list_view)
qed

theorem stores_agree_witness:
  "local_list_sources (fold (register_step local_register) sample_registrations fresh_local) (Some ''alpha'') False
     = sql_list_sources None (fold (register_step (sql_register_bytes None)) sample_registrations fresh_sqlite) (Some ''alpha'') False"
  using stores_agree [OF cipher_law_None, of sample_registrations "Some ''alpha''" False] by (simp add: sample_texts)

section \<open>A registered version is found again\<close>

text \<open>
  A version registered in the SQLite store is what \<^verbatim>\<open>get_source\<close> returns for its identifiers, and
  every version listed before is still listed, unchanged.
\<close>

theorem registered_version_found:
  assumes "cipher_law c" "sql_invar c st" "sql_register_bytes c st p n raw t md = Inr (r, st')"
    and "inj_on sha256_bytes (insert (s_content r) (sql_contents c st))"
    and "version_key r \<notin> set (map version_key (sql_records c st))"
  shows "sql_get_source c st' (s_source_id r) (Some (s_version_id r)) = Inr r
    \<and> (\<forall>rs. sql_list_sources c st None True = Inr rs \<longrightarrow>
         (\<exists>rs'. sql_list_sources c st' None True = Inr rs' \<and> set rs' = insert r (set rs)))"
proof -
  note store = sql_source_store [OF assms(1)]
  note inv' = source_store.register_invar [OF store assms(2,3)]
  have "sql_records c st' = add_record r (sql_records c st)"
    by (rule source_store.register_records [OF store assms(2-4)])
  with assms(5) have "set (sql_records c st') = insert r (set (sql_records c st))"
    by (simp add: add_record_def del: set_map)
  then show ?thesis
    using source_store.registered_is_found [OF store assms(2-5)]
    by (simp add: sql_get_source_def sql_list_view [OF assms(2)] sql_list_view [OF inv'])
qed

theorem registered_version_found_witness:
  "\<exists>r st'. sql_register_bytes None fresh_sqlite ''alpha'' ''a.md'' ''hello'' ''2026-01-01T00:00:00Z'' [] = Inr (r, st')
     \<and> sql_get_source None st' (s_source_id r) (Some (s_version_id r)) = Inr r"
proof -
  have "\<not> bad_identity ''alpha'' ''a.md''" by code_simp
  from sqlite_files.register_accepts [OF _ this sample_text, of fresh_sqlite "''2026-01-01T00:00:00Z''" "[]"]
  obtain st' where reg: "sql_register_bytes None fresh_sqlite ''alpha'' ''a.md'' ''hello'' ''2026-01-01T00:00:00Z'' [] =
      Inr (make_record ''alpha'' ''a.md'' ''hello'' ''2026-01-01T00:00:00Z'' [], st')" by auto
  from registered_version_found [OF cipher_law_None _ this] have
    "sql_get_source None st' (s_source_id (make_record ''alpha'' ''a.md'' ''hello'' ''2026-01-01T00:00:00Z'' []))
       (Some (s_version_id (make_record ''alpha'' ''a.md'' ''hello'' ''2026-01-01T00:00:00Z'' [])))
      = Inr (make_record ''alpha'' ''a.md'' ''hello'' ''2026-01-01T00:00:00Z'' [])"
    by simp
  with reg show ?thesis by blast
qed

section \<open>What a listing returns\<close>

text \<open>
  C32. Whatever is on disk, a text that either store returns decodes as UTF-8 and has the fingerprint
  recorded for it: a blob that was altered, exchanged or cannot be decrypted is an error, never an
  answer.
\<close>

lemma traverse_member: "traverse f xs = Inr ys \<Longrightarrow> y \<in> set ys \<Longrightarrow> \<exists>x \<in> set xs. f x = Inr y"
  by (force simp: traverse_Inr_iff in_set_conv_nth)

theorem listed_text_has_fingerprint:
  assumes "local_list_sources ls p h = Inr rs \<or> sql_list_sources c st p h = Inr rs" "r \<in> set rs"
  shows "sha256_bytes (s_content r) = s_content_fingerprint r \<and> valid_utf8 (s_content r)"
  using assms(1)
proof
  assume "local_list_sources ls p h = Inr rs"
  with assms(2) obtain e where "local_record_from_entry ls e = Inr r"
    by (auto simp: local_list_sources_def result_simps dest: traverse_member)
  then show ?thesis by (auto simp: local_record_from_entry_def record_of_def split: option.splits if_splits)
next
  assume "sql_list_sources c st p h = Inr rs"
  with assms(2) obtain db es where "traverse (sql_record_from_row c db) es = Inr rs"
    by (auto simp: sql_list_sources_def result_simps Let_def split: option.splits)
  from traverse_member [OF this assms(2)] obtain e where "sql_record_from_row c db e = Inr r" by blast
  then show ?thesis
    by (auto simp: sql_record_from_row_def record_of_def result_simps split: option.splits if_splits)
qed

theorem listed_text_has_fingerprint_witness:
  "\<exists>st r. sql_list_sources None st None True = Inr [r] \<and> sha256_bytes (s_content r) = s_content_fingerprint r"
proof -
  have "\<not> bad_identity ''alpha'' ''a.md''" by code_simp
  from sqlite_files.register_accepts [OF _ this sample_text, of fresh_sqlite "''2026-01-01T00:00:00Z''" "[]"]
  obtain r st' where reg: "sql_register_bytes None fresh_sqlite ''alpha'' ''a.md'' ''hello'' ''2026-01-01T00:00:00Z'' [] = Inr (r, st')" by auto
  then have "sql_list_sources None st' None True = Inr [r]"
    using sql_list_view [OF sql_step(1) [OF cipher_law_None _ reg]] sql_step(3) [OF cipher_law_None _ reg]
    by (simp add: add_record_def)
  with listed_text_has_fingerprint [of fresh_local None True "[r]" None st' r] show ?thesis by auto
qed

text \<open>
  A listing for a project without history returns, in order, versions of that project only, one
  for each source, and no stored version of that source in the project is later (capture time, then
  version id).
\<close>

theorem listing_is_latest:
  assumes "local_invar st" "local_list_sources st (Some p) False = Inr rs"
  shows "sorted (map order_key rs) \<and> distinct (map s_source_id rs)
    \<and> set rs \<subseteq> {r \<in> set (local_records st). s_project_id r = p}
    \<and> (\<forall>s \<in> set (local_records st). s_project_id s = p \<longrightarrow>
         (\<exists>r \<in> set rs. s_source_id r = s_source_id s
            \<and> (s_capture_time s, s_version_id s) \<le> (s_capture_time r, s_version_id r)))"
proof -
  let ?xs = "filter (\<lambda>s. s_project_id s = p) (local_records st)"
  have rs: "rs = sort_key order_key (latest_by record_age ?xs)"
    using assms by (simp add: local_list_view view_def)
  have "sorted (map order_key rs)" by (simp add: rs)
  moreover have "distinct (map s_source_id rs)"
    unfolding rs distinct_map_sort_key using latest_by_distinct [of record_age ?xs] by simp
  moreover have "set rs \<subseteq> set ?xs" unfolding rs set_sort
    by (rule subsetI) (drule latest_by_iff, elim conjE, assumption)
  moreover have "\<exists>r \<in> set rs. s_source_id r = s_source_id s
      \<and> (s_capture_time s, s_version_id s) \<le> (s_capture_time r, s_version_id r)" if "s \<in> set ?xs" for s
  proof -
    from latest_by_covers [OF that, of record_age] obtain r where r: "r \<in> set (latest_by record_age ?xs)"
      "s_source_id r = s_source_id s" by (auto simp only: fst_conv)
    with latest_by_iff [OF r(1)] that have "(s_capture_time s, s_version_id s) \<le> (s_capture_time r, s_version_id r)"
      by simp
    with r show ?thesis by (auto simp: rs)
  qed
  ultimately show ?thesis by auto
qed

theorem listing_is_latest_witness:
  "\<exists>rs. local_list_sources (fold (register_step local_register) sample_registrations fresh_local) (Some ''alpha'') False = Inr rs
     \<and> distinct (map s_source_id rs)"
proof -
  let ?st = "fold (register_step local_register) sample_registrations fresh_local"
  have inv: "local_invar ?st" using local_files.run_refines [of fresh_local sample_registrations] by (simp add: sample_texts)
  from listing_is_latest [OF inv local_list_view [OF inv]] local_list_view [OF inv] show ?thesis by blast
qed

section \<open>Migration\<close>

lemma one_registration:
  assumes "\<not> bad_identity p n" "normalize_text raw = Inr x"
  obtains st where "local_register fresh_local p n raw t md = Inr (make_record p n x t md, st)" "local_invar st"
    "local_records st = [make_record p n x t md]" "ran (ls_blobs st) \<subseteq> {x}"
proof -
  from local_files.register_accepts [OF fresh_local_facts(1) assms] obtain st where
    reg: "local_register fresh_local p n raw t md = Inr (make_record p n x t md, st)" by blast
  note step = local_step [OF fresh_local_facts(1) reg]
  have "local_records st = [make_record p n x t md]" using step(3) by (simp add: add_record_def)
  with reg step(1,2) that show ?thesis by simp
qed

lemma make_record_normalize [simp]: "make_record p (normalize_name n) x t md = make_record p n x t md"
  by (simp add: make_record_def)

text \<open>A record that registering its own fields writes again.\<close>

definition stable_record :: "source_record \<Rightarrow> bool" where
  "stable_record r =
     (normalize_text (s_content r) = Inr (s_content r)
      \<and> r = make_record (s_project_id r) (s_source_name r) (s_content r) (s_capture_time r) (s_metadata r))"

lemma local_records_stable:
  assumes "local_invar st" "r \<in> set (local_records st)"
  shows "stable_record r \<and> s_content r \<in> ran (ls_blobs st)"
proof -
  from assms(2) obtain e where e: "e \<in> set (local_entries st)"
    and r: "r = record_of e (the (ls_blobs st (ix_content_fingerprint e)))" by (auto simp: local_records_def)
  from assms(1) e have "sound_entry (ls_blobs st) e" by (simp add: local_invar_def)
  then obtain raw n where raw: "ls_blobs st (ix_content_fingerprint e) = Some raw" "normalize_text raw = Inr raw"
    and n: "ix_source_name e = normalize_name n"
      "record_of e raw = make_record (ix_project_id e) n raw (ix_capture_time e) (ix_metadata e)"
    unfolding sound_entry_def by blast
  have re: "r = record_of e raw" using r raw(1) by simp
  then have "s_project_id r = ix_project_id e" "s_source_name r = normalize_name n" "s_content r = raw"
    "s_capture_time r = ix_capture_time e" "s_metadata r = ix_metadata e"
    using n(1) by (simp_all add: record_of_def)
  with raw n(2) re show ?thesis by (simp add: stable_record_def ranI)
qed

lemma local_records_sorted: "local_invar st \<Longrightarrow> sort_key order_key (local_records st) = local_records st"
  by (rule sort_key_sorted) (simp add: local_records_def local_invar_def comp_def)

lemma local_listing_all: "local_invar st \<Longrightarrow> local_list_sources st None True = Inr (local_records st)"
  by (simp add: local_list_view local_records_sorted)

lemma fold_add_record:
  "distinct (map version_key (xs @ rs)) \<Longrightarrow> fold add_record rs (sort_key order_key xs) = sort_key order_key (xs @ rs)"
proof (induction rs arbitrary: xs)
  case (Cons r rs)
  have "distinct (map version_key (xs @ [r]))" using Cons.prems by simp
  then have "inj_on version_key (set (xs @ [r]))" by (simp only: distinct_map)
  then have "inj_on order_key (set (xs @ [r]))" by (fastforce simp: inj_on_def order_key_def)
  from sort_key_append_sorted [OF this] have "add_record r (sort_key order_key xs) = sort_key order_key (xs @ [r])"
    using Cons.prems by (simp add: add_record_def)
  with Cons.IH [of "xs @ [r]"] Cons.prems show ?case by simp
qed simp

lemma migrate_records_ok:
  assumes "cipher_law c"
  shows "\<lbrakk>sql_invar c st; \<forall>r \<in> set rs. stable_record r \<and> \<not> bad_identity (s_project_id r) (s_source_name r);
      inj_on sha256_bytes (sql_contents c st \<union> s_content ` set rs)\<rbrakk> \<Longrightarrow>
    \<exists>st'. migrate_records c rs st = (Inr (), st') \<and> sql_invar c st' \<and> sql_records c st' = fold add_record rs (sql_records c st)"
proof (induction rs arbitrary: st)
  case (Cons r rs)
  note store = sql_source_store [OF assms]
  from Cons.prems(2) have r: "stable_record r" "\<not> bad_identity (s_project_id r) (s_source_name r)" by simp_all
  from source_store.register_accepts [OF store Cons.prems(1) r(2), of "s_content r" "s_content r" "s_capture_time r" "s_metadata r"] r(1)
  obtain st1 where reg: "sql_register_bytes c st (s_project_id r) (s_source_name r) (s_content r) (s_capture_time r) (s_metadata r) = Inr (r, st1)"
    by (auto simp: stable_record_def)
  note step = sql_step [OF assms Cons.prems(1) reg]
  have "inj_on sha256_bytes (insert (s_content r) (sql_contents c st))"
    by (rule inj_on_subset [OF Cons.prems(3)]) auto
  then have recs: "sql_records c st1 = add_record r (sql_records c st)" by (rule step(3))
  have "inj_on sha256_bytes (sql_contents c st1 \<union> s_content ` set rs)"
    by (rule inj_on_subset [OF Cons.prems(3)]) (use step(2) in auto)
  with Cons.IH [OF step(1)] Cons.prems(2) show ?case by (simp add: reg recs)
qed simp

lemma index_json_content: "index_json (map (\<lambda>e. record_of e (f e)) es) = index_json (map (\<lambda>e. record_of e (g e)) es)"
  by (simp add: index_json_def source_public_dict_def record_of_def)

lemma local_fingerprint: "local_invar st \<Longrightarrow> local_canonical_fingerprint st = Inr (sha256_json (index_json (local_records st)))"
  using index_json_content [of "\<lambda>e. []" "local_entries st" "\<lambda>e. the (ls_blobs st (ix_content_fingerprint e))"]
  by (simp add: local_canonical_fingerprint_def read_index_local local_records_def)

text \<open>
  C31. A JSON-indexed store whose names are still acceptable migrates completely: the report counts
  every version, the two fingerprints are equal, and the SQLite store lists exactly the versions of
  the source, history included.
\<close>

theorem migration_complete:
  assumes "cipher_law c" "local_invar source" "inj_on sha256_bytes (ran (ls_blobs source))"
    and "\<forall>r \<in> set (local_records source). \<not> bad_identity (s_project_id r) (s_source_name r)"
  shows "\<exists>report st'. migrate_from_local_store c None source = (Inr report, st')
    \<and> mr_source_count report = length (local_records source)
    \<and> mr_source_fingerprint report = mr_target_fingerprint report
    \<and> (\<forall>p h. sql_list_sources c st' p h = local_list_sources source p h)"
proof -
  let ?rs = "local_records source"
  let ?db = "\<lparr>db_version = SCHEMA_VERSION, db_blobs = Map.empty, db_sources = []\<rparr>"
  have init: "sql_initialize None = Inr (Some ?db)" by (simp add: sql_initialize_def ensure_schema_def)
  have db: "sql_invar c (Some ?db)" "sql_contents c (Some ?db) = {}" "sql_records c (Some ?db) = []"
    by (auto simp: sql_invar_def db_invar_def sql_contents_def sql_records_def opened_def ran_def)
  have "s_content ` set ?rs \<subseteq> ran (ls_blobs source)" using local_records_stable [OF assms(2)] by blast
  then have "inj_on sha256_bytes (sql_contents c (Some ?db) \<union> s_content ` set ?rs)"
    using inj_on_subset [OF assms(3)] by (simp add: db(2))
  with migrate_records_ok [OF assms(1) db(1), of ?rs] local_records_stable [OF assms(2)] assms(4)
  obtain st' where st': "migrate_records c ?rs (Some ?db) = (Inr (), st')" "sql_invar c st'"
    "sql_records c st' = fold add_record ?rs []" by (auto simp: db(3))
  have "fold add_record ?rs [] = ?rs"
    using fold_add_record [of "[]" ?rs] local_files.keys_distinct [OF assms(2)] local_records_sorted [OF assms(2)] by simp
  then have recs: "sql_records c st' = ?rs" using st'(3) by simp
  have "sql_canonical_fingerprint c st' = Inr (sha256_json (index_json ?rs))"
    by (simp add: sql_canonical_fingerprint_def sql_list_view [OF st'(2)] recs local_records_sorted [OF assms(2)])
  then show ?thesis
    by (simp add: migrate_from_local_store_def local_fingerprint [OF assms(2)] local_listing_all [OF assms(2)] init st'(1)
        sql_list_view [OF st'(2)] local_list_view [OF assms(2)] recs local_records_sorted [OF assms(2)])
qed

theorem migration_complete_witness:
  "\<exists>source report st'. length (local_records source) = 1
     \<and> migrate_from_local_store None None source = (Inr report, st')
     \<and> mr_source_fingerprint report = mr_target_fingerprint report"
proof -
  have ok: "\<not> bad_identity ''alpha'' ''a.md''" by code_simp
  from one_registration [OF ok sample_text] obtain source where source: "local_invar source"
    "local_records source = [make_record ''alpha'' ''a.md'' ''hello'' ''2026-01-01T00:00:00Z'' []]"
    "ran (ls_blobs source) \<subseteq> {''hello''}" by blast
  have "normalize_name ''a.md'' = ''a.md''" by code_simp
  with migration_complete [OF cipher_law_None source(1) inj_on_subset [OF _ source(3)]] source(2) ok
  have "\<exists>report st'. migrate_from_local_store None None source = (Inr report, st')
     \<and> mr_source_fingerprint report = mr_target_fingerprint report" by auto
  with source(2) show ?thesis by (intro exI [of _ source]) simp
qed

text \<open>
  The path check looks at a name before its backslashes are turned into slashes, so a name like
  \<^verbatim>\<open>..\x\<close> is registered under a name that the check refuses. A store with such a record does not
  migrate: the migration raises, leaves an initialised target, and every later attempt is refused
  because the target exists.
\<close>

theorem backslash_name_blocks_migration:
  assumes "\<not> bad_identity p n" "bad_identity p (normalize_name n)" "normalize_text raw = Inr x"
  shows "\<exists>r source st'. local_register fresh_local p n raw t md = Inr (r, source) \<and> s_source_name r = normalize_name n
    \<and> local_list_sources source None True = Inr [r]
    \<and> migrate_from_local_store c None source = (Inl (ValueError, ''source_identity_invalid''), st') \<and> st' \<noteq> None
    \<and> (\<forall>other. migrate_from_local_store c st' other = (Inl (ValueError, ''migration_target_exists''), st'))"
proof -
  from one_registration [OF assms(1,3)] obtain source where source:
    "local_register fresh_local p n raw t md = Inr (make_record p n x t md, source)" "local_invar source"
    "local_records source = [make_record p n x t md]" by blast
  let ?db = "Some \<lparr>db_version = SCHEMA_VERSION, db_blobs = Map.empty, db_sources = []\<rparr>"
  have "migrate_from_local_store c None source = (Inl (ValueError, ''source_identity_invalid''), ?db)"
    using assms(2)
    by (simp add: migrate_from_local_store_def local_fingerprint [OF source(2)] local_listing_all [OF source(2)] source(3)
        sql_initialize_def ensure_schema_def sql_register_bytes_def raise_def)
  moreover have "migrate_from_local_store c ?db other = (Inl (ValueError, ''migration_target_exists''), ?db)" for other
    by (simp add: migrate_from_local_store_def raise_def)
  ultimately show ?thesis using source(1) local_listing_all [OF source(2)] source(3)
    by (intro exI [of _ "make_record p n x t md"] exI [of _ source] exI [of _ ?db]) simp
qed

theorem backslash_name_blocks_migration_witness:
  "\<exists>r source st'. local_register fresh_local ''alpha'' [CHR ''.'', CHR ''.'', CHR 0x5C, CHR ''x''] ''hello'' ''2026-01-01T00:00:00Z'' [] = Inr (r, source)
     \<and> s_source_name r = ''../x''
     \<and> migrate_from_local_store None None source = (Inl (ValueError, ''source_identity_invalid''), st')"
proof -
  have ok: "\<not> bad_identity ''alpha'' [CHR ''.'', CHR ''.'', CHR 0x5C, CHR ''x'']"
    and bad: "bad_identity ''alpha'' (normalize_name [CHR ''.'', CHR ''.'', CHR 0x5C, CHR ''x''])"
    and name: "normalize_name [CHR ''.'', CHR ''.'', CHR 0x5C, CHR ''x''] = ''../x''" by code_simp+
  from backslash_name_blocks_migration [OF ok bad sample_text, of "''2026-01-01T00:00:00Z''" "[]" None, unfolded name]
  show ?thesis by (elim exE conjE) (intro exI conjI)
qed

end
