(* ===== verification/Json_Reader.thy ===== *)
theory Json_Reader
  imports Canonical
begin

text \<open>
  What the sources use of Python's \<^verbatim>\<open>json.loads\<close>: a reader for JSON texts that inverts the
  canonical writer. As everywhere in the model a value
  holds no floating-point number, and a text holds no lone surrogate: the reader refuses a text with
  one. White space, escapes and repeated keys (the last one counts) are read as the library does.
\<close>

section \<open>Strings\<close>

definition hex_value :: "char \<Rightarrow> nat option" where
  "hex_value c =
     (let n = of_char c :: nat
      in if 48 \<le> n \<and> n \<le> 57 then Some (n - 48)
         else if 97 \<le> n \<and> n \<le> 102 then Some (n - 87)
         else if 65 \<le> n \<and> n \<le> 70 then Some (n - 55) else None)"

definition read_hex4 :: "string \<Rightarrow> (nat \<times> string) option" where
  "read_hex4 s =
     (case s of
        a # b # c # d # t \<Rightarrow>
          (case (hex_value a, hex_value b, hex_value c, hex_value d) of
             (Some w, Some x, Some y, Some z) \<Rightarrow> Some (((w * 16 + x) * 16 + y) * 16 + z, t)
           | _ \<Rightarrow> None)
      | _ \<Rightarrow> None)"

definition utf8_encode :: "nat \<Rightarrow> string" where
  "utf8_encode n =
     (if n < 128 then [char_of n]
      else if n < 2048 then [char_of (192 + n div 64), char_of (128 + n mod 64)]
      else if n < 65536 then [char_of (224 + n div 4096), char_of (128 + n div 64 mod 64), char_of (128 + n mod 64)]
      else [char_of (240 + n div 262144), char_of (128 + n div 4096 mod 64), char_of (128 + n div 64 mod 64), char_of (128 + n mod 64)])"

text \<open>The escape after a backslash: the text it stands for and what follows.\<close>

definition read_escape :: "string \<Rightarrow> (string \<times> string) option" where
  "read_escape s =
     (case s of
        [] \<Rightarrow> None
      | c # t \<Rightarrow>
          if c = CHR 0x22 \<or> c = CHR 0x5C \<or> c = CHR ''/'' then Some ([c], t)
          else if c = CHR ''b'' then Some ([CHR 0x08], t)
          else if c = CHR ''f'' then Some ([CHR 0x0C], t)
          else if c = CHR ''n'' then Some ([CHR 0x0A], t)
          else if c = CHR ''r'' then Some ([CHR 0x0D], t)
          else if c = CHR ''t'' then Some ([CHR 0x09], t)
          else if c = CHR ''u'' then
            (case read_hex4 t of
               None \<Rightarrow> None
             | Some (n, r) \<Rightarrow>
                 if n < 55296 \<or> 57344 \<le> n then Some (utf8_encode n, r)
                 else if n < 56320 \<and> take 2 r = [CHR 0x5C, CHR ''u''] then
                   (case read_hex4 (drop 2 r) of
                      Some (m, r') \<Rightarrow>
                        if 56320 \<le> m \<and> m < 57344
                        then Some (utf8_encode (65536 + (n - 55296) * 1024 + (m - 56320)), r') else None
                    | None \<Rightarrow> None)
                 else None)
          else None)"

lemma read_hex4_shorter: "read_hex4 s = Some (n, t) \<Longrightarrow> length t < length s"
  by (auto simp: read_hex4_def split: list.splits option.splits)

lemma read_escape_shorter: "read_escape s = Some (u, t) \<Longrightarrow> length t < length s"
  by (auto simp: read_escape_def split: list.splits if_splits option.splits dest!: read_hex4_shorter)

function read_chars :: "string \<Rightarrow> (string \<times> string) option" where
  "read_chars [] = None"
| "read_chars (c # s) =
     (if c = CHR 0x22 then Some ([], s)
      else if c = CHR 0x5C then
        (case read_escape s of
           None \<Rightarrow> None
         | Some (u, t) \<Rightarrow> map_option (\<lambda>(x, r). (u @ x, r)) (read_chars t))
      else if (of_char c :: nat) < 32 then None
      else map_option (\<lambda>(x, r). (c # x, r)) (read_chars s))"
  by pat_completeness auto
termination
  by (relation "measure length") (auto dest: read_escape_shorter)

section \<open>Values\<close>

definition json_ws :: "char \<Rightarrow> bool" where
  "json_ws c = (c = CHR '' '' \<or> c = CHR 0x09 \<or> c = CHR 0x0A \<or> c = CHR 0x0D)"

definition skip_ws :: "string \<Rightarrow> string" where
  "skip_ws s = dropWhile json_ws s"

lemma length_skip_ws: "length (skip_ws s) \<le> length s"
  by (simp add: skip_ws_def length_dropWhile_le)

lemma skip_ws_shorter:
  assumes "length s < n"
  shows "length (skip_ws s) < n" "length (skip_ws (drop k s)) < n"
  using assms length_skip_ws [of s] length_skip_ws [of "drop k s"] by auto

lemma skip_ws_tail: "skip_ws r = c # t \<Longrightarrow> length t < length r"
  using length_skip_ws [of r] by auto

definition read_digits :: "string \<Rightarrow> (int \<times> string) option" where
  "read_digits s =
     (let digits = (if take 1 s = ''0'' then ''0'' else takeWhile is_digit s);
          r = drop (length digits) s
      in if digits = [] \<or> take 1 r = ''.'' \<or> take 1 r = ''e'' \<or> take 1 r = ''E'' then None
         else Some (int (read_nat digits), r))"

definition read_number :: "string \<Rightarrow> (json \<times> string) option" where
  "read_number s =
     (if take 1 s = ''-'' then map_option (\<lambda>(n, r). (JInt (- n), r)) (read_digits (drop 1 s))
      else map_option (\<lambda>(n, r). (JInt n, r)) (read_digits s))"

text \<open>Every read must consume something; the comparisons of lengths say so.\<close>

function read_value :: "string \<Rightarrow> (json \<times> string) option"
  and read_items :: "string \<Rightarrow> (json list \<times> string) option"
  and read_members :: "string \<Rightarrow> ((string \<times> json) list \<times> string) option" where
  "read_value s =
     (case s of
        [] \<Rightarrow> None
      | c # t \<Rightarrow>
          if c = CHR 0x22 then map_option (\<lambda>(x, r). (JStr x, r)) (read_chars t)
          else if c = CHR ''{'' then
            (if take 1 (skip_ws t) = ''}'' then Some (JObj [], drop 1 (skip_ws t))
             else map_option (\<lambda>(kvs, r). (JObj (dict_merge [] kvs), r)) (read_members (skip_ws t)))
          else if c = CHR ''['' then
            (if take 1 (skip_ws t) = '']'' then Some (JList [], drop 1 (skip_ws t))
             else map_option (\<lambda>(xs, r). (JList xs, r)) (read_items (skip_ws t)))
          else if startswith s ''null'' then Some (JNull, drop 4 s)
          else if startswith s ''true'' then Some (JBool True, drop 4 s)
          else if startswith s ''false'' then Some (JBool False, drop 5 s)
          else read_number s)"
| "read_items s =
     (case read_value s of
        None \<Rightarrow> None
      | Some (v, r) \<Rightarrow>
          if length s \<le> length r then None
          else (case skip_ws r of
                  [] \<Rightarrow> None
                | c # t \<Rightarrow>
                    if c = CHR '']'' then Some ([v], t)
                    else if c = CHR '','' then map_option (\<lambda>(vs, r'). (v # vs, r')) (read_items (skip_ws t))
                    else None))"
| "read_members s =
     (if take 1 s \<noteq> [CHR 0x22] then None
      else (case read_chars (drop 1 s) of
              None \<Rightarrow> None
            | Some (k, r) \<Rightarrow>
                if length s \<le> length r \<or> take 1 (skip_ws r) \<noteq> '':'' then None
                else (case read_value (skip_ws (drop 1 (skip_ws r))) of
                        None \<Rightarrow> None
                      | Some (v, r1) \<Rightarrow>
                          if length s \<le> length r1 then None
                          else (case skip_ws r1 of
                                  [] \<Rightarrow> None
                                | c # t \<Rightarrow>
                                    if c = CHR ''}'' then Some ([(k, v)], t)
                                    else if c = CHR '','' then
                                      map_option (\<lambda>(kvs, r'). ((k, v) # kvs, r')) (read_members (skip_ws t))
                                    else None))))"
  by pat_completeness auto
termination
proof (relation "measures [\<lambda>x. case x of Inl s \<Rightarrow> length s | Inr (Inl s) \<Rightarrow> length s | Inr (Inr s) \<Rightarrow> length s,
    \<lambda>x. case x of Inl s \<Rightarrow> 0 | Inr _ \<Rightarrow> 1]", goal_cases)
  case 1
  then show ?case by simp
next
  case (6 s p k r)
  then have "length (skip_ws r) < length s" using skip_ws_shorter(1) by (auto simp: not_le)
  then show ?case using skip_ws_shorter(2) by simp
qed (auto simp: not_le dest!: skip_ws_tail intro!: skip_ws_shorter)

declare read_value.simps [simp del] read_items.simps [simp del] read_members.simps [simp del]

definition loads :: "string \<Rightarrow> json option" where
  "loads s =
     (case read_value (skip_ws s) of
        None \<Rightarrow> None
      | Some (v, r) \<Rightarrow> if skip_ws r = [] then Some v else None)"

section \<open>The reader inverts the writer\<close>

text \<open>No object of the value repeats a key.\<close>

fun wf_json :: "json \<Rightarrow> bool"
  and wf_items :: "json list \<Rightarrow> bool"
  and wf_members :: "(string \<times> json) list \<Rightarrow> bool" where
  "wf_json (JList xs) = wf_items xs"
| "wf_json (JObj kvs) = (distinct (map fst kvs) \<and> wf_members kvs)"
| "wf_json _ = True"
| "wf_items [] = True"
| "wf_items (x # xs) = (wf_json x \<and> wf_items xs)"
| "wf_members [] = True"
| "wf_members ((k, v) # kvs) = (wf_json v \<and> wf_members kvs)"

definition ends_value :: "string \<Rightarrow> bool" where
  "ends_value r = (r = [] \<or> hd r \<in> set '',]}'')"

lemma hex_value_hex_digit: "hex_value (hex_digit n) = Some (n mod 16)"
proof -
  have "list_all (\<lambda>k. hex_value (hex_digits ! k) = Some k) [0 ..< 16]" by code_simp
  then have "hex_value (hex_digits ! k) = Some k" if "k < 16" for k
    using that by (simp add: list_all_iff)
  then show ?thesis by (simp add: hex_digit_def)
qed

lemma read_escaped: "read_chars (escape_char c @ s) = map_option (\<lambda>(x, r). (c # x, r)) (read_chars s)"
proof -
  define n :: nat where "n = of_char c"
  have c: "char_of n = c" by (simp add: n_def)
  have small: "n mod 16 + 16 * (n div 16 mod 16) = n" if "n < 32" using that by simp
  have z: "hex_value CHR ''0'' = Some 0" by code_simp
  have h: "hex_value (hex_digit (n div 16)) = Some (n div 16 mod 16)" "hex_value (hex_digit n) = Some (n mod 16)"
    by (rule hex_value_hex_digit)+
  show ?thesis
    using small c
    by (auto simp: escape_char_def read_escape_def read_hex4_def z h utf8_encode_def n_def [symmetric]
        option.map_comp comp_def case_prod_unfold split: option.splits)
qed

lemma read_quote [simp]: "read_chars (concat (map escape_char s) @ CHR 0x22 # r) = Some (s, r)"
  by (induction s) (simp_all add: read_escaped)

lemma hd_show_nat_zero: "hd (show_nat n) = CHR ''0'' \<longleftrightarrow> n = 0"
proof (induction n rule: show_nat.induct)
  case (1 n)
  show ?case
  proof (cases "n < 10")
    case True
    have "list_all (\<lambda>k. (digit_char k = CHR ''0'') = (k = 0)) [0 ..< 10]" by code_simp
    with True have "(digit_char n = CHR ''0'') = (n = 0)" by (simp add: list_all_iff)
    with True show ?thesis by (subst show_nat.simps) simp
  next
    case False
    then have "hd (show_nat n) = hd (show_nat (n div 10))" by (subst show_nat.simps) simp
    with False 1 show ?thesis by (simp add: div_eq_0_iff)
  qed
qed

lemma show_nat_zero [simp]: "show_nat 0 = ''0''"
  by (subst show_nat.simps) (simp add: digit_char_def)

lemma read_nat_body:
  assumes "ends_value r"
  shows "(if take 1 (show_nat n @ r) = ''0'' then ''0'' else takeWhile is_digit (show_nat n @ r)) = show_nat n"
proof -
  have r: "no_digit_head r" using assms by (cases r) (auto simp: ends_value_def no_digit_head_def is_digit_def)
  obtain c t where ct: "show_nat n = c # t" by (cases "show_nat n") auto
  show ?thesis
  proof (cases "n = 0")
    case False
    with hd_show_nat_zero [of n] ct have "c \<noteq> CHR ''0''" by simp
    with takeWhile_show_nat [OF r, of n] show ?thesis by (simp add: ct)
  qed simp
qed

lemma ends_value_take: "ends_value r \<Longrightarrow> take 1 r \<noteq> ''.'' \<and> take 1 r \<noteq> ''e'' \<and> take 1 r \<noteq> ''E''"
  by (cases r) (auto simp: ends_value_def)

lemma read_digits_show: "ends_value r \<Longrightarrow> read_digits (show_nat n @ r) = Some (int n, r)"
  unfolding read_digits_def read_nat_body Let_def using ends_value_take [of r] by simp

lemma read_show_int:
  assumes "ends_value r"
  shows "read_number (show_int i @ r) = Some (JInt i, r)"
proof -
  have sign: "take 1 (show_nat n @ r) \<noteq> ''-''" for n
    using hd_show_nat [of n] by (cases "show_nat n") (auto simp: is_digit_def)
  show ?thesis
  proof (cases "i < 0")
    case True
    then show ?thesis by (simp add: read_number_def show_int_def read_digits_show [OF assms])
  next
    case False
    then have "show_int i = show_nat (nat i)" by (simp add: show_int_def)
    then show ?thesis
      unfolding read_number_def using False by (simp only: sign if_False read_digits_show [OF assms]) simp
  qed
qed

text \<open>Where a value starts there is no white space and no closing bracket.\<close>

lemma emit_start:
  obtains c t where "emit v = c # t" "\<not> json_ws c" "c \<noteq> CHR '']''" "c \<noteq> CHR ''}''"
proof -
  obtain c t where ct: "emit v = c # t" using emit_kind [of v "[]"] by (cases "emit v") auto
  with emit_kind [of v "[]"] kind_less [of v] have k: "head_kind c < 7" by simp
  have "\<not> json_ws c"
  proof (cases v)
    case (JInt i)
    with ct show_int_head [of i "[]" c t] show ?thesis by (auto simp: json_ws_def is_digit_def)
  qed (use ct in \<open>auto simp: json_ws_def quote_def split: if_splits\<close>)
  with ct k that show ?thesis by (auto simp: head_kind_def split: if_splits)
qed

lemma skip_ws_emit [simp]: "skip_ws (emit v @ r) = emit v @ r"
  by (rule emit_start [of v]) (simp add: skip_ws_def)

lemma skip_ws_ends [simp]: "skip_ws (CHR '','' # r) = CHR '','' # r" "skip_ws (CHR '']'' # r) = CHR '']'' # r"
  "skip_ws (CHR ''}'' # r) = CHR ''}'' # r" "skip_ws (CHR '':'' # r) = CHR '':'' # r" "skip_ws (CHR 0x22 # r) = CHR 0x22 # r"
  by (simp_all add: skip_ws_def json_ws_def)

lemma ends_value_simps [simp]:
  "ends_value []" "ends_value (CHR '','' # r)" "ends_value (CHR '']'' # r)" "ends_value (CHR ''}'' # r)"
  by (simp_all add: ends_value_def)

lemma read_value_scalar:
  "read_value (''null'' @ r) = Some (JNull, r)" "read_value (''true'' @ r) = Some (JBool True, r)"
  "read_value (''false'' @ r) = Some (JBool False, r)" "read_value (quote s @ r) = Some (JStr s, r)"
  by (simp_all add: read_value.simps startswith_def quote_def)

lemma read_value_int:
  assumes "ends_value r"
  shows "read_value (show_int i @ r) = Some (JInt i, r)"
proof -
  obtain c t where ct: "show_int i @ r = c # t" by (cases "show_int i @ r") auto
  have "c = CHR ''-'' \<or> is_digit c" by (rule show_int_head [OF ct])
  then have "read_value (c # t) = read_number (c # t)"
    by (auto simp: read_value.simps startswith_def is_digit_def)
  with read_show_int [OF assms, of i] ct show ?thesis by simp
qed

lemma dict_put_new: "k \<notin> fst ` set d \<Longrightarrow> dict_put k v d = d @ [(k, v)]"
  by (induction d) auto

lemma dict_merge_distinct: "distinct (map fst kvs) \<Longrightarrow> dict_merge [] kvs = kvs"
proof (induction kvs rule: rev_induct)
  case (snoc kv kvs)
  then show ?case by (cases kv) (simp add: dict_merge_def dict_put_new)
qed (simp add: dict_merge_def)

lemma emit_items_start: "xs \<noteq> [] \<Longrightarrow> skip_ws (emit_items xs @ r) = emit_items xs @ r \<and> take 1 (emit_items xs @ r) \<noteq> '']''"
proof (cases xs)
  case (Cons x ys)
  show ?thesis by (rule emit_start [of x]) (simp add: Cons skip_ws_def)
qed simp

lemma emit_members_start:
  "kvs \<noteq> [] \<Longrightarrow> skip_ws (emit_members kvs @ r) = emit_members kvs @ r \<and> take 1 (emit_members kvs @ r) = [CHR 0x22]"
  by (cases kvs) (auto simp: skip_ws_def quote_def json_ws_def)

lemma emit_not_Nil [simp]: "emit v \<noteq> []"
  by (rule emit_start [of v]) simp

lemma read_emit:
  "wf_json v \<Longrightarrow> ends_value r \<Longrightarrow> read_value (emit v @ r) = Some (v, r)"
  "wf_items xs \<Longrightarrow> xs \<noteq> [] \<Longrightarrow> read_items (emit_items xs @ CHR '']'' # r) = Some (xs, r)"
  "wf_members kvs \<Longrightarrow> kvs \<noteq> [] \<Longrightarrow> read_members (emit_members kvs @ CHR ''}'' # r) = Some (kvs, r)"
proof (induction v and xs and kvs arbitrary: r and r and r rule: emit_emit_items_emit_members.induct)
  case 1
  then show ?case using read_value_scalar(1) by simp
next
  case (2 b)
  then show ?case using read_value_scalar(2,3) by (cases b) simp_all
next
  case (3 i)
  then show ?case by (simp add: read_value_int)
next
  case (4 s)
  then show ?case by (simp add: read_value_scalar)
next
  case (5 xs)
  show ?case
  proof (cases "xs = []")
    case True
    then show ?thesis by (simp add: read_value.simps)
  next
    case False
    with 5 emit_items_start [OF False, of "CHR '']'' # r"] show ?thesis by (simp add: read_value.simps)
  qed
next
  case (6 kvs)
  show ?case
  proof (cases "kvs = []")
    case True
    then show ?thesis by (simp add: read_value.simps)
  next
    case False
    with 6 emit_members_start [OF False, of "CHR ''}'' # r"] show ?thesis
      by (simp add: read_value.simps dict_merge_distinct)
  qed
next
  case (8 x xs)
  show ?case
  proof (cases "xs = []")
    case True
    with 8 show ?thesis by (simp add: read_items.simps [of "emit x @ CHR '']'' # r"])
  next
    case False
    with 8 emit_items_start [OF False, of "CHR '']'' # r"] show ?thesis
      by (simp add: read_items.simps [of "emit x @ CHR '','' # emit_items xs @ CHR '']'' # r"])
  qed
next
  case (10 k v kvs)
  let ?q = "concat (map escape_char k)"
  show ?case
  proof (cases "kvs = []")
    case True
    with 10 show ?thesis
      by (simp add: quote_def read_members.simps [of "CHR 0x22 # ?q @ CHR 0x22 # CHR '':'' # emit v @ CHR ''}'' # r"])
  next
    case False
    with 10 emit_members_start [OF False, of "CHR ''}'' # r"] show ?thesis
      by (simp add: quote_def read_members.simps [of "CHR 0x22 # ?q @ CHR 0x22 # CHR '':'' # emit v @ CHR '','' # emit_members kvs @ CHR ''}'' # r"])
  qed
qed simp_all

text \<open>Reading what the canonical writer wrote gives the value back, its keys in order.\<close>

lemma wf_items_iff: "wf_items xs \<longleftrightarrow> (\<forall>x \<in> set xs. wf_json x)"
  by (induction xs) auto

lemma wf_members_iff: "wf_members kvs \<longleftrightarrow> (\<forall>kv \<in> set kvs. wf_json (snd kv))"
  by (induction kvs) auto

lemma sort_members_map: "sort_keys_members kvs = map (\<lambda>kv. (fst kv, sort_keys (snd kv))) kvs"
  by (induction kvs) auto

lemma wf_sort_keys:
  "wf_json v \<Longrightarrow> wf_json (sort_keys v)"
  "wf_items xs \<Longrightarrow> wf_items (sort_keys_items xs)"
  "wf_members kvs \<Longrightarrow> wf_members (sort_keys_members kvs)"
proof (induction v and xs and kvs rule: sort_keys_sort_keys_items_sort_keys_members.induct)
  case (2 kvs)
  then have "distinct (map fst (sort_keys_members kvs))" by (simp add: sort_members_map comp_def)
  with 2 show ?case by (simp add: wf_members_iff)
qed simp_all

theorem loads_canonical:
  assumes "wf_json v"
  shows "loads (canonical_json v) = Some (sort_keys v)"
  using read_emit(1) [OF wf_sort_keys(1) [OF assms], of "[]"] skip_ws_emit [of "sort_keys v" "[]"]
  by (simp add: loads_def canonical_json_def skip_ws_def)

section \<open>ASCII texts\<close>

definition ascii :: "string \<Rightarrow> bool" where
  "ascii s = (\<forall>c \<in> set s. (of_char c :: nat) < 128)"

lemma uchars_ascii: "ascii s \<Longrightarrow> uchars s = map (\<lambda>c. [c]) s"
  by (induction s rule: uchars.induct) (auto simp: ascii_def is_cont_def)

lemma py_len_ascii: "ascii s \<Longrightarrow> py_len s = length s"
  by (simp add: py_len_def uchars_ascii)

lemma hex_ascii: "c \<in> set hex_digits \<Longrightarrow> (of_char c :: nat) < 128"
proof -
  have "list_all (\<lambda>c. (of_char c :: nat) < 128) hex_digits" by code_simp
  then show "c \<in> set hex_digits \<Longrightarrow> (of_char c :: nat) < 128" by (simp add: list_all_iff)
qed

lemma is_sha256_ascii: "is_sha256_str s \<Longrightarrow> ascii s \<and> length s = 64"
  unfolding is_sha256_str_def hex_digits_def [symmetric] ascii_def using hex_ascii by blast

lemma sha256_bytes_hex: "is_sha256_str (sha256_bytes x)"
  unfolding is_sha256_str_def sha256_bytes_def hex_digits_def [symmetric]
  using sha256_hex_digits [of x] length_sha256_hex [of x] by blast

lemma sha256_bytes_ascii: "ascii (sha256_bytes x)" "py_len (sha256_bytes x) = 64"
  using is_sha256_ascii [OF sha256_bytes_hex] py_len_ascii by simp_all

lemma ascii_simps [simp]: "ascii []" "ascii (c # s) \<longleftrightarrow> (of_char c :: nat) < 128 \<and> ascii s" "ascii (s @ t) \<longleftrightarrow> ascii s \<and> ascii t"
  by (auto simp: ascii_def)

lemma valid_utf8_ascii: "ascii s \<Longrightarrow> valid_utf8 s"
  by (induction s) (auto simp: byte_in_def)

text \<open>Written values have no control characters, and are ASCII when their texts are.\<close>

fun ascii_json :: "json \<Rightarrow> bool"
  and ascii_items :: "json list \<Rightarrow> bool"
  and ascii_members :: "(string \<times> json) list \<Rightarrow> bool" where
  "ascii_json (JStr s) = ascii s"
| "ascii_json (JList xs) = ascii_items xs"
| "ascii_json (JObj kvs) = ascii_members kvs"
| "ascii_json _ = True"
| "ascii_items [] = True"
| "ascii_items (x # xs) = (ascii_json x \<and> ascii_items xs)"
| "ascii_members [] = True"
| "ascii_members ((k, v) # kvs) = (ascii k \<and> ascii_json v \<and> ascii_members kvs)"

lemma ascii_members_iff: "ascii_members kvs \<longleftrightarrow> (\<forall>kv \<in> set kvs. ascii (fst kv) \<and> ascii_json (snd kv))"
  by (induction kvs) auto

lemma ascii_sort_keys:
  "ascii_json v \<Longrightarrow> ascii_json (sort_keys v)"
  "ascii_items xs \<Longrightarrow> ascii_items (sort_keys_items xs)"
  "ascii_members kvs \<Longrightarrow> ascii_members (sort_keys_members kvs)"
  by (induction v and xs and kvs rule: sort_keys_sort_keys_items_sort_keys_members.induct) (auto simp: ascii_members_iff)

definition printable :: "char \<Rightarrow> bool" where
  "printable c = (32 \<le> (of_char c :: nat))"

lemma hex_digit_char: "(of_char (hex_digit n) :: nat) < 128" "printable (hex_digit n)"
proof -
  have "list_all (\<lambda>c. (of_char c :: nat) < 128 \<and> printable c) hex_digits" by code_simp
  then show "(of_char (hex_digit n) :: nat) < 128" "printable (hex_digit n)"
    using hex_digit_mem [of n] by (auto simp: list_all_iff)
qed

lemma escape_char_range: "list_all printable (escape_char c)" "(of_char c :: nat) < 128 \<Longrightarrow> ascii (escape_char c)"
  using hex_digit_char by (auto simp: escape_char_def printable_def)

lemma quote_range: "list_all printable (quote s)" "ascii s \<Longrightarrow> ascii (quote s)"
proof -
  have "list_all printable (concat (map escape_char s))" by (induction s) (simp_all add: escape_char_range)
  then show "list_all printable (quote s)" by (simp add: quote_def printable_def)
  have "ascii s \<Longrightarrow> ascii (concat (map escape_char s))" by (induction s) (simp_all add: escape_char_range)
  then show "ascii s \<Longrightarrow> ascii (quote s)" by (simp add: quote_def)
qed

lemma digit_range: "is_digit c \<Longrightarrow> (of_char c :: nat) < 128 \<and> printable c"
  by (auto simp: is_digit_def printable_def)

lemma show_int_range: "list_all printable (show_int i)" "ascii (show_int i)"
  using show_nat_digits digit_range
  by (auto simp: show_int_def list_all_iff ascii_def printable_def)

lemma printable_simps [simp]: "printable CHR ''n''" "printable CHR ''u''" "printable CHR ''l''" "printable CHR ''t''" "printable CHR ''r''" "printable CHR ''e''" "printable CHR ''f''" "printable CHR ''a''" "printable CHR ''s''" "printable CHR ''[''" "printable CHR '']''" "printable CHR ''{''" "printable CHR ''}''" "printable CHR '',''" "printable CHR '':''" "printable CHR ''-''"
  by (simp_all add: printable_def)

lemma emit_range:
  "list_all printable (emit v) \<and> (ascii_json v \<longrightarrow> ascii (emit v))"
  "list_all printable (emit_items xs) \<and> (ascii_items xs \<longrightarrow> ascii (emit_items xs))"
  "list_all printable (emit_members kvs) \<and> (ascii_members kvs \<longrightarrow> ascii (emit_members kvs))"
  by (induction v and xs and kvs rule: emit_emit_items_emit_members.induct)
    (simp_all add: quote_range show_int_range)

lemma canonical_range: "list_all printable (canonical_json v)" "ascii_json v \<Longrightarrow> ascii (canonical_json v)"
  using emit_range(1) [of "sort_keys v"] ascii_sort_keys(1) [of v] by (simp_all add: canonical_json_def)

end
