(* ===== verification/Base64.thy ===== *)
theory Base64
  imports Prelude
begin

text \<open>
  \<^verbatim>\<open>base64.b64encode\<close> and the strict \<^verbatim>\<open>base64.b64decode(..., validate=True)\<close>: groups of four characters of
  the alphabet, padding only at the end. The bits that padding leaves unused are not looked at.
\<close>

definition b64_alphabet :: string where
  "b64_alphabet = ''ABCDEFGHIJKLMNOPQRSTUVWXYZabcdefghijklmnopqrstuvwxyz0123456789+/''"

definition b64_char :: "nat \<Rightarrow> char" where
  "b64_char n = b64_alphabet ! (n mod 64)"

definition b64_value :: "char \<Rightarrow> nat option" where
  "b64_value c = map_of (zip b64_alphabet [0 ..< 64]) c"

abbreviation byte :: "char \<Rightarrow> nat" where
  "byte c \<equiv> of_char c"

fun b64encode :: "string \<Rightarrow> string" where
  "b64encode [] = []"
| "b64encode [a] = [b64_char (byte a div 4), b64_char (byte a mod 4 * 16), CHR ''='', CHR ''='']"
| "b64encode [a, b] =
     [b64_char (byte a div 4), b64_char (byte a mod 4 * 16 + byte b div 16), b64_char (byte b mod 16 * 4), CHR ''='']"
| "b64encode (a # b # c # s) =
     [b64_char (byte a div 4), b64_char (byte a mod 4 * 16 + byte b div 16),
      b64_char (byte b mod 16 * 4 + byte c div 64), b64_char (byte c mod 64)] @ b64encode s"

fun b64decode :: "string \<Rightarrow> string option" where
  "b64decode [] = Some []"
| "b64decode (a # b # c # d # s) =
     (case (b64_value a, b64_value b) of
        (Some w, Some x) \<Rightarrow>
          if c = CHR ''='' then (if d = CHR ''='' \<and> s = [] then Some [char_of (w * 4 + x div 16)] else None)
          else (case b64_value c of
                  None \<Rightarrow> None
                | Some y \<Rightarrow>
                    if d = CHR ''='' then
                      (if s = [] then Some [char_of (w * 4 + x div 16), char_of (x mod 16 * 16 + y div 4)] else None)
                    else (case b64_value d of
                            None \<Rightarrow> None
                          | Some z \<Rightarrow>
                              map_option (\<lambda>t. [char_of (w * 4 + x div 16), char_of (x mod 16 * 16 + y div 4), char_of (y mod 4 * 64 + z)] @ t)
                                (b64decode s)))
      | _ \<Rightarrow> None)"
| "b64decode _ = None"

lemma b64_value_char: "b64_value (b64_char n) = Some (n mod 64)" "b64_char n \<noteq> CHR ''=''"
proof -
  have "list_all (\<lambda>k. b64_value (b64_alphabet ! k) = Some k \<and> b64_alphabet ! k \<noteq> CHR ''='') [0 ..< 64]" by code_simp
  then have "b64_value (b64_alphabet ! k) = Some k \<and> b64_alphabet ! k \<noteq> CHR ''=''" if "k < 64" for k
    using that by (simp add: list_all_iff)
  then show "b64_value (b64_char n) = Some (n mod 64)" "b64_char n \<noteq> CHR ''=''" by (simp_all add: b64_char_def)
qed

lemma byte_less: "byte c < 256"
  by simp

lemma quotient_back: "r < b \<Longrightarrow> (q * b + r) div b = q" "r < b \<Longrightarrow> (q * b + r) mod b = r" for q r b :: nat
  by simp_all

lemma first_byte:
  assumes "x < 256" "k < 16"
  shows "x div 4 mod 64 * 4 + (x mod 4 * 16 + k) mod 64 div 16 = (x :: nat)"
proof -
  have "x mod 4 * 16 + k < 64" using assms(2) mod_less_divisor [of 4 x] by linarith
  moreover have "x div 4 < 64" using assms(1) by simp
  ultimately show ?thesis using quotient_back(1) [OF assms(2), of "x mod 4"] by simp
qed

lemma second_byte:
  assumes "y < 256" "m < 4" "j < 4"
  shows "(m * 16 + y div 16) mod 64 mod 16 * 16 + (y mod 16 * 4 + j) mod 64 div 4 = (y :: nat)"
proof -
  have y: "y div 16 < 16" using assms(1) by simp
  then have "m * 16 + y div 16 < 64" using assms(2) by linarith
  moreover have "y mod 16 * 4 + j < 64" using assms(3) mod_less_divisor [of 16 y] by linarith
  ultimately show ?thesis using quotient_back(2) [OF y, of m] quotient_back(1) [OF assms(3), of "y mod 16"] by simp
qed

lemma third_byte:
  assumes "z < 256" "m < 16"
  shows "(m * 4 + z div 64) mod 64 mod 4 * 64 + z mod 64 mod 64 = (z :: nat)"
proof -
  have z: "z div 64 < 4" using assms(1) by simp
  then have "m * 4 + z div 64 < 64" using assms(2) by linarith
  then show ?thesis using quotient_back(2) [OF z, of m] by simp
qed

theorem b64_roundtrip: "b64decode (b64encode s) = Some s"
proof (induction s rule: b64encode.induct)
  case (2 a)
  then show ?case using first_byte [of "byte a" 0] by (simp add: b64_value_char)
next
  case (3 a b)
  have "byte b div 16 < 16" using less_mult_imp_div_less [of "byte b" 16 16] byte_less [of b] by simp
  then show ?case
    using first_byte [of "byte a" "byte b div 16"] second_byte [of "byte b" "byte a mod 4" 0] by (simp add: b64_value_char)
next
  case (4 a b c s)
  have "byte b div 16 < 16" "byte c div 64 < 4"
    using less_mult_imp_div_less [of "byte b" 16 16] less_mult_imp_div_less [of "byte c" 4 64] byte_less [of b] byte_less [of c] by simp_all
  with 4 show ?case
    using first_byte [of "byte a" "byte b div 16"] second_byte [of "byte b" "byte a mod 4" "byte c div 64"]
      third_byte [of "byte c" "byte b mod 16"] by (simp add: b64_value_char)
qed simp

end
