(* ===== verification/Storage_Crypto.thy ===== *)
theory Storage_Crypto
  imports Store Json_Reader Base64
begin

text \<open>
  \<^verbatim>\<open>pmiri/storage_crypto.py\<close>: the versioned AES-GCM cipher of stored blobs, with key rotation. The
  authenticated encryption of the \<^verbatim>\<open>cryptography\<close> package, the key provider and the key escrow are
  deployment ports and stay parameters; \<open>aead_law\<close> is what is assumed of the first. The nonce is an
  argument: it comes from the system's random source.
\<close>

section \<open>Ports\<close>

text \<open>\<^verbatim>\<open>AESGCM(key).encrypt(nonce, data, aad)\<close> and \<^verbatim>\<open>decrypt\<close>; \<^verbatim>\<open>None\<close> stands for \<^verbatim>\<open>InvalidTag\<close>.\<close>

record aead =
  ag_encrypt :: "string \<Rightarrow> string \<Rightarrow> string \<Rightarrow> string \<Rightarrow> string"
  ag_decrypt :: "string \<Rightarrow> string \<Rightarrow> string \<Rightarrow> string \<Rightarrow> string option"

definition aead_law :: "aead \<Rightarrow> bool" where
  "aead_law a = (\<forall>key nonce data aad. length key = 32 \<longrightarrow> length nonce = 12 \<longrightarrow>
     ag_decrypt a key nonce (ag_encrypt a key nonce data aad) aad = Some data)"

text \<open>A key provider answers a key or fails; an escrow notification succeeds or fails.\<close>

type_synonym key_provider = "string \<Rightarrow> string option"
type_synonym key_escrow = "string \<Rightarrow> string \<Rightarrow> string \<Rightarrow> bool"

section \<open>AesGcmBlobCipher\<close>

definition VERSION :: string where "VERSION = ''0.1''"
definition ALGORITHM :: string where "ALGORITHM = ''AES-256-GCM''"

abbreviation storage_error :: "string \<Rightarrow> 'a result" where
  "storage_error m \<equiv> raise StorageEncryptionError m"

record gcm_cipher =
  gc_domain_id :: string
  gc_current_key_version :: string
  gc_accepted_key_versions :: "string list"

definition upper_char :: "char \<Rightarrow> bool" where
  "upper_char c = (65 \<le> (of_char c :: nat) \<and> (of_char c :: nat) \<le> 90)"

definition name_char :: "char \<Rightarrow> bool" where
  "name_char c = (upper_char c \<or> is_digit c \<or> c = CHR ''_'' \<or> c = CHR ''-'')"

definition key_name :: "string \<Rightarrow> bool" where
  "key_name s = (s \<noteq> [] \<and> upper_char (hd s) \<and> list_all name_char (tl s))"

definition validate_version :: "string \<Rightarrow> unit result" where
  "validate_version v = (if key_name v \<and> length v \<le> 16 then Inr () else storage_error ''storage_key_version_invalid'')"

definition gcm_init :: "string \<Rightarrow> string \<Rightarrow> string list option \<Rightarrow> gcm_cipher result" where
  "gcm_init domain_id current accepted_versions =
     bind_result (validate_version current) (\<lambda>_.
       let accepted = remdups (current # (case accepted_versions of None \<Rightarrow> [] | Some vs \<Rightarrow> vs))
       in bind_result (traverse validate_version accepted) (\<lambda>_.
            if domain_id = [] \<or> py_len domain_id > 48 \<or> \<not> key_name domain_id then storage_error ''storage_key_domain_invalid''
            else Inr \<lparr>gc_domain_id = domain_id, gc_current_key_version = current, gc_accepted_key_versions = accepted\<rparr>))"

definition gcm_key :: "key_provider \<Rightarrow> gcm_cipher \<Rightarrow> string \<Rightarrow> string result" where
  "gcm_key provider g version =
     (case provider (gc_domain_id g @ ''_'' @ version) of
        None \<Rightarrow> storage_error ''storage_key_unavailable''
      | Some key \<Rightarrow> if length key \<noteq> 32 then storage_error ''storage_key_length_invalid'' else Inr key)"

definition rotate_key :: "key_provider \<Rightarrow> key_escrow option \<Rightarrow> gcm_cipher \<Rightarrow> string \<Rightarrow> gcm_cipher result" where
  "rotate_key provider escrow g new_version =
     bind_result (validate_version new_version) (\<lambda>_.
     bind_result (gcm_key provider g new_version) (\<lambda>key.
       if (case escrow of None \<Rightarrow> False | Some notify \<Rightarrow> \<not> notify (gc_domain_id g) new_version (sha256_bytes key))
       then storage_error ''storage_key_escrow_failed''
       else Inr (g\<lparr>gc_current_key_version := new_version,
                    gc_accepted_key_versions :=
                      (if new_version \<in> set (gc_accepted_key_versions g) then gc_accepted_key_versions g
                       else gc_accepted_key_versions g @ [new_version])\<rparr>)))"

definition aad_of :: "gcm_cipher \<Rightarrow> string \<Rightarrow> string \<Rightarrow> string" where
  "aad_of g version fingerprint = canonical_json (JObj
     [(''domain_id'', JStr (gc_domain_id g)), (''key_version'', JStr version), (''fingerprint'', JStr fingerprint)])"

definition gcm_envelope :: "gcm_cipher \<Rightarrow> string \<Rightarrow> string \<Rightarrow> string \<Rightarrow> string \<Rightarrow> dict" where
  "gcm_envelope g version fingerprint nonce ciphertext =
     [(''version'', JStr VERSION), (''algorithm'', JStr ALGORITHM), (''domain_id'', JStr (gc_domain_id g)),
      (''key_version'', JStr version), (''fingerprint'', JStr fingerprint),
      (''nonce'', JStr (b64encode nonce)), (''ciphertext'', JStr (b64encode ciphertext))]"

definition gcm_encrypt :: "aead \<Rightarrow> key_provider \<Rightarrow> gcm_cipher \<Rightarrow> string \<Rightarrow> string \<Rightarrow> string \<Rightarrow> string result" where
  "gcm_encrypt a provider g nonce fingerprint plaintext =
     (if py_len fingerprint \<noteq> 64 then storage_error ''storage_plaintext_fingerprint_invalid''
      else let version = gc_current_key_version g
           in map_result (\<lambda>key.
                canonical_json (JObj (gcm_envelope g version fingerprint nonce
                  (ag_encrypt a key nonce plaintext (aad_of g version fingerprint)))))
              (gcm_key provider g version))"

text \<open>
  \<^verbatim>\<open>json.loads\<close> on bytes: a byte order mark is skipped and the rest must be UTF-8. Bytes that look like
  UTF-16 or UTF-32 are not decoded here.
\<close>

definition loads_bytes :: "string \<Rightarrow> json option" where
  "loads_bytes raw =
     (let body = (if startswith raw [CHR 0xEF, CHR 0xBB, CHR 0xBF] then drop 3 raw else raw)
      in if valid_utf8 body then loads body else None)"

definition b64_field :: "dict \<Rightarrow> string \<Rightarrow> string result" where
  "b64_field envelope k =
     (case get envelope k of
        JStr s \<Rightarrow> (case b64decode s of Some x \<Rightarrow> Inr x | None \<Rightarrow> storage_error ''storage_ciphertext_invalid'')
      | _ \<Rightarrow> storage_error ''storage_ciphertext_invalid'')"

definition gcm_decrypt :: "aead \<Rightarrow> key_provider \<Rightarrow> gcm_cipher \<Rightarrow> string \<Rightarrow> string \<Rightarrow> string result" where
  "gcm_decrypt a provider g fingerprint ciphertext =
     (case loads_bytes ciphertext of
        None \<Rightarrow> storage_error ''storage_ciphertext_invalid''
      | Some (JObj envelope) \<Rightarrow>
          if \<not> py_eq (get envelope ''version'') (JStr VERSION) \<or> \<not> py_eq (get envelope ''algorithm'') (JStr ALGORITHM)
          then storage_error ''storage_envelope_invalid''
          else if \<not> py_eq (get envelope ''domain_id'') (JStr (gc_domain_id g))
                  \<or> \<not> py_eq (get envelope ''fingerprint'') (JStr fingerprint)
          then storage_error ''storage_envelope_binding_mismatch''
          else (case get envelope ''key_version'' of
                  JStr version \<Rightarrow>
                    if version \<notin> set (gc_accepted_key_versions g) then storage_error ''storage_key_version_not_accepted''
                    else
                      bind_result (b64_field envelope ''nonce'') (\<lambda>nonce.
                      bind_result (b64_field envelope ''ciphertext'') (\<lambda>encoded.
                        if length nonce \<noteq> 12 then storage_error ''storage_nonce_invalid''
                        else bind_result (gcm_key provider g version) (\<lambda>key.
                          case ag_decrypt a key nonce encoded (aad_of g version fingerprint) of
                            None \<Rightarrow> storage_error ''storage_ciphertext_invalid''
                          | Some plaintext \<Rightarrow>
                              if sha256_bytes plaintext \<noteq> fingerprint then storage_error ''storage_plaintext_fingerprint_mismatch''
                              else Inr plaintext)))
                | JList _ \<Rightarrow> storage_error ''storage_ciphertext_invalid''
                | JObj _ \<Rightarrow> storage_error ''storage_ciphertext_invalid''
                | _ \<Rightarrow> storage_error ''storage_key_version_not_accepted'')
      | _ \<Rightarrow> storage_error ''storage_envelope_invalid'')"

text \<open>The cipher as the SQLite store uses it, for a source of nonces.\<close>

definition gcm_blob_cipher :: "aead \<Rightarrow> key_provider \<Rightarrow> (string \<Rightarrow> string \<Rightarrow> string) \<Rightarrow> gcm_cipher \<Rightarrow> blob_cipher" where
  "gcm_blob_cipher a provider nonces g =
     \<lparr>bc_encrypt = (\<lambda>fp x. gcm_encrypt a provider g (nonces fp x) fp x), bc_decrypt = gcm_decrypt a provider g\<rparr>"

section \<open>Well-formed ciphers\<close>

definition gcm_invar :: "gcm_cipher \<Rightarrow> bool" where
  "gcm_invar g =
     (gc_current_key_version g \<in> set (gc_accepted_key_versions g) \<and> distinct (gc_accepted_key_versions g)
      \<and> (\<forall>v \<in> set (gc_accepted_key_versions g). validate_version v = Inr ()) \<and> key_name (gc_domain_id g))"

lemma traverse_unit: "traverse f xs = Inr ys \<Longrightarrow> x \<in> set xs \<Longrightarrow> f x = Inr (() :: unit)"
  by (induction xs arbitrary: ys) (auto simp: result_simps)

lemma gcm_init_invar:
  assumes "gcm_init d v vs = Inr g"
  shows "gcm_invar g"
proof -
  let ?acc = "remdups (v # (case vs of None \<Rightarrow> [] | Some vs \<Rightarrow> vs))"
  from assms obtain ys where ys: "traverse validate_version ?acc = Inr ys" and d: "key_name d"
    and g: "g = \<lparr>gc_domain_id = d, gc_current_key_version = v, gc_accepted_key_versions = ?acc\<rparr>"
    unfolding gcm_init_def bind_result_Inr_iff Let_def by (auto split: if_splits simp del: remdups.simps)
  have "validate_version w = Inr ()" if "w \<in> set ?acc" for w using traverse_unit [OF ys that] .
  moreover have "v \<in> set ?acc" "distinct ?acc" by simp_all
  ultimately show ?thesis unfolding gcm_invar_def g by (simp add: d del: remdups.simps set_remdups)
qed

lemma rotate_key_invar: "rotate_key provider escrow g v = Inr g' \<Longrightarrow> gcm_invar g \<Longrightarrow> gcm_invar g'"
  by (auto simp: rotate_key_def gcm_invar_def result_simps split: if_splits)

section \<open>What is sealed can be opened\<close>

lemma get_sort_members:
  assumes "distinct (map fst d)"
  shows "get (sort_key fst (sort_keys_members d)) k = (case map_of d k of None \<Rightarrow> JNull | Some v \<Rightarrow> sort_keys v)"
proof -
  have "map_of (map (\<lambda>kv. (fst kv, sort_keys (snd kv))) d) k = map_option sort_keys (map_of d k)" by (induction d) auto
  moreover have "distinct (map fst (sort_keys_members d))" using assms by (simp add: sort_members_map comp_def)
  ultimately show ?thesis by (simp add: get_def map_of_sort_key_fst sort_members_map split: option.splits)
qed

lemma envelope_keys: "distinct (map fst (gcm_envelope g v fp n ct))"
  by (simp add: gcm_envelope_def)

definition sealed_get :: "gcm_cipher \<Rightarrow> string \<Rightarrow> string \<Rightarrow> string \<Rightarrow> string \<Rightarrow> dict" where
  "sealed_get g v fp n ct = sort_key fst (sort_keys_members (gcm_envelope g v fp n ct))"

lemma sealed_fields:
  "get (sealed_get g v fp n ct) ''version'' = JStr VERSION" "get (sealed_get g v fp n ct) ''algorithm'' = JStr ALGORITHM"
  "get (sealed_get g v fp n ct) ''domain_id'' = JStr (gc_domain_id g)" "get (sealed_get g v fp n ct) ''fingerprint'' = JStr fp"
  "get (sealed_get g v fp n ct) ''key_version'' = JStr v" "get (sealed_get g v fp n ct) ''nonce'' = JStr (b64encode n)"
  "get (sealed_get g v fp n ct) ''ciphertext'' = JStr (b64encode ct)"
  unfolding sealed_get_def get_sort_members [OF envelope_keys] by (simp_all add: gcm_envelope_def)

lemma b64_ascii: "ascii (b64encode s)"
proof -
  have "list_all (\<lambda>c. (of_char c :: nat) < 128) b64_alphabet" by code_simp
  then have "(of_char (b64_char n) :: nat) < 128" for n by (simp add: b64_char_def b64_alphabet_def list_all_length)
  then show ?thesis by (induction s rule: b64encode.induct) simp_all
qed

lemma key_name_ascii: "key_name s \<Longrightarrow> ascii s"
proof -
  have "(of_char c :: nat) < 128" if "name_char c" for c
    using that digit_range by (auto simp: name_char_def upper_char_def)
  moreover have "upper_char c \<Longrightarrow> name_char c" for c by (simp add: name_char_def)
  ultimately show "key_name s \<Longrightarrow> ascii s" by (cases s) (auto simp: key_name_def list_all_iff ascii_def)
qed

lemma sealed_loads:
  assumes "ascii (gc_domain_id g)" "ascii v" "ascii fp"
  shows "loads_bytes (canonical_json (JObj (gcm_envelope g v fp n ct))) = Some (JObj (sealed_get g v fp n ct))"
proof -
  let ?j = "JObj (gcm_envelope g v fp n ct)"
  have wf: "wf_json ?j" using envelope_keys by (simp add: gcm_envelope_def)
  have "ascii_json ?j" using assms b64_ascii by (simp add: gcm_envelope_def VERSION_def ALGORITHM_def)
  then have "valid_utf8 (canonical_json ?j)" by (intro valid_utf8_ascii canonical_range(2))
  moreover have "\<not> startswith (canonical_json ?j) [CHR 0xEF, CHR 0xBB, CHR 0xBF]"
    by (simp add: canonical_json_def startswith_def)
  ultimately show ?thesis using loads_canonical [OF wf] by (simp add: loads_bytes_def sealed_get_def)
qed

lemma gcm_decrypt_sealed:
  assumes "ascii (gc_domain_id g)" "ascii v" "ascii fp" "v \<in> set (gc_accepted_key_versions g)" "length n = 12"
    and "gcm_key provider g v = Inr key" "ag_decrypt a key n ct (aad_of g v fp) = Some x" "sha256_bytes x = fp"
  shows "gcm_decrypt a provider g fp (canonical_json (JObj (gcm_envelope g v fp n ct))) = Inr x"
  unfolding gcm_decrypt_def sealed_loads [OF assms(1-3)] option.case json.case sealed_fields b64_field_def
  using assms(4-8) by (simp add: b64_roundtrip)

lemma gcm_open_sealed:
  assumes law: "aead_law a" and inv: "gcm_invar g" and key: "gcm_key provider g (gc_current_key_version g) = Inr key"
    and n: "length n = 12"
  obtains ct where "gcm_encrypt a provider g n (sha256_bytes x) x = Inr (canonical_json (JObj (gcm_envelope g (gc_current_key_version g) (sha256_bytes x) n ct)))"
    "ag_decrypt a key n ct (aad_of g (gc_current_key_version g) (sha256_bytes x)) = Some x"
proof -
  have "length key = 32" using key by (auto simp: gcm_key_def split: option.splits if_splits)
  with law n have "ag_decrypt a key n (ag_encrypt a key n x aad) aad = Some x" for aad by (simp add: aead_law_def)
  then show ?thesis using that key by (simp add: gcm_encrypt_def sha256_bytes_ascii Let_def)
qed

lemma gcm_versions_ascii: "gcm_invar g \<Longrightarrow> v \<in> set (gc_accepted_key_versions g) \<Longrightarrow> ascii v"
  unfolding gcm_invar_def validate_version_def by (rule key_name_ascii) (auto split: if_splits)

text \<open>
  C36. Under the law of authenticated encryption, a well-formed cipher whose current key is available
  is a lawful cipher of the SQLite store: every text sealed under its fingerprint opens to itself.
  With it the store keeps its whole contract.
\<close>

theorem gcm_cipher_lawful:
  assumes "aead_law a" "gcm_invar g" "gcm_key provider g (gc_current_key_version g) = Inr key"
    and "\<forall>fp x. length (nonces fp x) = 12"
  shows "cipher_law (Some (gcm_blob_cipher a provider nonces g))
    \<and> source_store (sql_register_bytes (Some (gcm_blob_cipher a provider nonces g)))
        (sql_list_sources (Some (gcm_blob_cipher a provider nonces g))) (sql_records (Some (gcm_blob_cipher a provider nonces g)))
        (sql_contents (Some (gcm_blob_cipher a provider nonces g))) (sql_invar (Some (gcm_blob_cipher a provider nonces g)))"
proof -
  let ?v = "gc_current_key_version g"
  have v: "?v \<in> set (gc_accepted_key_versions g)" using assms(2) by (simp add: gcm_invar_def)
  have "\<exists>s. seal_blob (Some (gcm_blob_cipher a provider nonces g)) (sha256_bytes x) x = Inr s
      \<and> open_blob (Some (gcm_blob_cipher a provider nonces g)) (sha256_bytes x) s = Inr x" for x
  proof -
    let ?n = "nonces (sha256_bytes x) x"
    have n: "length ?n = 12" using assms(4) by simp
    obtain ct where ct: "gcm_encrypt a provider g ?n (sha256_bytes x) x = Inr (canonical_json (JObj (gcm_envelope g ?v (sha256_bytes x) ?n ct)))"
      "ag_decrypt a key ?n ct (aad_of g ?v (sha256_bytes x)) = Some x"
      by (rule gcm_open_sealed [OF assms(1,2,3) n])
    have "gcm_decrypt a provider g (sha256_bytes x) (canonical_json (JObj (gcm_envelope g ?v (sha256_bytes x) ?n ct))) = Inr x"
      by (rule gcm_decrypt_sealed)
        (use assms(2,3) v n ct gcm_versions_ascii key_name_ascii sha256_bytes_ascii in \<open>auto simp: gcm_invar_def\<close>)
    with ct show ?thesis by (simp add: seal_blob_def open_blob_def gcm_blob_cipher_def)
  qed
  then have law: "cipher_law (Some (gcm_blob_cipher a provider nonces g))" by (simp add: cipher_law_def)
  with sql_source_store [OF law] show ?thesis by simp
qed

text \<open>
  Rotation loses nothing: a text sealed before a rotation opens after it, for as long as the key
  provider still has the old key; and what is sealed afterwards carries the new version.
\<close>

theorem rotation_keeps_old_blobs:
  assumes "aead_law a" "gcm_invar g" "gcm_key provider g (gc_current_key_version g) = Inr key" "length n = 12"
    and "gcm_encrypt a provider g n (sha256_bytes x) x = Inr sealed" "rotate_key provider escrow g v = Inr g'"
  shows "gcm_decrypt a provider g' (sha256_bytes x) sealed = Inr x \<and> gc_current_key_version g' = v \<and> gcm_invar g'
    \<and> (\<exists>key'. gcm_key provider g' v = Inr key')"
proof -
  let ?v = "gc_current_key_version g"
  from assms(6) obtain key' where key': "gcm_key provider g v = Inr key'"
    and g': "g' = g\<lparr>gc_current_key_version := v, gc_accepted_key_versions :=
        (if v \<in> set (gc_accepted_key_versions g) then gc_accepted_key_versions g else gc_accepted_key_versions g @ [v])\<rparr>"
    by (auto simp: rotate_key_def result_simps split: if_splits)
  have dom: "gc_domain_id g' = gc_domain_id g" by (simp add: g')
  then have same: "gcm_key provider g' = gcm_key provider g" "gcm_envelope g' = gcm_envelope g" "aad_of g' = aad_of g"
    by (auto simp: fun_eq_iff gcm_key_def gcm_envelope_def aad_of_def)
  obtain ct where ct: "gcm_encrypt a provider g n (sha256_bytes x) x = Inr (canonical_json (JObj (gcm_envelope g ?v (sha256_bytes x) n ct)))"
    "ag_decrypt a key n ct (aad_of g ?v (sha256_bytes x)) = Some x"
    by (rule gcm_open_sealed [OF assms(1-4)])
  have v: "?v \<in> set (gc_accepted_key_versions g)" using assms(2) by (simp add: gcm_invar_def)
  then have v': "?v \<in> set (gc_accepted_key_versions g')" by (simp add: g')
  have "gcm_decrypt a provider g' (sha256_bytes x) (canonical_json (JObj (gcm_envelope g' ?v (sha256_bytes x) n ct))) = Inr x"
    by (rule gcm_decrypt_sealed)
      (use assms(2-4) v v' ct gcm_versions_ascii key_name_ascii sha256_bytes_ascii in \<open>auto simp: gcm_invar_def same dom\<close>)
  with ct(1) assms(5) rotate_key_invar [OF assms(6,2)] key' show ?thesis by (simp add: same) (simp add: g')
qed

text \<open>
  Opening fails closed: whatever bytes are stored, the outcome is a text with the fingerprint that
  was asked for, authenticated under the domain, an accepted key version and that fingerprint, or a
  \<^verbatim>\<open>StorageEncryptionError\<close>.
\<close>

theorem gcm_decrypt_fails_closed:
  "(\<exists>m. gcm_decrypt a provider g fp raw = Inl (StorageEncryptionError, m))
   \<or> (\<exists>x version nonce body key. gcm_decrypt a provider g fp raw = Inr x \<and> sha256_bytes x = fp
        \<and> version \<in> set (gc_accepted_key_versions g) \<and> gcm_key provider g version = Inr key \<and> length nonce = 12
        \<and> ag_decrypt a key nonce body (aad_of g version fp) = Some x)"
proof (cases "gcm_decrypt a provider g fp raw")
  case (Inl e)
  have key: "fst e = StorageEncryptionError" if "gcm_key provider g v = Inl e" for v
    using that by (auto simp: gcm_key_def raise_def split: option.splits if_splits)
  have b64: "fst e = StorageEncryptionError" if "b64_field env k = Inl e" for env k
    using that by (auto simp: b64_field_def raise_def split: json.splits option.splits)
  have "fst e = StorageEncryptionError"
    using Inl key b64
    by (auto simp: gcm_decrypt_def raise_def bind_result_Inl_iff split: option.splits json.splits if_splits)
  then show ?thesis using Inl by (cases e) auto
next
  case (Inr x)
  then show ?thesis
    by (auto simp: gcm_decrypt_def raise_def result_simps split: option.splits json.splits if_splits) blast+
qed

section \<open>The hypotheses can hold\<close>

text \<open>A stand-in for the authenticated encryption that appends a fixed tag, and a provider with one key.\<close>

definition sample_aead :: aead where
  "sample_aead = \<lparr>ag_encrypt = (\<lambda>key nonce data aad. data @ replicate 16 CHR 0x00),
     ag_decrypt = (\<lambda>key nonce ct aad. if length ct < 16 then None else Some (take (length ct - 16) ct))\<rparr>"

definition sample_provider :: key_provider where
  "sample_provider name = Some (replicate 32 CHR 0x01)"

definition sample_cipher :: gcm_cipher where
  "sample_cipher = \<lparr>gc_domain_id = ''STORE_BLOB'', gc_current_key_version = ''V1'', gc_accepted_key_versions = [''V1'']\<rparr>"

definition sample_nonce :: string where
  "sample_nonce = replicate 12 CHR 0x02"

lemma sample_crypto:
  "aead_law sample_aead" "gcm_init ''STORE_BLOB'' ''V1'' None = Inr sample_cipher"
  "gcm_key sample_provider sample_cipher v = Inr (replicate 32 CHR 0x01)" "length sample_nonce = 12"
  "validate_version ''V2'' = Inr ()"
proof -
  show "aead_law sample_aead" by (simp add: aead_law_def sample_aead_def)
  show "gcm_init ''STORE_BLOB'' ''V1'' None = Inr sample_cipher" "validate_version ''V2'' = Inr ()" by code_simp+
qed (simp_all add: gcm_key_def sample_provider_def sample_nonce_def)

theorem gcm_cipher_lawful_witness:
  "cipher_law (Some (gcm_blob_cipher sample_aead sample_provider (\<lambda>_ _. sample_nonce) sample_cipher))"
  using gcm_cipher_lawful [OF sample_crypto(1) gcm_init_invar [OF sample_crypto(2)] sample_crypto(3), of "\<lambda>_ _. sample_nonce"]
  by (simp add: sample_crypto(4))

theorem rotation_keeps_old_blobs_witness:
  "\<exists>sealed g'. rotate_key sample_provider None sample_cipher ''V2'' = Inr g'
     \<and> gcm_encrypt sample_aead sample_provider sample_cipher sample_nonce (sha256_bytes ''hello'') ''hello'' = Inr sealed
     \<and> gcm_decrypt sample_aead sample_provider g' (sha256_bytes ''hello'') sealed = Inr ''hello''"
proof -
  obtain g' where g': "rotate_key sample_provider None sample_cipher ''V2'' = Inr g'"
    by (simp add: rotate_key_def sample_crypto)
  obtain sealed where sealed: "gcm_encrypt sample_aead sample_provider sample_cipher sample_nonce (sha256_bytes ''hello'') ''hello'' = Inr sealed"
    by (simp add: gcm_encrypt_def sha256_bytes_ascii sample_crypto Let_def)
  from rotation_keeps_old_blobs [OF sample_crypto(1) gcm_init_invar [OF sample_crypto(2)] sample_crypto(3,4) sealed g'] g' sealed
  show ?thesis by blast
qed

end
