(* ===== verification/Audit_Log.thy ===== *)
theory Audit_Log
  imports Read_Operations Json_Reader
begin

text \<open>
  \<^verbatim>\<open>pmiri/audit.py\<close>: redacted, fingerprinted audit events and the append-only JSON-lines sink. The file is
  its text, or absent; the two locks make an append one step.
\<close>

section \<open>ReadAuditEvent\<close>

definition AUDIT_EVENT_TYPE :: string where "AUDIT_EVENT_TYPE = ''PMIRI_READ_AUDIT_EVENT''"
definition AUDIT_VERSION :: string where "AUDIT_VERSION = ''0.1''"
definition OUTCOMES :: "string list" where "OUTCOMES = [''EMITTED'', ''REJECTED'']"
definition TRANSPORTS :: "string list" where "TRANSPORTS = [''HTTP_LOOPBACK'', ''LOCAL'']"

definition audit_operation :: "string option \<Rightarrow> string" where
  "audit_operation oper = (case oper of Some x \<Rightarrow> if x \<in> set READ_OPERATIONS then x else ''unknown'' | None \<Rightarrow> ''unknown'')"

record read_audit_event =
  ae_captured_at :: string
  ae_transport :: string
  ae_operation :: string
  ae_outcome :: string
  ae_status_code :: int
  ae_projection_fingerprint :: "string option"
  ae_typed_result_fingerprint :: "string option"
  ae_error_code :: "string option"
  ae_event_id :: string
  ae_event_fingerprint :: string

definition event_payload :: "read_audit_event \<Rightarrow> dict" where
  "event_payload e =
     [(''artifact_type'', JStr AUDIT_EVENT_TYPE), (''artifact_version'', JStr AUDIT_VERSION),
      (''captured_at'', JStr (ae_captured_at e)), (''transport'', JStr (ae_transport e)),
      (''operation'', JStr (ae_operation e)), (''outcome'', JStr (ae_outcome e)),
      (''status_code'', JInt (ae_status_code e)),
      (''projection_fingerprint'', jopt (ae_projection_fingerprint e)),
      (''typed_result_fingerprint'', jopt (ae_typed_result_fingerprint e)),
      (''error_code'', jopt (ae_error_code e))]"

definition event_structured :: "read_audit_event \<Rightarrow> dict" where
  "event_structured e =
     event_payload e @ [(''event_id'', JStr (ae_event_id e)), (''event_fingerprint'', JStr (ae_event_fingerprint e))]"

text \<open>\<^verbatim>\<open>create\<close>: the time is the given one or, when that is missing or empty, the clock's.\<close>

definition create_event ::
  "string \<Rightarrow> string \<Rightarrow> string option \<Rightarrow> string \<Rightarrow> int \<Rightarrow> string option \<Rightarrow> string option \<Rightarrow> string option \<Rightarrow> string option
     \<Rightarrow> read_audit_event" where
  "create_event now transport oper outcome status projection typed error captured_at =
     (let e = \<lparr>ae_captured_at = (case captured_at of None \<Rightarrow> now | Some t \<Rightarrow> if t = [] then now else t),
               ae_transport = transport, ae_operation = audit_operation oper, ae_outcome = outcome,
               ae_status_code = status, ae_projection_fingerprint = projection,
               ae_typed_result_fingerprint = typed, ae_error_code = error, ae_event_id = [], ae_event_fingerprint = []\<rparr>;
          fp = sha256_json (JObj (event_payload e))
      in e\<lparr>ae_event_id := ''audit_'' @ take 32 fp, ae_event_fingerprint := fp\<rparr>)"

definition emitted_event :: "string \<Rightarrow> string \<Rightarrow> string \<Rightarrow> string \<Rightarrow> int \<Rightarrow> string \<Rightarrow> string option \<Rightarrow> read_audit_event" where
  "emitted_event now oper projection typed status transport captured_at =
     create_event now transport (Some oper) ''EMITTED'' status (Some projection) (Some typed) None captured_at"

definition rejected_event :: "string \<Rightarrow> string option \<Rightarrow> int \<Rightarrow> string \<Rightarrow> string \<Rightarrow> string option \<Rightarrow> read_audit_event" where
  "rejected_event now oper status error transport captured_at =
     create_event now transport oper ''REJECTED'' status None None (Some error) captured_at"

section \<open>validate\_audit\_event\<close>

definition payload_keys :: "string list" where
  "payload_keys = [''artifact_type'', ''artifact_version'', ''captured_at'', ''transport'', ''operation'', ''outcome'',
     ''status_code'', ''projection_fingerprint'', ''typed_result_fingerprint'', ''error_code'']"

definition flag :: "bool \<Rightarrow> string \<Rightarrow> string list" where
  "flag b m = (if b then [m] else [])"

definition status_ok :: "json \<Rightarrow> bool" where
  "status_ok v = (case v of JInt i \<Rightarrow> 100 \<le> i \<and> i \<le> 599 | _ \<Rightarrow> False)"

definition outcome_errors :: "dict \<Rightarrow> string list" where
  "outcome_errors d =
     (if py_eq (get d ''outcome'') (JStr ''EMITTED'') then
        flag (\<not> is_sha256 (get d ''projection_fingerprint'') \<or> \<not> is_sha256 (get d ''typed_result_fingerprint'')) ''emitted_fingerprints_missing''
        @ flag (get d ''error_code'' \<noteq> JNull) ''emitted_error_present''
      else if py_eq (get d ''outcome'') (JStr ''REJECTED'') then
        flag (get d ''projection_fingerprint'' \<noteq> JNull \<or> get d ''typed_result_fingerprint'' \<noteq> JNull) ''rejected_fingerprints_present''
        @ flag (\<not> py_eq (get d ''error_code'') (JStr ''REQUEST_REJECTED'')) ''rejected_error_invalid''
      else [])"

definition identity_errors :: "dict \<Rightarrow> string list" where
  "identity_errors d =
     (let event_id = get d ''event_id''; claimed = get d ''event_fingerprint'';
          unsigned = map (\<lambda>k. (k, get d k)) payload_keys
      in flag (case event_id of JStr s \<Rightarrow> \<not> startswith s ''audit_'' | _ \<Rightarrow> True) ''event_id_invalid''
         @ flag (\<not> is_sha256 claimed \<or> \<not> py_eq claimed (JStr (sha256_json (JObj unsigned)))) ''event_fingerprint_mismatch''
         @ flag (case (event_id, claimed) of
                   (JStr s, JStr c) \<Rightarrow> is_sha256_str c \<and> s \<noteq> ''audit_'' @ take 32 c
                 | _ \<Rightarrow> False) ''event_id_fingerprint_mismatch'')"

definition validate_audit_event :: "dict \<Rightarrow> string list result" where
  "validate_audit_event d =
     bind_result (not_in (get d ''transport'') TRANSPORTS) (\<lambda>bad_transport.
     map_result (\<lambda>bad_outcome.
       flag (keys d \<noteq> set (payload_keys @ [''event_id'', ''event_fingerprint''])) ''event_shape_invalid''
       @ flag (\<not> py_eq (get d ''artifact_type'') (JStr AUDIT_EVENT_TYPE) \<or> \<not> py_eq (get d ''artifact_version'') (JStr AUDIT_VERSION)) ''event_identity_invalid''
       @ flag (\<not> nonempty_str (get d ''captured_at'')) ''captured_at_invalid''
       @ flag bad_transport ''transport_invalid''
       @ flag (\<not> list_ex (\<lambda>s. py_eq (get d ''operation'') (JStr s)) (READ_OPERATIONS @ [''unknown''])) ''operation_invalid''
       @ flag bad_outcome ''outcome_invalid''
       @ flag (\<not> status_ok (get d ''status_code'')) ''status_code_invalid''
       @ flag (get d ''projection_fingerprint'' \<noteq> JNull \<and> \<not> is_sha256 (get d ''projection_fingerprint'')) ''fingerprint_invalid:projection_fingerprint''
       @ flag (get d ''typed_result_fingerprint'' \<noteq> JNull \<and> \<not> is_sha256 (get d ''typed_result_fingerprint'')) ''fingerprint_invalid:typed_result_fingerprint''
       @ outcome_errors d @ identity_errors d)
       (not_in (get d ''outcome'') OUTCOMES))"

section \<open>JsonlAuditSink\<close>

type_synonym audit_file = "string option"

definition audit_line :: "read_audit_event \<Rightarrow> string" where
  "audit_line e = canonical_json (JObj (event_structured e)) @ [CHR 0x0A]"

definition audit_append :: "audit_file \<Rightarrow> read_audit_event \<Rightarrow> audit_file result" where
  "audit_append file e =
     bind_result (validate_audit_event (event_structured e)) (\<lambda>errors.
       case errors of
         m # _ \<Rightarrow> raise AuditError (''audit_event_invalid:'' @ m)
       | [] \<Rightarrow> Inr (Some ((case file of None \<Rightarrow> [] | Some s \<Rightarrow> s) @ audit_line e)))"

fun read_lines :: "nat \<Rightarrow> string list \<Rightarrow> dict list result" where
  "read_lines n [] = Inr []"
| "read_lines n (l # ls) =
     (case loads l of
        None \<Rightarrow> raise AuditError (''audit_line_invalid:'' @ show_nat n)
      | Some (JObj d) \<Rightarrow>
          bind_result (validate_audit_event d) (\<lambda>errors.
            case errors of
              m # _ \<Rightarrow> raise AuditError (''audit_line_invalid:'' @ show_nat n @ '':'' @ m)
            | [] \<Rightarrow> map_result (\<lambda>ds. d # ds) (read_lines (Suc n) ls))
      | Some _ \<Rightarrow> raise AuditError (''audit_line_shape_invalid:'' @ show_nat n))"

definition read_verified :: "audit_file \<Rightarrow> dict list result" where
  "read_verified file =
     (case file of
        None \<Rightarrow> Inr []
      | Some s \<Rightarrow> if \<not> valid_utf8 s then raise AuditError ''audit_file_unreadable'' else read_lines 1 (splitlines s))"

section \<open>Validation depends on the fields only\<close>

lemma validate_cong:
  assumes "keys d = keys d'" "\<And>k. get d k = get d' k"
  shows "validate_audit_event d = validate_audit_event d'"
  unfolding validate_audit_event_def outcome_errors_def identity_errors_def by (simp only: assms)

lemma flag_Nil [simp]: "flag b m = [] \<longleftrightarrow> \<not> b"
  by (simp add: flag_def)

lemma event_keys: "keys (event_structured e) = set (payload_keys @ [''event_id'', ''event_fingerprint''])"
  "distinct (map fst (event_structured e))"
proof -
  have m: "map fst (event_structured e) = payload_keys @ [''event_id'', ''event_fingerprint'']"
    by (simp add: event_structured_def event_payload_def payload_keys_def)
  show "keys (event_structured e) = set (payload_keys @ [''event_id'', ''event_fingerprint''])"
    unfolding keys_def m [symmetric] by (simp only: list.set_map)
  show "distinct (map fst (event_structured e))" unfolding m by code_simp
qed

lemma event_get:
  "get (event_structured e) ''artifact_type'' = JStr AUDIT_EVENT_TYPE" "get (event_structured e) ''artifact_version'' = JStr AUDIT_VERSION"
  "get (event_structured e) ''captured_at'' = JStr (ae_captured_at e)" "get (event_structured e) ''transport'' = JStr (ae_transport e)"
  "get (event_structured e) ''operation'' = JStr (ae_operation e)" "get (event_structured e) ''outcome'' = JStr (ae_outcome e)"
  "get (event_structured e) ''status_code'' = JInt (ae_status_code e)"
  "get (event_structured e) ''projection_fingerprint'' = jopt (ae_projection_fingerprint e)"
  "get (event_structured e) ''typed_result_fingerprint'' = jopt (ae_typed_result_fingerprint e)"
  "get (event_structured e) ''error_code'' = jopt (ae_error_code e)"
  "get (event_structured e) ''event_id'' = JStr (ae_event_id e)" "get (event_structured e) ''event_fingerprint'' = JStr (ae_event_fingerprint e)"
  by (simp_all add: event_structured_def event_payload_def)

lemma event_unsigned: "map (\<lambda>k. (k, get (event_structured e) k)) payload_keys = event_payload e"
  unfolding payload_keys_def list.map event_get by (simp add: event_payload_def)

text \<open>What validation asks of an event.\<close>

definition valid_event :: "read_audit_event \<Rightarrow> bool" where
  "valid_event e =
     (ae_captured_at e \<noteq> [] \<and> ae_transport e \<in> set TRANSPORTS \<and> ae_operation e \<in> set (READ_OPERATIONS @ [''unknown''])
      \<and> 100 \<le> ae_status_code e \<and> ae_status_code e \<le> 599
      \<and> (ae_outcome e = ''EMITTED'' \<and> (\<exists>p t. ae_projection_fingerprint e = Some p \<and> is_sha256_str p
            \<and> ae_typed_result_fingerprint e = Some t \<and> is_sha256_str t) \<and> ae_error_code e = None
         \<or> ae_outcome e = ''REJECTED'' \<and> ae_projection_fingerprint e = None \<and> ae_typed_result_fingerprint e = None
            \<and> ae_error_code e = Some ''REQUEST_REJECTED'')
      \<and> ae_event_fingerprint e = sha256_json (JObj (event_payload e))
      \<and> ae_event_id e = ''audit_'' @ take 32 (ae_event_fingerprint e))"

lemma jopt_simps [simp]: "jopt x = JNull \<longleftrightarrow> x = None" "is_sha256 (jopt x) \<longleftrightarrow> (\<exists>s. x = Some s \<and> is_sha256_str s)"
  "jopt x = JStr s \<longleftrightarrow> x = Some s"
  by (auto simp: jopt_def split: option.splits)

lemma identity_errors_Nil:
  "identity_errors (event_structured e) = [] \<longleftrightarrow>
     ae_event_fingerprint e = sha256_json (JObj (event_payload e)) \<and> ae_event_id e = ''audit_'' @ take 32 (ae_event_fingerprint e)"
proof -
  have sha: "is_sha256_str (sha256_json v)" for v using sha256_bytes_hex by (simp add: sha256_json_def)
  show ?thesis
    unfolding identity_errors_def Let_def event_get event_unsigned
    using sha [of "JObj (event_payload e)"] startswith_append [of "''audit_''"] by (auto simp del: startswith_append)
qed

lemma validate_structured: "validate_audit_event (event_structured e) = Inr [] \<longleftrightarrow> valid_event e"
proof -
  have out: "outcome_errors (event_structured e) = [] \<and> ae_outcome e \<in> set OUTCOMES \<longleftrightarrow>
     (ae_outcome e = ''EMITTED'' \<and> (\<exists>p t. ae_projection_fingerprint e = Some p \<and> is_sha256_str p
            \<and> ae_typed_result_fingerprint e = Some t \<and> is_sha256_str t) \<and> ae_error_code e = None
         \<or> ae_outcome e = ''REJECTED'' \<and> ae_projection_fingerprint e = None \<and> ae_typed_result_fingerprint e = None
            \<and> ae_error_code e = Some ''REQUEST_REJECTED'')"
    unfolding outcome_errors_def event_get by (auto simp: OUTCOMES_def)
  have ops: "list_ex (\<lambda>s. py_eq (JStr x) (JStr s)) ys \<longleftrightarrow> x \<in> set ys" for x ys by (auto simp: list_ex_iff)
  have "validate_audit_event (event_structured e) = Inr [] \<longleftrightarrow>
     ae_captured_at e \<noteq> [] \<and> ae_transport e \<in> set TRANSPORTS \<and> ae_operation e \<in> set (READ_OPERATIONS @ [''unknown''])
      \<and> 100 \<le> ae_status_code e \<and> ae_status_code e \<le> 599
      \<and> (ae_projection_fingerprint e \<noteq> None \<longrightarrow> is_sha256 (jopt (ae_projection_fingerprint e)))
      \<and> (ae_typed_result_fingerprint e \<noteq> None \<longrightarrow> is_sha256 (jopt (ae_typed_result_fingerprint e)))
      \<and> (outcome_errors (event_structured e) = [] \<and> ae_outcome e \<in> set OUTCOMES) \<and> identity_errors (event_structured e) = []"
    unfolding validate_audit_event_def event_get event_keys(1) ops
    by (auto simp: not_in_def status_ok_def)
  also have "\<dots> \<longleftrightarrow> valid_event e"
    unfolding out identity_errors_Nil valid_event_def by auto
  finally show ?thesis .
qed

section \<open>Lines\<close>

lemma printable_not_break: "printable c \<Longrightarrow> [c] \<notin> set line_breaks"
  by (auto simp: line_breaks_def printable_def)

lemma splitlines_acc_line:
  "list_all printable l \<Longrightarrow> splitlines_acc cur (map (\<lambda>c. [c]) l @ [CHR 0x0A] # us) = (cur @ l) # splitlines_acc [] us"
proof (induction l arbitrary: cur)
  case Nil
  then show ?case by (cases us) (simp_all add: line_breaks_def)
next
  case (Cons c l)
  obtain v vs where vs: "map (\<lambda>c. [c]) l @ [CHR 0x0A] # us = v # vs" by (cases l) auto
  have c: "[c] \<notin> set line_breaks" "c \<noteq> CHR 0x0D"
    using Cons.prems printable_not_break by (auto simp: printable_def)
  with Cons.IH [of "cur @ [c]"] Cons.prems vs show ?case by simp
qed

lemma splitlines_line:
  assumes "ascii l" "list_all printable l" "ascii s"
  shows "splitlines (l @ CHR 0x0A # s) = l # splitlines s"
  unfolding splitlines_def using assms splitlines_acc_line [OF assms(2), of "[]" "map (\<lambda>c. [c]) s"]
  by (simp add: uchars_ascii)

section \<open>The log reads back what was appended\<close>

text \<open>The members of an event as a line holds them: in the order of the keys.\<close>

definition stored_event :: "read_audit_event \<Rightarrow> dict" where
  "stored_event e = sort_key fst (event_structured e)"

lemma event_scalar: "sort_keys_members (event_structured e) = event_structured e"
  by (simp add: event_structured_def event_payload_def jopt_def split: option.splits)

lemma event_loads: "loads (canonical_json (JObj (event_structured e))) = Some (JObj (stored_event e))"
proof -
  have "wf_json (JObj (event_structured e))"
    using event_keys(2) by (simp add: wf_members_iff) (auto simp: event_structured_def event_payload_def jopt_def split: option.splits)
  from loads_canonical [OF this] show ?thesis by (simp add: stored_event_def event_scalar)
qed

lemma stored_event_valid: "validate_audit_event (stored_event e) = validate_audit_event (event_structured e)"
proof (rule validate_cong)
  show "keys (stored_event e) = keys (event_structured e)" by (simp add: stored_event_def keys_def)
  show "get (stored_event e) k = get (event_structured e) k" for k
    using map_of_sort_key_fst [OF event_keys(2)] by (simp add: stored_event_def get_def)
qed

lemma vocabulary_ascii: "list_all ascii (TRANSPORTS @ READ_OPERATIONS @ [''unknown'', ''EMITTED'', ''REJECTED'', ''REQUEST_REJECTED''])"
  by code_simp

lemma ascii_take: "ascii s \<Longrightarrow> ascii (take n s)"
  by (auto simp: ascii_def dest: in_set_takeD)

lemma valid_event_fields:
  assumes "valid_event e"
  shows "ascii (ae_transport e)" "ascii (ae_operation e)" "ascii (ae_outcome e)" "ascii (ae_event_fingerprint e)"
    "ascii (ae_event_id e)" "ascii_json (jopt (ae_error_code e))" "ascii_json (jopt (ae_projection_fingerprint e))"
    "ascii_json (jopt (ae_typed_result_fingerprint e))"
proof -
  note v = assms [unfolded valid_event_def]
  show fp: "ascii (ae_event_fingerprint e)" using v sha256_bytes_ascii(1) by (simp add: sha256_json_def)
  have voc: "ascii x" if "x \<in> set (TRANSPORTS @ READ_OPERATIONS @ [''unknown'', ''EMITTED'', ''REJECTED'', ''REQUEST_REJECTED''])" for x
    using that vocabulary_ascii unfolding list_all_iff by blast
  show "ascii (ae_transport e)" "ascii (ae_operation e)" "ascii (ae_outcome e)" using v voc by auto
  show "ascii (ae_event_id e)" using v fp ascii_take by simp
  have err: "ascii ''REQUEST_REJECTED''" by code_simp
  from v obtain p t where
    "(ae_projection_fingerprint e = Some p \<and> is_sha256_str p \<and> ae_typed_result_fingerprint e = Some t \<and> is_sha256_str t
      \<and> ae_error_code e = None)
     \<or> (ae_projection_fingerprint e = None \<and> ae_typed_result_fingerprint e = None \<and> ae_error_code e = Some ''REQUEST_REJECTED'')"
    by (elim conjE disjE exE) blast+
  then show "ascii_json (jopt (ae_error_code e))" "ascii_json (jopt (ae_projection_fingerprint e))"
    "ascii_json (jopt (ae_typed_result_fingerprint e))"
    using err is_sha256_ascii [of p] is_sha256_ascii [of t]
    by (elim disjE conjE; simp only: jopt_def option.case ascii_json.simps)+
qed

lemma valid_event_ascii:
  assumes "valid_event e" "ascii (ae_captured_at e)"
  shows "ascii (canonical_json (JObj (event_structured e)))"
proof -
  have "ascii_json (JObj (event_structured e))"
    using valid_event_fields [OF assms(1)] assms(2)
    by (simp add: event_structured_def event_payload_def AUDIT_EVENT_TYPE_def AUDIT_VERSION_def)
  then show ?thesis by (rule canonical_range(2))
qed

fun append_all :: "audit_file \<Rightarrow> read_audit_event list \<Rightarrow> audit_file result" where
  "append_all flog [] = Inr flog"
| "append_all flog (e # es) = bind_result (audit_append flog e) (\<lambda>flog'. append_all flog' es)"

lemma append_all_text:
  "append_all flog es = Inr flog' \<Longrightarrow>
     (\<forall>e \<in> set es. valid_event e)
     \<and> (case flog' of None \<Rightarrow> [] | Some s \<Rightarrow> s) = (case flog of None \<Rightarrow> [] | Some s \<Rightarrow> s) @ concat (map audit_line es)"
proof (induction es arbitrary: flog)
  case (Cons e es)
  then obtain f1 errors where v: "validate_audit_event (event_structured e) = Inr errors"
    and f1: "(case errors of m # _ \<Rightarrow> raise AuditError (''audit_event_invalid:'' @ m)
       | [] \<Rightarrow> Inr (Some ((case flog of None \<Rightarrow> [] | Some s \<Rightarrow> s) @ audit_line e))) = Inr f1"
    and rest: "append_all f1 es = Inr flog'"
    by (auto simp: audit_append_def result_simps)
  from f1 have "errors = []" "f1 = Some ((case flog of None \<Rightarrow> [] | Some s \<Rightarrow> s) @ audit_line e)"
    by (auto split: list.splits)
  with Cons.IH [OF rest] v validate_structured [of e] show ?case by auto
qed simp

lemma read_lines_events:
  "\<forall>e \<in> set es. valid_event e \<Longrightarrow>
     read_lines n (map (\<lambda>e. canonical_json (JObj (event_structured e))) es) = Inr (map stored_event es)"
proof (induction es arbitrary: n)
  case (Cons e es)
  then have "validate_audit_event (stored_event e) = Inr []" by (simp add: stored_event_valid validate_structured)
  with Cons show ?case by (simp add: event_loads)
qed simp

lemma split_log:
  "\<forall>e \<in> set es. valid_event e \<and> ascii (ae_captured_at e) \<Longrightarrow>
     ascii (concat (map audit_line es)) \<and>
     splitlines (concat (map audit_line es)) = map (\<lambda>e. canonical_json (JObj (event_structured e))) es"
proof (induction es)
  case Nil
  then show ?case by (simp add: splitlines_def)
next
  case (Cons e es)
  then have a: "ascii (canonical_json (JObj (event_structured e)))" by (simp add: valid_event_ascii)
  have "audit_line e @ xs = canonical_json (JObj (event_structured e)) @ CHR 0x0A # xs" for xs by (simp add: audit_line_def)
  with a Cons splitlines_line [OF a canonical_range(1), of "concat (map audit_line es)"] show ?case by (simp add: ascii_simps)
qed

text \<open>
  C37. The sink is faithful: when a sequence of events with ASCII time stamps has been appended to a new
  log, reading it back verifies every line and returns exactly those events, in that order.
\<close>

theorem audit_log_roundtrip:
  assumes "append_all None es = Inr flog" "\<forall>e \<in> set es. ascii (ae_captured_at e)"
  shows "read_verified flog = Inr (map stored_event es)"
proof -
  from append_all_text [OF assms(1)] have v: "\<forall>e \<in> set es. valid_event e"
    and t: "(case flog of None \<Rightarrow> [] | Some s \<Rightarrow> s) = concat (map audit_line es)" by simp_all
  from split_log [of es] v assms(2) have s: "ascii (concat (map audit_line es))"
    "splitlines (concat (map audit_line es)) = map (\<lambda>e. canonical_json (JObj (event_structured e))) es" by blast+
  show ?thesis
  proof (cases flog)
    case None
    with t have "es = []" by (cases es) (auto simp: audit_line_def)
    with None show ?thesis by (simp add: read_verified_def)
  next
    case (Some f)
    with t s v show ?thesis by (simp add: read_verified_def valid_utf8_ascii read_lines_events)
  qed
qed

section \<open>Created events\<close>

lemma create_event_identity:
  "ae_event_fingerprint (create_event now tr oper out st p t err at) =
     sha256_json (JObj (event_payload (create_event now tr oper out st p t err at)))"
  "ae_event_id (create_event now tr oper out st p t err at) =
     ''audit_'' @ take 32 (ae_event_fingerprint (create_event now tr oper out st p t err at))"
  by (simp_all add: create_event_def Let_def event_payload_def)

lemma audit_operation_known: "audit_operation oper \<in> set (READ_OPERATIONS @ [''unknown''])"
  by (simp add: audit_operation_def split: option.splits)

lemma rejected_event_valid:
  assumes "now \<noteq> []" "tr \<in> set TRANSPORTS" "100 \<le> st" "st \<le> 599"
  shows "valid_event (rejected_event now oper st ''REQUEST_REJECTED'' tr at)"
  unfolding valid_event_def rejected_event_def
  using assms audit_operation_known [of oper] create_event_identity [of now tr oper "''REJECTED''" st None None "Some ''REQUEST_REJECTED''" at]
  by (simp add: create_event_def Let_def split: option.splits)

lemma emitted_event_valid:
  assumes "now \<noteq> []" "tr \<in> set TRANSPORTS" "100 \<le> st" "st \<le> 599" "is_sha256_str p" "is_sha256_str t"
  shows "valid_event (emitted_event now oper p t st tr at)"
  unfolding valid_event_def emitted_event_def
  using assms audit_operation_known [of "Some oper"] create_event_identity [of now tr "Some oper" "''EMITTED''" st "Some p" "Some t" None at]
  by (simp add: create_event_def Let_def split: option.splits)

lemma audit_append_valid: "valid_event e \<Longrightarrow> audit_append f e = Inr (Some ((case f of None \<Rightarrow> [] | Some s \<Rightarrow> s) @ audit_line e))"
  using validate_structured [of e] by (simp add: audit_append_def)

definition sample_rejection :: read_audit_event where
  "sample_rejection = rejected_event ''2026-01-01T00:00:00Z'' None 400 ''REQUEST_REJECTED'' ''LOCAL'' None"

definition sample_emission :: read_audit_event where
  "sample_emission = emitted_event ''2026-01-01T00:00:00Z'' ''search'' (replicate 64 CHR ''a'') (replicate 64 CHR ''b'') 200 ''LOCAL'' None"

lemma sample_events_valid: "valid_event sample_rejection" "valid_event sample_emission"
proof -
  have t: "''LOCAL'' \<in> set TRANSPORTS" by (simp add: TRANSPORTS_def)
  have "is_sha256_str (replicate 64 CHR ''a'')" "is_sha256_str (replicate 64 CHR ''b'')" by code_simp+
  with t show "valid_event sample_rejection" "valid_event sample_emission"
    unfolding sample_rejection_def sample_emission_def by (simp_all add: rejected_event_valid emitted_event_valid)
qed

lemma sample_events_ascii: "ascii (ae_captured_at sample_rejection)" "ascii (ae_captured_at sample_emission)"
  by (simp_all add: sample_rejection_def sample_emission_def rejected_event_def emitted_event_def create_event_def Let_def)

theorem audit_log_roundtrip_witness:
  "\<exists>flog. append_all None [sample_rejection, sample_emission] = Inr flog
     \<and> read_verified flog = Inr [stored_event sample_rejection, stored_event sample_emission]"
proof -
  obtain flog where f: "append_all None [sample_rejection, sample_emission] = Inr flog"
    using sample_events_valid by (simp add: audit_append_valid)
  from audit_log_roundtrip [OF f] sample_events_ascii f show ?thesis by auto
qed

section \<open>A time stamp with a line separator\<close>

text \<open>
  The writer leaves U+2028 as it is, and the reader splits lines there.
\<close>

definition separator :: string where
  "separator = [CHR 0xE2, CHR 0x80, CHR 0xA8]"

lemma stored_event_order:
  "stored_event e =
     [(''artifact_type'', JStr AUDIT_EVENT_TYPE), (''artifact_version'', JStr AUDIT_VERSION),
      (''captured_at'', JStr (ae_captured_at e)), (''error_code'', jopt (ae_error_code e)),
      (''event_fingerprint'', JStr (ae_event_fingerprint e)), (''event_id'', JStr (ae_event_id e)),
      (''operation'', JStr (ae_operation e)), (''outcome'', JStr (ae_outcome e)),
      (''projection_fingerprint'', jopt (ae_projection_fingerprint e)), (''status_code'', JInt (ae_status_code e)),
      (''transport'', JStr (ae_transport e)), (''typed_result_fingerprint'', jopt (ae_typed_result_fingerprint e))]"
  by (simp add: stored_event_def event_structured_def event_payload_def)

definition broken_line :: string where
  "broken_line = ''{'' @ quote ''artifact_type'' @ '':'' @ quote AUDIT_EVENT_TYPE @ '','' @ quote ''artifact_version'' @ '':''
     @ quote AUDIT_VERSION @ '','' @ quote ''captured_at'' @ '':'' @ [CHR 0x22]"

lemma broken_line_facts: "loads broken_line = None" "ascii broken_line" "list_all printable broken_line"
  by code_simp+

lemma valid_utf8_ascii_append: "ascii a \<Longrightarrow> valid_utf8 (a @ b) = valid_utf8 b"
  by (induction a) (auto simp: byte_in_def)

lemma separator_line:
  assumes "ae_captured_at e = separator" "valid_event e"
  obtains s where "canonical_json (JObj (event_structured e)) = broken_line @ separator @ CHR 0x22 # s" "ascii s"
proof -
  let ?t = "emit_members
     [(''error_code'', jopt (ae_error_code e)),
      (''event_fingerprint'', JStr (ae_event_fingerprint e)), (''event_id'', JStr (ae_event_id e)),
      (''operation'', JStr (ae_operation e)), (''outcome'', JStr (ae_outcome e)),
      (''projection_fingerprint'', jopt (ae_projection_fingerprint e)), (''status_code'', JInt (ae_status_code e)),
      (''transport'', JStr (ae_transport e)), (''typed_result_fingerprint'', jopt (ae_typed_result_fingerprint e))]"
  have q: "quote separator = CHR 0x22 # separator @ [CHR 0x22]" by code_simp
  have "canonical_json (JObj (event_structured e)) = emit (JObj (stored_event e))"
    by (simp add: canonical_json_def event_scalar stored_event_def)
  then have "canonical_json (JObj (event_structured e)) = broken_line @ separator @ CHR 0x22 # CHR '','' # ?t @ ''}''"
    unfolding stored_event_order assms(1) by (simp add: q broken_line_def)
  moreover have "ascii ?t"
    using emit_range(3) by (rule conjunct2 [THEN mp]) (use valid_event_fields [OF assms(2)] in simp)
  then have "ascii (CHR '','' # ?t @ ''}'')" by simp
  ultimately show ?thesis using that by blast
qed

lemma splitlines_acc_prefix:
  "list_all printable l \<Longrightarrow> splitlines_acc cur (map (\<lambda>c. [c]) l @ separator # v # us) = (cur @ l) # splitlines_acc [] (v # us)"
proof (induction l arbitrary: cur)
  case Nil
  then show ?case by (simp add: separator_def line_breaks_def)
next
  case (Cons c l)
  obtain w ws where ws: "map (\<lambda>c. [c]) l @ separator # v # us = w # ws" by (cases l) auto
  have c: "[c] \<notin> set line_breaks" "c \<noteq> CHR 0x0D"
    using Cons.prems printable_not_break by (auto simp: printable_def)
  with Cons.IH [of "cur @ [c]"] Cons.prems ws show ?case by simp
qed

lemma uchars_separator:
  assumes "ascii l" "ascii (c # s)"
  shows "uchars (l @ separator @ c # s) = map (\<lambda>c. [c]) l @ separator # map (\<lambda>c. [c]) (c # s)"
  using assms
proof (induction l)
  case Nil
  then show ?case using uchars_ascii [OF assms(2)] by (simp add: separator_def is_cont_def)
next
  case (Cons a l)
  then have "uchars (l @ separator @ c # s) = map (\<lambda>c. [c]) l @ separator # map (\<lambda>c. [c]) (c # s)" by simp
  moreover obtain d t where dt: "l @ separator @ c # s = d # t" "\<not> is_cont d"
    using Cons.prems by (cases l) (auto simp: separator_def is_cont_def)
  ultimately show ?case by simp
qed

lemma broken_line_head: "\<not> is_cont (hd (broken_line @ s))"
  by (simp add: broken_line_def is_cont_def)

lemma log_head: "\<not> is_cont (hd (concat (map audit_line es) @ broken_line @ s))"
proof (cases es)
  case Nil
  then show ?thesis using broken_line_head by simp
next
  case (Cons e es')
  then show ?thesis by (simp add: audit_line_def canonical_json_def is_cont_def)
qed

lemma broken_log:
  assumes "\<forall>e \<in> set es. valid_event e \<and> ascii (ae_captured_at e)" "ascii s"
  shows "\<exists>ls. splitlines (concat (map audit_line es) @ broken_line @ separator @ CHR 0x22 # s) =
    map (\<lambda>e. canonical_json (JObj (event_structured e))) es @ broken_line # ls"
  using assms(1)
proof (induction es)
  case Nil
  then show ?case
    using uchars_separator [of broken_line "CHR 0x22" s] assms(2) broken_line_facts
      splitlines_acc_prefix [OF broken_line_facts(3), of "[]"]
    by (simp add: splitlines_def)
next
  case (Cons e es)
  let ?l = "canonical_json (JObj (event_structured e))"
  let ?r = "concat (map audit_line es) @ broken_line @ separator @ CHR 0x22 # s"
  have a: "ascii ?l" using Cons.prems valid_event_ascii by simp
  have "uchars ((?l @ [CHR 0x0A]) @ ?r) = uchars (?l @ [CHR 0x0A]) @ uchars ?r"
    by (rule uchars_append) (simp add: log_head)
  then have "uchars (?l @ CHR 0x0A # ?r) = map (\<lambda>c. [c]) (?l @ [CHR 0x0A]) @ uchars ?r"
    using a uchars_ascii [of "?l @ [CHR 0x0A]"] by simp
  then have "splitlines (?l @ CHR 0x0A # ?r) = ?l # splitlines ?r"
    using splitlines_acc_line [OF canonical_range(1), of "[]" "JObj (event_structured e)" "uchars ?r"] by (simp add: splitlines_def)
  moreover have "concat (map audit_line (e # es)) @ t = ?l @ CHR 0x0A # concat (map audit_line es) @ t" for t
    by (simp add: audit_line_def)
  ultimately show ?case using Cons by (simp del: list.map concat.simps) auto
qed

lemma valid_utf8_broken: "ascii l \<Longrightarrow> ascii s \<Longrightarrow> valid_utf8 (l @ separator @ s)"
  by (simp add: valid_utf8_ascii_append) (simp add: separator_def byte_in_def valid_utf8_ascii)

lemma read_lines_append:
  "read_lines n ls = Inr ds \<Longrightarrow> read_lines n (ls @ ms) = map_result (append ds) (read_lines (n + length ls) ms)"
proof (induction ls arbitrary: n ds)
  case Nil
  then show ?case by (cases "read_lines n ms") simp_all
next
  case (Cons l ls)
  then obtain d errors where d: "loads l = Some (JObj d)" "validate_audit_event d = Inr errors"
    by (auto simp: result_simps split: option.splits json.splits)
  with Cons.prems have "errors = []" by (cases errors) simp_all
  with d Cons.prems obtain ds' where "validate_audit_event d = Inr []" "read_lines (Suc n) ls = Inr ds'" "ds = d # ds'"
    by (auto simp: result_simps)
  note d(1) this
  then show ?case using Cons.IH [of "Suc n" ds'] by (cases "read_lines (Suc (n + length ls)) ms") simp_all
qed

lemma append_all_valid:
  "\<forall>e \<in> set es. valid_event e \<Longrightarrow> es \<noteq> [] \<Longrightarrow>
     append_all f es = Inr (Some ((case f of None \<Rightarrow> [] | Some s \<Rightarrow> s) @ concat (map audit_line es)))"
proof (induction es arbitrary: f)
  case (Cons e es)
  then show ?case by (cases es) (simp_all add: audit_append_valid)
qed simp

text \<open>
  One accepted event can make the log unreadable. The sink accepts an event whose time stamp holds
  the character U+2028 and writes it unescaped; reading the log then splits that line in two and fails
  with the number of the line, whatever was appended before.
\<close>

theorem separator_breaks_log:
  assumes "\<forall>e \<in> set es. valid_event e \<and> ascii (ae_captured_at e)" "valid_event e" "ae_captured_at e = separator"
  shows "\<exists>flog. append_all None (es @ [e]) = Inr flog
     \<and> read_verified flog = raise AuditError (''audit_line_invalid:'' @ show_nat (Suc (length es)))"
proof -
  obtain s where s: "canonical_json (JObj (event_structured e)) = broken_line @ separator @ CHR 0x22 # s" "ascii s"
    using separator_line [OF assms(3, 2)] .
  let ?f = "concat (map audit_line es) @ broken_line @ separator @ CHR 0x22 # s @ [CHR 0x0A]"
  have f: "append_all None (es @ [e]) = Inr (Some ?f)"
    using append_all_valid [of "es @ [e]" None] assms by (auto simp: audit_line_def s(1))
  have u: "valid_utf8 ?f"
    using valid_utf8_broken [of "concat (map audit_line es) @ broken_line" "CHR 0x22 # s @ [CHR 0x0A]"]
      split_log [OF assms(1)] s(2) broken_line_facts by simp
  obtain ls where "splitlines ?f = map (\<lambda>e. canonical_json (JObj (event_structured e))) es @ broken_line # ls"
    using broken_log [OF assms(1), of "s @ [CHR 0x0A]"] s(2) by auto
  moreover have "read_lines 1 (map (\<lambda>e. canonical_json (JObj (event_structured e))) es) = Inr (map stored_event es)"
    using assms(1) by (intro read_lines_events) blast
  ultimately have "read_verified (Some ?f) = raise AuditError (''audit_line_invalid:'' @ show_nat (Suc (length es)))"
    using u read_lines_append by (simp add: read_verified_def broken_line_facts raise_def)
  with f show ?thesis by blast
qed

definition separator_event :: read_audit_event where
  "separator_event = rejected_event separator None 400 ''REQUEST_REJECTED'' ''LOCAL'' None"

theorem separator_breaks_log_witness:
  "\<exists>flog. append_all None [sample_emission, separator_event] = Inr flog
     \<and> read_verified flog = raise AuditError ''audit_line_invalid:2''"
proof -
  have "valid_event separator_event" "ae_captured_at separator_event = separator"
    unfolding separator_event_def
    by (rule rejected_event_valid; simp add: separator_def TRANSPORTS_def)
      (simp add: rejected_event_def create_event_def Let_def)
  moreover have "''audit_line_invalid:'' @ show_nat (Suc (length [sample_emission])) = ''audit_line_invalid:2''"
    unfolding list.size by code_simp
  ultimately show ?thesis
    using separator_breaks_log [of "[sample_emission]" separator_event] sample_events_valid sample_events_ascii
    by (simp only: list.set append.simps ball_simps simp_thms)
qed

end
