(* ===== verification/Ip_Address.thy ===== *)
theory Ip_Address
  imports Canonical
begin

text \<open>
  What the network modules use of Python's \<^verbatim>\<open>ipaddress\<close>: reading an address, its canonical text, and the
  ranges by which it is private, reserved or public. An IPv4 address is its four octets, an IPv6
  address its eight groups and its zone. The ranges are those of the special-purpose registries as
  Python 3.12 has them.
\<close>

datatype ip =
    IPv4 "nat list"
  | IPv6 "nat list" "string option"

section \<open>Reading\<close>

definition parse_octet :: "string \<Rightarrow> nat option" where
  "parse_octet s =
     (if s = [] \<or> \<not> list_all is_digit s \<or> 3 < length s \<or> (s \<noteq> ''0'' \<and> hd s = CHR ''0'') \<or> 255 < read_nat s then None
      else Some (read_nat s))"

fun traverse_option :: "('a \<Rightarrow> 'b option) \<Rightarrow> 'a list \<Rightarrow> 'b list option" where
  "traverse_option f [] = Some []"
| "traverse_option f (x # xs) = Option.bind (f x) (\<lambda>y. map_option (\<lambda>ys. y # ys) (traverse_option f xs))"

definition ipv4_of_string :: "string \<Rightarrow> nat list option" where
  "ipv4_of_string s =
     (let octets = split_on CHR ''.'' s
      in if length octets \<noteq> 4 then None else traverse_option parse_octet octets)"

definition is_hex :: "char \<Rightarrow> bool" where
  "is_hex c = (c \<in> set ''0123456789abcdefABCDEF'')"

definition nibble :: "char \<Rightarrow> nat" where
  "nibble c = (if is_digit c then of_char c - 48 else if 97 \<le> (of_char c :: nat) then of_char c - 87 else of_char c - 55)"

definition read_hex :: "string \<Rightarrow> nat" where
  "read_hex s = foldl (\<lambda>a c. 16 * a + nibble c) 0 s"

definition parse_hextet :: "string \<Rightarrow> nat option" where
  "parse_hextet s = (if s = [] \<or> \<not> list_all is_hex s \<or> 4 < length s then None else Some (read_hex s))"

fun show_hex :: "nat \<Rightarrow> string" where
  "show_hex n = (if n < 16 then [hex_digit n] else show_hex (n div 16) @ [hex_digit n])"

declare show_hex.simps [simp del]

text \<open>The groups of an address with at most one \<^verbatim>\<open>::\<close>, which stands for at least one zero group.\<close>

definition ipv6_groups :: "string list \<Rightarrow> nat list option" where
  "ipv6_groups parts =
     (let n = length parts in
      if 9 < n then None
      else (case filter (\<lambda>i. parts ! i = []) [1 ..< n - 1] of
              [] \<Rightarrow>
                if n \<noteq> 8 \<or> hd parts = [] \<or> last parts = [] then None else traverse_option parse_hextet parts
            | [i] \<Rightarrow>
                let hi = (if hd parts = [] then i - 1 else i);
                    lo = (if last parts = [] then n - i - 2 else n - i - 1)
                in if hd parts = [] \<and> hi \<noteq> 0 then None
                   else if last parts = [] \<and> lo \<noteq> 0 then None
                   else if 8 < hi + lo + 1 then None
                   else Option.bind (traverse_option parse_hextet (take hi parts)) (\<lambda>a.
                        map_option (\<lambda>b. a @ replicate (8 - (hi + lo)) 0 @ b)
                          (traverse_option parse_hextet (drop (n - lo) parts)))
            | _ \<Rightarrow> None))"

definition ipv6_of_string :: "string \<Rightarrow> nat list option" where
  "ipv6_of_string s =
     (let parts = split_on CHR '':'' s in
      if length parts < 3 then None
      else if CHR ''.'' \<in> set (last parts) then
        (case ipv4_of_string (last parts) of
           Some [a, b, c, d] \<Rightarrow> ipv6_groups (butlast parts @ [show_hex (256 * a + b), show_hex (256 * c + d)])
         | _ \<Rightarrow> None)
      else ipv6_groups parts)"

text \<open>\<^verbatim>\<open>s.partition(c)\<close> when \<open>c\<close> occurs in \<open>s\<close>.\<close>

definition before :: "char \<Rightarrow> string \<Rightarrow> string" where
  "before c s = takeWhile (\<lambda>d. d \<noteq> c) s"

definition after :: "char \<Rightarrow> string \<Rightarrow> string" where
  "after c s = tl (dropWhile (\<lambda>d. d \<noteq> c) s)"

definition ip_address :: "string \<Rightarrow> ip option" where
  "ip_address s =
     (if CHR ''/'' \<in> set s then None
      else case ipv4_of_string s of
        Some v \<Rightarrow> Some (IPv4 v)
      | None \<Rightarrow>
          if CHR ''%'' \<in> set s then
            (let zone = after CHR ''%'' s in
             if zone = [] \<or> CHR ''%'' \<in> set zone then None
             else map_option (\<lambda>v. IPv6 v (Some zone)) (ipv6_of_string (before CHR ''%'' s)))
          else map_option (\<lambda>v. IPv6 v None) (ipv6_of_string s))"

section \<open>Writing\<close>

text \<open>The longest run of zero groups, the first of the longest ones.\<close>

fun zero_run :: "nat \<Rightarrow> nat \<times> nat \<Rightarrow> nat \<times> nat \<Rightarrow> nat list \<Rightarrow> nat \<times> nat" where
  "zero_run i cur best [] = best"
| "zero_run i cur best (h # hs) =
     (if h = 0 then
        let cur' = (if snd cur = 0 then (i, 1) else (fst cur, snd cur + 1))
        in zero_run (Suc i) cur' (if snd best < snd cur' then cur' else best) hs
      else zero_run (Suc i) (0, 0) best hs)"

definition compress_hextets :: "nat list \<Rightarrow> string list" where
  "compress_hextets hs =
     (case zero_run 0 (0, 0) (0, 0) hs of (s, l) \<Rightarrow>
        if 1 < l then
          (if s = 0 then [[]] else []) @ map show_hex (take s hs) @ [[]] @ map show_hex (drop (s + l) hs)
          @ (if s + l = length hs then [[]] else [])
        else map show_hex hs)"

fun compressed :: "ip \<Rightarrow> string" where
  "compressed (IPv4 v) = join ''.'' (map show_nat v)"
| "compressed (IPv6 v zone) =
     join '':'' (compress_hextets v) @ (case zone of None \<Rightarrow> [] | Some z \<Rightarrow> CHR ''%'' # z)"

fun ip_version :: "ip \<Rightarrow> nat" where
  "ip_version (IPv4 v) = 4"
| "ip_version (IPv6 v z) = 6"

section \<open>Ranges\<close>

definition value_in :: "nat \<Rightarrow> nat list \<Rightarrow> nat" where
  "value_in base xs = foldl (\<lambda>a x. base * a + x) 0 xs"

text \<open>A network: its first address and the length of its prefix.\<close>

definition in_net :: "nat \<Rightarrow> nat \<Rightarrow> nat \<times> nat \<Rightarrow> bool" where
  "in_net width v net = (v div 2 ^ (width - snd net) = fst net div 2 ^ (width - snd net))"

definition net4 :: "nat \<Rightarrow> nat \<Rightarrow> nat \<Rightarrow> nat \<Rightarrow> nat \<Rightarrow> nat \<times> nat" where
  "net4 a b c d len = (value_in 256 [a, b, c, d], len)"

definition private4 :: "(nat \<times> nat) list" where
  "private4 =
     [net4 0 0 0 0 8, net4 10 0 0 0 8, net4 127 0 0 0 8, net4 169 254 0 0 16, net4 172 16 0 0 12,
      net4 192 0 0 0 24, net4 192 0 0 170 31, net4 192 0 2 0 24, net4 192 168 0 0 16, net4 198 18 0 0 15,
      net4 198 51 100 0 24, net4 203 0 113 0 24, net4 240 0 0 0 4, net4 255 255 255 255 32]"

definition private4_exceptions :: "(nat \<times> nat) list" where
  "private4_exceptions = [net4 192 0 0 9 32, net4 192 0 0 10 32]"

text \<open>An IPv6 network by its leading groups.\<close>

definition net6 :: "nat list \<Rightarrow> nat \<Rightarrow> nat \<times> nat" where
  "net6 groups len = (value_in 65536 (groups @ replicate (8 - length groups) 0), len)"

definition private6 :: "(nat \<times> nat) list" where
  "private6 =
     [net6 [0, 0, 0, 0, 0, 0, 0, 1] 128, net6 [] 128, net6 [0, 0, 0, 0, 0, 0xFFFF] 96, net6 [0x64, 0xFF9B, 1] 48,
      net6 [0x100] 64, net6 [0x2001] 23, net6 [0x2001, 0xDB8] 32, net6 [0x2002] 16, net6 [0xFC00] 7, net6 [0xFE80] 10]"

definition private6_exceptions :: "(nat \<times> nat) list" where
  "private6_exceptions =
     [net6 [0x2001, 1, 0, 0, 0, 0, 0, 1] 128, net6 [0x2001, 1, 0, 0, 0, 0, 0, 2] 128, net6 [0x2001, 3] 32,
      net6 [0x2001, 4, 0x112] 48, net6 [0x2001, 0x20] 28, net6 [0x2001, 0x30] 28]"

definition reserved6 :: "(nat \<times> nat) list" where
  "reserved6 =
     [net6 [] 8, net6 [0x100] 8, net6 [0x200] 7, net6 [0x400] 6, net6 [0x800] 5, net6 [0x1000] 4, net6 [0x4000] 3,
      net6 [0x6000] 3, net6 [0x8000] 3, net6 [0xA000] 3, net6 [0xC000] 3, net6 [0xE000] 4, net6 [0xF000] 5,
      net6 [0xF800] 6, net6 [0xFE00] 9]"

definition in_nets :: "nat \<Rightarrow> nat \<Rightarrow> (nat \<times> nat) list \<Rightarrow> bool" where
  "in_nets width v nets = list_ex (in_net width v) nets"

definition is_private4 :: "nat \<Rightarrow> bool" where
  "is_private4 v = (in_nets 32 v private4 \<and> \<not> in_nets 32 v private4_exceptions)"

fun is_private :: "ip \<Rightarrow> bool" where
  "is_private (IPv4 v) = is_private4 (value_in 256 v)"
| "is_private (IPv6 v z) =
     (let n = value_in 65536 v in
      if n div 2 ^ 32 = 0xFFFF then is_private4 (n mod 2 ^ 32)
      else in_nets 128 n private6 \<and> \<not> in_nets 128 n private6_exceptions)"

fun is_loopback :: "ip \<Rightarrow> bool" where
  "is_loopback (IPv4 v) = in_net 32 (value_in 256 v) (net4 127 0 0 0 8)"
| "is_loopback (IPv6 v z) = (value_in 65536 v = 1)"

fun is_link_local :: "ip \<Rightarrow> bool" where
  "is_link_local (IPv4 v) = in_net 32 (value_in 256 v) (net4 169 254 0 0 16)"
| "is_link_local (IPv6 v z) = in_net 128 (value_in 65536 v) (net6 [0xFE80] 10)"

fun is_unspecified :: "ip \<Rightarrow> bool" where
  "is_unspecified (IPv4 v) = (value_in 256 v = 0)"
| "is_unspecified (IPv6 v z) = (value_in 65536 v = 0)"

fun is_multicast :: "ip \<Rightarrow> bool" where
  "is_multicast (IPv4 v) = in_net 32 (value_in 256 v) (net4 224 0 0 0 4)"
| "is_multicast (IPv6 v z) = in_net 128 (value_in 65536 v) (net6 [0xFF00] 8)"

fun is_reserved :: "ip \<Rightarrow> bool" where
  "is_reserved (IPv4 v) = in_net 32 (value_in 256 v) (net4 240 0 0 0 4)"
| "is_reserved (IPv6 v z) = in_nets 128 (value_in 65536 v) reserved6"

fun is_global :: "ip \<Rightarrow> bool" where
  "is_global (IPv4 v) = (\<not> in_net 32 (value_in 256 v) (net4 100 64 0 0 10) \<and> \<not> is_private (IPv4 v))"
| "is_global (IPv6 v z) = (\<not> is_private (IPv6 v z))"

section \<open>Joining and splitting\<close>

lemma split_on_not_Nil [simp]: "split_on c s \<noteq> []"
  by (induction s) (auto split: list.splits)

lemma split_on_plain: "c \<notin> set s \<Longrightarrow> split_on c s = [s]"
  by (induction s) auto

lemma split_on_append: "c \<notin> set p \<Longrightarrow> split_on c (p @ c # s) = p # split_on c s"
  by (induction p) (auto split: list.splits)

lemma split_on_join:
  "ps \<noteq> [] \<Longrightarrow> \<forall>p \<in> set ps. c \<notin> set p \<Longrightarrow> split_on c (join [c] ps) = ps"
  by (induction "[c]" ps rule: join.induct) (auto simp: split_on_plain split_on_append)

lemma join_split_on: "join [c] (split_on c s) = s"
proof (induction s)
  case (Cons x s)
  obtain p ps where ps: "split_on c s = p # ps" by (cases "split_on c s") auto
  with Cons show ?case by (cases ps) auto
qed simp

lemma split_on_pieces: "p \<in> set (split_on c s) \<Longrightarrow> c \<notin> set p"
  by (induction s arbitrary: p) (auto split: list.splits if_splits)

lemma set_join: "set (join sep ps) \<subseteq> set sep \<union> \<Union> (set ` set ps)"
  by (induction sep ps rule: join.induct) auto

lemma traverse_option_map: "(\<And>x. x \<in> set xs \<Longrightarrow> f (g x) = Some x) \<Longrightarrow> traverse_option f (map g xs) = Some xs"
  by (induction xs) auto

lemma traverse_option_Some:
  "traverse_option f xs = Some ys \<Longrightarrow> length ys = length xs \<and> (\<forall>y \<in> set ys. \<exists>x \<in> set xs. f x = Some y)"
proof (induction xs arbitrary: ys)
  case (Cons x xs)
  then obtain z zs where "f x = Some z" "traverse_option f xs = Some zs" "ys = z # zs"
    by (auto simp: bind_eq_Some_conv)
  with Cons.IH [of zs] show ?case by auto
qed simp

lemma traverse_option_inverse:
  "traverse_option f xs = Some ys \<Longrightarrow> (\<And>x y. f x = Some y \<Longrightarrow> g y = x) \<Longrightarrow> map g ys = xs"
  by (induction xs arbitrary: ys) (auto simp: bind_eq_Some_conv)

section \<open>Numbers\<close>

lemma length_show_nat: "n < 10 ^ Suc k \<Longrightarrow> length (show_nat n) \<le> Suc k"
proof (induction k arbitrary: n)
  case 0
  then show ?case by (subst show_nat.simps) simp
next
  case (Suc k)
  then have "n div 10 < 10 ^ Suc k" by (simp add: less_mult_imp_div_less mult.commute)
  from Suc.IH [OF this] show ?case by (subst show_nat.simps) simp
qed

lemma hd_show_nat_pos: "0 < n \<Longrightarrow> hd (show_nat n) \<noteq> CHR ''0''"
proof (induction n rule: show_nat.induct)
  case (1 n)
  show ?case
  proof (cases "n < 10")
    case True
    with 1(2) less_ten_cases [OF True] show ?thesis by (subst show_nat.simps) (auto simp: digit_char_def)
  next
    case False
    with 1 show ?thesis by (subst show_nat.simps) simp
  qed
qed

lemma octet_show: "n \<le> 255 \<Longrightarrow> parse_octet (show_nat n) = Some n"
proof (cases "n = 0")
  case True
  have "parse_octet (show_nat 0) = Some 0" by code_simp
  with True show ?thesis by simp
next
  case False
  moreover assume "n \<le> 255"
  ultimately show ?thesis
    using length_show_nat [of n 2] show_nat_digits [of _ n] hd_show_nat_pos [of n]
    by (auto simp: parse_octet_def list_all_iff)
qed

lemma show_nat_snoc: "0 < m \<Longrightarrow> d < 10 \<Longrightarrow> show_nat (10 * m + d) = show_nat m @ [digit_char d]"
  by (subst show_nat.simps) simp

lemma digit_char_val: "is_digit c \<Longrightarrow> digit_char (digit_val c) = c \<and> digit_val c < 10"
proof -
  have "list_all (\<lambda>c. digit_char (digit_val c) = c \<and> digit_val c < 10) ''0123456789''" by code_simp
  then show "is_digit c \<Longrightarrow> digit_char (digit_val c) = c \<and> digit_val c < 10" unfolding list_all_iff is_digit_def by blast
qed

lemma show_read_nat:
  "s \<noteq> [] \<Longrightarrow> list_all is_digit s \<Longrightarrow> s = ''0'' \<or> hd s \<noteq> CHR ''0'' \<Longrightarrow>
     show_nat (read_nat s) = s \<and> (hd s \<noteq> CHR ''0'' \<longrightarrow> 0 < read_nat s)"
proof (induction s rule: rev_induct)
  case (snoc c s)
  from snoc.prems have c: "digit_char (digit_val c) = c" "digit_val c < 10" using digit_char_val by auto
  show ?case
  proof (cases "s = []")
    case True
    have "c = CHR ''0'' \<or> 0 < digit_val c" using c by (cases "digit_val c") (auto simp: digit_char_def)
    with True c show ?thesis by (subst show_nat.simps) (auto simp: read_nat_def)
  next
    case False
    with snoc have "hd s \<noteq> CHR ''0''" by (cases s) auto
    with snoc False have IH: "show_nat (read_nat s) = s" "0 < read_nat s" by auto
    have "read_nat (s @ [c]) = 10 * read_nat s + digit_val c" by (simp add: read_nat_def)
    with IH c show_nat_snoc [OF IH(2) c(2)] show ?thesis by simp
  qed
qed simp

lemma octet_read: "parse_octet s = Some n \<Longrightarrow> show_nat n = s \<and> n \<le> 255"
  using show_read_nat [of s] by (auto simp: parse_octet_def split: if_splits)

lemma hex_digit_facts: "is_hex (hex_digit n)" "nibble (hex_digit n) = n mod 16"
proof -
  have "list_all (\<lambda>k. is_hex (hex_digits ! k) \<and> nibble (hex_digits ! k) = k) [0 ..< 16]" by code_simp
  then have "is_hex (hex_digits ! k) \<and> nibble (hex_digits ! k) = k" if "k < 16" for k
    using that by (simp add: list_all_iff)
  then show "is_hex (hex_digit n)" "nibble (hex_digit n) = n mod 16" by (simp_all add: hex_digit_def)
qed

lemma show_hex_not_Nil [simp]: "show_hex n \<noteq> []"
  by (subst show_hex.simps) simp

lemma show_hex_is_hex: "list_all is_hex (show_hex n)"
proof (induction n rule: show_hex.induct)
  case (1 n)
  then show ?case by (subst show_hex.simps) (simp add: hex_digit_facts)
qed

lemma read_show_hex: "read_hex (show_hex n) = n"
proof (induction n rule: show_hex.induct)
  case (1 n)
  then show ?case by (subst show_hex.simps) (simp add: read_hex_def hex_digit_facts)
qed

lemma length_show_hex: "n < 16 ^ Suc k \<Longrightarrow> length (show_hex n) \<le> Suc k"
proof (induction k arbitrary: n)
  case 0
  then show ?case by (subst show_hex.simps) simp
next
  case (Suc k)
  then have "n div 16 < 16 ^ Suc k" by (simp add: less_mult_imp_div_less mult.commute)
  from Suc.IH [OF this] show ?case by (subst show_hex.simps) simp
qed

lemma hextet_show: "h < 65536 \<Longrightarrow> parse_hextet (show_hex h) = Some h"
  using length_show_hex [of h 3] by (simp add: parse_hextet_def show_hex_is_hex read_show_hex)

section \<open>Reading back a written address\<close>

fun wf_ip :: "ip \<Rightarrow> bool" where
  "wf_ip (IPv4 v) = (length v = 4 \<and> (\<forall>x \<in> set v. x \<le> 255))"
| "wf_ip (IPv6 v z) = (length v = 8 \<and> (\<forall>x \<in> set v. x < 65536))"

lemma ipv4_of_string_Some:
  assumes "ipv4_of_string s = Some v"
  shows "wf_ip (IPv4 v)" "compressed (IPv4 v) = s" "CHR '':'' \<notin> set s"
proof -
  from assms have v: "traverse_option parse_octet (split_on CHR ''.'' s) = Some v" "length (split_on CHR ''.'' s) = 4"
    by (auto simp: ipv4_of_string_def Let_def split: if_splits)
  show "wf_ip (IPv4 v)"
    using traverse_option_Some [OF v(1)] v(2) by (auto dest: octet_read)
  have m: "map show_nat v = split_on CHR ''.'' s"
    using traverse_option_inverse [OF v(1), of show_nat] octet_read by blast
  then show c: "compressed (IPv4 v) = s" by (simp add: join_split_on)
  show "CHR '':'' \<notin> set s"
    using set_join [of "''.''" "map show_nat v"] c show_nat_digits by (fastforce simp: is_digit_def)
qed

lemma ipv4_roundtrip: "wf_ip (IPv4 v) \<Longrightarrow> ipv4_of_string (compressed (IPv4 v)) = Some v"
proof -
  assume w: "wf_ip (IPv4 v)"
  have "CHR ''.'' \<notin> set (show_nat n)" for n using show_nat_digits [of "CHR ''.''" n] by (auto simp: is_digit_def)
  then have "split_on CHR ''.'' (compressed (IPv4 v)) = map show_nat v"
    using w by (auto intro!: split_on_join)
  with w show ?thesis by (simp add: ipv4_of_string_def traverse_option_map octet_show)
qed

lemma zero_run_zeros:
  assumes "\<forall>k. fst best \<le> k \<and> k < fst best + snd best \<longrightarrow> (pre @ hs) ! k = 0" "fst best + snd best \<le> length pre"
    and "snd cur = 0 \<or> fst cur + snd cur = length pre \<and> (\<forall>k. fst cur \<le> k \<and> k < length pre \<longrightarrow> pre ! k = 0)"
    and "zero_run (length pre) cur best hs = (s, l)"
  shows "s + l \<le> length (pre @ hs) \<and> (\<forall>k. s \<le> k \<and> k < s + l \<longrightarrow> (pre @ hs) ! k = 0)"
  using assms
proof (induction hs arbitrary: pre cur best)
  case (Cons h hs)
  show ?case
  proof (cases "h = 0")
    case True
    define cur' where "cur' = (if snd cur = 0 then (length pre, 1) else (fst cur, snd cur + 1))"
    define best' where "best' = (if snd best < snd cur' then cur' else best)"
    have c: "fst cur' + snd cur' = length (pre @ [h]) \<and> (\<forall>k. fst cur' \<le> k \<and> k < length (pre @ [h]) \<longrightarrow> (pre @ [h]) ! k = 0)"
      using Cons.prems(3) True by (auto simp: cur'_def nth_append less_Suc_eq)
    then have "\<forall>k. fst best' \<le> k \<and> k < fst best' + snd best' \<longrightarrow> ((pre @ [h]) @ hs) ! k = 0"
      "fst best' + snd best' \<le> length (pre @ [h])"
      using Cons.prems(1,2) True by (auto simp: best'_def nth_append less_Suc_eq split: if_splits)
    moreover have "zero_run (length (pre @ [h])) cur' best' hs = (s, l)"
      using Cons.prems(4) True unfolding cur'_def best'_def zero_run.simps Let_def
      by (simp only: simp_thms if_True length_append list.size plus_nat.add_0 add_Suc_right add_0_right)
    ultimately show ?thesis using Cons.IH [OF _ _ disjI2 [OF c], of best'] by simp
  next
    case False
    with Cons.IH [of best "pre @ [h]" "(0, 0)"] Cons.prems show ?thesis by simp
  qed
qed simp

lemma run_split:
  assumes "zero_run 0 (0, 0) (0, 0) hs = (s, l)"
  shows "hs = take s hs @ replicate l 0 @ drop (s + l) hs" "s + l \<le> length hs"
proof -
  from zero_run_zeros [of "(0, 0)" "[]" hs "(0, 0)" s l] assms
  have z: "s + l \<le> length hs" "\<forall>k. s \<le> k \<and> k < s + l \<longrightarrow> hs ! k = 0" by auto
  then show "s + l \<le> length hs" by simp
  have "take l (drop s hs) = replicate l 0"
    using z by (intro nth_equalityI) auto
  then have "replicate l 0 @ drop (s + l) hs = drop s hs"
    using append_take_drop_id [of l "drop s hs"] by (simp add: add.commute)
  then show "hs = take s hs @ replicate l 0 @ drop (s + l) hs" by (simp only: append_take_drop_id)
qed

lemma filter_upt_single:
  assumes "a \<le> i" "i < b" "P i" "\<And>j. a \<le> j \<Longrightarrow> j < b \<Longrightarrow> P j \<Longrightarrow> j = i"
  shows "filter P [a ..< b] = [i]"
proof -
  have "x \<in> set (filter P [a ..< b]) \<longleftrightarrow> x = i" for x
  proof
    assume "x \<in> set (filter P [a ..< b])"
    then have "a \<le> x" "x < b" "P x" by simp_all
    then show "x = i" by (rule assms(4))
  qed (use assms(1-3) in simp)
  then have "set (filter P [a ..< b]) = set [i]" by auto
  moreover have "sorted (filter P [a ..< b])" "distinct (filter P [a ..< b])"
    by (simp_all add: sorted_wrt_filter)
  ultimately show ?thesis using sorted_distinct_set_unique [of "filter P [a ..< b]" "[i]"] by simp
qed

lemma groups_plain:
  assumes "length hs = 8" "\<forall>h \<in> set hs. h < 65536"
  shows "ipv6_groups (map show_hex hs) = Some hs"
proof -
  have "filter (\<lambda>i. map show_hex hs ! i = []) [1 ..< length (map show_hex hs) - 1] = []"
    using assms(1) by (auto simp: filter_empty_conv)
  moreover have "hs \<noteq> []" using assms(1) by auto
  moreover have "traverse_option parse_hextet (map show_hex hs) = Some hs"
    using assms(2) by (intro traverse_option_map hextet_show) blast
  ultimately show ?thesis using assms(1) by (simp add: ipv6_groups_def hd_map last_map)
qed

text \<open>The groups around a hole, for the four positions of the hole.\<close>

lemma groups_hole:
  assumes "length a + length b \<le> 7" "\<forall>h \<in> set (a @ b). h < 65536"
  shows "ipv6_groups ((if a = [] then [[]] else []) @ map show_hex a @ [[]] @ map show_hex b @ (if b = [] then [[]] else []))
    = Some (a @ replicate (8 - (length a + length b)) 0 @ b)"
proof -
  let ?A = "map show_hex a" and ?B = "map show_hex b"
  let ?p = "(if a = [] then [[]] else []) @ ?A @ [[]] @ ?B @ (if b = [] then [[]] else [])"
  let ?i = "if a = [] then 1 else length a"
  have ta: "traverse_option parse_hextet ?A = Some a" and tb: "traverse_option parse_hextet ?B = Some b"
    using assms(2) by (auto intro!: traverse_option_map hextet_show)
  have len: "length ?p = (if a = [] then 1 else 0) + length a + 1 + length b + (if b = [] then 1 else 0)" by simp
  have f: "filter (\<lambda>i. ?p ! i = []) [1 ..< length ?p - 1] = [?i]"
    by (rule filter_upt_single) (auto simp: nth_append nth_Cons' Suc_le_eq split: if_splits)
  have hd: "hd ?p = [] \<longleftrightarrow> a = []" by (cases a) auto
  have last: "last ?p = [] \<longleftrightarrow> b = []" by (auto simp: last_map)
  have take: "take (length a) ?p = ?A \<or> a = []" by simp
  have drop: "drop (length ?p - length b) ?p = ?B \<or> b = []" by (cases "a = []") auto
  show ?thesis
    unfolding ipv6_groups_def Let_def f list.case hd last
    using assms(1) ta tb take drop len by (cases "a = []"; cases "b = []") auto
qed

lemma compress_groups:
  assumes "length hs = 8" "\<forall>h \<in> set hs. h < 65536"
  shows "ipv6_groups (compress_hextets hs) = Some hs" "3 \<le> length (compress_hextets hs)"
proof -
  obtain s l where z: "zero_run 0 (0, 0) (0, 0) hs = (s, l)" by (metis surj_pair)
  from run_split [OF z] assms(1) have sl: "hs = take s hs @ replicate l 0 @ drop (s + l) hs" "s + l \<le> 8" by simp_all
  have "ipv6_groups (compress_hextets hs) = Some hs \<and> 3 \<le> length (compress_hextets hs)"
  proof (cases "1 < l")
    case True
    let ?a = "take s hs" and ?b = "drop (s + l) hs"
    have n: "length ?a + length ?b \<le> 7" "8 - (length ?a + length ?b) = l" "?a = [] \<longleftrightarrow> s = 0" "?b = [] \<longleftrightarrow> s + l = 8"
      using assms(1) sl(2) True by auto
    have c: "compress_hextets hs = (if ?a = [] then [[]] else []) @ map show_hex ?a @ [[]] @ map show_hex ?b @ (if ?b = [] then [[]] else [])"
      unfolding compress_hextets_def z n(3,4) using True assms(1) by simp
    have "\<forall>h \<in> set (?a @ ?b). h < 65536" using assms(2) by (auto dest: in_set_takeD in_set_dropD)
    from groups_hole [OF n(1) this] have "ipv6_groups (compress_hextets hs) = Some (?a @ replicate l 0 @ ?b)"
      unfolding c n(2) .
    moreover have "3 \<le> length (compress_hextets hs)" unfolding c by (cases "?a"; cases "?b") auto
    ultimately show ?thesis using sl(1) by simp
  next
    case False
    then have "compress_hextets hs = map show_hex hs" by (simp add: compress_hextets_def z)
    with groups_plain [OF assms] assms(1) show ?thesis by simp
  qed
  then show "ipv6_groups (compress_hextets hs) = Some hs" "3 \<le> length (compress_hextets hs)" by simp_all
qed

lemma compress_chars: "p \<in> set (compress_hextets hs) \<Longrightarrow> list_all is_hex p"
  by (auto simp: compress_hextets_def show_hex_is_hex split: prod.splits if_splits)

lemma hex_not: "is_hex c \<Longrightarrow> c \<notin> set '':./%[]@?#''"
  by (auto simp: is_hex_def)

text \<open>An address without zone is read back from its canonical text.\<close>

lemma ip_roundtrip:
  assumes "wf_ip (IPv6 hs z)"
  shows "ip_address (compressed (IPv6 hs None)) = Some (IPv6 hs None)"
proof -
  let ?t = "join '':'' (compress_hextets hs)"
  have w: "length hs = 8" "\<forall>h \<in> set hs. h < 65536" using assms by auto
  note g = compress_groups [OF w]
  have no: "\<forall>p \<in> set (compress_hextets hs). c \<notin> set p" if "c \<in> set '':./%''" for c
    using compress_chars hex_not that unfolding list_all_iff by fastforce
  have ne: "compress_hextets hs \<noteq> []" using g(2) by (cases "compress_hextets hs") simp_all
  have sp: "split_on CHR '':'' ?t = compress_hextets hs"
    by (rule split_on_join [OF ne no]) simp
  have chars: "c \<notin> set ?t" if "c \<in> set ''./%''" for c
    using set_join [of "'':''" "compress_hextets hs"] no [of c] that by auto
  have "CHR ''.'' \<notin> set (last (compress_hextets hs))" using no [of "CHR ''.''"] last_in_set [OF ne] by simp
  with sp g have v6: "ipv6_of_string ?t = Some hs" by (simp add: ipv6_of_string_def)
  have "ipv4_of_string ?t = None" using chars by (simp add: ipv4_of_string_def split_on_plain)
  with v6 chars show ?thesis by (simp add: ip_address_def)
qed

lemma ipv4_address_roundtrip: "wf_ip (IPv4 v) \<Longrightarrow> ip_address (compressed (IPv4 v)) = Some (IPv4 v)"
proof -
  assume w: "wf_ip (IPv4 v)"
  have "CHR ''/'' \<notin> set (compressed (IPv4 v))"
    using set_join [of "''.''" "map show_nat v"] show_nat_digits by (fastforce simp: is_digit_def)
  with ipv4_roundtrip [OF w] show ?thesis by (simp add: ip_address_def)
qed

lemma groups_wf:
  assumes "ipv6_groups ps = Some hs"
  shows "length hs = 8 \<and> (\<forall>h \<in> set hs. h < 65536)"
proof -
  have hex: "parse_hextet s = Some h \<Longrightarrow> h < 65536" for s h
  proof -
    assume a: "parse_hextet s = Some h"
    have nib: "is_hex c \<Longrightarrow> nibble c < 16" for c
    proof -
      have "list_all (\<lambda>c. nibble c < 16) ''0123456789abcdefABCDEF''" by code_simp
      then show "is_hex c \<Longrightarrow> nibble c < 16" unfolding list_all_iff is_hex_def by blast
    qed
    have "list_all is_hex s \<Longrightarrow> read_hex s < 16 ^ length s"
    proof (induction s rule: rev_induct)
      case (snoc c s)
      with nib [of c] show ?case by (simp add: read_hex_def)
    qed (simp add: read_hex_def)
    moreover have "(16 :: nat) ^ length s \<le> 16 ^ 4"
      using a by (intro power_increasing) (auto simp: parse_hextet_def split: if_splits)
    ultimately show ?thesis using a by (auto simp: parse_hextet_def split: if_splits)
  qed
  have t: "traverse_option parse_hextet xs = Some ys \<Longrightarrow> length ys = length xs \<and> (\<forall>h \<in> set ys. h < 65536)" for xs ys
    using traverse_option_Some [of parse_hextet xs ys] hex by blast
  have hole: "a \<le> i \<and> i < b" if "filter P [a ..< b] = [i]" for P a i b
  proof -
    have "i \<in> set (filter P [a ..< b])" unfolding that by simp
    then show ?thesis by simp
  qed
  from assms show ?thesis
    by (auto simp: ipv6_groups_def Let_def bind_eq_Some_conv dest!: t dest: hole split: if_splits list.splits)
qed

lemma ip_address_wf: "ip_address s = Some p \<Longrightarrow> wf_ip p"
proof -
  assume a: "ip_address s = Some p"
  have v6: "length v = 8 \<and> (\<forall>h \<in> set v. h < 65536)" if "ipv6_of_string t = Some v" for t v
    using that groups_wf by (auto simp: ipv6_of_string_def Let_def split: if_splits option.splits list.splits)
  show ?thesis
  proof (cases "ipv4_of_string s")
    case None
    with a show ?thesis by (auto simp: ip_address_def Let_def dest!: v6 split: if_splits)
  next
    case (Some v)
    with a have "p = IPv4 v" by (auto simp: ip_address_def split: if_splits)
    with ipv4_of_string_Some(1) [OF Some] show ?thesis by simp
  qed
qed

text \<open>
  The canonical text is a fixed point: writing an address that was read and reading it again gives the
  same address and the same text.
\<close>

fun zone_of :: "ip \<Rightarrow> string option" where
  "zone_of (IPv4 v) = None"
| "zone_of (IPv6 v z) = z"

lemma before_after:
  "c \<notin> set s \<Longrightarrow> before c s = s" "c \<notin> set s \<Longrightarrow> after c s = []"
  "c \<notin> set s \<Longrightarrow> before c (s @ c # t) = s" "c \<notin> set s \<Longrightarrow> after c (s @ c # t) = t"
proof -
  show "c \<notin> set s \<Longrightarrow> before c s = s" by (auto simp: before_def takeWhile_eq_all_conv)
  show "c \<notin> set s \<Longrightarrow> after c s = []"
    using dropWhile_eq_Nil_conv [of "\<lambda>d. d \<noteq> c" s] unfolding after_def by (metis list.sel(2))
  show "c \<notin> set s \<Longrightarrow> before c (s @ c # t) = s" by (induction s) (auto simp: before_def)
  show "c \<notin> set s \<Longrightarrow> after c (s @ c # t) = t" by (induction s) (auto simp: after_def)
qed

lemma before_set: "set (before c s) \<subseteq> set s" "c \<notin> set (before c s)" "set (after c s) \<subseteq> set s"
proof -
  show "set (before c s) \<subseteq> set s" "c \<notin> set (before c s)" unfolding before_def by (auto dest: set_takeWhileD)
  show "set (after c s) \<subseteq> set s"
    unfolding after_def by (metis dropWhile_eq_drop list.set_sel(2) set_drop_subset subset_trans subsetI tl_Nil)
qed

lemma ip_roundtrip_zone:
  assumes "wf_ip (IPv6 hs z)" "zone \<noteq> []" "CHR ''%'' \<notin> set zone" "CHR ''/'' \<notin> set zone"
  shows "ip_address (compressed (IPv6 hs (Some zone))) = Some (IPv6 hs (Some zone))"
proof -
  let ?t = "compressed (IPv6 hs None)" and ?s = "compressed (IPv6 hs (Some zone))"
  have w: "length hs = 8" "\<forall>h \<in> set hs. h < 65536" using assms(1) by auto
  have ne: "compress_hextets hs \<noteq> []" using compress_groups(2) [OF w] by (cases "compress_hextets hs") simp_all
  have no: "c \<notin> set ?t" if "c = CHR ''%'' \<or> c = CHR ''/'' \<or> c = CHR ''.''" for c
  proof -
    have "\<forall>p \<in> set (compress_hextets hs). c \<notin> set p"
      using compress_chars hex_not that unfolding list_all_iff by fastforce
    then show ?thesis using set_join [of "'':''" "compress_hextets hs"] that by auto
  qed
  have s: "?s = ?t @ CHR ''%'' # zone" by simp
  have ba: "before CHR ''%'' ?s = ?t" "after CHR ''%'' ?s = zone"
    unfolding s using before_after(3,4) [of "CHR ''%''" ?t zone] no [of "CHR ''%''"] by blast+
  have v6: "ipv6_of_string ?t = Some hs"
    using ip_roundtrip [OF assms(1)] no [of "CHR ''%''"] by (auto simp: ip_address_def split: if_splits option.splits)
  have "CHR '':'' \<in> set ?t"
  proof (rule ccontr)
    assume "CHR '':'' \<notin> set ?t"
    then have "length (split_on CHR '':'' ?t) = 1" by (simp add: split_on_plain)
    with v6 show False by (simp add: ipv6_of_string_def)
  qed
  then have "ipv4_of_string ?s = None"
    using ipv4_of_string_Some(3) [of ?s] unfolding s by (cases "ipv4_of_string (?t @ CHR ''%'' # zone)") auto
  moreover have "CHR ''/'' \<notin> set ?s" unfolding s using no [of "CHR ''/''"] assms(4) by auto
  moreover have "CHR ''%'' \<in> set ?s" unfolding s by simp
  ultimately show ?thesis unfolding ip_address_def Let_def ba using assms(2,3) v6 by (simp del: compressed.simps)
qed

lemma canonical_address:
  assumes "ip_address s = Some p"
  shows "ip_address (compressed p) = Some p"
proof (cases p)
  case (IPv4 v)
  with ipv4_address_roundtrip [of v] ip_address_wf [OF assms] show ?thesis by simp
next
  case (IPv6 v z)
  show ?thesis
  proof (cases z)
    case None
    with IPv6 ip_roundtrip [of v None] ip_address_wf [OF assms] show ?thesis by simp
  next
    case (Some zone)
    have "set (after CHR ''%'' s) \<subseteq> set s" by (rule before_set(3))
    with assms IPv6 Some have "zone \<noteq> []" "CHR ''%'' \<notin> set zone" "CHR ''/'' \<notin> set zone"
      by (auto simp: ip_address_def Let_def split: if_splits option.splits)
    with ip_roundtrip_zone [of v z zone] ip_address_wf [OF assms] IPv6 Some show ?thesis by simp
  qed
qed

lemma ipv4_address_text: "ip_address s = Some (IPv4 v) \<Longrightarrow> compressed (IPv4 v) = s"
  using ipv4_of_string_Some(2) [of s v] by (auto simp: ip_address_def Let_def split: if_splits option.splits)

end
