(* ===== verification/Url.thy ===== *)
theory Url
  imports Ip_Address Json_Reader Security
begin

text \<open>
  \<^verbatim>\<open>pmiri/network.py\<close>, the canonical form of a URL: what \<^verbatim>\<open>normalize_url\<close> uses of \<^verbatim>\<open>urllib.parse.urlsplit\<close>,
  the percent-encoding and dot-segment passes, and \<^verbatim>\<open>normalize_url\<close> itself. The lower case and the NFKC
  check of a host beyond ASCII are Unicode tables and a parameter, and so is the package \<^verbatim>\<open>idna\<close>, which
  may not be installed.
\<close>

record url_tables =
  ut_lower :: "string \<Rightarrow> string"
  ut_nfkc_ok :: "string \<Rightarrow> bool"
  ut_idna :: "(string \<Rightarrow> string option) option"

section \<open>urlsplit\<close>

definition lower_char :: "char \<Rightarrow> char" where
  "lower_char c = (if 65 \<le> (of_char c :: nat) \<and> (of_char c :: nat) \<le> 90 then char_of ((of_char c :: nat) + 32) else c)"

definition is_letter :: "char \<Rightarrow> bool" where
  "is_letter c = (c \<in> set ''abcdefghijklmnopqrstuvwxyzABCDEFGHIJKLMNOPQRSTUVWXYZ'')"

definition scheme_char :: "char \<Rightarrow> bool" where
  "scheme_char c = (is_letter c \<or> is_digit c \<or> c \<in> set ''+-.'')"

record split_result =
  us_scheme :: string
  us_netloc :: string
  us_path :: string
  us_query :: string
  us_fragment :: string

text \<open>\<^verbatim>\<open>_check_bracketed_host\<close>: an IPvFuture text or an IPv6 address.\<close>

definition bracketed_host_ok :: "string \<Rightarrow> bool" where
  "bracketed_host_ok h =
     (if startswith h ''v'' then
        (case dropWhile is_hex (tl h) of
           c # r \<Rightarrow> takeWhile is_hex (tl h) \<noteq> [] \<and> c = CHR ''.'' \<and> r \<noteq> []
         | [] \<Rightarrow> False)
      else (case ip_address h of Some (IPv6 v z) \<Rightarrow> True | _ \<Rightarrow> False))"

definition netloc_ok :: "url_tables \<Rightarrow> string \<Rightarrow> bool" where
  "netloc_ok T netloc =
     ((CHR ''['' \<in> set netloc) = (CHR '']'' \<in> set netloc)
      \<and> (CHR ''['' \<in> set netloc \<longrightarrow> bracketed_host_ok (before CHR '']'' (after CHR ''['' netloc)))
      \<and> (ascii netloc \<or> ut_nfkc_ok T netloc))"

text \<open>A text with no character below the space; \<^const>\<open>None\<close> is the \<^verbatim>\<open>ValueError\<close>.\<close>

definition urlsplit :: "url_tables \<Rightarrow> string \<Rightarrow> split_result option" where
  "urlsplit T url =
     (let url = dropWhile (\<lambda>c. (of_char c :: nat) \<le> 32) url;
          pre = before CHR '':'' url;
          has_scheme = (CHR '':'' \<in> set url \<and> pre \<noteq> [] \<and> is_letter (hd pre) \<and> list_all scheme_char pre);
          scheme = (if has_scheme then map lower_char pre else []);
          url = (if has_scheme then after CHR '':'' url else url);
          has_netloc = startswith url ''//'';
          delim = (\<lambda>c. c \<in> set ''/?#'');
          netloc = (if has_netloc then takeWhile (Not \<circ> delim) (drop 2 url) else []);
          url = (if has_netloc then dropWhile (Not \<circ> delim) (drop 2 url) else url);
          fragment = after CHR ''#'' url;
          url = before CHR ''#'' url;
          query = after CHR ''?'' url;
          url = before CHR ''?'' url
      in if \<not> netloc_ok T netloc then None
         else Some \<lparr>us_scheme = scheme, us_netloc = netloc, us_path = url, us_query = query, us_fragment = fragment\<rparr>)"

text \<open>The properties \<^verbatim>\<open>hostname\<close> (empty for None) and \<^verbatim>\<open>port\<close> (\<^const>\<open>None\<close> for the \<^verbatim>\<open>ValueError\<close>).\<close>

definition after_last :: "char \<Rightarrow> string \<Rightarrow> string" where
  "after_last c s = rev (takeWhile (\<lambda>d. d \<noteq> c) (rev s))"

definition host_port :: "string \<Rightarrow> string \<times> string" where
  "host_port netloc =
     (let hostinfo = after_last CHR ''@'' netloc in
      if CHR ''['' \<in> set hostinfo then
        (let bracketed = after CHR ''['' hostinfo in
         (before CHR '']'' bracketed, after CHR '':'' (after CHR '']'' bracketed)))
      else (before CHR '':'' hostinfo, after CHR '':'' hostinfo))"

definition lower_text :: "url_tables \<Rightarrow> string \<Rightarrow> string" where
  "lower_text T s = (if ascii s then map lower_char s else ut_lower T s)"

definition hostname_of :: "url_tables \<Rightarrow> string \<Rightarrow> string" where
  "hostname_of T netloc =
     (let h = fst (host_port netloc) in lower_text T (before CHR ''%'' h) @ dropWhile (\<lambda>c. c \<noteq> CHR ''%'') h)"

definition port_of :: "string \<Rightarrow> nat option option" where
  "port_of netloc =
     (let p = snd (host_port netloc) in
      if p = [] then Some None
      else if list_all is_digit p \<and> read_nat p \<le> 65535 then Some (Some (read_nat p))
      else None)"

section \<open>Percent-encoding\<close>

definition boundary_error :: "string \<Rightarrow> 'a result" where
  "boundary_error m = raise NetworkBoundaryError m"

definition unreserved :: "char \<Rightarrow> bool" where
  "unreserved c = (is_letter c \<or> is_digit c \<or> c \<in> set ''-._~'')"

definition upper_hex :: "char \<Rightarrow> char" where
  "upper_hex c = (if 97 \<le> (of_char c :: nat) then char_of ((of_char c :: nat) - 32) else c)"

definition decode_pair :: "char \<Rightarrow> char \<Rightarrow> nat" where
  "decode_pair h l = 16 * nibble h + nibble l"

fun canonicalize_percent :: "string \<Rightarrow> string result" where
  "canonicalize_percent [] = Inr []"
| "canonicalize_percent (c # s) =
     (if c \<noteq> CHR ''%'' then map_result (\<lambda>t. c # t) (canonicalize_percent s)
      else (case s of
              h # l # r \<Rightarrow>
                if \<not> is_hex h \<or> \<not> is_hex l then boundary_error ''MALFORMED_PERCENT_ENCODING''
                else if decode_pair h l \<in> {0x2F, 0x5C} then boundary_error ''ENCODED_DELIMITER_FORBIDDEN''
                else map_result
                       (\<lambda>t. (if unreserved (char_of (decode_pair h l)) then [char_of (decode_pair h l)]
                             else [CHR ''%'', upper_hex h, upper_hex l]) @ t)
                       (canonicalize_percent r)
            | _ \<Rightarrow> boundary_error ''MALFORMED_PERCENT_ENCODING''))"

section \<open>Dot segments\<close>

text \<open>The loop of \<^verbatim>\<open>_remove_dot_segments\<close> over its output list and its input buffer.\<close>

function dot_loop :: "string list \<Rightarrow> string \<Rightarrow> string list" where
  "dot_loop out buf =
     (if buf = [] then out
      else if startswith buf ''../'' then dot_loop out (drop 3 buf)
      else if startswith buf ''./'' then dot_loop out (drop 2 buf)
      else if startswith buf ''/./'' then dot_loop out (drop 2 buf)
      else if buf = ''/.'' then dot_loop out ''/''
      else if startswith buf ''/../'' then dot_loop (butlast out) (drop 3 buf)
      else if buf = ''/..'' then dot_loop (butlast out) ''/''
      else if buf = ''.'' \<or> buf = ''..'' then dot_loop out []
      else let segment = hd buf # takeWhile (\<lambda>c. c \<noteq> CHR ''/'') (tl buf)
           in dot_loop (out @ [segment]) (drop (length segment) buf))"
  by pat_completeness auto
termination
  by (relation "measure (\<lambda>(out, buf). length buf)") auto

declare dot_loop.simps [simp del]

definition remove_dot_segments :: "string \<Rightarrow> string" where
  "remove_dot_segments path =
     (let normalized = concat (dot_loop [] (if startswith path ''/'' then path else CHR ''/'' # path))
      in if startswith normalized ''/'' then normalized else ''/'')"

section \<open>normalize\_url\<close>

record normalized_target =
  nt_scheme :: string
  nt_host :: string
  nt_port :: nat
  nt_path :: string
  nt_query :: "string option"
  nt_fingerprint :: string

definition authority_of :: "string \<Rightarrow> string" where
  "authority_of host = (if CHR '':'' \<in> set host \<and> \<not> startswith host ''['' then ''['' @ host @ '']'' else host)"

definition nt_authority :: "normalized_target \<Rightarrow> string" where
  "nt_authority t = authority_of (nt_host t)"

definition request_target :: "normalized_target \<Rightarrow> string" where
  "request_target t = nt_path t @ (case nt_query t of None \<Rightarrow> [] | Some q \<Rightarrow> CHR ''?'' # q)"

definition safe_url :: "normalized_target \<Rightarrow> string" where
  "safe_url t = map lower_char (nt_scheme t) @ ''://'' @ nt_authority t @ request_target t"

definition label_char :: "char \<Rightarrow> bool" where
  "label_char c = (c \<in> set ''abcdefghijklmnopqrstuvwxyz0123456789-'')"

definition label_ok :: "string \<Rightarrow> bool" where
  "label_ok l = (l \<noteq> [] \<and> length l \<le> 63 \<and> hd l \<noteq> CHR ''-'' \<and> last l \<noteq> CHR ''-'' \<and> list_all label_char l)"

definition strip_dots :: "string \<Rightarrow> string" where
  "strip_dots s = rev (dropWhile (\<lambda>c. c = CHR ''.'') (rev s))"

definition normalize_host :: "url_tables \<Rightarrow> string \<Rightarrow> string result" where
  "normalize_host T host =
     (case ip_address host of
        Some p \<Rightarrow> Inr (compressed p)
      | None \<Rightarrow>
          bind_result
            (if ascii host then Inr (strip_dots (map lower_char host))
             else (case ut_idna T of
                     None \<Rightarrow> boundary_error ''IDNA_VALIDATOR_UNAVAILABLE''
                   | Some encode \<Rightarrow>
                       (case encode host of
                          None \<Rightarrow> boundary_error ''HOST_INVALID''
                        | Some a \<Rightarrow> Inr (strip_dots (map lower_char a))))) (\<lambda>host_ascii.
            if host_ascii = [] \<or> \<not> list_all label_ok (split_on CHR ''.'' host_ascii)
            then boundary_error ''HOST_INVALID'' else Inr host_ascii))"

definition target_payload :: "string \<Rightarrow> string \<Rightarrow> string option \<Rightarrow> json" where
  "target_payload host path query = JObj
     [(''scheme'', JStr ''HTTPS''), (''authority'', JStr (authority_of host)), (''path'', JStr path),
      (''query'', jopt query)]"

definition make_target :: "string \<Rightarrow> string \<Rightarrow> string option \<Rightarrow> normalized_target" where
  "make_target host path query =
     \<lparr>nt_scheme = ''HTTPS'', nt_host = host, nt_port = 443, nt_path = path, nt_query = query,
      nt_fingerprint = sha256_json (target_payload host path query)\<rparr>"

definition normalize_url :: "url_tables \<Rightarrow> string \<Rightarrow> normalized_target result" where
  "normalize_url T url =
     (if 8192 < py_len url \<or> list_ex (\<lambda>c. (of_char c :: nat) < 32) url then boundary_error ''URL_INVALID''
      else (case urlsplit T url of
        None \<Rightarrow> boundary_error ''URL_INVALID''
      | Some u \<Rightarrow>
          (case port_of (us_netloc u) of
             None \<Rightarrow> boundary_error ''URL_INVALID''
           | Some port \<Rightarrow>
               if us_scheme u \<noteq> ''https'' then boundary_error ''SCHEME_NOT_ALLOWED''
               else if CHR ''@'' \<in> set (us_netloc u) then boundary_error ''URL_USERINFO_FORBIDDEN''
               else if hostname_of T (us_netloc u) = [] \<or> us_fragment u \<noteq> []
                 then boundary_error ''URL_AUTHORITY_OR_FRAGMENT_INVALID''
               else bind_result (normalize_host T (hostname_of T (us_netloc u))) (\<lambda>host.
                 if port \<noteq> None \<and> port \<noteq> Some 443 then boundary_error ''PORT_NOT_ALLOWED''
                 else if CHR 0x5C \<in> set (us_path u) \<or> CHR 0x5C \<in> set (us_query u)
                   then boundary_error ''AMBIGUOUS_AUTHORITY''
                 else bind_result (canonicalize_percent (if us_path u = [] then ''/'' else us_path u)) (\<lambda>p.
                      bind_result (if us_query u = [] then Inr None
                                   else map_result Some (canonicalize_percent (us_query u))) (\<lambda>query.
                        Inr (make_target host (remove_dot_segments p) query)))))))"

section \<open>The percent-encoding pass\<close>

lemma upper_hex_facts: "is_hex h \<Longrightarrow> is_hex (upper_hex h) \<and> nibble (upper_hex h) = nibble h \<and> upper_hex (upper_hex h) = upper_hex h"
proof -
  have "list_all (\<lambda>h. is_hex (upper_hex h) \<and> nibble (upper_hex h) = nibble h \<and> upper_hex (upper_hex h) = upper_hex h)
    ''0123456789abcdefABCDEF''" by code_simp
  then show "is_hex h \<Longrightarrow> ?thesis" unfolding list_all_iff is_hex_def by blast
qed

lemma unreserved_plain: "unreserved c \<Longrightarrow> c \<notin> set ''%/?#@:[]'' \<and> c \<noteq> CHR 0x5C \<and> 32 \<le> (of_char c :: nat)"
  by (auto simp: unreserved_def is_letter_def is_digit_def)

text \<open>The pass is idempotent.\<close>

lemma canonicalize_percent_idem: "canonicalize_percent s = Inr t \<Longrightarrow> canonicalize_percent t = Inr t"
proof (induction s arbitrary: t rule: canonicalize_percent.induct)
  case (2 c s)
  show ?case
  proof (cases "c = CHR ''%''")
    case False
    with 2(3) obtain u where u: "canonicalize_percent s = Inr u" "t = c # u" by (auto simp: result_simps)
    from 2(1) [OF False u(1)] False u(2) show ?thesis by simp
  next
    case True
    with 2(3) obtain h l r u where s: "s = h # l # r" "is_hex h" "is_hex l" "decode_pair h l \<notin> {0x2F, 0x5C}"
      and u: "canonicalize_percent r = Inr u"
      and t: "t = (if unreserved (char_of (decode_pair h l)) then [char_of (decode_pair h l)]
                   else [CHR ''%'', upper_hex h, upper_hex l]) @ u"
      by (auto simp: boundary_error_def result_simps split: list.splits if_splits)
    have IH: "canonicalize_percent u = Inr u" using 2(2) [of h "l # r" l r] True s u by simp
    have "decode_pair (upper_hex h) (upper_hex l) = decode_pair h l" using s upper_hex_facts by (simp add: decode_pair_def)
    with IH s t show ?thesis
      using upper_hex_facts [OF s(2)] upper_hex_facts [OF s(3)] unreserved_plain [of "char_of (decode_pair h l)"]
      by (auto simp del: canonicalize_percent.simps(2)) (simp_all add: canonicalize_percent.simps(2))
  qed
qed simp

text \<open>It can be done piece by piece between slashes.\<close>

lemma canonicalize_percent_slash:
  "canonicalize_percent (a @ CHR ''/'' # b) =
     bind_result (canonicalize_percent a) (\<lambda>x. map_result (\<lambda>y. x @ CHR ''/'' # y) (canonicalize_percent b))"
proof (induction a rule: canonicalize_percent.induct)
  case 1
  then show ?case by (cases "canonicalize_percent b") simp_all
next
  case (2 c s)
  have slash: "\<not> is_hex CHR ''/''" by (simp add: is_hex_def)
  show ?case
  proof (cases "c = CHR ''%''")
    case False
    from 2(1) [OF False] False show ?thesis
      by (cases "canonicalize_percent s"; cases "canonicalize_percent b") simp_all
  next
    case True
    show ?thesis
    proof (cases s)
      case Nil
      with True slash show ?thesis by (cases b) (simp_all add: boundary_error_def raise_def)
    next
      case (Cons h s')
      show ?thesis
      proof (cases s')
        case Nil
        with True Cons slash show ?thesis by (simp add: boundary_error_def raise_def)
      next
        case (Cons l r)
        with \<open>s = h # s'\<close> True show ?thesis
        proof (cases "\<not> is_hex h \<or> \<not> is_hex l \<or> decode_pair h l \<in> {0x2F, 0x5C}")
          case False
          with 2(2) [of h s' l r] \<open>s = h # s'\<close> Cons True show ?thesis
            by (cases "canonicalize_percent r"; cases "canonicalize_percent b") simp_all
        qed (auto simp: boundary_error_def raise_def)
      qed
    qed
  qed
qed

text \<open>A character the pass can only copy is in the result when it is in the input.\<close>

lemma canonicalize_percent_chars:
  assumes "\<not> unreserved c" "\<not> is_hex c" "c \<noteq> CHR ''%''"
  shows "canonicalize_percent s = Inr t \<Longrightarrow> c \<in> set t \<Longrightarrow> c \<in> set s"
proof (induction s arbitrary: t rule: canonicalize_percent.induct)
  case (2 d s)
  show ?case
  proof (cases "d = CHR ''%''")
    case False
    with 2(3) obtain u where "canonicalize_percent s = Inr u" "t = d # u" by (auto simp: result_simps)
    with 2(1) [OF False] 2(4) show ?thesis by auto
  next
    case True
    with 2(3) obtain h l r u where s: "s = h # l # r" "is_hex h" "is_hex l" "decode_pair h l \<notin> {0x2F, 0x5C}"
      and u: "canonicalize_percent r = Inr u"
      and t: "t = (if unreserved (char_of (decode_pair h l)) then [char_of (decode_pair h l)]
                   else [CHR ''%'', upper_hex h, upper_hex l]) @ u"
      by (auto simp: boundary_error_def result_simps split: list.splits if_splits)
    have "c \<in> set u" using 2(4) t assms upper_hex_facts [OF s(2)] upper_hex_facts [OF s(3)] by (auto split: if_splits)
    with 2(2) [of h "l # r" l r u] True s u show ?thesis by simp
  qed
qed simp

abbreviation slashed :: "string list \<Rightarrow> string" where
  "slashed segments \<equiv> concat (map (\<lambda>x. CHR ''/'' # x) segments)"

lemma slashed_split: "slashed (split_on CHR ''/'' s) = CHR ''/'' # s"
proof (induction s)
  case (Cons x s)
  obtain p ps where ps: "split_on CHR ''/'' s = p # ps" by (cases "split_on CHR ''/'' s") auto
  with Cons show ?case by auto
qed simp

lemma slashed_inj:
  "slashed xs = slashed ys \<Longrightarrow> \<forall>x \<in> set xs. CHR ''/'' \<notin> set x \<Longrightarrow> \<forall>y \<in> set ys. CHR ''/'' \<notin> set y \<Longrightarrow> xs = ys"
proof (induction xs arbitrary: ys)
  case Nil
  then show ?case by (cases ys) auto
next
  case (Cons x xs)
  then obtain y ys' where ys: "ys = y # ys'" by (cases ys) auto
  have slash: "zs = [] \<or> (\<exists>r. slashed zs = CHR ''/'' # r)" for zs by (cases zs) auto
  have tw: "takeWhile (\<lambda>c. c \<noteq> CHR ''/'') (z @ slashed zs) = z" if "CHR ''/'' \<notin> set z" for z zs
    using that slash [of zs] by (induction z) auto
  have dw: "dropWhile (\<lambda>c. c \<noteq> CHR ''/'') (z @ slashed zs) = slashed zs" if "CHR ''/'' \<notin> set z" for z zs
    using that slash [of zs] by (induction z) auto
  from Cons.prems ys have e: "x @ slashed xs = y @ slashed ys'" and s: "CHR ''/'' \<notin> set x" "CHR ''/'' \<notin> set y" by simp_all
  from tw [OF s(1), of xs] tw [OF s(2), of ys'] e have "x = y" by simp
  moreover from dw [OF s(1), of xs] dw [OF s(2), of ys'] e have "slashed xs = slashed ys'" by simp
  ultimately show ?case using Cons ys by simp
qed

lemma canonicalize_slashed:
  "canonicalize_percent (slashed xs) = map_result slashed (traverse canonicalize_percent xs)"
proof (induction xs)
  case (Cons x xs)
  have e: "canonicalize_percent (x @ slashed xs) =
      bind_result (canonicalize_percent x) (\<lambda>y. map_result (\<lambda>z. y @ z) (canonicalize_percent (slashed xs)))"
  proof (cases xs)
    case Nil
    then show ?thesis by (cases "canonicalize_percent x") simp_all
  next
    case (Cons x' xs')
    have "canonicalize_percent (slashed xs) = map_result (\<lambda>z. CHR ''/'' # z) (canonicalize_percent (x' @ slashed xs'))"
      by (simp add: Cons)
    with canonicalize_percent_slash [of x "x' @ slashed xs'"] Cons show ?thesis
      by (cases "canonicalize_percent x"; cases "canonicalize_percent (x' @ slashed xs')") simp_all
  qed
  with Cons.IH show ?case
    by (cases "canonicalize_percent x"; cases "traverse canonicalize_percent xs") simp_all
qed simp

section \<open>The dot-segment pass\<close>

text \<open>The same on a list of segments.\<close>

fun dots :: "string list \<Rightarrow> string list \<Rightarrow> string list" where
  "dots out [] = out"
| "dots out (x # xs) =
     (if x = ''.'' then (if xs = [] then out @ [[]] else dots out xs)
      else if x = ''..'' then (if xs = [] then butlast out @ [[]] else dots (butlast out) xs)
      else dots (out @ [x]) xs)"

lemma startswith_Cons: "startswith (c # s) (d # p) \<longleftrightarrow> c = d \<and> startswith s p" "startswith s []" "\<not> startswith [] (d # p)"
  by (auto simp: startswith_def)

lemma startswith_slashed:
  "CHR ''/'' \<notin> set p \<Longrightarrow> CHR ''/'' \<notin> set x \<Longrightarrow>
     startswith (x @ slashed xs) (p @ ''/'') \<longleftrightarrow> x = p \<and> xs \<noteq> []"
proof (induction x arbitrary: p)
  case Nil
  then show ?case by (cases p; cases xs) (auto simp: startswith_Cons)
next
  case (Cons c x)
  then show ?case by (cases p) (auto simp: startswith_Cons)
qed

lemma slashed_take: "CHR ''/'' \<notin> set x \<Longrightarrow> takeWhile (\<lambda>c. c \<noteq> CHR ''/'') (x @ slashed xs) = x"
proof -
  have slash: "xs = [] \<or> (\<exists>r. slashed xs = CHR ''/'' # r)" by (cases xs) auto
  then show "CHR ''/'' \<notin> set x \<Longrightarrow> ?thesis" by (induction x) auto
qed

lemma dot_loop_slashed:
  "\<forall>x \<in> set xs. CHR ''/'' \<notin> set x \<Longrightarrow>
     dot_loop (map (\<lambda>x. CHR ''/'' # x) out) (slashed xs) = map (\<lambda>x. CHR ''/'' # x) (dots out xs)"
proof (induction out xs rule: dots.induct)
  case (1 out)
  then show ?case by (simp add: dot_loop.simps)
next
  case (2 out x xs)
  let ?s = "map (\<lambda>x. CHR ''/'' # x)"
  have final: "dot_loop o' ''/'' = o' @ [''/'']" for o'
    by (subst dot_loop.simps) (simp add: startswith_Cons dot_loop.simps [of _ "[]"])
  have x: "CHR ''/'' \<notin> set x" using 2(4) by simp
  have sw: "startswith (CHR ''/'' # x @ slashed xs) ''/./'' \<longleftrightarrow> x = ''.'' \<and> xs \<noteq> []"
    "startswith (CHR ''/'' # x @ slashed xs) ''/../'' \<longleftrightarrow> x = ''..'' \<and> xs \<noteq> []"
    using startswith_slashed [OF _ x, of "''.''" xs] startswith_slashed [OF _ x, of "''..''" xs] by (simp_all add: startswith_Cons(1))
  have e: "slashed xs = [] \<longleftrightarrow> xs = []" by (cases xs) auto
  have step: "dot_loop o' (CHR ''/'' # x @ slashed xs) =
      (if x = ''.'' then (if xs = [] then dot_loop o' ''/'' else dot_loop o' (slashed xs))
       else if x = ''..'' then (if xs = [] then dot_loop (butlast o') ''/'' else dot_loop (butlast o') (slashed xs))
       else dot_loop (o' @ [CHR ''/'' # x]) (slashed xs))" for o'
  proof -
    consider "x = ''.''" | "x = ''..''" | "x \<noteq> ''.''" "x \<noteq> ''..''" by blast
    then show ?thesis
    proof cases
      case 1
      then show ?thesis using sw e by (subst dot_loop.simps) (simp add: startswith_Cons)
    next
      case 2
      then show ?thesis using sw e by (subst dot_loop.simps) (simp add: startswith_Cons)
    next
      case 3
      have ne: "x @ slashed xs \<noteq> p" if "x \<noteq> p" "CHR ''/'' \<notin> set p" for p
        using that by (cases xs) auto
      from ne [of "''.''"] ne [of "''..''"] 3
      have "CHR ''/'' # x @ slashed xs \<noteq> ''/.''" "CHR ''/'' # x @ slashed xs \<noteq> ''/..''" by simp_all
      then show ?thesis using sw e 3 slashed_take [OF x, of xs]
        by (subst dot_loop.simps) (simp add: startswith_Cons Let_def)
    qed
  qed
  show ?case
    using 2 by (simp add: step final map_butlast)
qed

text \<open>No segment of the result is a dot segment, and a list without them is left alone.\<close>

definition clean :: "string list \<Rightarrow> bool" where
  "clean segments = list_all (\<lambda>x. x \<noteq> ''.'' \<and> x \<noteq> ''..'') segments"

lemma clean_simps [simp]: "clean []" "clean (x # xs) \<longleftrightarrow> x \<noteq> ''.'' \<and> x \<noteq> ''..'' \<and> clean xs"
  "clean (xs @ ys) \<longleftrightarrow> clean xs \<and> clean ys"
  by (auto simp: clean_def)

lemma clean_butlast: "clean xs \<Longrightarrow> clean (butlast xs)"
  by (induction xs) auto

lemma dots_clean: "clean out \<Longrightarrow> clean (dots out xs)"
  by (induction out xs rule: dots.induct) (simp_all add: clean_butlast)

lemma dots_of_clean: "clean xs \<Longrightarrow> dots out xs = out @ xs"
  by (induction out xs rule: dots.induct) simp_all

lemma dots_not_Nil: "xs \<noteq> [] \<Longrightarrow> dots out xs \<noteq> []"
  by (induction out xs rule: dots.induct) auto

lemma dots_from: "set (dots out xs) \<subseteq> set out \<union> set xs \<union> {[]}"
  by (induction out xs rule: dots.induct) (auto dest: in_set_butlastD)

text \<open>A path as its segments.\<close>

lemma remove_dot_segments_slashed:
  assumes "xs \<noteq> []" "\<forall>x \<in> set xs. CHR ''/'' \<notin> set x"
  shows "remove_dot_segments (slashed xs) = slashed (dots [] xs)"
proof -
  have start: "startswith (slashed ys) ''/''" if "ys \<noteq> []" for ys
    using that by (cases ys) (auto simp: startswith_def)
  show ?thesis
    unfolding remove_dot_segments_def Let_def
    using dot_loop_slashed [OF assms(2), of "[]"] start [OF assms(1)] start [OF dots_not_Nil [OF assms(1)], of "[]"] by simp
qed

lemma canonical_path:
  assumes "canonicalize_percent (CHR ''/'' # s) = Inr p"
  obtains xs where "p = slashed xs" "xs \<noteq> []" "\<forall>x \<in> set xs. CHR ''/'' \<notin> set x" "\<forall>x \<in> set xs. canonicalize_percent x = Inr x"
proof -
  let ?xs = "split_on CHR ''/'' s"
  have c: "canonicalize_percent (slashed ?xs) = Inr p" using assms by (simp add: slashed_split)
  then obtain xs where xs: "traverse canonicalize_percent ?xs = Inr xs" "p = slashed xs"
    by (auto simp: canonicalize_slashed result_simps)
  have slash: "\<not> unreserved CHR ''/''" "\<not> is_hex CHR ''/''" "CHR ''/'' \<noteq> CHR ''%''"
    by (simp_all add: unreserved_def is_letter_def is_digit_def is_hex_def)
  have each: "CHR ''/'' \<notin> set x \<and> canonicalize_percent x = Inr x" if "x \<in> set xs" for x
  proof -
    from that xs(1) obtain y where y: "y \<in> set ?xs" "canonicalize_percent y = Inr x"
      by (auto simp: traverse_Inr_iff in_set_conv_nth) metis
    from canonicalize_percent_chars [OF slash y(2)] split_on_pieces [OF y(1)] canonicalize_percent_idem [OF y(2)]
    show ?thesis by blast
  qed
  have "xs \<noteq> []" using xs(1) by (cases ?xs) (auto simp: result_simps)
  with that xs(2) each show ?thesis by blast
qed

lemma traverse_id: "(\<And>x. x \<in> set xs \<Longrightarrow> f x = Inr x) \<Longrightarrow> traverse f xs = Inr xs"
  using traverse_Inr_map [of xs f "\<lambda>x. x"] by simp

text \<open>What the path passes make of a path that starts with a slash.\<close>

lemma normal_path:
  assumes "canonicalize_percent (CHR ''/'' # s) = Inr p"
  defines "q \<equiv> remove_dot_segments p"
  shows "canonicalize_percent q = Inr q" "remove_dot_segments q = q" "\<exists>r. q = CHR ''/'' # r \<and> clean (split_on CHR ''/'' r)"
    and "c \<in> set q \<Longrightarrow> c = CHR ''/'' \<or> c \<in> set p"
proof -
  obtain xs where xs: "p = slashed xs" "xs \<noteq> []" "\<forall>x \<in> set xs. CHR ''/'' \<notin> set x"
    "\<forall>x \<in> set xs. canonicalize_percent x = Inr x" by (rule canonical_path [OF assms(1)])
  let ?ys = "dots [] xs"
  have q: "q = slashed ?ys" using remove_dot_segments_slashed [OF xs(2,3)] xs(1) by (simp add: q_def)
  have ys: "?ys \<noteq> []" "clean ?ys" "\<forall>y \<in> set ?ys. CHR ''/'' \<notin> set y" "\<forall>y \<in> set ?ys. canonicalize_percent y = Inr y"
    using dots_not_Nil [OF xs(2)] dots_clean [of "[]" xs] dots_from [of "[]" xs] xs(3,4) by (auto simp: clean_def)
  have "traverse canonicalize_percent ?ys = Inr ?ys" using ys(4) by (intro traverse_id) blast
  then show "canonicalize_percent q = Inr q" by (simp add: q canonicalize_slashed)
  show "remove_dot_segments q = q"
    using remove_dot_segments_slashed [OF ys(1,3)] dots_of_clean [OF ys(2), of "[]"] by (simp add: q)
  obtain y zs where yz: "?ys = y # zs" using ys(1) by (cases ?ys) auto
  define r where "r = y @ slashed zs"
  have r: "q = CHR ''/'' # r" by (simp add: q yz r_def)
  have "slashed (split_on CHR ''/'' r) = slashed ?ys" using slashed_split [of r] r q by simp
  from slashed_inj [OF this _ ys(3)] split_on_pieces have "split_on CHR ''/'' r = ?ys" by blast
  with ys(2) r show "\<exists>r. q = CHR ''/'' # r \<and> clean (split_on CHR ''/'' r)" by auto
  show "c \<in> set q \<Longrightarrow> c = CHR ''/'' \<or> c \<in> set p"
    using dots_from [of "[]" xs] by (fastforce simp: q xs(1) split: if_splits)
qed

section \<open>The canonical host\<close>

definition host_char :: "char \<Rightarrow> bool" where
  "host_char c = (label_char c \<or> c = CHR ''.'' \<or> c = CHR '':'')"

lemma label_char_facts: "label_char c \<Longrightarrow> c \<notin> set '':./%[]@?#'' \<and> (of_char c :: nat) < 128 \<and> lower_char c = c"
proof -
  have "list_all (\<lambda>c. c \<notin> set '':./%[]@?#'' \<and> (of_char c :: nat) < 128 \<and> lower_char c = c)
    ''abcdefghijklmnopqrstuvwxyz0123456789-''" by (simp add: lower_char_def)
  then show "label_char c \<Longrightarrow> ?thesis" unfolding list_all_iff label_char_def by blast
qed

lemma host_char_facts: "host_char c \<Longrightarrow> c \<notin> set ''/%[]@?#'' \<and> (of_char c :: nat) < 128 \<and> lower_char c = c"
proof -
  have "c \<notin> set ''/%[]@?#'' \<and> (of_char c :: nat) < 128 \<and> lower_char c = c" if "c = CHR ''.'' \<or> c = CHR '':''"
    using that by (elim disjE; simp add: lower_char_def)
  moreover have "c \<notin> set ''/%[]@?#'' \<and> (of_char c :: nat) < 128 \<and> lower_char c = c" if "label_char c"
    using label_char_facts [OF that] by simp
  ultimately show "host_char c \<Longrightarrow> ?thesis" unfolding host_char_def by blast
qed

lemma host_char_range: "host_char c \<Longrightarrow> 32 \<le> (of_char c :: nat)"
proof -
  have "list_all (\<lambda>c. 32 \<le> (of_char c :: nat)) ''abcdefghijklmnopqrstuvwxyz0123456789-''" by code_simp
  then show "host_char c \<Longrightarrow> ?thesis" unfolding list_all_iff host_char_def label_char_def by auto
qed

lemma show_hex_label: "list_all label_char (show_hex n)"
proof -
  have "list_all (\<lambda>k. label_char (hex_digits ! k)) [0 ..< 16]" by code_simp
  then have "label_char (hex_digit n)" for n by (simp add: hex_digit_def list_all_iff)
  then show ?thesis
  proof (induction n rule: show_hex.induct)
    case (1 n)
    then show ?case by (subst show_hex.simps) simp
  qed
qed

lemma show_nat_label: "list_all label_char (show_nat n)"
proof -
  have "list_all label_char ''0123456789''" by code_simp
  then have "is_digit c \<Longrightarrow> label_char c" for c unfolding list_all_iff is_digit_def by blast
  with show_nat_digits [of _ n] show ?thesis by (auto simp: list_all_iff)
qed

lemma compress_label: "p \<in> set (compress_hextets hs) \<Longrightarrow> list_all label_char p"
  by (auto simp: compress_hextets_def show_hex_label split: prod.splits if_splits)

lemma compressed_chars: "zone_of p = None \<Longrightarrow> list_all host_char (compressed p)"
proof (cases p)
  case (IPv4 v)
  with set_join [of "''.''" "map show_nat v"] show_nat_label show ?thesis
    by (fastforce simp: list_all_iff host_char_def)
next
  case (IPv6 v z)
  assume "zone_of p = None"
  with IPv6 set_join [of "'':''" "compress_hextets v"] compress_label show ?thesis
    by (fastforce simp: list_all_iff host_char_def)
qed

lemma ipv6_text: "ip_address s = Some (IPv6 v z) \<Longrightarrow> CHR '':'' \<in> set s"
proof (rule ccontr)
  assume a: "ip_address s = Some (IPv6 v z)" and "CHR '':'' \<notin> set s"
  moreover have "set (before CHR ''%'' s) \<subseteq> set s" by (auto simp: before_def dest: set_takeWhileD)
  ultimately have "split_on CHR '':'' s = [s]" "split_on CHR '':'' (before CHR ''%'' s) = [before CHR ''%'' s]"
    by (auto intro!: split_on_plain)
  with a show False by (auto simp: ip_address_def ipv6_of_string_def Let_def split: if_splits option.splits)
qed

lemma ipv6_not_v: "ip_address (c # s) = Some (IPv6 v None) \<Longrightarrow> compressed (IPv6 v None) = c # s \<Longrightarrow> c \<noteq> CHR ''v''"
proof -
  assume "compressed (IPv6 v None) = c # s"
  then have "c \<in> set '':'' \<or> is_hex c"
    using set_join [of "'':''" "compress_hextets v"] compress_chars [of _ v] by (fastforce simp: list_all_iff)
  then show "c \<noteq> CHR ''v''" by (auto simp: is_hex_def)
qed

lemma strip_dots_idem: "strip_dots (strip_dots s) = strip_dots s"
proof -
  have "dropWhile P (dropWhile P x) = dropWhile P x" for P and x :: string by (induction x) simp_all
  then show ?thesis by (simp add: strip_dots_def)
qed

text \<open>A canonical host is a fixed point, and an address in it has no zone.\<close>

definition canonical_host :: "string \<Rightarrow> bool" where
  "canonical_host h =
     (h \<noteq> [] \<and> list_all host_char h
      \<and> (case ip_address h of
           Some p \<Rightarrow> zone_of p = None \<and> compressed p = h
         | None \<Rightarrow> CHR '':'' \<notin> set h \<and> strip_dots h = h \<and> list_all label_ok (split_on CHR ''.'' h)))"

lemma canonical_host_ascii: "list_all host_char h \<Longrightarrow> ascii h \<and> map lower_char h = h"
  using host_char_facts by (induction h) auto

lemma normalize_canonical_host: "canonical_host h \<Longrightarrow> normalize_host T h = Inr h"
  using canonical_host_ascii [of h]
  by (auto simp: canonical_host_def normalize_host_def split: option.splits)

lemma normalize_host_canonical:
  assumes "normalize_host T s = Inr h" "CHR ''%'' \<notin> set h"
  shows "canonical_host h"
proof (cases "ip_address s")
  case (Some p)
  with assms have h: "h = compressed p" by (simp add: normalize_host_def)
  with assms(2) have z: "zone_of p = None" by (cases p) (auto split: option.splits)
  have "ip_address [] = None" by code_simp
  with canonical_address [OF Some] h z compressed_chars [OF z] show ?thesis by (auto simp: canonical_host_def)
next
  case None
  with assms(1) obtain x where h: "h = strip_dots x" "h \<noteq> []" "list_all label_ok (split_on CHR ''.'' h)"
    by (auto simp: normalize_host_def boundary_error_def result_simps split: if_splits option.splits)
  have "list_all label_char l" if "l \<in> set (split_on CHR ''.'' h)" for l
    using h(3) that by (simp add: list_all_iff label_ok_def)
  then have c: "c \<in> set h \<Longrightarrow> label_char c \<or> c = CHR ''.''" for c
    using set_join [of "''.''" "split_on CHR ''.'' h"] join_split_on [of "CHR ''.''" h] by (fastforce simp: list_all_iff)
  have colon: "CHR '':'' \<notin> set h" using c label_char_facts [of "CHR '':''"] by auto
  show ?thesis
  proof (cases "ip_address h")
    case None
    with h c colon strip_dots_idem [of x] show ?thesis by (auto simp: canonical_host_def list_all_iff host_char_def)
  next
    case (Some p)
    with colon ipv6_text obtain v where "p = IPv4 v" by (cases p) blast+
    with Some h(2) c ipv4_address_text [of h v] show ?thesis by (auto simp: canonical_host_def list_all_iff host_char_def)
  qed
qed

section \<open>A canonical URL is its own canonical form\<close>

lemma authority_chars:
  assumes "canonical_host h" "c \<in> set (authority_of h)"
  shows "c = CHR ''['' \<or> c = CHR '']'' \<or> host_char c"
  using assms by (auto simp: canonical_host_def authority_of_def list_all_iff split: if_splits)

lemma authority_facts:
  assumes "canonical_host h"
  shows "netloc_ok T (authority_of h)" "host_port (authority_of h) = (h, [])" "CHR ''@'' \<notin> set (authority_of h)"
proof -
  have chars: "c \<in> set h \<Longrightarrow> host_char c" for c using assms by (auto simp: canonical_host_def list_all_iff)
  have no: "CHR ''['' \<notin> set h" "CHR '']'' \<notin> set h" "CHR ''@'' \<notin> set h"
    using chars host_char_facts [of "CHR ''[''"] host_char_facts [of "CHR '']''"] host_char_facts [of "CHR ''@''"] by auto
  have asc: "ascii h" using assms canonical_host_ascii by (auto simp: canonical_host_def)
  have st: "\<not> startswith h ''[''" using no(1) by (cases h) (auto simp: startswith_Cons)
  show "CHR ''@'' \<notin> set (authority_of h)" using no by (simp add: authority_of_def)
  then have al: "after_last CHR ''@'' (authority_of h) = authority_of h"
    by (subst after_last_def, subst takeWhile_eq_all_conv [THEN iffD2]) auto
  show "netloc_ok T (authority_of h)" "host_port (authority_of h) = (h, [])"
  proof (atomize (full), cases "CHR '':'' \<in> set h")
    case False
    then have a: "authority_of h = h" by (simp add: authority_of_def)
    with al no asc False show "netloc_ok T (authority_of h) \<and> host_port (authority_of h) = (h, [])"
      by (simp add: netloc_ok_def host_port_def before_after)
  next
    case True
    then have a: "authority_of h = CHR ''['' # h @ '']''" using st by (simp add: authority_of_def)
    from assms True obtain p where p: "ip_address h = Some p" "zone_of p = None" "compressed p = h"
      by (auto simp: canonical_host_def split: option.splits)
    obtain v where v: "p = IPv6 v None"
    proof (cases p)
      case (IPv4 w)
      with p(1) ipv4_of_string_Some(3) True show ?thesis
        by (auto simp: ip_address_def Let_def split: if_splits option.splits)
    qed (use p that in auto)
    have nv: "\<not> startswith h ''v''" using ipv6_not_v p v by (cases h) (auto simp: startswith_Cons)
    have ba: "after CHR ''['' (authority_of h) = h @ '']''" "before CHR '']'' (h @ '']'') = h" "after CHR '']'' (h @ '']'') = []"
      using before_after(4) [of "CHR ''[''" "[]" "h @ '']''"] before_after(3,4) [of "CHR '']''" h "[]"] no(2) a by simp_all
    have "bracketed_host_ok h" using nv p(1) v by (simp add: bracketed_host_ok_def)
    with al no asc a ba show "netloc_ok T (authority_of h) \<and> host_port (authority_of h) = (h, [])"
      by (simp add: netloc_ok_def host_port_def before_after)
  qed
qed

definition query_text :: "string option \<Rightarrow> string" where
  "query_text q = (case q of None \<Rightarrow> [] | Some q \<Rightarrow> CHR ''?'' # q)"

lemma urlsplit_canonical:
  assumes "canonical_host h" "CHR ''#'' \<notin> set path" "CHR ''?'' \<notin> set path" "path = CHR ''/'' # r"
    and "\<forall>x. q = Some x \<longrightarrow> CHR ''#'' \<notin> set x"
  shows "urlsplit T (''https://'' @ authority_of h @ path @ query_text q) =
    Some \<lparr>us_scheme = ''https'', us_netloc = authority_of h, us_path = path, us_query = (case q of None \<Rightarrow> [] | Some x \<Rightarrow> x),
          us_fragment = []\<rparr>"
proof -
  let ?t = "path @ query_text q" and ?a = "authority_of h"
  have delim: "\<forall>c \<in> set ?a. c \<notin> set ''/?#''"
  proof
    fix c assume "c \<in> set ?a"
    from authority_chars [OF assms(1) this] host_char_facts [of c] show "c \<notin> set ''/?#''" by auto
  qed
  have t: "?t = CHR ''/'' # r @ query_text q" by (simp add: assms(4))
  have tw: "takeWhile (Not \<circ> (\<lambda>c. c \<in> set ''/?#'')) (?a @ ?t) = ?a"
    "dropWhile (Not \<circ> (\<lambda>c. c \<in> set ''/?#'')) (?a @ ?t) = ?t"
    using takeWhile_append2 [of ?a "Not \<circ> (\<lambda>c. c \<in> set ''/?#'')" ?t] dropWhile_append2 [of ?a "Not \<circ> (\<lambda>c. c \<in> set ''/?#'')" ?t] delim
    unfolding t by (simp_all only: o_apply) (simp_all add: takeWhile.simps dropWhile.simps)
  have q: "CHR ''#'' \<notin> set ?t" using assms(2,5) by (auto simp: query_text_def split: option.splits)
  have sp: "after CHR ''?'' ?t = (case q of None \<Rightarrow> [] | Some x \<Rightarrow> x)" "before CHR ''?'' ?t = path"
    using assms(3) by (auto simp: query_text_def before_after split: option.splits)
  have pre: "before CHR '':'' (''https://'' @ s) = ''https''" "after CHR '':'' (''https://'' @ s) = ''//'' @ s" for s
    by (simp_all add: before_def after_def)
  have sc: "is_letter (hd ''https'')" "list_all scheme_char ''https''" "map lower_char ''https'' = ''https''" by code_simp+
  have dw: "dropWhile (\<lambda>c. (of_char c :: nat) \<le> 32) (''https://'' @ s) = ''https://'' @ s" for s by simp
  have colon: "CHR '':'' \<in> set (''https://'' @ s)" for s by simp
  have st: "startswith (''//'' @ s) ''//''" "drop 2 (''//'' @ s) = s" for s by (simp_all add: startswith_def)
  have ne: "''https'' \<noteq> []" by simp
  show ?thesis
    unfolding urlsplit_def Let_def dw pre
    by (simp only: sc colon ne st tw before_after(1,2) [OF q] sp authority_facts(1) [OF assms(1)] simp_thms if_True if_False)
qed

lemma urlsplit_parts:
  assumes "urlsplit T u = Some sp" "us_netloc sp \<noteq> []"
  shows "us_path sp = [] \<or> (\<exists>r. us_path sp = CHR ''/'' # r)" "CHR ''#'' \<notin> set (us_path sp)" "CHR ''?'' \<notin> set (us_path sp)"
    and "CHR ''#'' \<notin> set (us_query sp)" "set (us_path sp) \<subseteq> set u" "set (us_query sp) \<subseteq> set u"
proof -
  let ?delim = "\<lambda>c. c \<in> set ''/?#''"
  obtain v where v: "startswith v ''//''" "set v \<subseteq> set u"
    and sp: "us_path sp = before CHR ''?'' (before CHR ''#'' (dropWhile (Not \<circ> ?delim) (drop 2 v)))"
      "us_query sp = after CHR ''?'' (before CHR ''#'' (dropWhile (Not \<circ> ?delim) (drop 2 v)))"
  proof -
    let ?d = "dropWhile (\<lambda>c. (of_char c :: nat) \<le> 32) u"
    define v where "v = (if CHR '':'' \<in> set ?d \<and> before CHR '':'' ?d \<noteq> [] \<and> is_letter (hd (before CHR '':'' ?d))
      \<and> list_all scheme_char (before CHR '':'' ?d) then after CHR '':'' ?d else ?d)"
    have d: "set ?d \<subseteq> set u" using set_dropWhileD by fast
    then have "set v \<subseteq> set u" using before_set(3) [of "CHR '':''" ?d] by (auto simp: v_def)
    with that [of v] assms show thesis
      unfolding urlsplit_def Let_def v_def [symmetric] by (auto split: if_splits)
  qed
  let ?r = "dropWhile (Not \<circ> ?delim) (drop 2 v)"
  have r: "set ?r \<subseteq> set u" using v(2) set_drop_subset [of 2 v] set_dropWhileD by fast
  show "CHR ''#'' \<notin> set (us_path sp)" "CHR ''#'' \<notin> set (us_query sp)"
    using before_set(1,3) [of "CHR ''?''" "before CHR ''#'' ?r"] before_set(2) [of "CHR ''#''" ?r] sp by auto
  show "CHR ''?'' \<notin> set (us_path sp)" using before_set(2) sp(1) by simp
  show "set (us_path sp) \<subseteq> set u" "set (us_query sp) \<subseteq> set u"
    using before_set(1,3) [of "CHR ''?''" "before CHR ''#'' ?r"] before_set(1) [of "CHR ''#''" ?r] sp r by auto
  show "us_path sp = [] \<or> (\<exists>r. us_path sp = CHR ''/'' # r)"
  proof (cases ?r)
    case Nil
    show ?thesis unfolding sp(1) Nil by (simp add: before_def)
  next
    case (Cons c s)
    then have "dropWhile (Not \<circ> ?delim) (drop 2 v) \<noteq> []" by simp
    from hd_dropWhile [OF this] have "?delim c" unfolding Cons by simp
    then have "c = CHR ''/'' \<or> c = CHR ''?'' \<or> c = CHR ''#''" by simp
    then show ?thesis unfolding sp(1) Cons by (auto simp: before_def)
  qed
qed

text \<open>What a normalised target satisfies.\<close>

definition canonical_target :: "normalized_target \<Rightarrow> bool" where
  "canonical_target t =
     (t = make_target (nt_host t) (nt_path t) (nt_query t)
      \<and> CHR 0x5C \<notin> set (request_target t) \<and> CHR ''#'' \<notin> set (request_target t) \<and> CHR ''?'' \<notin> set (nt_path t)
      \<and> list_all (\<lambda>c. 32 \<le> (of_char c :: nat)) (request_target t)
      \<and> startswith (nt_path t) ''/'' \<and> clean (split_on CHR ''/'' (tl (nt_path t)))
      \<and> canonicalize_percent (nt_path t) = Inr (nt_path t) \<and> remove_dot_segments (nt_path t) = nt_path t
      \<and> (case nt_query t of None \<Rightarrow> True | Some q \<Rightarrow> q \<noteq> [] \<and> canonicalize_percent q = Inr q))"

lemma hostname_netloc: "hostname_of T n \<noteq> [] \<Longrightarrow> n \<noteq> []"
  by (auto simp: hostname_of_def host_port_def after_last_def before_def after_def lower_text_def)

lemma special_chars:
  assumes "(of_char c :: nat) < 32 \<or> c = CHR 0x5C \<or> c = CHR ''#'' \<or> c = CHR ''?''"
  shows "\<not> unreserved c" "\<not> is_hex c" "c \<noteq> CHR ''%''"
  using assms by (auto simp: is_hex_def dest: unreserved_plain)

lemma normalize_url_canonical:
  assumes "normalize_url T u = Inr t"
  shows "canonical_target t \<and> (\<exists>h. normalize_host T h = Inr (nt_host t))"
proof -
  from assms obtain sp port host p query where u: "list_all (\<lambda>c. 32 \<le> (of_char c :: nat)) u" "urlsplit T u = Some sp"
    "hostname_of T (us_netloc sp) \<noteq> []" "normalize_host T (hostname_of T (us_netloc sp)) = Inr host"
    "CHR 0x5C \<notin> set (us_path sp)" "CHR 0x5C \<notin> set (us_query sp)"
    and p: "canonicalize_percent (if us_path sp = [] then ''/'' else us_path sp) = Inr p"
    and q: "(if us_query sp = [] then Inr None else map_result Some (canonicalize_percent (us_query sp))) = Inr query"
    and t: "t = make_target host (remove_dot_segments p) query"
    unfolding normalize_url_def boundary_error_def
    by (auto simp: result_simps list_all_iff list_ex_iff not_less split: if_splits option.splits)
  note sp = urlsplit_parts [OF u(2) hostname_netloc [OF u(3)]]
  obtain s where s: "canonicalize_percent (CHR ''/'' # s) = Inr p" "set s \<subseteq> set (us_path sp)"
  proof (cases "us_path sp = []")
    case True
    with p have "canonicalize_percent ''/'' = Inr p" by (simp only: if_True simp_thms)
    from that [OF this] show ?thesis by (simp only: list.set empty_subsetI)
  next
    case False
    with sp(1) obtain r where r: "us_path sp = CHR ''/'' # r" by blast
    from that [of r] p r show ?thesis by (auto simp del: canonicalize_percent.simps)
  qed
  note n = normal_path [OF s(1)]
  have special: "c \<notin> set (remove_dot_segments p) \<and> (\<forall>x. query = Some x \<longrightarrow> c \<notin> set x)"
    if c: "(of_char c :: nat) < 32 \<or> c = CHR 0x5C \<or> c = CHR ''#''" for c
  proof -
    have c': "c \<notin> set (us_path sp)" "c \<notin> set (us_query sp)"
      using c u(1,5,6) sp(2,4-6) by (fastforce simp: list_all_iff)+
    moreover have "c \<noteq> CHR ''/''" using c by auto
    ultimately show ?thesis
      using canonicalize_percent_chars [OF special_chars, OF _ _ _ s(1), of c] c n(4) [of c] s(2)
        canonicalize_percent_chars [OF special_chars, OF _ _ _ , of c "us_query sp"] q
      by (auto simp: result_simps split: if_splits)
  qed
  have qm: "CHR ''?'' \<notin> set (remove_dot_segments p)"
    using canonicalize_percent_chars [OF special_chars s(1), of "CHR ''?''"] n(4) [of "CHR ''?''"] s(2) sp(3) by auto
  have qc: "\<forall>x. query = Some x \<longrightarrow> x \<noteq> [] \<and> canonicalize_percent x = Inr x"
  proof (intro allI impI)
    fix x assume x: "query = Some x"
    with q have q': "canonicalize_percent (us_query sp) = Inr x" "us_query sp \<noteq> []" by (auto simp: result_simps split: if_splits)
    have "x \<noteq> []"
    proof
      assume "x = []"
      with q' show False by (cases "us_query sp") (auto simp: result_simps boundary_error_def split: if_splits list.splits)
    qed
    with canonicalize_percent_idem [OF q'(1)] show "x \<noteq> [] \<and> canonicalize_percent x = Inr x" by simp
  qed
  have rt: "c \<notin> set (request_target t)" if "(of_char c :: nat) < 32 \<or> c = CHR 0x5C \<or> c = CHR ''#''" for c
    using special [OF that] that by (auto simp: t make_target_def request_target_def split: option.splits)
  have lower: "list_all (\<lambda>c. 32 \<le> (of_char c :: nat)) (request_target t)"
    using rt by (force simp: list_all_iff not_less [symmetric])
  obtain r where r: "remove_dot_segments p = CHR ''/'' # r" "clean (split_on CHR ''/'' r)" using n(3) by blast
  have "canonical_target t"
    unfolding canonical_target_def
    using rt [of "CHR 0x5C"] rt [of "CHR ''#''"] lower qm qc n(1,2) r
    by (simp add: t make_target_def startswith_Cons split: option.splits)
  with u(4) show ?thesis by (auto simp: t make_target_def)
qed

lemma lower_https: "map lower_char ''HTTPS'' = ''https''"
  by code_simp

text \<open>
  C26. A normalised URL is a fixed point: the text \<^verbatim>\<open>safe_url()\<close> of a target, normalised again, gives the same
  target. So two URLs with one canonical text have one fingerprint, and a record that stores the canonical
  text can be checked by normalising it. The host may not hold the zone of an IPv6 address, and the text
  must fit the limit it may exceed by the slash of an empty path.
\<close>

theorem normalize_url_idempotent:
  assumes "normalize_url T u = Inr t" "CHR ''%'' \<notin> set (nt_host t)" "py_len (safe_url t) \<le> 8192"
  shows "normalize_url T (safe_url t) = Inr t"
proof -
  from normalize_url_canonical [OF assms(1)] assms(2) normalize_host_canonical
  have t: "canonical_target t" "canonical_host (nt_host t)" by blast+
  let ?h = "nt_host t" and ?p = "nt_path t" and ?q = "nt_query t"
  obtain r where r: "?p = CHR ''/'' # r" using t(1) by (cases ?p) (auto simp: canonical_target_def startswith_Cons)
  have scheme: "map lower_char (nt_scheme t) = ''https''"
  proof -
    have "t = make_target ?h ?p ?q" using t(1) unfolding canonical_target_def by blast
    then have "nt_scheme t = nt_scheme (make_target ?h ?p ?q)" by (rule arg_cong)
    also have "\<dots> = ''HTTPS''" unfolding make_target_def by (rule normalized_target.select_convs)
    finally have "nt_scheme t = ''HTTPS''" .
    then show ?thesis by (simp only: lower_https)
  qed
  have url: "safe_url t = ''https://'' @ authority_of ?h @ ?p @ query_text ?q"
    by (simp add: safe_url_def scheme nt_authority_def request_target_def query_text_def split: option.splits)
  have ct: "CHR 0x5C \<notin> set ?p" "CHR ''#'' \<notin> set ?p" "CHR ''?'' \<notin> set ?p" "\<forall>x. ?q = Some x \<longrightarrow> CHR ''#'' \<notin> set x"
    "\<forall>x. ?q = Some x \<longrightarrow> CHR 0x5C \<notin> set x"
    "canonicalize_percent ?p = Inr ?p" "remove_dot_segments ?p = ?p"
    "\<forall>x. ?q = Some x \<longrightarrow> x \<noteq> [] \<and> canonicalize_percent x = Inr x" "make_target ?h ?p ?q = t"
    using t(1) by (auto simp: canonical_target_def request_target_def split: option.splits)
  have authority: "32 \<le> (of_char c :: nat)" if "c \<in> set (authority_of ?h)" for c
    using authority_chars [OF t(2) that] host_char_range [of c] by auto
  have controls: "\<not> list_ex (\<lambda>c. (of_char c :: nat) < 32) (safe_url t)"
    using t(1) authority
    by (auto simp: url canonical_target_def request_target_def query_text_def list_ex_iff list_all_iff not_less split: option.splits)
  note sp = urlsplit_canonical [OF t(2) ct(2,3) r ct(4), of T] authority_facts [OF t(2)]
  have host: "CHR ''%'' \<notin> set ?h" "map lower_char ?h = ?h" "ascii ?h" "?h \<noteq> []"
    using t(2) canonical_host_ascii [of ?h] assms(2) by (auto simp: canonical_host_def)
  have hn: "hostname_of T (authority_of ?h) = ?h"
    using host(1-3) before_after(1) [OF host(1)] by (auto simp: hostname_of_def sp(3) lower_text_def Let_def)
  have port: "port_of (authority_of ?h) = Some None" by (simp add: port_of_def sp(3))
  have p: "?p \<noteq> []" by (simp add: r)
  show ?thesis
    using controls assms(3) ct(9)
    unfolding normalize_url_def sp(1) [folded url]
    by (cases ?q) (simp_all add: hn port sp(4) host(4) p normalize_canonical_host [OF t(2)] ct(1,5,6,7,8))
qed

definition sample_tables :: url_tables where
  "sample_tables = \<lparr>ut_lower = (\<lambda>s. s), ut_nfkc_ok = (\<lambda>s. True), ut_idna = None\<rparr>"

definition sample_url :: string where
  "sample_url = ''https://Example.COM:443/a/./b/../%7Eme?x=%41#''"

definition sample_target :: normalized_target where
  "sample_target = make_target ''example.com'' ''/a/~me'' (Some ''x=A'')"

lemma sample_target_normalized: "normalize_url sample_tables sample_url = Inr sample_target"
proof -
  have a: "\<not> (8192 < py_len sample_url \<or> list_ex (\<lambda>c. (of_char c :: nat) < 32) sample_url)" by code_simp
  have s: "urlsplit sample_tables sample_url = Some \<lparr>us_scheme = ''https'', us_netloc = ''Example.COM:443'',
    us_path = ''/a/./b/../%7Eme'', us_query = ''x=%41'', us_fragment = []\<rparr>" by code_simp
  have h1: "port_of ''Example.COM:443'' = Some (Some 443)"
    by (simp add: port_of_def host_port_def after_last_def after_def is_digit_def read_nat_def digit_val_def)
  have h2: "CHR ''@'' \<notin> set ''Example.COM:443''" by simp
  have h3: "hostname_of sample_tables ''Example.COM:443'' = ''example.com''" by code_simp
  have "canonical_host ''example.com''" by code_simp
  then have h4: "normalize_host sample_tables ''example.com'' = Inr ''example.com''" by (rule normalize_canonical_host)
  note h = h1 h2 h3 h4
  have p: "canonicalize_percent ''/a/./b/../%7Eme'' = Inr ''/a/./b/../~me''" "canonicalize_percent ''x=%41'' = Inr ''x=A''"
    "remove_dot_segments ''/a/./b/../~me'' = ''/a/~me''"
    "CHR 0x5C \<notin> set ''/a/./b/../%7Eme''" "CHR 0x5C \<notin> set ''x=%41''" by code_simp+
  have n: "''example.com'' \<noteq> []" "''/a/./b/../%7Eme'' \<noteq> []" "''x=%41'' \<noteq> []" by simp_all
  show ?thesis
    unfolding normalize_url_def if_not_P [OF a] s
    by (simp only: option.case split_result.select_convs h p n simp_thms if_True if_False bind_result.simps map_result.simps
      option.inject sample_target_def)
qed

theorem normalize_url_idempotent_witness: "normalize_url sample_tables (safe_url sample_target) = Inr sample_target"
proof (rule normalize_url_idempotent [OF sample_target_normalized])
  show "CHR ''%'' \<notin> set (nt_host sample_target)" by (simp add: sample_target_def make_target_def)
  have "safe_url sample_target = ''https://example.com/a/~me?x=A''"
    by (simp add: sample_target_def make_target_def safe_url_def nt_authority_def authority_of_def request_target_def
      lower_https [simplified])
  moreover have "py_len ''https://example.com/a/~me?x=A'' \<le> 8192" by code_simp
  ultimately show "py_len (safe_url sample_target) \<le> 8192" by simp
qed

end
