(* ===== verification/Http_Boundary.thy ===== *)
theory Http_Boundary
  imports Read_Properties Audit_Log Url
begin

text \<open>
  \<^verbatim>\<open>pmiri/http_api.py\<close>: the loopback HTTP surface of the authenticated read operations, its counters and its
  audit events. A handled request is one step of the server; what other threads do to the authorization
  service meanwhile is in the environment of the call. \<^verbatim>\<open>http.server\<close> has parsed the request: the model gets its
  target, its headers and what can be read of its body. \<^verbatim>\<open>int\<close> of a header text is an argument.
\<close>

section \<open>LocalReadMetrics\<close>

definition METRIC_NAMES :: "string list" where
  "METRIC_NAMES = [''http_requests_total'', ''http_requests_emitted_total'', ''http_requests_rejected_total'', ''audit_write_failures_total'']"

type_synonym metrics = "string \<Rightarrow> int"

definition metrics_init :: metrics where
  "metrics_init = (\<lambda>_. 0)"

definition counted :: "string \<Rightarrow> metrics \<Rightarrow> metrics" where
  "counted name m = m(name := m name + 1)"

definition increment :: "string \<Rightarrow> metrics \<Rightarrow> metrics result" where
  "increment name m = (if name \<notin> set METRIC_NAMES then raise ValueError ''metric_name_invalid'' else Inr (counted name m))"

definition snapshot :: "metrics \<Rightarrow> dict" where
  "snapshot m =
     [(''status'', JStr ''OK''), (''transport'', JStr ''LOOPBACK_ONLY''),
      (''metrics'', JObj (map (\<lambda>n. (n, JInt (m n))) METRIC_NAMES))]"

section \<open>The server\<close>

text \<open>
  The audit sink is a function that writes an event to the file or fails; \<^const>\<open>None\<close> when none is configured.
\<close>

type_synonym audit_sink = "audit_file \<Rightarrow> read_audit_event \<Rightarrow> audit_file result"

record ('r, 'l, 'g, 'e) http_server =
  hs_runtime :: read_runtime
  hs_authority :: "('r, 'l, 'g, 'e) authority option"
  hs_max_request_bytes :: int
  hs_audit_sink :: "audit_sink option"
  hs_audit_file :: audit_file
  hs_metrics :: metrics

definition http_server_init ::
  "string \<Rightarrow> read_runtime \<Rightarrow> ('r, 'l, 'g, 'e) authority option \<Rightarrow> int \<Rightarrow> audit_sink option \<Rightarrow> audit_file \<Rightarrow> metrics option
     \<Rightarrow> ('r, 'l, 'g, 'e) http_server result" where
  "http_server_init host rt authority max_request_bytes sink file metrics =
     map_result (\<lambda>_. \<lparr>hs_runtime = rt, hs_authority = authority, hs_max_request_bytes = max_request_bytes, hs_audit_sink = sink,
         hs_audit_file = file, hs_metrics = (case metrics of None \<Rightarrow> metrics_init | Some m \<Rightarrow> m)\<rparr>)
       (run_checks
         [fails_if (host \<noteq> ''127.0.0.1'') LocalReadHTTPError ''loopback_only_bind_required'',
          fails_if (authority = None) LocalReadHTTPError ''server_authorization_service_required'',
          fails_if (\<not> (1 \<le> max_request_bytes \<and> max_request_bytes \<le> 8 * 1024 * 1024)) LocalReadHTTPError ''request_limit_invalid''])"

record http_request =
  hr_path :: string
  hr_content_type :: "string option"
  hr_content_length :: "string option"
  hr_authentication_ref :: "string option"
  hr_input :: string

record http_response =
  ho_status :: int
  ho_headers :: "(string \<times> string) list"
  ho_body :: string

definition json_bytes :: "json \<Rightarrow> string" where
  "json_bytes v = canonical_json v @ [CHR 0x0A]"

definition http_send :: "int \<Rightarrow> json \<Rightarrow> http_response" where
  "http_send status body =
     (let encoded = json_bytes body in
      \<lparr>ho_status = status,
       ho_headers = [(''Content-Type'', ''application/json; charset=utf-8''), (''Content-Length'', show_nat (length encoded)),
         (''Cache-Control'', ''no-store''), (''Connection'', ''close'')],
       ho_body = encoded\<rparr>)"

definition rejection_body :: json where
  "rejection_body = JObj [(''error'', JObj [(''code'', JStr ''REQUEST_REJECTED'')])]"

definition count :: "string \<Rightarrow> ('r, 'l, 'g, 'e) http_server \<Rightarrow> ('r, 'l, 'g, 'e) http_server" where
  "count name s = s\<lparr>hs_metrics := counted name (hs_metrics s)\<rparr>"

text \<open>An event written to the sink, if there is one: whether that succeeded, and the server after it.\<close>

definition audit_write :: "read_audit_event \<Rightarrow> ('r, 'l, 'g, 'e) http_server \<Rightarrow> bool \<times> ('r, 'l, 'g, 'e) http_server" where
  "audit_write e s =
     (case hs_audit_sink s of
        None \<Rightarrow> (True, s)
      | Some sink \<Rightarrow>
          (case sink (hs_audit_file s) e of
             Inl _ \<Rightarrow> (False, count ''audit_write_failures_total'' s)
           | Inr file \<Rightarrow> (True, s\<lparr>hs_audit_file := file\<rparr>)))"

definition audit_rejection :: "string \<Rightarrow> string option \<Rightarrow> int \<Rightarrow> ('r, 'l, 'g, 'e) http_server \<Rightarrow> bool \<times> ('r, 'l, 'g, 'e) http_server" where
  "audit_rejection now operation status = audit_write (rejected_event now operation status ''REQUEST_REJECTED'' ''HTTP_LOOPBACK'' None)"

definition reject ::
  "string \<Rightarrow> int \<Rightarrow> string option \<Rightarrow> ('r, 'l, 'g, 'e) http_server \<Rightarrow> http_response \<times> ('r, 'l, 'g, 'e) http_server" where
  "reject now status operation s =
     (case audit_rejection now operation status (count ''http_requests_rejected_total'' s) of
        (audited, s') \<Rightarrow> (http_send (if audited then status else 503) rejection_body, s'))"

section \<open>Handlers\<close>

text \<open>
  A handler gives no response when \<^verbatim>\<open>urlsplit\<close> raises on the target: nothing around it catches the \<^verbatim>\<open>ValueError\<close>.
\<close>

definition do_GET ::
  "url_tables \<Rightarrow> string \<Rightarrow> http_request \<Rightarrow> ('r, 'l, 'g, 'e) http_server \<Rightarrow> http_response option \<times> ('r, 'l, 'g, 'e) http_server" where
  "do_GET T now q s0 =
     (let s = count ''http_requests_total'' s0 in
      case urlsplit T (hr_path q) of
        None \<Rightarrow> (None, s)
      | Some parsed \<Rightarrow>
          if us_path parsed = ''/healthz'' \<and> us_query parsed = []
          then (Some (http_send 200 (JObj [(''status'', JStr ''OK''), (''transport'', JStr ''LOOPBACK_ONLY'')])), s)
          else if us_path parsed = ''/metrics'' \<and> us_query parsed = []
          then (Some (http_send 200 (JObj (snapshot (hs_metrics s)))), s)
          else map_prod Some id (reject now 404 None s))"

definition content_length :: "(string \<Rightarrow> int option) \<Rightarrow> http_request \<Rightarrow> int" where
  "content_length int_of q =
     (case hr_content_length q of None \<Rightarrow> -1 | Some t \<Rightarrow> (case int_of t of None \<Rightarrow> -1 | Some n \<Rightarrow> n))"

definition read_operation_name :: "split_result \<Rightarrow> string option" where
  "read_operation_name parsed =
     (if us_query parsed \<noteq> [] \<or> \<not> startswith (us_path parsed) ''/v1/read/'' then None else Some (drop 9 (us_path parsed)))"

text \<open>\<^verbatim>\<open>fence.get(k)\<close> of the emission fence of a response, a text in every response of a read operation.\<close>

definition fence_text :: "dict \<Rightarrow> string \<Rightarrow> string" where
  "fence_text response k = as_text (get (members_of (get response ''emission_fence'')) k)"

definition emit_response ::
  "string \<Rightarrow> string \<Rightarrow> dict \<Rightarrow> ('r, 'l, 'g, 'e) http_server \<Rightarrow> http_response \<times> ('r, 'l, 'g, 'e) http_server" where
  "emit_response now operation response s =
     (case audit_write (emitted_event now operation (fence_text response ''projection_fingerprint'')
              (fence_text response ''typed_result_fingerprint'') 200 ''HTTP_LOOPBACK'' None) s of
        (True, s') \<Rightarrow> (http_send 200 (JObj response), count ''http_requests_emitted_total'' s')
      | (False, s') \<Rightarrow> (http_send 503 rejection_body, count ''http_requests_rejected_total'' s'))"

text \<open>From the body on: \<^verbatim>\<open>UnicodeDecodeError\<close>, a text that is no JSON object, and then the operation.\<close>

definition read_call ::
  "string \<Rightarrow> ('r, 'l, 'g, 'e) call_env \<Rightarrow> string \<Rightarrow> string \<Rightarrow> string option \<Rightarrow> ('r, 'l, 'g, 'e) http_server
     \<Rightarrow> http_response \<times> ('r, 'l, 'g, 'e) http_server" where
  "read_call now env operation body authentication_ref s =
     (case (if valid_utf8 body then loads body else None) of
        Some (JObj raw) \<Rightarrow>
          if authentication_ref \<in> {None, Some []} then reject now 401 (Some operation) s
          else (case operation_api_authenticated (hs_runtime s) (hs_authority s) env operation (JObj raw) authentication_ref of
                  (Inl e, authority) \<Rightarrow> reject now (if caught_tv e then 400 else 500) (Some operation) (s\<lparr>hs_authority := authority\<rparr>)
                | (Inr response, authority) \<Rightarrow> emit_response now operation response (s\<lparr>hs_authority := authority\<rparr>))
      | _ \<Rightarrow> reject now 400 (Some operation) s)"

definition do_POST ::
  "url_tables \<Rightarrow> (string \<Rightarrow> int option) \<Rightarrow> string \<Rightarrow> ('r, 'l, 'g, 'e) call_env \<Rightarrow> http_request \<Rightarrow> ('r, 'l, 'g, 'e) http_server
     \<Rightarrow> http_response option \<times> ('r, 'l, 'g, 'e) http_server" where
  "do_POST T int_of now env q s0 =
     (let s = count ''http_requests_total'' s0 in
      case urlsplit T (hr_path q) of
        None \<Rightarrow> (None, s)
      | Some parsed \<Rightarrow> map_prod Some id
          (case read_operation_name parsed of
             None \<Rightarrow> reject now 404 None s
           | Some operation \<Rightarrow>
               if operation \<notin> set READ_OPERATIONS \<or> CHR ''/'' \<in> set operation then reject now 404 (Some operation) s
               else if media_type (rt_unicode (hs_runtime s)) (hr_content_type q) \<noteq> ''application/json'' then reject now 415 (Some operation) s
               else
                 let n = content_length int_of q in
                 if n < 0 \<or> hs_max_request_bytes s < n
                 then reject now (if hs_max_request_bytes s < n then 413 else 411) (Some operation) s
                 else read_call now env operation (take (nat n) (hr_input q)) (hr_authentication_ref q) s))"

section \<open>Accounting\<close>

text \<open>A writer that, when it reports success, has appended the event as \<^const>\<open>audit_append\<close> does; it may fail at any time.\<close>

definition appends :: "audit_sink \<Rightarrow> bool" where
  "appends sink = (\<forall>file e file'. sink file e = Inr file' \<longrightarrow> audit_append file e = Inr file')"

text \<open>What requests did to the books: requests, emissions and rejections counted, and an event for each answer but the failed ones.\<close>

definition booked :: "('r, 'l, 'g, 'e) http_server \<Rightarrow> int \<Rightarrow> int \<Rightarrow> int \<Rightarrow> ('r, 'l, 'g, 'e) http_server \<Rightarrow> bool" where
  "booked s requests emitted rejected s' =
     (hs_audit_sink s' = hs_audit_sink s
      \<and> hs_metrics s' ''http_requests_total'' = hs_metrics s ''http_requests_total'' + requests
      \<and> hs_metrics s' ''http_requests_emitted_total'' = hs_metrics s ''http_requests_emitted_total'' + emitted
      \<and> hs_metrics s' ''http_requests_rejected_total'' = hs_metrics s ''http_requests_rejected_total'' + rejected
      \<and> (\<forall>sink. hs_audit_sink s = Some sink \<longrightarrow> appends sink \<longrightarrow>
           (\<exists>es. append_all (hs_audit_file s) es = Inr (hs_audit_file s')
              \<and> int (length es) + hs_metrics s' ''audit_write_failures_total'' =
                hs_metrics s ''audit_write_failures_total'' + emitted + rejected)))"

lemma counted_same [simp]: "counted n m n = m n + 1"
  by (simp add: counted_def)

lemma counted_other: "n \<noteq> n' \<Longrightarrow> counted n m n' = m n'"
  by (simp add: counted_def)

lemma counted_names [simp]:
  "counted ''http_requests_total'' m ''http_requests_emitted_total'' = m ''http_requests_emitted_total''"
  "counted ''http_requests_total'' m ''http_requests_rejected_total'' = m ''http_requests_rejected_total''"
  "counted ''http_requests_total'' m ''audit_write_failures_total'' = m ''audit_write_failures_total''"
  "counted ''http_requests_emitted_total'' m ''http_requests_total'' = m ''http_requests_total''"
  "counted ''http_requests_emitted_total'' m ''http_requests_rejected_total'' = m ''http_requests_rejected_total''"
  "counted ''http_requests_emitted_total'' m ''audit_write_failures_total'' = m ''audit_write_failures_total''"
  "counted ''http_requests_rejected_total'' m ''http_requests_total'' = m ''http_requests_total''"
  "counted ''http_requests_rejected_total'' m ''http_requests_emitted_total'' = m ''http_requests_emitted_total''"
  "counted ''http_requests_rejected_total'' m ''audit_write_failures_total'' = m ''audit_write_failures_total''"
  "counted ''audit_write_failures_total'' m ''http_requests_total'' = m ''http_requests_total''"
  "counted ''audit_write_failures_total'' m ''http_requests_emitted_total'' = m ''http_requests_emitted_total''"
  "counted ''audit_write_failures_total'' m ''http_requests_rejected_total'' = m ''http_requests_rejected_total''"
  by (simp_all add: counted_def)

lemma count_fields [simp]:
  "hs_metrics (count n s) = counted n (hs_metrics s)" "hs_audit_sink (count n s) = hs_audit_sink s"
  "hs_audit_file (count n s) = hs_audit_file s" "hs_authority (count n s) = hs_authority s" "hs_runtime (count n s) = hs_runtime s"
  "hs_max_request_bytes (count n s) = hs_max_request_bytes s"
  by (simp_all add: count_def)

lemma append_all_append: "append_all f es = Inr f1 \<Longrightarrow> append_all f (es @ fs) = append_all f1 fs"
  by (induction es arbitrary: f) (auto simp: bind_result_Inr_iff)

lemma booked_trans:
  assumes "booked s t e r s1" "booked s1 t' e' r' s2"
  shows "booked s (t + t') (e + e') (r + r') s2"
proof -
  have "\<exists>es. append_all (hs_audit_file s) es = Inr (hs_audit_file s2)
      \<and> int (length es) + hs_metrics s2 ''audit_write_failures_total'' = hs_metrics s ''audit_write_failures_total'' + (e + e') + (r + r')"
    if k: "hs_audit_sink s = Some sink" "appends sink" for sink
  proof -
    from assms(1) k obtain es where es: "append_all (hs_audit_file s) es = Inr (hs_audit_file s1)"
      "int (length es) + hs_metrics s1 ''audit_write_failures_total'' = hs_metrics s ''audit_write_failures_total'' + e + r"
      unfolding booked_def by metis
    from assms k obtain fs where fs: "append_all (hs_audit_file s1) fs = Inr (hs_audit_file s2)"
      "int (length fs) + hs_metrics s2 ''audit_write_failures_total'' = hs_metrics s1 ''audit_write_failures_total'' + e' + r'"
      unfolding booked_def by metis
    show ?thesis by (rule exI [of _ "es @ fs"]) (use es fs in \<open>simp add: append_all_append\<close>)
  qed
  with assms show ?thesis by (simp add: booked_def)
qed

text \<open>The two ends of a write.\<close>

lemma audit_write_ends:
  assumes "audit_write e s = (ok, s')"
  obtains (none) "ok" "hs_audit_sink s = None" "s' = s"
  | (written) sink f where "ok" "hs_audit_sink s = Some sink" "sink (hs_audit_file s) e = Inr f" "s' = s\<lparr>hs_audit_file := f\<rparr>"
  | (failed) sink x where "\<not> ok" "hs_audit_sink s = Some sink" "sink (hs_audit_file s) e = Inl x" "s' = count ''audit_write_failures_total'' s"
  using assms that by (auto simp: audit_write_def split: option.splits sum.splits)

lemma one_event:
  assumes "sink f0 e = Inr f" "appends sink"
  shows "\<exists>es. append_all f0 es = Inr f \<and> length es = 1"
  using assms by (intro exI [of _ "[e]"]) (simp add: appends_def)

lemma booked_emit:
  assumes "emit_response now operation response s = (o', s')"
  shows "booked s 0 (of_bool (ho_status o' = 200)) (of_bool (ho_status o' \<noteq> 200)) s'"
proof -
  let ?e = "emitted_event now operation (fence_text response ''projection_fingerprint'')
    (fence_text response ''typed_result_fingerprint'') 200 ''HTTP_LOOPBACK'' None"
  obtain ok s1 where w: "audit_write ?e s = (ok, s1)" by fastforce
  have "booked s 0 (of_bool ok) (of_bool (\<not> ok)) (count (if ok then ''http_requests_emitted_total'' else ''http_requests_rejected_total'') s1)"
    using w
  proof (cases rule: audit_write_ends)
    case (written sink f)
    then show ?thesis using one_event [of sink "hs_audit_file s" ?e f] by (auto simp: booked_def)
  qed (simp_all add: booked_def)
  moreover have "s' = count (if ok then ''http_requests_emitted_total'' else ''http_requests_rejected_total'') s1"
    "ho_status o' = (if ok then 200 else 503)"
    using assms w by (auto simp: emit_response_def http_send_def Let_def split: bool.splits)
  ultimately show ?thesis by (cases ok) simp_all
qed

lemma booked_reject:
  assumes "reject now status operation s = (o', s')" "status \<noteq> 200"
  shows "booked s 0 0 1 s'" "ho_status o' \<noteq> 200" "ho_body o' = json_bytes rejection_body"
proof -
  let ?e = "rejected_event now operation status ''REQUEST_REJECTED'' ''HTTP_LOOPBACK'' None"
  obtain ok where w: "audit_write ?e (count ''http_requests_rejected_total'' s) = (ok, s')"
    and o: "o' = http_send (if ok then status else 503) rejection_body"
    using assms(1) by (auto simp: reject_def audit_rejection_def split: prod.splits)
  from w show "booked s 0 0 1 s'"
  proof (cases rule: audit_write_ends)
    case (written sink f)
    then show ?thesis using one_event [of sink "hs_audit_file s" ?e f] by (auto simp: booked_def)
  qed (simp_all add: booked_def)
  from o assms(2) show "ho_status o' \<noteq> 200" "ho_body o' = json_bytes rejection_body" by (simp_all add: http_send_def Let_def)
qed

lemma booked_request: "booked s 1 0 0 (count ''http_requests_total'' s)"
  by (auto simp: booked_def intro: exI [of _ "[]"])

lemma booked_authority: "booked s t e r s' \<Longrightarrow> booked (s\<lparr>hs_authority := a\<rparr>) t e r s'"
  by (simp add: booked_def)

text \<open>The ends of a call: a rejection, or the emission of what the operation returned.\<close>

lemma read_call_ends:
  assumes "read_call now env operation body auth s = (o', s')"
  obtains (rejected) st a where "reject now st (Some operation) (s\<lparr>hs_authority := a\<rparr>) = (o', s')" "st \<noteq> 200"
  | (emitted) raw ref response a where "auth = Some ref" "ref \<noteq> []" "loads body = Some (JObj raw)"
    "operation_api_authenticated (hs_runtime s) (hs_authority s) env operation (JObj raw) (Some ref) = (Inr response, a)"
    "emit_response now operation response (s\<lparr>hs_authority := a\<rparr>) = (o', s')"
proof -
  have id: "s\<lparr>hs_authority := hs_authority s\<rparr> = s" by (cases s) simp
  have R: "reject now st (Some operation) s = (o', s') \<Longrightarrow> st \<noteq> 200 \<Longrightarrow> thesis" for st
    using rejected [of st "hs_authority s"] by (simp add: id)
  consider (bad) "\<nexists>raw. valid_utf8 body \<and> loads body = Some (JObj raw)" | (ok) raw where "valid_utf8 body" "loads body = Some (JObj raw)"
    by blast
  then show thesis
  proof cases
    case bad
    with assms have "reject now 400 (Some operation) s = (o', s')"
      by (auto simp: read_call_def split: option.splits json.splits if_splits)
    then show thesis by (rule R) simp
  next
    case ok
    show thesis
    proof (cases "auth \<in> {None, Some []}")
      case True
      with assms ok have "reject now 401 (Some operation) s = (o', s')" by (simp add: read_call_def)
      then show thesis by (rule R) simp
    next
      case False
      obtain r a where r: "operation_api_authenticated (hs_runtime s) (hs_authority s) env operation (JObj raw) auth = (r, a)" by fastforce
      show thesis
      proof (cases r)
        case (Inl e)
        with assms ok False r show thesis
          by (intro rejected [of "if caught_tv e then 400 else 500" a]) (auto simp: read_call_def)
      next
        case (Inr response)
        with assms ok False r show thesis by (cases auth) (auto simp: read_call_def intro!: emitted)
      qed
    qed
  qed
qed

lemma booked_read_call:
  assumes "read_call now env operation body auth s = (o', s')"
  shows "booked s 0 (of_bool (ho_status o' = 200)) (of_bool (ho_status o' \<noteq> 200)) s'"
  using assms
proof (cases rule: read_call_ends)
  case (rejected st a)
  from booked_reject [OF this] show ?thesis by (simp add: booked_def)
next
  case (emitted raw ref response a)
  from booked_emit [OF this(5)] show ?thesis by (simp add: booked_def)
qed

lemma do_POST_ends:
  assumes "do_POST T int_of now env q s = (o', s')"
  obtains (unsplit) "urlsplit T (hr_path q) = None" "o' = None" "s' = count ''http_requests_total'' s"
  | (rejected) st oper ans where "o' = Some ans" "reject now st oper (count ''http_requests_total'' s) = (ans, s')" "st \<noteq> 200"
  | (called) operation n ans where "o' = Some ans" "operation \<in> set READ_OPERATIONS"
    "read_call now env operation (take n (hr_input q)) (hr_authentication_ref q) (count ''http_requests_total'' s) = (ans, s')"
  using assms
  by (cases "urlsplit T (hr_path q)"; cases "read_operation_name (the (urlsplit T (hr_path q)))")
    (auto simp: do_POST_def Let_def map_prod_def split: prod.splits if_splits)

datatype ('r, 'l, 'g, 'e) http_call =
  Get string http_request
| Post string "('r, 'l, 'g, 'e) call_env" http_request

fun handle_call where
  "handle_call T int_of (Get now q) s = do_GET T now q s"
| "handle_call T int_of (Post now env q) s = do_POST T int_of now env q s"

fun serve where
  "serve T int_of [] s = ([], s)"
| "serve T int_of (c # cs) s =
     (case handle_call T int_of c s of (ans, s1) \<Rightarrow> (case serve T int_of cs s1 of (rest, s2) \<Rightarrow> ((c, ans) # rest, s2)))"

definition was_emitted :: "('r, 'l, 'g, 'e) http_call \<times> http_response option \<Rightarrow> bool" where
  "was_emitted x = (case x of (Post _ _ _, Some ans) \<Rightarrow> ho_status ans = 200 | _ \<Rightarrow> False)"

definition was_rejected :: "('r, 'l, 'g, 'e) http_call \<times> http_response option \<Rightarrow> bool" where
  "was_rejected x = (case snd x of Some ans \<Rightarrow> ho_status ans \<noteq> 200 | None \<Rightarrow> False)"

lemma booked_call:
  assumes "handle_call T int_of c s = (ans, s')"
  shows "booked s 1 (of_bool (was_emitted (c, ans))) (of_bool (was_rejected (c, ans))) s'"
proof (cases c)
  case (Get now q)
  with assms have g: "do_GET T now q s = (ans, s')" by simp
  show ?thesis
  proof (cases "\<exists>r. ans = Some r \<and> reject now 404 None (count ''http_requests_total'' s) = (r, s')")
    case True
    then obtain r where r: "ans = Some r" "reject now 404 None (count ''http_requests_total'' s) = (r, s')" by blast
    from booked_trans [OF booked_request booked_reject(1) [OF r(2)]] booked_reject(2) [OF r(2)] r(1) Get show ?thesis
      by (simp add: was_emitted_def was_rejected_def)
  next
    case False
    with g have "s' = count ''http_requests_total'' s" "ans = None \<or> (\<exists>b. ans = Some (http_send 200 b))"
      by (auto simp: do_GET_def Let_def map_prod_def split: option.splits if_splits prod.splits)
    with booked_request [of s] Get show ?thesis by (auto simp: was_emitted_def was_rejected_def http_send_def Let_def)
  qed
next
  case (Post now env q)
  with assms have "do_POST T int_of now env q s = (ans, s')" by simp
  then show ?thesis
  proof (cases rule: do_POST_ends)
    case unsplit
    with booked_request [of s] show ?thesis by (simp add: was_emitted_def was_rejected_def Post)
  next
    case (rejected st oper r)
    from booked_trans [OF booked_request booked_reject(1) [OF rejected(2,3)]] booked_reject(2) [OF rejected(2,3)] rejected(1) show ?thesis
      by (simp add: was_emitted_def was_rejected_def Post)
  next
    case (called operation n r)
    from booked_trans [OF booked_request booked_read_call [OF called(3)]] called(1) show ?thesis
      by (simp add: was_emitted_def was_rejected_def Post)
  qed
qed

lemma booked_serve:
  assumes "serve T int_of cs s = (rs, s')"
  shows "booked s (int (length cs)) (int (length (filter was_emitted rs))) (int (length (filter was_rejected rs))) s'"
  using assms
proof (induction cs arbitrary: s rs)
  case Nil
  then show ?case by (auto simp: booked_def intro: exI [of _ "[]"])
next
  case (Cons c cs)
  from Cons.prems obtain ans s1 rest where c: "handle_call T int_of c s = (ans, s1)" "serve T int_of cs s1 = (rest, s')" "rs = (c, ans) # rest"
    by (auto split: prod.splits)
  from booked_trans [OF booked_call [OF c(1)] Cons.IH [OF c(2)]] show ?case
    by (cases "was_emitted (c, ans)"; cases "was_rejected (c, ans)") (simp_all add: c(3))
qed

text \<open>
  C20. The books of the HTTP boundary balance over any sequence of requests: from zero counters the requests are
  counted one by one, an emission for each read answered with 200 and a rejection for each answer with
  another status, and the audit log has grown by exactly one valid event for each of these answers except the
  counted failures of the sink, which may fail at any write.
\<close>

theorem http_books_balance:
  assumes "serve T int_of cs s = (rs, s')" "hs_metrics s = metrics_init" "hs_audit_sink s = Some sink" "appends sink"
  shows "hs_metrics s' ''http_requests_total'' = int (length cs)
    \<and> hs_metrics s' ''http_requests_emitted_total'' = int (length (filter was_emitted rs))
    \<and> hs_metrics s' ''http_requests_rejected_total'' = int (length (filter was_rejected rs))
    \<and> (\<exists>es. append_all (hs_audit_file s) es = Inr (hs_audit_file s')
         \<and> int (length es) + hs_metrics s' ''audit_write_failures_total'' =
           hs_metrics s' ''http_requests_emitted_total'' + hs_metrics s' ''http_requests_rejected_total'')"
  using booked_serve [OF assms(1)] assms(2-4) unfolding booked_def metrics_init_def by simp

section \<open>What leaves the boundary\<close>

lemma operation_response:
  assumes "operation_api_authenticated rt (Some (ad, sv)) env operation (JObj raw) (Some aref) = (Inr response, a)"
  obtains payload projection0 c typed where "payload = without [''operation''] raw"
    "handle_authenticated rt (Some (ad, sv)) env (JObj payload) (Some aref) = (Inr projection0, a)"
    "response = own_envelope operation (dict_put ''continuation'' (JStr c) projection0) typed
       @ [(''emission_fence'', JObj (fence_structured (own_fence operation (dict_put ''continuation'' (JStr c) projection0) typed)))]"
proof -
  from assms obtain payload where p: "strip_transport_operation operation (JObj raw) = Inr payload"
    by (auto simp: operation_api_authenticated_def execute_def split: sum.splits)
  then have w: "payload = without [''operation''] raw" by (auto simp: strip_transport_operation_def split: if_splits)
  from assms p obtain d where d: "choose_projection rt (Some (ad, sv)) env payload ''api'' None (Some aref) = (Inr d, a)"
    "finish_operation operation payload d = Inr response"
    by (auto simp: operation_api_authenticated_def execute_def split: prod.splits sum.splits)
  from d(1) have h: "handle_authenticated rt (Some (ad, sv)) env (JObj payload) (Some aref) = (Inr d, a)"
    by (simp add: choose_projection_def api_authenticated_def)
  obtain c typed where f: "finish_operation operation payload d =
       (if get payload ''cursor'' \<noteq> JNull \<and> get payload ''cursor'' \<noteq> JStr c then read_error ''read_cursor_binding_mismatch''
        else Inr (own_envelope operation (dict_put ''continuation'' (JStr c) d) typed
          @ [(''emission_fence'', JObj (fence_structured (own_fence operation (dict_put ''continuation'' (JStr c) d) typed)))]))"
    by (rule finish_operation_shape [OF choose_projection_shape [OF d(1)] strip_operation_known [OF p]])
  then have "response = own_envelope operation (dict_put ''continuation'' (JStr c) d) typed
       @ [(''emission_fence'', JObj (fence_structured (own_fence operation (dict_put ''continuation'' (JStr c) d) typed)))]"
    using d(2) by (auto simp: raise_def split: if_splits)
  with w h show thesis by (rule that)
qed

lemma own_envelope_fields:
  fixes f :: emission_fence
  assumes "response = own_envelope operation p typed @ [(''emission_fence'', JObj (fence_structured f))]"
  shows "get response ''projection'' = JObj p"
    "fence_text response ''projection_fingerprint'' = ef_projection_fingerprint f"
    "fence_text response ''typed_result_fingerprint'' = ef_typed_result_fingerprint f"
  unfolding assms own_envelope_def fence_text_def
  by (simp_all add: members_of_def fence_structured_def as_text_def)

lemma emitted_answer:
  assumes "emit_response now operation response s = (r, s')" "operation \<in> set READ_OPERATIONS" "get response ''projection'' = JObj p"
    and "fence_text response ''projection_fingerprint'' = disclosure_fingerprint p"
  obtains (refused) "ho_status r \<noteq> 200" "ho_body r = json_bytes rejection_body"
  | (answered) "ho_status r = 200" "ho_body r = json_bytes (JObj response)" "hs_authority s' = hs_authority s"
    "case hs_audit_sink s of
       None \<Rightarrow> True
     | Some sink \<Rightarrow> (\<exists>e. sink (hs_audit_file s) e = Inr (hs_audit_file s') \<and> ae_outcome e = ''EMITTED'' \<and> ae_operation e = operation
         \<and> ae_projection_fingerprint e = Some (disclosure_fingerprint p))"
proof -
  let ?e = "emitted_event now operation (disclosure_fingerprint p) (fence_text response ''typed_result_fingerprint'') 200 ''HTTP_LOOPBACK'' None"
  obtain ok s1 where w: "audit_write ?e s = (ok, s1)" by fastforce
  have em: "(r, s') = (if ok then (http_send 200 (JObj response), count ''http_requests_emitted_total'' s1)
      else (http_send 503 rejection_body, count ''http_requests_rejected_total'' s1))"
    using assms(1) w by (auto simp: emit_response_def assms(4) split: bool.splits)
  show thesis
  proof (cases ok)
    case False
    with em show thesis by (intro refused) (simp_all add: http_send_def Let_def)
  next
    case True
    have b: "ho_status r = 200" "ho_body r = json_bytes (JObj response)" "hs_authority s' = hs_authority s"
      and au: "case hs_audit_sink s of None \<Rightarrow> True | Some sink \<Rightarrow> sink (hs_audit_file s) ?e = Inr (hs_audit_file s')"
      using w em True by (auto elim!: audit_write_ends simp: http_send_def Let_def)
    have "ae_outcome ?e = ''EMITTED''" "ae_operation ?e = operation" "ae_projection_fingerprint ?e = Some (disclosure_fingerprint p)"
      using assms(2) by (simp_all add: emitted_event_def create_event_def Let_def audit_operation_def)
    with au have "case hs_audit_sink s of
       None \<Rightarrow> True
     | Some sink \<Rightarrow> (\<exists>e. sink (hs_audit_file s) e = Inr (hs_audit_file s') \<and> ae_outcome e = ''EMITTED'' \<and> ae_operation e = operation
         \<and> ae_projection_fingerprint e = Some (disclosure_fingerprint p))"
      by (cases "hs_audit_sink s") auto
    with b show thesis by (rule answered)
  qed
qed

text \<open>
  C3. An answer of the HTTP boundary to a read either is one constant refusal that says nothing about the request, or
  has status 200 and is the response of the named operation to the body under the caller's
  authentication reference. In the second case the audit log, when there is a sink, got its event before the
  answer left - with the operation and the fingerprint of the very projection in the body - and evidence is in the
  projection only if the principal resolves and is entitled to the request in the state and at the time
  of the revalidation.
\<close>

theorem http_answer_sound:
  assumes "do_POST T int_of now env q s = (Some ans, s')" "hs_authority s = Some (ad, sv)"
  shows "(ho_status ans \<noteq> 200 \<and> ho_body ans = json_bytes rejection_body)
    \<or> (ho_status ans = 200 \<and> (\<exists>operation raw aref response projection payload sv'.
         operation \<in> set READ_OPERATIONS \<and> hr_authentication_ref q = Some aref \<and> payload = without [''operation''] raw
         \<and> operation_api_authenticated (hs_runtime s) (hs_authority s) env operation (JObj raw) (Some aref) = (Inr response, Some (ad, sv'))
         \<and> hs_authority s' = Some (ad, sv') \<and> ho_body ans = json_bytes (JObj response) \<and> get response ''projection'' = JObj projection
         \<and> (case hs_audit_sink s of
              None \<Rightarrow> True
            | Some sink \<Rightarrow> (\<exists>e. sink (hs_audit_file s) e = Inr (hs_audit_file s') \<and> ae_outcome e = ''EMITTED'' \<and> ae_operation e = operation
                \<and> ae_projection_fingerprint e = Some (disclosure_fingerprint projection)))
         \<and> (get projection ''evidence'' = JList []
            \<or> (\<exists>p b principal epoch. from_mapping (JObj payload) = Inr p
                 \<and> ad_resolve ad (sv_registry sv') (Some (rb_authentication_ref b)) = Inr (Some principal)
                 \<and> entitled (sv_operation sv') (pr_query_request p) principal (ce_later env) epoch
                 \<and> binding_is_valid b (ce_later env) epoch = Inr True))))"
  using assms(1)
proof (cases rule: do_POST_ends)
  case (rejected st oper r)
  from booked_reject [OF this(2,3)] this(1) show ?thesis by simp
next
  case (called operation n r)
  note r = called(1) and op = called(2)
  from called(3) show ?thesis
  proof (cases rule: read_call_ends)
    case (rejected st a)
    from booked_reject [OF this] r show ?thesis by simp
  next
    case (emitted raw aref response a)
    have call: "operation_api_authenticated (hs_runtime s) (Some (ad, sv)) env operation (JObj raw) (Some aref) = (Inr response, a)"
      using emitted(4) assms(2) by simp
    obtain payload d c typed where f: "payload = without [''operation''] raw"
      "handle_authenticated (hs_runtime s) (Some (ad, sv)) env (JObj payload) (Some aref) = (Inr d, a)"
      "response = own_envelope operation (dict_put ''continuation'' (JStr c) d) typed
         @ [(''emission_fence'', JObj (fence_structured (own_fence operation (dict_put ''continuation'' (JStr c) d) typed)))]"
      by (rule operation_response [OF call])
    let ?p = "dict_put ''continuation'' (JStr c) d"
    note env = own_envelope_fields [OF f(3)]
    obtain sv' where sv: "a = Some (ad, sv')"
      using f(2) by (auto simp: handle_authenticated_def Let_def split: sum.splits prod.splits)
    have ev: "get ?p ''evidence'' = JList [] \<or> (\<exists>p b principal epoch. from_mapping (JObj payload) = Inr p
                 \<and> ad_resolve ad (sv_registry sv') (Some (rb_authentication_ref b)) = Inr (Some principal)
                 \<and> entitled (sv_operation sv') (pr_query_request p) principal (ce_later env) epoch
                 \<and> binding_is_valid b (ce_later env) epoch = Inr True)"
    proof (cases "get ?p ''evidence'' = JList []")
      case False
      then have "get d ''evidence'' \<noteq> JList []" by (simp add: get_def)
      from evidence_entitled [OF f(2) [unfolded sv] this] show ?thesis by blast
    qed simp
    have ar: "ans = r" using r by simp
    have fp: "fence_text response ''projection_fingerprint'' = disclosure_fingerprint ?p" using env(2) by (simp add: own_fence_def)
    from emitted(5) op env(1) fp show ?thesis
    proof (cases rule: emitted_answer)
      case refused
      then show ?thesis unfolding ar by (intro disjI1 conjI)
    next
      case answered
      have s': "hs_authority s' = Some (ad, sv')" using answered(3) sv by simp
      have au: "case hs_audit_sink s of
            None \<Rightarrow> True
          | Some sink \<Rightarrow> (\<exists>e. sink (hs_audit_file s) e = Inr (hs_audit_file s') \<and> ae_outcome e = ''EMITTED'' \<and> ae_operation e = operation
              \<and> ae_projection_fingerprint e = Some (disclosure_fingerprint ?p))"
        using answered(4) by (cases "hs_audit_sink s") simp_all
      show ?thesis
        unfolding ar assms(2)
        by (rule disjI2, rule conjI, rule answered(1), rule exI [of _ operation], rule exI [of _ raw], rule exI [of _ aref],
            rule exI [of _ response], rule exI [of _ ?p], rule exI [of _ payload], rule exI [of _ sv'], intro conjI)
          (rule op emitted(1) f(1) call [unfolded sv] s' answered(2) env(1) au ev)+
    qed
  qed
next
  case unsplit
  then show ?thesis by simp
qed

section \<open>A server\<close>

definition sample_server :: "(principal_table, rate_limiter, replay_table, epoch_row) http_server" where
  "sample_server = \<lparr>hs_runtime = read_rt [read_source], hs_authority = Some (sqlite_adapters, sample_sqlite), hs_max_request_bytes = 1024,
     hs_audit_sink = Some audit_append, hs_audit_file = None, hs_metrics = metrics_init\<rparr>"

definition sample_body :: string where
  "sample_body = 
     ''{'' @ [CHR 0x22] @ ''operation'' @ [CHR 0x22] @ '':'' @ [CHR 0x22] @ ''search'' @ [CHR 0x22] @ '',''
     @ [CHR 0x22] @ ''request_id'' @ [CHR 0x22] @ '':'' @ [CHR 0x22] @ ''r1'' @ [CHR 0x22] @ '','' @ [CHR 0x22]
     @ ''project_constraint'' @ [CHR 0x22] @ '':'' @ [CHR 0x22] @ ''project-a'' @ [CHR 0x22] @ '','' @ [CHR 0x22]
     @ ''query'' @ [CHR 0x22] @ '':'' @ [CHR 0x22] @ ''alpha'' @ [CHR 0x22] @ '','' @ [CHR 0x22] @ ''purpose''
     @ [CHR 0x22] @ '':'' @ [CHR 0x22] @ ''retrieval'' @ [CHR 0x22] @ '','' @ [CHR 0x22] @ ''max_results''
     @ [CHR 0x22] @ '':5}''"

definition sample_read :: http_request where
  "sample_read = \<lparr>hr_path = ''/v1/read/search'', hr_content_type = Some ''application/json'', hr_content_length = Some ''127'',
     hr_authentication_ref = Some ''auth://1'', hr_input = sample_body\<rparr>"

lemma audit_append_appends: "appends audit_append"
  by (simp add: appends_def)

theorem http_books_balance_witness:
  "\<exists>rs s'. serve sample_tables (\<lambda>_. Some 127) [Get ''2026-01-01T00:00:00Z'' (sample_read\<lparr>hr_path := ''/nothing''\<rparr>)] sample_server = (rs, s')
     \<and> hs_metrics s' ''http_requests_total'' = 1 \<and> hs_metrics s' ''http_requests_rejected_total'' = int (length (filter was_rejected rs))"
proof -
  obtain rs s' where s: "serve sample_tables (\<lambda>_. Some 127) [Get ''2026-01-01T00:00:00Z'' (sample_read\<lparr>hr_path := ''/nothing''\<rparr>)] sample_server
      = (rs, s')" by fastforce
  have "hs_metrics sample_server = metrics_init" "hs_audit_sink sample_server = Some audit_append" by (simp_all add: sample_server_def)
  from http_books_balance [OF s this audit_append_appends] s show ?thesis by simp
qed

lemma sample_read_parsed:
  "urlsplit sample_tables ''/v1/read/search'' =
     Some \<lparr>us_scheme = [], us_netloc = [], us_path = ''/v1/read/search'', us_query = [], us_fragment = []\<rparr>"
  "media_type ascii_tables (Some ''application/json'') = ''application/json''"
  by code_simp+

lemma sample_body_parsed: "valid_utf8 sample_body" "loads sample_body = Some search_raw" "take 127 sample_body = sample_body"
  by code_simp+

lemma sample_read_path:
  "read_operation_name \<lparr>us_scheme = [], us_netloc = [], us_path = ''/v1/read/search'', us_query = [], us_fragment = []\<rparr> = Some ''search''"
  "\<not> (''search'' \<notin> set READ_OPERATIONS \<or> CHR ''/'' \<in> set ''search'')"
  by code_simp+

lemma sample_read_emits:
  assumes "search_call = (Inr x, a)"
  shows "do_POST sample_tables (\<lambda>_. Some 127) now read_env sample_read sample_server =
     map_prod Some id (emit_response now ''search'' x ((count ''http_requests_total'' sample_server)\<lparr>hs_authority := a\<rparr>))"
proof -
  have q: "hr_path sample_read = ''/v1/read/search''" "hr_content_type sample_read = Some ''application/json''"
    "content_length (\<lambda>_. Some 127) sample_read = 127" "hr_input sample_read = sample_body" "hr_authentication_ref sample_read = Some ''auth://1''"
    by (simp_all add: sample_read_def content_length_def)
  have s: "hs_max_request_bytes (count n sample_server) = 1024" "hs_runtime (count n sample_server) = read_rt [read_source]"
    "hs_authority (count n sample_server) = Some (sqlite_adapters, sample_sqlite)" "rt_unicode (read_rt [read_source]) = ascii_tables" for n
    by (simp_all add: sample_server_def read_rt_def)
  obtain raw where raw: "search_raw = JObj raw" by (simp add: search_raw_def)
  have "read_call now read_env ''search'' sample_body (Some ''auth://1'') (count ''http_requests_total'' sample_server) =
      emit_response now ''search'' x ((count ''http_requests_total'' sample_server)\<lparr>hs_authority := a\<rparr>)"
    using assms unfolding search_call_def read_call_def sample_body_parsed(2) raw s by (simp add: sample_body_parsed(1))
  then show ?thesis
    unfolding do_POST_def Let_def q sample_read_parsed s option.case sample_read_path(1) sample_body_parsed
    using sample_read_path(2) sample_body_parsed(3) by simp
qed

theorem http_answer_sound_witness:
  "\<exists>ans s' response. do_POST sample_tables (\<lambda>_. Some 127) ''2026-01-01T00:00:00Z'' read_env sample_read sample_server = (Some ans, s')
     \<and> ho_status ans = 200 \<and> ho_body ans = json_bytes (JObj response)
     \<and> (\<exists>e. audit_append None e = Inr (hs_audit_file s') \<and> ae_outcome e = ''EMITTED'')"
proof -
  obtain x a where c: "search_call = (Inr x, a)" using search_call_ok by blast
  obtain raw where raw: "search_raw = JObj raw" by (simp add: search_raw_def)
  obtain payload p cc typed where x: "x = own_envelope ''search'' (dict_put ''continuation'' (JStr cc) p) typed
      @ [(''emission_fence'', JObj (fence_structured (own_fence ''search'' (dict_put ''continuation'' (JStr cc) p) typed)))]"
    by (rule operation_response [OF c [unfolded search_call_def raw]])
  note env = own_envelope_fields [OF x]
  let ?now = "''2026-01-01T00:00:00Z''"
  let ?e = "emitted_event ?now ''search'' (fence_text x ''projection_fingerprint'') (fence_text x ''typed_result_fingerprint'') 200 ''HTTP_LOOPBACK'' None"
  have "''HTTP_LOOPBACK'' \<in> set TRANSPORTS" by (simp add: TRANSPORTS_def)
  then have "valid_event ?e"
    by (intro emitted_event_valid) (simp_all add: env own_fence_def disclosure_fingerprint_def)
  then obtain f where f: "audit_append None ?e = Inr f" by (simp add: audit_append_valid)
  let ?s = "(count ''http_requests_total'' sample_server)\<lparr>hs_authority := a\<rparr>"
  have w: "audit_write ?e ?s = (True, ?s\<lparr>hs_audit_file := f\<rparr>)" using f by (simp add: audit_write_def sample_server_def)
  have d: "do_POST sample_tables (\<lambda>_. Some 127) ?now read_env sample_read sample_server =
      (Some (http_send 200 (JObj x)), count ''http_requests_emitted_total'' (?s\<lparr>hs_audit_file := f\<rparr>))"
    unfolding sample_read_emits [OF c] emit_response_def w by simp
  have au: "hs_authority sample_server = Some (sqlite_adapters, sample_sqlite)" "hs_audit_sink sample_server = Some audit_append"
    "hs_audit_file sample_server = None" by (simp_all add: sample_server_def)
  have st: "ho_status (http_send 200 (JObj x)) = 200" by (simp add: http_send_def Let_def)
  from http_answer_sound [OF d au(1)] st
  obtain response e where "ho_body (http_send 200 (JObj x)) = json_bytes (JObj response)"
    "audit_append None e = Inr (hs_audit_file (count ''http_requests_emitted_total'' (?s\<lparr>hs_audit_file := f\<rparr>)))" "ae_outcome e = ''EMITTED''"
    unfolding au option.case by (elim disjE conjE exE) simp_all
  with d st show ?thesis by blast
qed
end
