(* ===== verification/Credentials.thy ===== *)
theory Credentials
  imports Decisions Models
begin

text \<open>
  \<^verbatim>\<open>pmiri/credentials.py\<close>: the boundary record of a connector credential, its authorization check, the
  opaque handle that carries the secret, and \<^verbatim>\<open>CredentialManager.bind\<close>. A secret is a byte string. A
  sink is a function on the secret, or \<^const>\<open>None\<close> for a value that is not callable. What a caller,
  a log or an artifact can see of a binding is its public dictionary and the representation of its handle.
\<close>

definition INJECTION_CHANNELS :: "string list" where
  "INJECTION_CHANNELS =
     [''PROCESS_MEMORY_HANDLE'', ''SIDECAR_SECRET_MOUNT'', ''DELEGATED_TOKEN_EXCHANGE'', ''EXPLICIT_PROXY_CREDENTIAL'']"

definition VISIBILITY_PROHIBITIONS :: "string list" where
  "VISIBILITY_PROHIBITIONS =
     [''SECRET_VALUE_TO_PROVIDER_MODEL'', ''SECRET_VALUE_TO_FETCHED_CONTENT'', ''SECRET_VALUE_TO_CALLER_CONTENT'',
      ''SECRET_VALUE_TO_LOGS'', ''SECRET_VALUE_TO_ERROR_PAYLOAD'', ''SECRET_VALUE_TO_CANONICAL_ARTIFACT'']"

section \<open>ConnectorCredentialBoundary\<close>

record credential_boundary =
  cc_boundary_id :: string
  cc_connector_subject_ref :: string
  cc_operation :: string
  cc_connector_process_ref :: string
  cc_destination_ref :: string
  cc_operation_scope :: "string list"
  cc_injection_channel :: string
  cc_visibility_prohibitions :: "string list"
  cc_valid_from :: string
  cc_valid_until :: string
  cc_credential_epoch :: int
  cc_rotation_ref :: string
  cc_revocation_ref :: string
  cc_source_ref :: string
  cc_authority_manifest_fingerprint :: string
  cc_status :: string

definition credential_violation_if :: "bool \<Rightarrow> string \<Rightarrow> unit result" where
  "credential_violation_if b m = fails_if b CredentialBoundaryViolation m"

text \<open>\<^verbatim>\<open>__post_init__\<close>: the constructor returns the record when every check passes.\<close>

definition create_boundary :: "credential_boundary \<Rightarrow> credential_boundary result" where
  "create_boundary b =
     map_result (\<lambda>_. b) (run_checks
       [credential_violation_if (cc_operation b \<notin> set OPERATIONS \<or> \<not> set (cc_operation_scope b) \<subseteq> set OPERATIONS)
          ''operation_scope_invalid'',
        credential_violation_if (cc_operation b \<notin> set (cc_operation_scope b)) ''boundary_operation_not_in_scope'',
        credential_violation_if (cc_injection_channel b \<notin> set INJECTION_CHANNELS) ''injection_channel_invalid'',
        credential_violation_if (set (cc_visibility_prohibitions b) \<noteq> set VISIBILITY_PROHIBITIONS)
          ''visibility_prohibitions_incomplete'',
        credential_violation_if (cc_credential_epoch b < 0
            \<or> cc_status b \<notin> {''ACTIVE'', ''EXPIRED'', ''REVOKED'', ''INVALID''}) ''credential_lifecycle_invalid'',
        credential_violation_if (\<not> is_sha256_str (cc_authority_manifest_fingerprint b))
          ''authority_manifest_fingerprint_invalid''])"

definition boundary_record :: "credential_boundary \<Rightarrow> dict" where
  "boundary_record b =
     [(''record_type'', JStr ''PMIRI_D2_CONNECTOR_CREDENTIAL_BOUNDARY''),
      (''schema_version'', JStr ''0.2''),
      (''boundary_id'', JStr (cc_boundary_id b)),
      (''connector_subject_ref'', JStr (cc_connector_subject_ref b)),
      (''operation'', JStr (cc_operation b)),
      (''audience'', JObj [(''connector_process_ref'', JStr (cc_connector_process_ref b)),
                          (''destination_ref'', JStr (cc_destination_ref b))]),
      (''operation_scope'', jstrs (cc_operation_scope b)),
      (''injection_channel'', JStr (cc_injection_channel b)),
      (''visibility_prohibitions'', jstrs (cc_visibility_prohibitions b)),
      (''valid_from'', JStr (cc_valid_from b)),
      (''valid_until'', JStr (cc_valid_until b)),
      (''credential_epoch'', JInt (cc_credential_epoch b)),
      (''rotation_ref'', JStr (cc_rotation_ref b)),
      (''revocation_ref'', JStr (cc_revocation_ref b)),
      (''source_ref'', JStr (cc_source_ref b)),
      (''authority_manifest_fingerprint'', JStr (cc_authority_manifest_fingerprint b)),
      (''status'', JStr (cc_status b))]"

definition boundary_fingerprint :: "credential_boundary \<Rightarrow> string" where
  "boundary_fingerprint b = sha256_json (JObj (boundary_record b))"

definition public_record :: "credential_boundary \<Rightarrow> bool \<Rightarrow> dict" where
  "public_record b include_fingerprint =
     boundary_record b
     @ (if include_fingerprint then [(''boundary_fingerprint'', JStr (boundary_fingerprint b))] else [])"

text \<open>
  \<^verbatim>\<open>authorize\<close>. The interval check is the one of \<^const>\<open>valid_interval\<close>, handler included; an
  overflow of a time stamp propagates.
\<close>

definition credential_authorize ::
  "credential_boundary \<Rightarrow> string \<Rightarrow> string \<Rightarrow> string \<Rightarrow> int \<Rightarrow> string \<Rightarrow> (bool \<times> string) result" where
  "credential_authorize b operation process_ref destination_ref current_epoch now =
     (if cc_status b \<noteq> ''ACTIVE'' then Inr (False, ''CREDENTIAL_SCOPE_INVALID'')
      else if operation \<noteq> cc_operation b \<or> operation \<notin> set (cc_operation_scope b)
        then Inr (False, ''CREDENTIAL_SCOPE_INVALID'')
      else if process_ref \<noteq> cc_connector_process_ref b \<or> destination_ref \<noteq> cc_destination_ref b
        then Inr (False, ''CREDENTIAL_SCOPE_INVALID'')
      else if current_epoch \<noteq> cc_credential_epoch b then Inr (False, ''POLICY_EPOCH_CHANGED'')
      else map_result (\<lambda>ok. if ok then (True, ''NONE'') else (False, ''CREDENTIAL_SCOPE_INVALID''))
             (valid_interval (cc_valid_from b) (cc_valid_until b) now))"

section \<open>OpaqueCredential\<close>

record opaque_credential =
  oc_secret :: string
  oc_boundary_fingerprint :: string

definition opaque_init :: "string \<Rightarrow> string \<Rightarrow> opaque_credential result" where
  "opaque_init secret fp =
     (if secret = [] then raise CredentialBoundaryViolation ''secret_missing''
      else Inr \<lparr>oc_secret = secret, oc_boundary_fingerprint = fp\<rparr>)"

definition opaque_repr :: "opaque_credential \<Rightarrow> string" where
  "opaque_repr h = ''OpaqueCredential(<redacted>)''"

definition inject :: "opaque_credential \<Rightarrow> (string \<Rightarrow> 'a result) option \<Rightarrow> 'a result" where
  "inject h sink =
     (case sink of
        None \<Rightarrow> raise CredentialBoundaryViolation ''credential_sink_invalid''
      | Some f \<Rightarrow> f (oc_secret h))"

section \<open>CredentialManager\<close>

record credential_binding_result =
  cr_action_result :: string
  cr_reason_class :: string
  cr_handle :: "opaque_credential option"
  cr_boundary_fingerprint :: string

definition public_dict :: "credential_binding_result \<Rightarrow> dict" where
  "public_dict r =
     [(''action_result'', JStr (cr_action_result r)),
      (''reason_class'', JStr (cr_reason_class r)),
      (''handle'', if cr_handle r \<noteq> None then JStr ''OPAQUE_HANDLE'' else JNull),
      (''boundary_fingerprint'', JStr (cr_boundary_fingerprint r))]"

definition credential_bind ::
  "credential_boundary \<Rightarrow> string \<Rightarrow> string \<Rightarrow> string \<Rightarrow> string \<Rightarrow> int \<Rightarrow> string \<Rightarrow> credential_binding_result result" where
  "credential_bind b secret operation process_ref destination_ref current_epoch now =
     bind_result (credential_authorize b operation process_ref destination_ref current_epoch now) (\<lambda>(allowed, reason).
       if \<not> allowed
       then Inr \<lparr>cr_action_result = ''DENY'', cr_reason_class = reason, cr_handle = None,
                 cr_boundary_fingerprint = boundary_fingerprint b\<rparr>
       else map_result (\<lambda>h. \<lparr>cr_action_result = ''ALLOW'', cr_reason_class = ''NONE'', cr_handle = Some h,
                 cr_boundary_fingerprint = boundary_fingerprint b\<rparr>)
              (opaque_init secret (boundary_fingerprint b)))"

section \<open>What a binding allows and shows\<close>

lemma credential_authorize_True_iff:
  "credential_authorize b oper process dest epoch now = Inr (True, reason) \<longleftrightarrow>
     reason = ''NONE'' \<and> cc_status b = ''ACTIVE'' \<and> oper = cc_operation b \<and> oper \<in> set (cc_operation_scope b)
     \<and> process = cc_connector_process_ref b \<and> dest = cc_destination_ref b \<and> epoch = cc_credential_epoch b
     \<and> valid_interval (cc_valid_from b) (cc_valid_until b) now = Inr True"
  by (cases "valid_interval (cc_valid_from b) (cc_valid_until b) now") (auto simp: credential_authorize_def)

lemma credential_bind_cases:
  assumes "credential_bind b s oper process dest epoch now = Inr r"
  obtains reason where "credential_authorize b oper process dest epoch now = Inr (False, reason)"
      "cr_action_result r = ''DENY''" "cr_handle r = None"
  | "credential_authorize b oper process dest epoch now = Inr (True, ''NONE'')" "s \<noteq> []"
      "cr_action_result r = ''ALLOW''" "cr_handle r = Some \<lparr>oc_secret = s, oc_boundary_fingerprint = boundary_fingerprint b\<rparr>"
proof -
  from assms obtain allowed reason where a: "credential_authorize b oper process dest epoch now = Inr (allowed, reason)"
    by (auto simp: credential_bind_def result_simps)
  show ?thesis
  proof (cases allowed)
    case True
    with a have "reason = ''NONE''" by (simp add: credential_authorize_True_iff)
    with assms a True that(2) show ?thesis
      by (cases "s = []") (auto simp: credential_bind_def opaque_init_def raise_def)
  next
    case False
    with assms a that(1) show ?thesis by (auto simp: credential_bind_def)
  qed
qed

text \<open>
  C38. The manager hands out a handle exactly when the secret is not empty and the boundary is active,
  bound to the operation, process and destination asked for, of the current epoch, and the time lies in
  its interval; a denial carries no handle.
\<close>

theorem credential_handle_iff:
  "(\<exists>r h. credential_bind b s oper process dest epoch now = Inr r \<and> cr_handle r = Some h) \<longleftrightarrow>
     s \<noteq> [] \<and> cc_status b = ''ACTIVE'' \<and> oper = cc_operation b \<and> oper \<in> set (cc_operation_scope b)
     \<and> process = cc_connector_process_ref b \<and> dest = cc_destination_ref b \<and> epoch = cc_credential_epoch b
     \<and> (\<exists>f n u. parse_time (cc_valid_from b) = Inr f \<and> parse_time now = Inr n \<and> parse_time (cc_valid_until b) = Inr u
          \<and> f \<le> n \<and> n \<le> u)"
  (is "?l \<longleftrightarrow> ?r")
proof
  assume ?l
  then obtain r h where r: "credential_bind b s oper process dest epoch now = Inr r" and h: "cr_handle r = Some h"
    by blast
  from r show ?r
    by (rule credential_bind_cases) (use h in \<open>auto simp: credential_authorize_True_iff valid_interval_iff\<close>)
next
  assume r: ?r
  then have "credential_authorize b oper process dest epoch now = Inr (True, ''NONE'')"
    unfolding credential_authorize_True_iff valid_interval_iff by blast
  with r show ?l by (simp add: credential_bind_def opaque_init_def)
qed

text \<open>
  The secret is confined. Binding two non-empty secrets gives the same exception or the same public
  dictionary, fingerprint and handle representation; a handle gives its own secret to a sink and to
  nothing else.
\<close>

theorem secret_confined:
  assumes "s \<noteq> []" "s' \<noteq> []"
  shows "map_result (\<lambda>r. (public_dict r, map_option opaque_repr (cr_handle r)))
           (credential_bind b s oper process dest epoch now)
       = map_result (\<lambda>r. (public_dict r, map_option opaque_repr (cr_handle r)))
           (credential_bind b s' oper process dest epoch now)
     \<and> (\<forall>r h. credential_bind b s oper process dest epoch now = Inr r \<longrightarrow> cr_handle r = Some h \<longrightarrow>
          inject h (Some sink) = sink s)"
proof (intro conjI allI impI)
  consider e where "credential_authorize b oper process dest epoch now = Inl e"
    | allowed reason where "credential_authorize b oper process dest epoch now = Inr (allowed, reason)"
    by (cases "credential_authorize b oper process dest epoch now") auto
  then show "map_result (\<lambda>r. (public_dict r, map_option opaque_repr (cr_handle r)))
           (credential_bind b s oper process dest epoch now)
       = map_result (\<lambda>r. (public_dict r, map_option opaque_repr (cr_handle r)))
           (credential_bind b s' oper process dest epoch now)"
    using assms by cases (simp_all add: credential_bind_def opaque_init_def public_dict_def opaque_repr_def)
  fix r h
  assume "credential_bind b s oper process dest epoch now = Inr r" "cr_handle r = Some h"
  then show "inject h (Some sink) = sink s" by (elim credential_bind_cases) (auto simp: inject_def)
qed

section \<open>A sample boundary\<close>

definition sample_boundary :: credential_boundary where
  "sample_boundary =
     \<lparr>cc_boundary_id = ''boundary://1'', cc_connector_subject_ref = ''subject://1'', cc_operation = ''connector_fetch'',
      cc_connector_process_ref = ''process://1'', cc_destination_ref = ''destination://1'',
      cc_operation_scope = [''connector_fetch''], cc_injection_channel = ''PROCESS_MEMORY_HANDLE'',
      cc_visibility_prohibitions = VISIBILITY_PROHIBITIONS, cc_valid_from = ''2026-01-01T00:00:00Z'',
      cc_valid_until = ''2026-01-02T00:00:00Z'', cc_credential_epoch = 4, cc_rotation_ref = ''rotation://1'',
      cc_revocation_ref = ''revocation://1'', cc_source_ref = ''source://1'',
      cc_authority_manifest_fingerprint = replicate 64 CHR ''a'', cc_status = ''ACTIVE''\<rparr>"

lemma sample_boundary_created: "create_boundary sample_boundary = Inr sample_boundary"
  by code_simp

theorem secret_confined_witness:
  "\<exists>r. credential_bind sample_boundary ''hunter2'' ''connector_fetch'' ''process://1'' ''destination://1'' 4 ''2026-01-01T12:00:00Z'' = Inr r
     \<and> map_result public_dict (credential_bind sample_boundary ''other'' ''connector_fetch'' ''process://1'' ''destination://1'' 4 ''2026-01-01T12:00:00Z'')
         = Inr (public_dict r)
     \<and> (\<exists>h. cr_handle r = Some h \<and> inject h (Some Inr) = Inr ''hunter2'')"
proof -
  have "credential_authorize sample_boundary ''connector_fetch'' ''process://1'' ''destination://1'' 4 ''2026-01-01T12:00:00Z''
     = Inr (True, ''NONE'')" by code_simp
  then obtain r h where r: "credential_bind sample_boundary ''hunter2'' ''connector_fetch'' ''process://1'' ''destination://1'' 4 ''2026-01-01T12:00:00Z'' = Inr r"
    and h: "cr_handle r = Some h"
    by (simp add: credential_bind_def opaque_init_def)
  have c: "map_result (\<lambda>r. (public_dict r, map_option opaque_repr (cr_handle r)))
      (credential_bind sample_boundary ''hunter2'' ''connector_fetch'' ''process://1'' ''destination://1'' 4 ''2026-01-01T12:00:00Z'')
    = map_result (\<lambda>r. (public_dict r, map_option opaque_repr (cr_handle r)))
      (credential_bind sample_boundary ''other'' ''connector_fetch'' ''process://1'' ''destination://1'' 4 ''2026-01-01T12:00:00Z'')"
    and i: "inject h (Some Inr) = Inr ''hunter2''"
    using secret_confined [of "''hunter2''" "''other''" sample_boundary "''connector_fetch''" "''process://1''" "''destination://1''" 4 "''2026-01-01T12:00:00Z''" Inr] r h
    by simp_all
  from c r have "map_result public_dict (credential_bind sample_boundary ''other'' ''connector_fetch'' ''process://1'' ''destination://1'' 4 ''2026-01-01T12:00:00Z'')
     = Inr (public_dict r)"
    by (cases "credential_bind sample_boundary ''other'' ''connector_fetch'' ''process://1'' ''destination://1'' 4 ''2026-01-01T12:00:00Z''") simp_all
  with r h i show ?thesis by blast
qed

end
