(* ===== verification/Policy.thy ===== *)
theory Policy
  imports Decisions Models Json_Reader "HOL-Library.Sublist"
begin

text \<open>
  \<^verbatim>\<open>pmiri/policy.py\<close>: provider policy observations (creation, validation, freshness), the string-valued
  observations of the first policy model, and constrained redaction. Records are JSON objects; a
  validator raises \<^verbatim>\<open>ContractViolation\<close>, the \<^verbatim>\<open>TypeError\<close> of an unhashable value looked up in a
  vocabulary, or the overflow of a time stamp. \<^verbatim>\<open>NetworkPolicy.evaluate_resolution\<close> is in the theory
  \<^verbatim>\<open>Network\<close>; \<^verbatim>\<open>validate_transition_history\<close> is not modelled.
\<close>

section \<open>Vocabularies\<close>

definition POLICY_VALUE_TYPES :: "(string \<times> string) list" where
  "POLICY_VALUE_TYPES =
     [(''destination_identity'', ''destination_identity''), (''retention_deletion'', ''retention_deletion''),
      (''training_use'', ''training_use''), (''subprocessors'', ''subprocessors''),
      (''processing_region'', ''processing_region''), (''feature_capability'', ''feature_capability''),
      (''structured_output_attachment'', ''structured_output_attachment''),
      (''logging_diagnostics'', ''logging_diagnostics''),
      (''credential_operation_scope'', ''credential_operation_scope''),
      (''redirect_fetch_behavior'', ''redirect_fetch_behavior'')]"

definition POLICY_VALUE_FIELDS :: "(string \<times> string list) list" where
  "POLICY_VALUE_FIELDS =
     [(''destination_identity'', [''value_type'', ''identity_ref'', ''normalized_authority'', ''scheme'']),
      (''retention_deletion'', [''value_type'', ''retention_mode'', ''deletion_mode'']),
      (''training_use'', [''value_type'', ''training_use'']),
      (''subprocessors'', [''value_type'', ''subprocessors_fingerprint'', ''subprocessor_count'']),
      (''processing_region'', [''value_type'', ''region'', ''region_scope'']),
      (''feature_capability'', [''value_type'', ''capability_key'', ''supported'', ''capability_profile_ref'']),
      (''structured_output_attachment'',
        [''value_type'', ''structured_output_supported'', ''attachment_types'', ''max_attachment_bytes'']),
      (''logging_diagnostics'', [''value_type'', ''logging_scope'']),
      (''credential_operation_scope'', [''value_type'', ''allowed_operations'', ''audience'']),
      (''redirect_fetch_behavior'',
        [''value_type'', ''redirects_allowed'', ''max_redirect_hops'', ''revalidate_each_hop''])]"

definition observation_fields :: "string list" where
  "observation_fields =
     [''record_type'', ''schema_version'', ''observation_id'', ''subject_binding_ref'', ''policy_dimension'',
      ''observed_value'', ''purpose'', ''material_classes'', ''source_authority_class'', ''source_ref'',
      ''issuer'', ''observed_at'', ''valid_until'', ''policy_version'', ''freshness_profile_id'',
      ''freshness_profile_fingerprint'', ''invalidation_epoch'', ''status'', ''observation_fingerprint'']"

definition observation_identity_fields :: "string list" where
  "observation_identity_fields =
     [''observation_id'', ''subject_binding_ref'', ''source_ref'', ''issuer'', ''policy_version'', ''freshness_profile_id'']"

section \<open>Values of a dimension\<close>

definition all_in :: "json \<Rightarrow> string list \<Rightarrow> bool" where
  "all_in v S = (case v of JList xs \<Rightarrow> list_all (\<lambda>x. case x of JStr s \<Rightarrow> s \<in> set S | _ \<Rightarrow> False) xs | _ \<Rightarrow> False)"

definition policy_value_valid :: "string \<Rightarrow> dict \<Rightarrow> bool result" where
  "policy_value_valid dimension v =
     (if dimension = ''destination_identity'' then
        Inr (nonempty_str (get v ''identity_ref'') \<and> nonempty_str (get v ''normalized_authority'')
             \<and> py_eq (get v ''scheme'') (JStr ''HTTPS''))
      else if dimension = ''retention_deletion'' then
        and_r (in_set (get v ''retention_mode'') [''NONE'', ''LIMITED'', ''INDEFINITE'', ''UNKNOWN''])
              (in_set (get v ''deletion_mode'') [''SUPPORTED'', ''NOT_SUPPORTED'', ''CONDITIONAL'', ''UNKNOWN''])
      else if dimension = ''training_use'' then
        in_set (get v ''training_use'') [''PROHIBITED'', ''ALLOWED'', ''CONDITIONAL'', ''UNKNOWN'']
      else if dimension = ''subprocessors'' then
        Inr (is_sha256 (get v ''subprocessors_fingerprint'') \<and> int_at_least 0 (get v ''subprocessor_count''))
      else if dimension = ''processing_region'' then
        and_r (Inr (nonempty_str (get v ''region'')))
              (in_set (get v ''region_scope'') [''SINGLE_REGION'', ''MULTI_REGION'', ''UNKNOWN''])
      else if dimension = ''feature_capability'' then
        Inr (nonempty_str (get v ''capability_key'') \<and> is_bool (get v ''supported'')
             \<and> nonempty_str (get v ''capability_profile_ref''))
      else if dimension = ''structured_output_attachment'' then
        Inr (is_bool (get v ''structured_output_supported'') \<and> all_strs (get v ''attachment_types'')
             \<and> no_repeats (get v ''attachment_types'') \<and> int_at_least 0 (get v ''max_attachment_bytes''))
      else if dimension = ''logging_diagnostics'' then
        in_set (get v ''logging_scope'') [''NONE'', ''METADATA_ONLY'', ''CONTENT_POSSIBLE'', ''UNKNOWN'']
      else if dimension = ''credential_operation_scope'' then
        Inr (is_list (get v ''allowed_operations'') \<and> truthy (get v ''allowed_operations'')
             \<and> all_in (get v ''allowed_operations'') [''provider_call'', ''connector_fetch'', ''attachment_fetch'', ''external_fetch'']
             \<and> no_repeats (get v ''allowed_operations'') \<and> nonempty_str (get v ''audience''))
      else if dimension = ''redirect_fetch_behavior'' then
        Inr (is_bool (get v ''redirects_allowed'') \<and> int_at_least 0 (get v ''max_redirect_hops'')
             \<and> get v ''revalidate_each_hop'' = JBool True)
      else Inr False)"

definition validate_policy_value :: "string \<Rightarrow> dict \<Rightarrow> unit result" where
  "validate_policy_value dimension v =
     bind_result (policy_value_valid dimension v) (\<lambda>valid.
       violation_if (\<not> valid) ''provider_policy_observation_value_type_invalid'')"

section \<open>Observations\<close>

definition parse_policy_timestamp :: "json \<Rightarrow> instant result" where
  "parse_policy_timestamp v =
     (case v of JStr s \<Rightarrow> parse_time s | _ \<Rightarrow> raise ValueError ''timestamp_invalid'')"

text \<open>\<^verbatim>\<open>POLICY_VALUE_TYPES.get(dimension)\<close> and the checks of the value it selects.\<close>

definition check_dimension :: "json \<Rightarrow> json \<Rightarrow> unit result" where
  "check_dimension dimension v =
     bind_result (in_set dimension (map fst POLICY_VALUE_TYPES)) (\<lambda>known.
       case (dimension, v) of
         (JStr d, JObj value) \<Rightarrow>
           (case map_of POLICY_VALUE_TYPES d of
              None \<Rightarrow> raise ContractViolation ''provider_policy_observation_dimension_invalid''
            | Some expected \<Rightarrow>
                run_checks
                  [violation_if (keys value \<noteq> set (the (map_of POLICY_VALUE_FIELDS d))
                      \<or> \<not> py_eq (get value ''value_type'') (JStr expected))
                     ''provider_policy_observation_value_binding_invalid'',
                   validate_policy_value d value])
       | _ \<Rightarrow> raise ContractViolation ''provider_policy_observation_dimension_invalid'')"

text \<open>The time stamps: the handler turns the failures of the two reads into one violation.\<close>

definition check_observation_times :: "dict \<Rightarrow> unit result" where
  "check_observation_times r =
     bind_result (except_tv None
       (bind_result (parse_policy_timestamp (get r ''observed_at'')) (\<lambda>a.
        map_result (\<lambda>b. Some (a, b)) (parse_policy_timestamp (get r ''valid_until''))))) (\<lambda>times.
       case times of
         None \<Rightarrow> raise ContractViolation ''provider_policy_observation_timestamp_invalid''
       | Some (observed_at, valid_until) \<Rightarrow>
           violation_if (valid_until < observed_at) ''provider_policy_observation_timestamp_order_invalid'')"

definition validate_provider_policy_observation :: "dict \<Rightarrow> unit result" where
  "validate_provider_policy_observation r =
     run_checks
       [violation_if (list_ex (\<lambda>f. \<not> has_key r f) observation_fields) ''provider_policy_observation_missing'',
        violation_if (keys r \<noteq> set observation_fields
            \<or> \<not> py_eq (get r ''record_type'') (JStr ''PMIRI_D2_PROVIDER_POLICY_OBSERVATION'')
            \<or> \<not> py_eq (get r ''schema_version'') (JStr ''0.3''))
          ''provider_policy_observation_schema_invalid'',
        violation_if (\<not> list_all (\<lambda>f. nonempty_str (get r f)) observation_identity_fields)
          ''provider_policy_observation_identity_invalid'',
        check_dimension (get r ''policy_dimension'') (get r ''observed_value''),
        violation_if_r (not_in (get r ''status'')
            [''ACTIVE'', ''EXPIRED'', ''REVOKED'', ''SUPERSEDED'', ''CONTRADICTED'', ''INVALID''])
          ''provider_policy_observation_status_invalid'',
        violation_if (\<not> is_list (get r ''material_classes'') \<or> \<not> truthy (get r ''material_classes''))
          ''provider_policy_observation_material_scope_invalid'',
        violation_if (\<not> all_strs (get r ''material_classes'')) ''provider_policy_observation_material_scope_invalid'',
        violation_if (\<not> no_repeats (get r ''material_classes'')) ''provider_policy_observation_material_scope_invalid'',
        violation_if (\<not> int_at_least 0 (get r ''invalidation_epoch'')) ''provider_policy_observation_epoch_invalid'',
        check_observation_times r,
        violation_if (\<not> is_sha256 (get r ''freshness_profile_fingerprint''))
          ''provider_policy_observation_freshness_fingerprint_invalid'',
        violation_if (\<not> is_sha256 (get r ''observation_fingerprint'')
            \<or> \<not> py_eq (get r ''observation_fingerprint'') (JStr (sha256_json (JObj (without [''observation_fingerprint''] r)))))
          ''provider_policy_observation_fingerprint_invalid'']"

record freshness_profile =
  pf_profile_id :: string
  pf_algorithm_version :: string
  pf_valid_for_seconds :: int

definition profile_fingerprint :: "freshness_profile \<Rightarrow> string" where
  "profile_fingerprint p = sha256_json (JObj
     [(''profile_id'', JStr (pf_profile_id p)),
      (''algorithm_version'', JStr (pf_algorithm_version p)),
      (''valid_for_seconds'', JInt (pf_valid_for_seconds p))])"

text \<open>\<^verbatim>\<open>create_provider_policy_observation\<close>, its keyword arguments as a record.\<close>

record observation_args =
  oa_observation_id :: string
  oa_subject_binding_ref :: string
  oa_policy_dimension :: string
  oa_observed_value :: dict
  oa_purpose :: string
  oa_material_classes :: "string list"
  oa_source_authority_class :: string
  oa_source_ref :: string
  oa_issuer :: string
  oa_observed_at :: string
  oa_valid_until :: string
  oa_policy_version :: string
  oa_freshness_profile :: freshness_profile
  oa_invalidation_epoch :: int
  oa_status :: string

definition observation_record :: "observation_args \<Rightarrow> dict" where
  "observation_record a =
     [(''record_type'', JStr ''PMIRI_D2_PROVIDER_POLICY_OBSERVATION''),
      (''schema_version'', JStr ''0.3''),
      (''observation_id'', JStr (oa_observation_id a)),
      (''subject_binding_ref'', JStr (oa_subject_binding_ref a)),
      (''policy_dimension'', JStr (oa_policy_dimension a)),
      (''observed_value'', JObj (oa_observed_value a)),
      (''purpose'', JStr (oa_purpose a)),
      (''material_classes'', jstrs (oa_material_classes a)),
      (''source_authority_class'', JStr (oa_source_authority_class a)),
      (''source_ref'', JStr (oa_source_ref a)),
      (''issuer'', JStr (oa_issuer a)),
      (''observed_at'', JStr (oa_observed_at a)),
      (''valid_until'', JStr (oa_valid_until a)),
      (''policy_version'', JStr (oa_policy_version a)),
      (''freshness_profile_id'', JStr (pf_profile_id (oa_freshness_profile a))),
      (''freshness_profile_fingerprint'', JStr (profile_fingerprint (oa_freshness_profile a))),
      (''invalidation_epoch'', JInt (oa_invalidation_epoch a)),
      (''status'', JStr (oa_status a))]"

definition create_provider_policy_observation :: "observation_args \<Rightarrow> dict result" where
  "create_provider_policy_observation a =
     (let record = observation_record a;
          fingerprinted = record @ [(''observation_fingerprint'', JStr (sha256_json (JObj record)))]
      in map_result (\<lambda>_. fingerprinted) (validate_provider_policy_observation fingerprinted))"

definition provider_policy_observation_is_fresh :: "dict \<Rightarrow> string \<Rightarrow> freshness_profile \<Rightarrow> int \<Rightarrow> bool result" where
  "provider_policy_observation_is_fresh r now profile current_epoch =
     except_tv False
       (bind_result (validate_provider_policy_observation r) (\<lambda>_.
          if \<not> py_eq (get r ''status'') (JStr ''ACTIVE'') then Inr False
          else if \<not> py_eq (get r ''freshness_profile_id'') (JStr (pf_profile_id profile))
               \<or> \<not> py_eq (get r ''freshness_profile_fingerprint'') (JStr (profile_fingerprint profile)) then Inr False
          else if \<not> py_eq (get r ''invalidation_epoch'') (JInt current_epoch) then Inr False
          else bind_result (parse_policy_timestamp (get r ''observed_at'')) (\<lambda>a.
               bind_result (parse_policy_timestamp (JStr now)) (\<lambda>n.
                 if a \<le> n then map_result (\<lambda>b. n \<le> b) (parse_policy_timestamp (get r ''valid_until''))
                 else Inr False))))"

section \<open>PolicyObservation\<close>

record policy_observation =
  po_dimension :: string
  po_value :: string
  po_observed_at :: string
  po_valid_until :: string
  po_invalidation_epoch :: int
  po_freshness_profile :: freshness_profile
  po_fingerprint :: string

definition create_policy_observation ::
  "string \<Rightarrow> string \<Rightarrow> string \<Rightarrow> string \<Rightarrow> int \<Rightarrow> freshness_profile \<Rightarrow> policy_observation" where
  "create_policy_observation dimension v observed_at valid_until epoch profile =
     \<lparr>po_dimension = dimension, po_value = v, po_observed_at = observed_at, po_valid_until = valid_until,
      po_invalidation_epoch = epoch, po_freshness_profile = profile,
      po_fingerprint = sha256_json (JObj
        [(''dimension'', JStr dimension), (''value'', JStr v), (''observed_at'', JStr observed_at),
         (''valid_until'', JStr valid_until), (''invalidation_epoch'', JInt epoch),
         (''freshness_profile_id'', JStr (pf_profile_id profile)),
         (''freshness_profile_fingerprint'', JStr (profile_fingerprint profile))])\<rparr>"

text \<open>The time stamps are compared as strings.\<close>

definition policy_observation_is_fresh :: "policy_observation \<Rightarrow> string \<Rightarrow> int \<Rightarrow> freshness_profile \<Rightarrow> bool" where
  "policy_observation_is_fresh obs now current_epoch profile =
     (if pf_profile_id profile \<noteq> pf_profile_id (po_freshness_profile obs)
         \<or> profile_fingerprint profile \<noteq> profile_fingerprint (po_freshness_profile obs) then False
      else if current_epoch \<noteq> po_invalidation_epoch obs then False
      else now \<le> po_valid_until obs)"

section \<open>constrained\_redact\<close>

definition REDACTED :: string where
  "REDACTED = ''[REDACTED]''"

text \<open>\<^verbatim>\<open>s.replace(term, new)\<close> for a non-empty \<open>term\<close>: occurrences from the left, not overlapping.\<close>

function str_replace :: "string \<Rightarrow> string \<Rightarrow> string \<Rightarrow> string" where
  "str_replace old new [] = []"
| "str_replace old new (c # s) =
     (if old \<noteq> [] \<and> prefix old (c # s) then new @ str_replace old new (drop (length old) (c # s))
      else c # str_replace old new s)"
  by pat_completeness auto
termination by (relation "measure (\<lambda>(old, new, s). length s)") (auto simp: neq_Nil_conv)

fun redact_terms :: "string \<Rightarrow> string list \<Rightarrow> string \<times> string list" where
  "redact_terms output [] = (output, [])"
| "redact_terms output (t # ts) =
     (if t \<noteq> [] \<and> sublist t output
      then (case redact_terms (str_replace t REDACTED output) ts of (final, removed) \<Rightarrow> (final, t # removed))
      else redact_terms output ts)"

record redaction_result =
  rr_text :: string
  rr_action_result :: string
  rr_obligations :: "string list"
  rr_constraint_refs :: "string list"
  rr_citation_map_fingerprint :: string

definition constrained_redact ::
  "string \<Rightarrow> string list \<Rightarrow> string list \<Rightarrow> (string \<times> string) list \<Rightarrow> redaction_result" where
  "constrained_redact body remove_terms required_obligations citations =
     (let (output, removed) = redact_terms body remove_terms;
          obligations = sorted_set required_obligations;
          constraints = (if removed = [] then []
                         else map (\<lambda>obligation. ''constraint_'' @ take 24 (sha256_json (JObj
                                [(''obligation'', JStr obligation), (''removed'', jstrs removed)]))) obligations)
      in \<lparr>rr_text = output,
          rr_action_result = (if constraints \<noteq> [] then ''ALLOW_WITH_CONSTRAINTS'' else ''ALLOW''),
          rr_obligations = obligations,
          rr_constraint_refs = constraints,
          rr_citation_map_fingerprint = sha256_json (JObj
            [(''citations'', JObj (map (\<lambda>(k, v). (k, JStr v)) (sort_key fst citations))), (''text'', JStr output)])\<rparr>)"

section \<open>Freshness\<close>

lemma parse_policy_timestamp_Inr:
  "parse_policy_timestamp v = Inr t \<longleftrightarrow> (\<exists>s. v = JStr s \<and> parse_time s = Inr t)"
  by (auto simp: parse_policy_timestamp_def split: json.splits)

lemma parse_policy_timestamp_error:
  "parse_policy_timestamp v = Inl e \<Longrightarrow> caught_tv e \<or> fst e = OverflowError"
  by (auto simp: parse_policy_timestamp_def raise_def caught_tv_def is_value_error_def split: json.splits
      dest: parse_time_error)

text \<open>The guards that a fresh observation passes, as a plain predicate on the record.\<close>

definition observation_current :: "dict \<Rightarrow> string \<Rightarrow> freshness_profile \<Rightarrow> int \<Rightarrow> bool" where
  "observation_current r now profile epoch =
     (get r ''status'' = JStr ''ACTIVE''
      \<and> get r ''freshness_profile_id'' = JStr (pf_profile_id profile)
      \<and> get r ''freshness_profile_fingerprint'' = JStr (profile_fingerprint profile)
      \<and> get r ''invalidation_epoch'' = JInt epoch
      \<and> (\<exists>from until a n b. get r ''observed_at'' = JStr from \<and> get r ''valid_until'' = JStr until
           \<and> parse_time from = Inr a \<and> parse_time now = Inr n \<and> parse_time until = Inr b \<and> a \<le> n \<and> n \<le> b))"

lemma validated_epoch:
  assumes "validate_provider_policy_observation r = Inr ()"
  obtains i where "get r ''invalidation_epoch'' = JInt i" "0 \<le> i"
proof -
  from assms have "int_at_least 0 (get r ''invalidation_epoch'')"
    unfolding validate_provider_policy_observation_def run_checks_passes by (simp add: check_simps)
  with that show ?thesis by (cases "get r ''invalidation_epoch''") auto
qed

definition tame :: "'a result \<Rightarrow> bool" where
  "tame r = (\<forall>e. r = Inl e \<longrightarrow> caught_tv e \<or> fst e = OverflowError)"

lemma tame_vocabulary: "only_vocabulary r \<Longrightarrow> tame r"
  by (auto simp: tame_def only_vocabulary_def vocabulary_error_def caught_tv_def is_value_error_def)

lemma tame_checks: "list_all tame cs \<Longrightarrow> tame (run_checks cs)"
  by (auto simp: tame_def list_all_iff dest: run_checks_error_of)

lemma check_dimension_tame: "tame (check_dimension d v)"
proof -
  have "only_vocabulary (policy_value_valid x y)" for x y
    unfolding policy_value_valid_def by (simp add: vocabulary_intros)
  then have "only_vocabulary (validate_policy_value x y)" for x y
    unfolding validate_policy_value_def by (intro vocabulary_intros)
  then have "only_vocabulary (check_dimension d v)"
    unfolding check_dimension_def
    by (intro only_vocabulary_bind(1) only_vocabulary_in)
      (simp add: vocabulary_intros split: json.split option.split)
  then show ?thesis by (rule tame_vocabulary)
qed

lemma check_observation_times_tame: "tame (check_observation_times r)"
  by (auto simp: tame_def check_observation_times_def bind_result_Inl_iff except_tv_Inl_iff map_result_Inl_iff
      fails_if_error raise_def caught_tv_def is_value_error_def
      split: option.splits dest!: parse_policy_timestamp_error)

lemma validate_observation_tame: "tame (validate_provider_policy_observation r)"
  unfolding validate_provider_policy_observation_def
  by (intro tame_checks)
    (simp add: check_dimension_tame check_observation_times_tame tame_vocabulary vocabulary_intros)

lemma is_fresh_True_iff:
  "provider_policy_observation_is_fresh r now profile epoch = Inr True \<longleftrightarrow>
     validate_provider_policy_observation r = Inr () \<and> observation_current r now profile epoch"
  (is "?l \<longleftrightarrow> ?r")
proof
  assume ?l
  then have v: "validate_provider_policy_observation r = Inr ()"
    by (auto simp: provider_policy_observation_is_fresh_def except_tv_Inr_iff result_simps)
  then obtain i where "get r ''invalidation_epoch'' = JInt i" by (rule validated_epoch)
  with \<open>?l\<close> v show ?r
    by (auto simp: provider_policy_observation_is_fresh_def observation_current_def except_tv_Inr_iff result_simps
        parse_policy_timestamp_Inr split: if_splits)
next
  assume ?r
  then show ?l
    by (auto simp: provider_policy_observation_is_fresh_def observation_current_def except_tv_def parse_policy_timestamp_def)
qed

lemma is_fresh_error:
  assumes "provider_policy_observation_is_fresh r now profile epoch = Inl e"
  shows "fst e = OverflowError"
  using assms validate_observation_tame [of r, unfolded tame_def, rule_format, of e]
  by (auto simp: provider_policy_observation_is_fresh_def except_tv_Inl_iff bind_result_Inl_iff map_result_Inl_iff
      split: if_splits dest!: parse_policy_timestamp_error)

text \<open>
  C39. An observation counts as fresh exactly when it validates, is active, names the profile and
  the epoch asked for, and the time lies in its own interval from \<^verbatim>\<open>observed_at\<close> to \<^verbatim>\<open>valid_until\<close>; any other
  outcome is a refusal, except for the overflow of a time stamp, which is raised. No maximum age is among the
  conditions: this is what \<^verbatim>\<open>provider_policy_observation_is_fresh\<close> computes, and it is laxer than the written
  contract (GD-R2-07, section 4), which also makes an observation stale once the maximum age of its
  dimension is exceeded; see \<open>overage_observation_fresh\<close> below.
\<close>

theorem observation_fresh_iff:
  "(provider_policy_observation_is_fresh r now profile epoch = Inr True \<longleftrightarrow>
      validate_provider_policy_observation r = Inr () \<and> observation_current r now profile epoch)
   \<and> (\<forall>e. provider_policy_observation_is_fresh r now profile epoch = Inl e \<longrightarrow> fst e = OverflowError)"
  using is_fresh_True_iff is_fresh_error by blast

definition sample_profile :: freshness_profile where
  "sample_profile = \<lparr>pf_profile_id = ''profile://1'', pf_algorithm_version = ''1'', pf_valid_for_seconds = 86400\<rparr>"

definition sample_args :: observation_args where
  "sample_args =
     \<lparr>oa_observation_id = ''observation://1'', oa_subject_binding_ref = ''binding://1'', oa_policy_dimension = ''training_use'',
      oa_observed_value = [(''value_type'', JStr ''training_use''), (''training_use'', JStr ''PROHIBITED'')],
      oa_purpose = ''retrieval'', oa_material_classes = [''TEXT''], oa_source_authority_class = ''PROVIDER'',
      oa_source_ref = ''source://1'', oa_issuer = ''issuer://1'', oa_observed_at = ''2026-01-01T00:00:00Z'',
      oa_valid_until = ''2026-01-02T00:00:00Z'', oa_policy_version = ''1'', oa_freshness_profile = sample_profile,
      oa_invalidation_epoch = 3, oa_status = ''ACTIVE''\<rparr>"

lemma sample_observation_times:
  "parse_time ''2026-01-01T00:00:00Z'' = Inr 1767225600000000" "parse_time ''2026-01-01T12:00:00Z'' = Inr 1767268800000000"
  "parse_time ''2026-01-02T00:00:00Z'' = Inr 1767312000000000"
  by code_simp+

lemma created_get:
  assumes "create_provider_policy_observation a = Inr r"
  shows "r = observation_record a @ [(''observation_fingerprint'', JStr (sha256_json (JObj (observation_record a))))]"
    and "validate_provider_policy_observation r = Inr ()"
  using assms by (auto simp: create_provider_policy_observation_def Let_def result_simps)

text \<open>A created observation is current in its own interval, for its own profile and epoch.\<close>

lemma created_current:
  assumes "create_provider_policy_observation a = Inr r" "oa_status a = ''ACTIVE''"
    and "valid_interval (oa_observed_at a) (oa_valid_until a) now = Inr True"
  shows "observation_current r now (oa_freshness_profile a) (oa_invalidation_epoch a)"
  using assms(2,3)
  by (auto simp: observation_current_def created_get(1) [OF assms(1)] observation_record_def get_def valid_interval_iff)

lemma sample_observation_until:
  assumes "parse_time until = Inr b" "1767225600000000 < b" "until \<noteq> []"
  shows "\<exists>r. create_provider_policy_observation (sample_args\<lparr>oa_valid_until := until\<rparr>) = Inr r"
proof -
  let ?a = "sample_args\<lparr>oa_valid_until := until\<rparr>"
  have hex: "is_sha256_str (sha256_json v)" for v using sha256_bytes_hex by (simp add: sha256_json_def)
  let ?r = "observation_record ?a @ [(''observation_fingerprint'', JStr (sha256_json (JObj (observation_record ?a))))]"
  have g: "get ?r ''record_type'' = JStr ''PMIRI_D2_PROVIDER_POLICY_OBSERVATION''" "get ?r ''schema_version'' = JStr ''0.3''"
    "get ?r ''policy_dimension'' = JStr ''training_use''"
    "get ?r ''observed_value'' = JObj [(''value_type'', JStr ''training_use''), (''training_use'', JStr ''PROHIBITED'')]"
    "get ?r ''status'' = JStr ''ACTIVE''" "get ?r ''material_classes'' = JList [JStr ''TEXT'']" "get ?r ''invalidation_epoch'' = JInt 3"
    "get ?r ''observed_at'' = JStr ''2026-01-01T00:00:00Z''" "get ?r ''valid_until'' = JStr until"
    "get ?r ''freshness_profile_fingerprint'' = JStr (profile_fingerprint sample_profile)"
    "get ?r ''observation_fingerprint'' = JStr (sha256_json (JObj (observation_record ?a)))"
    "list_all (\<lambda>f. nonempty_str (get ?r f)) observation_identity_fields"
    by (simp_all add: observation_record_def sample_args_def get_def jstrs_def observation_identity_fields_def sample_profile_def)
  have k: "map fst ?r = observation_fields" by (simp add: observation_record_def observation_fields_def)
  then have k': "keys ?r = set observation_fields" unfolding keys_def by (metis list.set_map)
  have h: "\<not> list_ex (\<lambda>f. \<not> has_key ?r f) observation_fields"
    unfolding list_ex_iff has_key_def map_of_eq_None_iff using k by (metis list.set_map)
  have w: "without [''observation_fingerprint''] ?r = observation_record ?a"
    by (simp add: without_def observation_record_def)
  have d: "check_dimension (JStr ''training_use'') (JObj [(''value_type'', JStr ''training_use''), (''training_use'', JStr ''PROHIBITED'')]) = Inr ()"
    by code_simp
  have t: "check_observation_times ?r = Inr ()"
    unfolding check_observation_times_def g
    using assms(1,2) by (simp add: parse_policy_timestamp_def sample_observation_times except_tv_def check_simps)
  have "validate_provider_policy_observation ?r = Inr ()"
    unfolding validate_provider_policy_observation_def run_checks_passes list.set g w k' 
    using h g(12) d t hex by (simp add: check_simps is_list_def all_strs_def no_repeats_def profile_fingerprint_def k')
  then show ?thesis by (simp add: create_provider_policy_observation_def Let_def)
qed

lemma sample_observation_created: "\<exists>r. create_provider_policy_observation sample_args = Inr r"
proof -
  have "sample_args\<lparr>oa_valid_until := ''2026-01-02T00:00:00Z''\<rparr> = sample_args" by (simp add: sample_args_def)
  with sample_observation_until [OF sample_observation_times(3)] show ?thesis by simp
qed

theorem observation_fresh_iff_witness:
  "\<exists>r. create_provider_policy_observation sample_args = Inr r
     \<and> provider_policy_observation_is_fresh r ''2026-01-01T12:00:00Z'' sample_profile 3 = Inr True"
proof -
  obtain r where r: "create_provider_policy_observation sample_args = Inr r" using sample_observation_created by blast
  have "valid_interval (oa_observed_at sample_args) (oa_valid_until sample_args) ''2026-01-01T12:00:00Z'' = Inr True"
    by (simp add: sample_args_def valid_interval_iff sample_observation_times)
  from created_current [OF r _ this] have "observation_current r ''2026-01-01T12:00:00Z'' sample_profile 3"
    by (simp add: sample_args_def)
  with created_get(2) [OF r] observation_fresh_iff [of r "''2026-01-01T12:00:00Z''" sample_profile 3] r show ?thesis by blast
qed

text \<open>
  The age of an observation plays no part: the profile is compared by name and fingerprint, and its
  \<^verbatim>\<open>valid_for_seconds\<close> is not read. The sample, observed on the first and valid until the fourth of
  January under a profile of one day, is fresh on the third, although GD-R2-07 allows an observation of
  \<^verbatim>\<open>training_use\<close> 24 hours.
\<close>

lemma long_observation_times:
  "parse_time ''2026-01-04T00:00:00Z'' = Inr 1767484800000000" "parse_time ''2026-01-03T12:00:00Z'' = Inr 1767441600000000"
  by code_simp+

lemma overage_observation_fresh:
  "\<exists>r age. create_provider_policy_observation (sample_args\<lparr>oa_valid_until := ''2026-01-04T00:00:00Z''\<rparr>) = Inr r
     \<and> map_result (\<lambda>n. n - 1767225600000000) (parse_time ''2026-01-03T12:00:00Z'') = Inr age
     \<and> parse_time (oa_observed_at sample_args) = Inr 1767225600000000 \<and> pf_valid_for_seconds sample_profile * 1000000 < age
     \<and> provider_policy_observation_is_fresh r ''2026-01-03T12:00:00Z'' sample_profile 3 = Inr True"
proof -
  let ?a = "sample_args\<lparr>oa_valid_until := ''2026-01-04T00:00:00Z''\<rparr>"
  obtain r where r: "create_provider_policy_observation ?a = Inr r"
    using sample_observation_until [OF long_observation_times(1)] by auto
  have "valid_interval (oa_observed_at ?a) (oa_valid_until ?a) ''2026-01-03T12:00:00Z'' = Inr True"
    by (simp add: sample_args_def valid_interval_iff sample_observation_times long_observation_times)
  from created_current [OF r _ this] have "observation_current r ''2026-01-03T12:00:00Z'' sample_profile 3"
    by (simp add: sample_args_def)
  with created_get(2) [OF r] have "provider_policy_observation_is_fresh r ''2026-01-03T12:00:00Z'' sample_profile 3 = Inr True"
    by (simp add: is_fresh_True_iff)
  with r show ?thesis
    by (intro exI [of _ r] exI [of _ "216000000000"] conjI)
      (simp_all add: long_observation_times sample_args_def sample_observation_times sample_profile_def)
qed

section \<open>Redaction\<close>

text \<open>A text without a character of the marker can only be found outside the markers.\<close>

lemma sublist_disjoint_append:
  assumes "set t \<inter> set m = {}" "sublist t (m @ s)" "t \<noteq> []"
  shows "sublist t s"
proof -
  from assms(2) consider "sublist t m" | "sublist t s"
    | t1 t2 where "t = t1 @ t2" "suffix t1 m" "prefix t2 s"
    unfolding sublist_append by blast
  then show ?thesis
  proof cases
    case 1
    with assms(1,3) have False by (auto dest: set_mono_sublist simp: neq_Nil_conv)
    then show ?thesis ..
  next
    case 3
    then have "set t1 \<subseteq> set t \<inter> set m" by (auto dest: set_mono_suffix)
    with assms(1) have "t1 = []" by auto
    with 3 show ?thesis by (simp add: prefix_imp_sublist)
  qed
qed

lemma replace_prefix:
  assumes "set t \<inter> set new = {}" "new \<noteq> []"
  shows "prefix t (str_replace old new s) \<Longrightarrow> prefix t s"
  using assms
proof (induction old new s arbitrary: t rule: str_replace.induct)
  case (2 old new c s)
  show ?case
  proof (cases t)
    case (Cons d t')
    with 2(3-5) have "\<not> (old \<noteq> [] \<and> prefix old (c # s))"
      by (cases new) (auto split: if_splits)
    with 2(2) [of t'] 2(3-5) Cons show ?thesis by auto
  qed simp
qed simp

lemma replace_sublist:
  assumes "set t \<inter> set new = {}" "new \<noteq> []" "t \<noteq> []"
  shows "sublist t (str_replace old new s) \<Longrightarrow> sublist t s"
  using assms
proof (induction old new s rule: str_replace.induct)
  case (2 old new c s)
  show ?case
  proof (cases "old \<noteq> [] \<and> prefix old (c # s)")
    case True
    with 2(3-6) have "sublist t (str_replace old new (drop (length old) (c # s)))"
      using sublist_disjoint_append by auto
    with 2(1) [OF True] 2(4-6) have "sublist t (drop (length old) (c # s))" by blast
    then show ?thesis using sublist_drop sublist_order.order_trans by blast
  next
    case False
    with 2(3) consider "prefix t (str_replace old new (c # s))" | "sublist t (str_replace old new s)"
      by (auto simp: sublist_Cons_right)
    then show ?thesis
    proof cases
      case 1
      from replace_prefix [OF 2(4,5) this] show ?thesis by (rule prefix_imp_sublist)
    next
      case sub: 2
      with "2.IH"(2) [OF False] 2(4-6) show ?thesis by (simp add: sublist_Cons_right)
    qed
  qed
qed simp

lemma replaced_gone:
  assumes "set t \<inter> set new = {}" "new \<noteq> []" "t \<noteq> []"
  shows "\<not> sublist t (str_replace t new s)"
  using assms
proof (induction t new s rule: str_replace.induct)
  case (2 t new c s)
  show ?case
  proof (cases "prefix t (c # s)")
    case True
    let ?r = "str_replace t new (drop (length t) (c # s))"
    have "str_replace t new (c # s) = new @ ?r" using True 2(5) by simp
    moreover have "\<not> sublist t ?r" using 2(1) True 2(3-5) by blast
    ultimately show ?thesis using sublist_disjoint_append [OF 2(3) _ 2(5)] by metis
  next
    case False
    then have "\<not> prefix t (str_replace t new (c # s))" using replace_prefix 2(3,4) by blast
    with 2 False show ?thesis by (auto simp: sublist_Cons_right)
  qed
qed simp

lemma redact_terms_keeps_out:
  assumes "set t \<inter> set REDACTED = {}" "t \<noteq> []"
  shows "\<not> sublist t s \<Longrightarrow> \<not> sublist t (fst (redact_terms s ts))"
proof (induction s ts rule: redact_terms.induct)
  case (2 s u us)
  have "REDACTED \<noteq> []" by (simp add: REDACTED_def)
  with replace_sublist [OF assms(1) _ assms(2), of u s] 2 show ?case
    by (auto simp: case_prod_unfold)
qed simp

lemma redact_terms_removes:
  assumes "set t \<inter> set REDACTED = {}" "t \<noteq> []"
  shows "t \<in> set ts \<Longrightarrow> \<not> sublist t (fst (redact_terms s ts))"
proof (induction s ts rule: redact_terms.induct)
  case (2 s u us)
  have m: "REDACTED \<noteq> []" by (simp add: REDACTED_def)
  show ?case
  proof (cases "t \<in> set us")
    case True
    with 2 show ?thesis by (auto simp: case_prod_unfold)
  next
    case False
    with 2(3) have "u = t" by simp
    with assms redact_terms_keeps_out [OF assms, of _ us] replaced_gone [OF assms(1) m assms(2)] show ?thesis
      by (auto simp: case_prod_unfold)
  qed
qed simp

lemma redact_terms_unchanged:
  "snd (redact_terms s ts) = [] \<Longrightarrow> fst (redact_terms s ts) = s \<and> (\<forall>t \<in> set ts. t \<noteq> [] \<longrightarrow> \<not> sublist t s)"
  by (induction s ts rule: redact_terms.induct) (auto simp: case_prod_unfold split: if_splits)

text \<open>
  C40. Redaction removes a term that shares no character with the marker from the text altogether, and a
  text that contained a term to remove is released only with constraints, whenever an obligation is
  required of it.
\<close>

theorem redaction_complete:
  assumes "t \<in> set terms" "t \<noteq> []" "set t \<inter> set REDACTED = {}"
  shows "\<not> sublist t (rr_text (constrained_redact body terms obligations citations))
     \<and> (sublist t body \<and> obligations \<noteq> [] \<longrightarrow>
          rr_action_result (constrained_redact body terms obligations citations) = ''ALLOW_WITH_CONSTRAINTS'')"
proof
  show "\<not> sublist t (rr_text (constrained_redact body terms obligations citations))"
    using redact_terms_removes [OF assms(3,2,1), of body]
    by (simp add: constrained_redact_def Let_def case_prod_unfold)
  have "sorted_set obligations \<noteq> []" if "obligations \<noteq> []"
    using that unfolding sorted_set_def by (metis set_empty set_remdups set_sort)
  moreover have "snd (redact_terms body terms) \<noteq> []" if "sublist t body"
    using redact_terms_unchanged [of body terms] assms(1,2) that by auto
  ultimately show "sublist t body \<and> obligations \<noteq> [] \<longrightarrow>
      rr_action_result (constrained_redact body terms obligations citations) = ''ALLOW_WITH_CONSTRAINTS''"
    by (auto simp: constrained_redact_def Let_def case_prod_unfold)
qed

theorem redaction_complete_witness:
  "\<not> sublist ''secret'' (rr_text (constrained_redact ''a secret plan'' [''secret''] [''cite''] []))
   \<and> rr_action_result (constrained_redact ''a secret plan'' [''secret''] [''cite''] []) = ''ALLOW_WITH_CONSTRAINTS''"
proof -
  have "set ''secret'' \<inter> set REDACTED = {}" "sublist ''secret'' ''a secret plan''" by code_simp+
  with redaction_complete [of "''secret''" "[''secret'']" "''a secret plan''" "[''cite'']" "[]"] show ?thesis by simp
qed

text \<open>The condition on the characters is needed: the marker itself brings a removed term back.\<close>

lemma redaction_marker_survives:
  "rr_text (constrained_redact ''RED team'' [''RED''] [] []) = ''[REDACTED] team''"
  "sublist ''RED'' (rr_text (constrained_redact ''RED team'' [''RED''] [] []))"
  by (simp_all add: constrained_redact_def sorted_set_def REDACTED_def sublist_code)

end
