(* ===== verification/Network.thy ===== *)
theory Network
  imports Url Checks
begin

text \<open>
  \<^verbatim>\<open>pmiri/network.py\<close>, connection bindings and the network boundary: the classification of addresses, the
  builder and the validator of a connection binding record, the boundary that denies every operation,
  redirects and response limits; and the resolution decision of \<^verbatim>\<open>policy.NetworkPolicy\<close>. A record is a
  JSON object; the validator raises \<^verbatim>\<open>NetworkBoundaryError\<close>, the \<^verbatim>\<open>TypeError\<close> of values it cannot hash,
  compare or add, the \<^verbatim>\<open>AttributeError\<close> of an authority that is no text, and one \<^verbatim>\<open>KeyError\<close>.
\<close>

abbreviation denied_if :: "bool \<Rightarrow> string \<Rightarrow> unit result" where
  "denied_if b m \<equiv> fails_if b NetworkBoundaryError m"

abbreviation denied_if_r :: "bool result \<Rightarrow> string \<Rightarrow> unit result" where
  "denied_if_r r m \<equiv> fails_if_r r NetworkBoundaryError m"

definition CANONICALIZATION_PROFILE_ID :: string where
  "CANONICALIZATION_PROFILE_ID = ''D2-NETWORK-CANONICALIZATION-001''"

definition CANONICALIZATION_PROFILE_FINGERPRINT :: string where
  "CANONICALIZATION_PROFILE_FINGERPRINT = ''04a8c5d312d2c17967cd90c874e8bcf779324349c043d0c53a6c828a260e3bbd''"

section \<open>Addresses\<close>

definition classify_address :: "string \<Rightarrow> string" where
  "classify_address value =
     (case ip_address value of
        None \<Rightarrow> ''INVALID''
      | Some p \<Rightarrow>
          if is_private p \<or> is_loopback p \<or> is_link_local p \<or> is_unspecified p then ''DENIED_PRIVATE''
          else if is_multicast p \<or> is_reserved p \<or> \<not> is_global p then ''DENIED_RESERVED''
          else ''ALLOWLISTED_PUBLIC'')"

definition family_of :: "ip \<Rightarrow> string" where
  "family_of p = (if ip_version p = 6 then ''IPv6'' else ''IPv4'')"

text \<open>A resolver answer as it is recorded: its text, family and policy status.\<close>

record resolution_entry =
  re_ip :: string
  re_family :: string
  re_policy_status :: string

definition resolve_entry :: "string \<Rightarrow> resolution_entry" where
  "resolve_entry address =
     (case ip_address address of
        Some p \<Rightarrow> \<lparr>re_ip = compressed p, re_family = family_of p, re_policy_status = classify_address (compressed p)\<rparr>
      | None \<Rightarrow> \<lparr>re_ip = address, re_family = ''IPv4'', re_policy_status = ''DENIED_UNALLOWLISTED''\<rparr>)"

section \<open>Validating a connection binding\<close>

definition binding_required :: "string list" where
  "binding_required =
     [''record_type'', ''schema_version'', ''connection_binding_id'', ''destination_identity_ref'',
      ''canonicalization_profile_id'', ''canonicalization_profile_fingerprint'', ''normalized_authority'',
      ''resolver_ref'', ''resolved_addresses'', ''resolution_set_status'', ''selected_target'', ''proxy'', ''tls'',
      ''revalidation_events'', ''connection_epoch'', ''invalidation_epoch'', ''binding_status'', ''binding_fingerprint'']"

definition entry_fields :: "string list" where
  "entry_fields = [''resolution_entry_id'', ''ip'', ''family'', ''policy_status'', ''observed_at'', ''allowlist_ref'']"

text \<open>
  \<^verbatim>\<open>ipaddress.ip_address(v)\<close> succeeds on the integers of an address as well, and on booleans; no such value
  equals the text of the address.
\<close>

definition entry_mismatch :: "dict \<Rightarrow> bool" where
  "entry_mismatch e =
     (let unparsed = (get e ''policy_status'' \<noteq> JStr ''DENIED_UNALLOWLISTED'' \<or> get e ''family'' \<noteq> JStr ''IPv4'')
      in case get e ''ip'' of
           JStr s \<Rightarrow>
             (case ip_address s of
                None \<Rightarrow> unparsed
              | Some p \<Rightarrow> s \<noteq> compressed p \<or> get e ''family'' \<noteq> JStr (family_of p)
                          \<or> get e ''policy_status'' \<noteq> JStr (classify_address s))
         | JInt i \<Rightarrow> if 0 \<le> i \<and> i < 2 ^ 128 then True else unparsed
         | JBool b \<Rightarrow> True
         | _ \<Rightarrow> unparsed)"

definition check_entry :: "json \<Rightarrow> json result" where
  "check_entry v =
     (case v of
        JObj e \<Rightarrow>
          if \<not> set entry_fields \<subseteq> keys e then raise NetworkBoundaryError ''CONNECTION_RESOLUTION_ENTRY_INVALID''
          else if keys e \<noteq> set entry_fields then raise NetworkBoundaryError ''CONNECTION_RESOLUTION_ENTRY_FIELD_SET_INVALID''
          else if entry_mismatch e then raise NetworkBoundaryError ''CONNECTION_RESOLUTION_ENTRY_MISMATCH''
          else Inr (get e ''policy_status'')
      | _ \<Rightarrow> raise NetworkBoundaryError ''CONNECTION_RESOLUTION_ENTRY_INVALID'')"

definition list_items :: "json \<Rightarrow> json list" where
  "list_items v = (case v of JList xs \<Rightarrow> xs | _ \<Rightarrow> [])"

definition fields_of :: "json \<Rightarrow> dict" where
  "fields_of v = (case v of JObj d \<Rightarrow> d | _ \<Rightarrow> [])"

definition set_status :: "json list \<Rightarrow> string" where
  "set_status statuses =
     (if list_all (\<lambda>s. s = JStr ''ALLOWLISTED_PUBLIC'') statuses then ''ALL_ALLOWLISTED_PUBLIC'' else ''DENIED_MIXED'')"

text \<open>Membership in a set of values, which hashes all of them.\<close>

definition unhashable :: "json \<Rightarrow> bool" where
  "unhashable v = (is_list v \<or> is_obj v)"

definition in_values :: "json \<Rightarrow> json list \<Rightarrow> bool result" where
  "in_values v vs =
     (if list_ex unhashable vs \<or> unhashable v then raise TypeError ''unhashable type''
      else Inr (list_ex (py_eq v) vs))"

definition entry_ids :: "json list \<Rightarrow> json list" where
  "entry_ids addresses = map (\<lambda>e. get (fields_of e) ''resolution_entry_id'') addresses"

definition check_selected :: "dict \<Rightarrow> json list \<Rightarrow> json list \<Rightarrow> unit result" where
  "check_selected r addresses statuses =
     (let v = get r ''selected_target''; selected = fields_of v; ref = get selected ''resolution_entry_ref'' in
      if set_status statuses = ''ALL_ALLOWLISTED_PUBLIC'' then
        run_checks
          [denied_if_r (or_r (Inr (\<not> is_obj v)) (map_result Not (in_values ref (entry_ids addresses))))
             ''CONNECTION_SELECTED_TARGET_MISSING'',
           fails_if (\<not> has_key selected ''resolution_entry_ref'') KeyError ''resolution_entry_ref'',
           (let e = fields_of (hd (filter (\<lambda>e. py_eq (get (fields_of e) ''resolution_entry_id'') ref) addresses))
            in denied_if (list_ex (\<lambda>k. \<not> py_eq (get selected k) (get e k)) [''ip'', ''family'', ''policy_status''])
                 ''CONNECTION_SELECTED_TARGET_MISMATCH'')]
      else if v = JNull then Inr ()
      else run_checks
        [denied_if (\<not> is_obj v \<or> keys selected \<noteq> set [''resolution_entry_ref'', ''ip'', ''family'', ''policy_status'']
             \<or> get selected ''policy_status'' \<noteq> JStr ''ALLOWLISTED_PUBLIC'') ''CONNECTION_DENIED_SELECTION_INVALID'',
         denied_if (list_all (\<lambda>s. s \<noteq> JStr ''ALLOWLISTED_PUBLIC'') statuses) ''CONNECTION_DENIED_SELECTION_INVALID''])"

definition check_proxy :: "dict \<Rightarrow> unit result" where
  "check_proxy r =
     (let v = get r ''proxy''; proxy = fields_of v; mode = get proxy ''mode'' in run_checks
        [denied_if_r (or_r (Inr (\<not> is_obj v)) (not_in mode [''DIRECT'', ''EXPLICIT_PROXY'', ''DENY'']))
           ''CONNECTION_PROXY_INVALID'',
         denied_if (mode = JStr ''EXPLICIT_PROXY'' \<and> \<not> truthy (get proxy ''proxy_identity_ref''))
           ''CONNECTION_PROXY_IDENTITY_MISSING'',
         denied_if (mode \<noteq> JStr ''EXPLICIT_PROXY'' \<and> has_key proxy ''proxy_identity_ref'')
           ''CONNECTION_PROXY_IDENTITY_FORBIDDEN'',
         denied_if (\<not> keys proxy \<subseteq> {''mode'', ''proxy_identity_ref''}) ''CONNECTION_PROXY_FIELD_SET_INVALID''])"

definition tls_required :: "string list" where
  "tls_required =
     [''scheme'', ''sni'', ''certificate_fingerprint'', ''identity_status'', ''expected_identity_ref'',
      ''verified_identity_ref'', ''identity_binding_fingerprint'']"

definition expected_sni :: "string \<Rightarrow> string" where
  "expected_sni authority =
     (if startswith authority ''['' \<and> endswith authority '']'' then butlast (tl authority) else authority)"

definition is_text :: "json \<Rightarrow> bool result" where
  "is_text v = (if is_str v then Inr True else raise AttributeError ''startswith'')"

definition str_value :: "json \<Rightarrow> string" where
  "str_value v = (case v of JStr s \<Rightarrow> s | _ \<Rightarrow> [])"

definition certificate_fingerprint :: "json \<Rightarrow> json \<Rightarrow> string" where
  "certificate_fingerprint authority status = sha256_json (JObj [(''authority'', authority), (''tls'', status)])"

definition identity_fingerprint :: "json \<Rightarrow> json \<Rightarrow> string" where
  "identity_fingerprint authority status = sha256_json (JObj [(''authority'', authority), (''status'', status)])"

definition check_tls :: "dict \<Rightarrow> unit result" where
  "check_tls r =
     (let v = get r ''tls''; tls = fields_of v; status = get tls ''identity_status'';
          authority = get r ''normalized_authority'';
          matched = py_eq (get tls ''verified_identity_ref'') (get tls ''expected_identity_ref'') in run_checks
        [denied_if_r (or_r (Inr (\<not> is_obj v \<or> keys tls \<noteq> set tls_required \<or> get tls ''scheme'' \<noteq> JStr ''HTTPS''))
             (not_in status [''MATCHED'', ''MISMATCHED''])) ''CONNECTION_TLS_INVALID'',
         denied_if_r (map_result Not (is_text authority)) '''',
         denied_if (get tls ''sni'' \<noteq> JStr (expected_sni (str_value authority))
             \<or> \<not> py_eq (get tls ''expected_identity_ref'') (get r ''destination_identity_ref''))
           ''CONNECTION_TLS_IDENTITY_BINDING_INVALID'',
         denied_if (get tls ''certificate_fingerprint'' \<noteq> JStr (certificate_fingerprint authority status))
           ''CONNECTION_TLS_CERTIFICATE_FINGERPRINT_INVALID'',
         denied_if (get tls ''identity_binding_fingerprint'' \<noteq> JStr (identity_fingerprint authority status))
           ''CONNECTION_TLS_FINGERPRINT_INVALID'',
         denied_if (status = JStr ''MATCHED'' \<and> \<not> matched) ''CONNECTION_TLS_VERIFIED_IDENTITY_INVALID'',
         denied_if (status = JStr ''MISMATCHED'' \<and> matched) ''CONNECTION_TLS_MISMATCH_NOT_PROVEN''])"

text \<open>Python's \<^verbatim>\<open><\<close> on the values of a record, and adding one.\<close>

definition number_of :: "json \<Rightarrow> int option" where
  "number_of v = (case v of JInt i \<Rightarrow> Some i | JBool b \<Rightarrow> Some (of_bool b) | _ \<Rightarrow> None)"

fun py_lt :: "json \<Rightarrow> json \<Rightarrow> bool result"
and py_lt_list :: "json list \<Rightarrow> json list \<Rightarrow> bool result" where
  "py_lt v w =
     (case (v, w) of
        (JStr s, JStr t) \<Rightarrow> Inr (s < t)
      | (JList xs, JList ys) \<Rightarrow> py_lt_list xs ys
      | _ \<Rightarrow> (case (number_of v, number_of w) of
                (Some i, Some j) \<Rightarrow> Inr (i < j)
              | _ \<Rightarrow> raise TypeError ''not supported between instances''))"
| "py_lt_list [] ys = Inr (ys \<noteq> [])"
| "py_lt_list (x # xs) ys =
     (case ys of [] \<Rightarrow> Inr False | y # ys \<Rightarrow> if py_eq x y then py_lt_list xs ys else py_lt x y)"

declare py_lt.simps [simp del]

definition py_add1 :: "json \<Rightarrow> json result" where
  "py_add1 v = (case number_of v of Some i \<Rightarrow> Inr (JInt (i + 1)) | None \<Rightarrow> raise TypeError ''unsupported operand'')"

definition differs :: "json \<Rightarrow> json result \<Rightarrow> bool result" where
  "differs v r = map_result (\<lambda>w. \<not> py_eq v w) r"

definition event_required :: "string list" where
  "event_required =
     [''sequence'', ''event_type'', ''observed_at'', ''result'', ''prior_connection_epoch'', ''connection_epoch'',
      ''prior_invalidation_epoch'', ''invalidation_epoch'']"

definition check_epochs :: "dict \<Rightarrow> unit result" where
  "check_epochs e =
     (let c = get e ''connection_epoch''; pc = get e ''prior_connection_epoch'';
          i = get e ''invalidation_epoch''; pi = get e ''prior_invalidation_epoch'' in
      if get e ''event_type'' = JStr ''INITIAL_RESOLUTION'' then
        denied_if (\<not> py_eq pc c \<or> \<not> py_eq pi i) ''CONNECTION_INITIAL_EPOCH_INVALID''
      else if get e ''event_type'' = JStr ''POLICY_EPOCH_CHANGE'' then
        denied_if_r (or_r (Inr (\<not> py_eq c pc)) (differs i (py_add1 pi))) ''CONNECTION_POLICY_EPOCH_INVALID''
      else denied_if_r (or_r (differs c (py_add1 pc)) (Inr (\<not> py_eq i pi))) ''CONNECTION_REVALIDATION_EPOCH_INVALID'')"

definition check_event :: "nat \<Rightarrow> json \<Rightarrow> json \<Rightarrow> unit result" where
  "check_event index previous_time v =
     (let e = fields_of v in run_checks
        [denied_if (\<not> is_obj v \<or> \<not> keys e \<subseteq> set event_required \<union> {''reason_class''} \<or> \<not> set event_required \<subseteq> keys e)
           ''CONNECTION_REVALIDATION_EVENT_INVALID'',
         denied_if_r (and_r (Inr (has_key e ''reason_class''))
             (not_in (get e ''reason_class'') [''NONE'', ''EXACT_BINDING_MISSING''])) ''CONNECTION_REVALIDATION_REASON_INVALID'',
         denied_if (\<not> py_eq (get e ''sequence'') (JInt (int index))) ''CONNECTION_REVALIDATION_SEQUENCE_INVALID'',
         denied_if (index = 0 \<and> get e ''event_type'' \<noteq> JStr ''INITIAL_RESOLUTION'') ''CONNECTION_INITIAL_EVENT_INVALID'',
         denied_if_r (and_r (Inr (previous_time \<noteq> JNull)) (py_lt (get e ''observed_at'') previous_time))
           ''CONNECTION_REVALIDATION_TIME_INVALID'',
         check_epochs e])"

fun check_events :: "nat \<Rightarrow> json \<Rightarrow> json list \<Rightarrow> unit result" where
  "check_events index previous_time [] = Inr ()"
| "check_events index previous_time (v # vs) =
     bind_result (check_event index previous_time v) (\<lambda>_. check_events (Suc index) (get (fields_of v) ''observed_at'') vs)"

definition binding_fingerprint :: "dict \<Rightarrow> string" where
  "binding_fingerprint r = sha256_json (JObj (without [''binding_fingerprint''] r))"

definition check_final :: "dict \<Rightarrow> string \<Rightarrow> unit result" where
  "check_final r expected =
     (let final = fields_of (last (list_items (get r ''revalidation_events''))) in run_checks
        [denied_if (\<not> py_eq (get r ''connection_epoch'') (get final ''connection_epoch'')
             \<or> \<not> py_eq (get r ''invalidation_epoch'') (get final ''invalidation_epoch'')) ''CONNECTION_FINAL_EPOCH_MISMATCH'',
         denied_if (get r ''binding_status'' = JStr ''VALIDATED''
             \<and> (expected \<noteq> ''ALL_ALLOWLISTED_PUBLIC'' \<or> get r ''selected_target'' = JNull
                \<or> get (fields_of (get r ''tls'')) ''identity_status'' \<noteq> JStr ''MATCHED''
                \<or> get final ''result'' \<noteq> JStr ''MATCHED'')) ''CONNECTION_VALIDATED_STATE_INVALID''])"

definition binding_head :: "dict \<Rightarrow> unit result" where
  "binding_head r = run_checks
     [denied_if (\<not> set binding_required \<subseteq> keys r) ''CONNECTION_BINDING_FIELD_MISSING'',
      denied_if (get r ''record_type'' \<noteq> JStr ''PMIRI_D2_CONNECTION_BINDING'' \<or> get r ''schema_version'' \<noteq> JStr ''0.3'')
        ''CONNECTION_BINDING_SCHEMA_INVALID'',
      denied_if (keys r \<noteq> set binding_required \<or> \<not> nonempty_str (get r ''destination_identity_ref''))
        ''CONNECTION_BINDING_FIELD_SET_INVALID'',
      denied_if (get r ''canonicalization_profile_id'' \<noteq> JStr CANONICALIZATION_PROFILE_ID
          \<or> get r ''canonicalization_profile_fingerprint'' \<noteq> JStr CANONICALIZATION_PROFILE_FINGERPRINT)
        ''CANONICALIZATION_PROFILE_MISMATCH'',
      denied_if (\<not> is_sha256 (get r ''binding_fingerprint'') \<or> get r ''binding_fingerprint'' \<noteq> JStr (binding_fingerprint r))
        ''CONNECTION_BINDING_FINGERPRINT_INVALID'',
      denied_if_r (not_in (get r ''resolution_set_status'') [''ALL_ALLOWLISTED_PUBLIC'', ''DENIED_MIXED''])
        ''CONNECTION_RESOLUTION_SET_INVALID'',
      denied_if_r (not_in (get r ''binding_status'') [''VALIDATED'', ''DENIED'', ''STALE''])
        ''CONNECTION_BINDING_STATUS_INVALID'',
      denied_if (\<not> int_at_least 0 (get r ''connection_epoch'') \<or> \<not> int_at_least 0 (get r ''invalidation_epoch''))
        ''CONNECTION_EPOCH_INVALID'']"

definition validate_connection_binding :: "dict \<Rightarrow> unit result" where
  "validate_connection_binding r =
     (let addresses = list_items (get r ''resolved_addresses'');
          statuses = map (\<lambda>e. get (fields_of e) ''policy_status'') addresses;
          expected = set_status statuses;
          events = list_items (get r ''revalidation_events'') in run_checks
        [binding_head r,
         denied_if (addresses = []) ''CONNECTION_RESOLUTION_EMPTY'',
         map_result (\<lambda>_. ()) (traverse check_entry addresses),
         denied_if (get r ''resolution_set_status'' \<noteq> JStr expected) ''CONNECTION_RESOLUTION_SET_MISMATCH'',
         check_selected r addresses statuses,
         check_proxy r,
         check_tls r,
         denied_if (events = []) ''CONNECTION_REVALIDATION_EMPTY'',
         check_events 0 JNull events,
         check_final r expected])"

section \<open>Building a connection binding\<close>

record binding_args =
  ba_endpoint :: string
  ba_addresses :: json
  ba_observed_at :: string
  ba_connection_epoch :: int
  ba_invalidation_epoch :: int
  ba_tls_identity_status :: string
  ba_final_revalidation_result :: string
  ba_resolver_ref :: string
  ba_destination_identity_ref :: "string option"
  ba_proxy_mode :: string
  ba_proxy_identity_ref :: "string option"
  ba_execution_enabled :: bool

definition entry_id :: "normalized_target \<Rightarrow> nat \<Rightarrow> string" where
  "entry_id t index = ''resolution://'' @ take 24 (nt_fingerprint t) @ ''/'' @ show_nat index"

definition entry_json :: "normalized_target \<Rightarrow> string \<Rightarrow> nat \<Rightarrow> resolution_entry \<Rightarrow> dict" where
  "entry_json t observed_at index e =
     [(''resolution_entry_id'', JStr (entry_id t index)), (''ip'', JStr (re_ip e)), (''family'', JStr (re_family e)),
      (''policy_status'', JStr (re_policy_status e)), (''observed_at'', JStr observed_at),
      (''allowlist_ref'', JStr ''allowlist://public-addresses'')]"

definition entries_json :: "normalized_target \<Rightarrow> string \<Rightarrow> resolution_entry list \<Rightarrow> json list" where
  "entries_json t observed_at entries = map (\<lambda>(i, e). JObj (entry_json t observed_at i e)) (enumerate 0 entries)"

definition all_public :: "resolution_entry list \<Rightarrow> bool" where
  "all_public entries = (entries \<noteq> [] \<and> list_all (\<lambda>e. re_policy_status e = ''ALLOWLISTED_PUBLIC'') entries)"

definition binding_outcome :: "binding_args \<Rightarrow> resolution_entry list \<Rightarrow> string \<times> string" where
  "binding_outcome a entries =
     (if \<not> all_public entries then (''DENIED'', ''DENIED'')
      else if ba_tls_identity_status a \<noteq> ''MATCHED'' then (''DENIED'', ''MISMATCHED'')
      else if ba_final_revalidation_result a \<noteq> ''MATCHED'' then (''STALE'', ''MISMATCHED'')
      else if \<not> ba_execution_enabled a then (''DENIED'', ''DENIED'')
      else (''VALIDATED'', ''MATCHED''))"

definition selected_json :: "normalized_target \<Rightarrow> resolution_entry list \<Rightarrow> json" where
  "selected_json t entries =
     (if all_public entries then
        (let e = hd entries in JObj
           [(''resolution_entry_ref'', JStr (entry_id t 0)), (''ip'', JStr (re_ip e)), (''family'', JStr (re_family e)),
            (''policy_status'', JStr (re_policy_status e))])
      else JNull)"

definition proxy_json :: "binding_args \<Rightarrow> json" where
  "proxy_json a = JObj ((''mode'', JStr (ba_proxy_mode a)) #
     (case ba_proxy_identity_ref a of None \<Rightarrow> [] | Some p \<Rightarrow> if p = [] then [] else [(''proxy_identity_ref'', JStr p)]))"

definition tls_json :: "binding_args \<Rightarrow> normalized_target \<Rightarrow> string \<Rightarrow> json" where
  "tls_json a t destination =
     (let authority = JStr (nt_authority t); status = JStr (ba_tls_identity_status a) in JObj
        [(''scheme'', JStr ''HTTPS''), (''sni'', JStr (nt_host t)),
         (''certificate_fingerprint'', JStr (certificate_fingerprint authority status)),
         (''identity_status'', status), (''expected_identity_ref'', JStr destination),
         (''verified_identity_ref'',
           JStr (if ba_tls_identity_status a = ''MATCHED'' then destination else ''identity://mismatch'')),
         (''identity_binding_fingerprint'', JStr (identity_fingerprint authority status))])"

definition initial_event :: "binding_args \<Rightarrow> string \<Rightarrow> json" where
  "initial_event a event_result = JObj
     [(''sequence'', JInt 0), (''event_type'', JStr ''INITIAL_RESOLUTION''), (''observed_at'', JStr (ba_observed_at a)),
      (''result'', JStr event_result),
      (''prior_connection_epoch'', JInt (ba_connection_epoch a)), (''connection_epoch'', JInt (ba_connection_epoch a)),
      (''prior_invalidation_epoch'', JInt (ba_invalidation_epoch a)),
      (''invalidation_epoch'', JInt (ba_invalidation_epoch a)),
      (''reason_class'', JStr (if event_result = ''MATCHED'' then ''NONE'' else ''EXACT_BINDING_MISSING''))]"

definition destination_of :: "binding_args \<Rightarrow> normalized_target \<Rightarrow> string" where
  "destination_of a t =
     (case ba_destination_identity_ref a of
        Some d \<Rightarrow> if d = [] then ''destination://'' @ nt_authority t else d
      | None \<Rightarrow> ''destination://'' @ nt_authority t)"

definition binding_record :: "binding_args \<Rightarrow> normalized_target \<Rightarrow> resolution_entry list \<Rightarrow> dict" where
  "binding_record a t entries =
     (let outcome = binding_outcome a entries in
      [(''record_type'', JStr ''PMIRI_D2_CONNECTION_BINDING''),
       (''schema_version'', JStr ''0.3''),
       (''connection_binding_id'', JStr (''connection://'' @ take 32 (nt_fingerprint t))),
       (''destination_identity_ref'', JStr (destination_of a t)),
       (''canonicalization_profile_id'', JStr CANONICALIZATION_PROFILE_ID),
       (''canonicalization_profile_fingerprint'', JStr CANONICALIZATION_PROFILE_FINGERPRINT),
       (''normalized_authority'', JStr (nt_authority t)),
       (''resolver_ref'', JStr (ba_resolver_ref a)),
       (''resolved_addresses'', JList (entries_json t (ba_observed_at a) entries)),
       (''resolution_set_status'', JStr (if all_public entries then ''ALL_ALLOWLISTED_PUBLIC'' else ''DENIED_MIXED'')),
       (''selected_target'', selected_json t entries),
       (''proxy'', proxy_json a),
       (''tls'', tls_json a t (destination_of a t)),
       (''revalidation_events'', JList [initial_event a (snd outcome)]),
       (''connection_epoch'', JInt (ba_connection_epoch a)),
       (''invalidation_epoch'', JInt (ba_invalidation_epoch a)),
       (''binding_status'', JStr (fst outcome))])"

definition binding_guards :: "binding_args \<Rightarrow> unit result" where
  "binding_guards a = run_checks
     [denied_if (ba_proxy_mode a \<notin> set [''DIRECT'', ''EXPLICIT_PROXY'', ''DENY'']) ''PROXY_MODE_INVALID'',
      denied_if (ba_proxy_mode a = ''EXPLICIT_PROXY'' \<and> ba_proxy_identity_ref a \<in> {None, Some []}) ''PROXY_IDENTITY_MISSING'',
      denied_if (ba_proxy_mode a \<noteq> ''EXPLICIT_PROXY'' \<and> ba_proxy_identity_ref a \<noteq> None) ''PROXY_IDENTITY_FORBIDDEN'',
      denied_if (ba_connection_epoch a < 0 \<or> ba_invalidation_epoch a < 0) ''CONNECTION_EPOCH_INVALID'',
      denied_if (ba_tls_identity_status a \<notin> set [''MATCHED'', ''MISMATCHED'']
          \<or> ba_final_revalidation_result a \<notin> set [''MATCHED'', ''MISMATCHED'', ''DENIED'']) ''REVALIDATION_RESULT_INVALID'']"

definition build_connection_binding :: "url_tables \<Rightarrow> binding_args \<Rightarrow> dict result" where
  "build_connection_binding T a =
     bind_result (normalize_url T (ba_endpoint a)) (\<lambda>t.
       if \<not> is_list (ba_addresses a) \<or> \<not> list_all is_str (list_items (ba_addresses a))
       then boundary_error ''RESOLUTION_SET_INVALID''
       else
         (let entries = map (resolve_entry \<circ> str_value) (list_items (ba_addresses a));
              fields = binding_record a t entries;
              r = fields @ [(''binding_fingerprint'', JStr (sha256_json (JObj fields)))] in
          bind_result (binding_guards a) (\<lambda>_.
          bind_result (validate_connection_binding r) (\<lambda>_. Inr r))))"

section \<open>The boundary\<close>

record resource_limits =
  rs_max_redirect_hops :: int
  rs_max_response_bytes :: int
  rs_max_decompressed_bytes :: int
  rs_max_compression_ratio :: int
  rs_max_header_bytes :: int
  rs_max_url_length :: int
  rs_connect_timeout_ms :: int
  rs_read_timeout_ms :: int
  rs_total_timeout_ms :: int
  rs_max_concurrent_fetches :: int

definition default_limits :: resource_limits where
  "default_limits =
     \<lparr>rs_max_redirect_hops = 5, rs_max_response_bytes = 10 * 1024 * 1024, rs_max_decompressed_bytes = 50 * 1024 * 1024,
      rs_max_compression_ratio = 100, rs_max_header_bytes = 65536, rs_max_url_length = 8192, rs_connect_timeout_ms = 5000,
      rs_read_timeout_ms = 15000, rs_total_timeout_ms = 30000, rs_max_concurrent_fetches = 8\<rparr>"

definition limits_fingerprint :: "resource_limits \<Rightarrow> string" where
  "limits_fingerprint l = sha256_json (JObj
     [(''max_redirect_hops'', JInt (rs_max_redirect_hops l)), (''max_response_bytes'', JInt (rs_max_response_bytes l)),
      (''max_decompressed_bytes'', JInt (rs_max_decompressed_bytes l)),
      (''max_compression_ratio'', JInt (rs_max_compression_ratio l)), (''max_header_bytes'', JInt (rs_max_header_bytes l)),
      (''max_url_length'', JInt (rs_max_url_length l)), (''connect_timeout_ms'', JInt (rs_connect_timeout_ms l)),
      (''read_timeout_ms'', JInt (rs_read_timeout_ms l)), (''total_timeout_ms'', JInt (rs_total_timeout_ms l)),
      (''max_concurrent_fetches'', JInt (rs_max_concurrent_fetches l))])"

record network_decision =
  nd_operation :: string
  nd_action_result :: string
  nd_reason_class :: string
  nd_normalized_target :: "normalized_target option"
  nd_resolution_set_status :: string
  nd_connection_binding_status :: string

definition network_decision_dict :: "network_decision \<Rightarrow> dict" where
  "network_decision_dict d =
     [(''operation'', JStr (nd_operation d)), (''action_result'', JStr (nd_action_result d)),
      (''reason_class'', JStr (nd_reason_class d)), (''normalized_target'', jopt (map_option safe_url (nd_normalized_target d))),
      (''resolution_set_status'', JStr (nd_resolution_set_status d)),
      (''connection_binding_status'', JStr (nd_connection_binding_status d))]"

definition deny_network :: "string \<Rightarrow> string \<Rightarrow> normalized_target option \<Rightarrow> network_decision" where
  "deny_network operation reason target =
     \<lparr>nd_operation = operation, nd_action_result = ''DENY'', nd_reason_class = reason, nd_normalized_target = target,
      nd_resolution_set_status = ''DENIED_MIXED'', nd_connection_binding_status = ''DENIED''\<rparr>"

definition ALLOWED_OPERATIONS :: "string list" where
  "ALLOWED_OPERATIONS = [''provider_call'', ''connector_fetch'', ''attachment_fetch'', ''external_fetch'']"

definition boundary_evaluate :: "url_tables \<Rightarrow> string \<Rightarrow> string \<Rightarrow> network_decision" where
  "boundary_evaluate T operation url =
     (if operation \<notin> set ALLOWED_OPERATIONS then deny_network operation ''INTERNAL_CONTRACT_INVALID'' None
      else (case normalize_url T url of
              Inl e \<Rightarrow> deny_network operation (snd e) None
            | Inr target \<Rightarrow> deny_network operation ''OUTBOUND_NETWORK_DISABLED'' (Some target)))"

definition boundary_fetch :: "url_tables \<Rightarrow> string \<Rightarrow> string \<Rightarrow> string result" where
  "boundary_fetch T operation url =
     boundary_error (nd_reason_class (boundary_evaluate T operation url) @ '': external fetch is not authorized in S0'')"

definition validate_redirects :: "url_tables \<Rightarrow> string list \<Rightarrow> int \<Rightarrow> normalized_target list result" where
  "validate_redirects T urls max_hops =
     (if max_hops + 1 < int (length urls) \<or> \<not> distinct urls then boundary_error ''REDIRECT_UNAUTHORIZED''
      else bind_result (traverse (normalize_url T) urls) (\<lambda>targets.
        if list_ex (\<lambda>(p, c). nt_scheme p \<noteq> nt_scheme c) (zip targets (tl targets)) then boundary_error ''REDIRECT_UNAUTHORIZED''
        else Inr targets))"

text \<open>The compression ratio is compared as an integer.\<close>

definition validate_response :: "resource_limits \<Rightarrow> int \<Rightarrow> int \<Rightarrow> int \<Rightarrow> int \<Rightarrow> string option \<Rightarrow> unit result" where
  "validate_response limits response_bytes decompressed_bytes compression_ratio header_bytes content_type = run_checks
     [denied_if (rs_max_response_bytes limits < response_bytes \<or> rs_max_decompressed_bytes limits < decompressed_bytes)
        ''RESOURCE_LIMIT_EXCEEDED'',
      denied_if (rs_max_compression_ratio limits < compression_ratio \<or> rs_max_header_bytes limits < header_bytes)
        ''RESOURCE_LIMIT_EXCEEDED'',
      denied_if (content_type \<notin> Some ` set [''text/plain'', ''text/markdown'', ''application/json'']) ''CONTENT_TYPE_DISALLOWED'']"

section \<open>Supplied resolver answers\<close>

record resolution_decision =
  rd_normalized_target :: string
  rd_entries :: "resolution_entry list"
  rd_resolution_set_status :: string
  rd_selected_target :: "resolution_entry option"
  rd_action_result :: string
  rd_reason_class :: string

definition evaluate_resolution :: "url_tables \<Rightarrow> string \<Rightarrow> string list \<Rightarrow> resolution_decision result" where
  "evaluate_resolution T url addresses =
     bind_result (normalize_url T url) (\<lambda>t.
       (let entries = map resolve_entry addresses;
            decision = (\<lambda>status selected reason.
              \<lparr>rd_normalized_target = safe_url t, rd_entries = entries, rd_resolution_set_status = status,
               rd_selected_target = selected, rd_action_result = ''DENY'', rd_reason_class = reason\<rparr>)
        in Inr (if entries = [] then decision ''DENIED_MIXED'' None ''DNS_UNVALIDATED''
                else if \<not> list_all (\<lambda>e. re_policy_status e = ''ALLOWLISTED_PUBLIC'') entries
                  then decision ''DENIED_MIXED'' None ''PRIVATE_OR_UNAPPROVED_ADDRESS''
                else decision ''ALL_ALLOWLISTED_PUBLIC'' (Some (hd entries)) ''OUTBOUND_NETWORK_DISABLED'')))"

section \<open>What a validated binding guarantees\<close>

lemma check_entry_passes:
  "check_entry v = Inr status \<longleftrightarrow>
     (\<exists>e. v = JObj e \<and> keys e = set entry_fields \<and> \<not> entry_mismatch e \<and> status = get e ''policy_status'')"
  by (cases v) (auto simp: check_entry_def)

text \<open>An entry that passes as public is the canonical text of a public address.\<close>

lemma public_entry:
  assumes "\<not> entry_mismatch e" "get e ''policy_status'' = JStr ''ALLOWLISTED_PUBLIC''"
  obtains s p where "get e ''ip'' = JStr s" "ip_address s = Some p" "compressed p = s"
    "get e ''family'' = JStr (family_of p)" "classify_address s = ''ALLOWLISTED_PUBLIC''"
  using assms by (auto simp: entry_mismatch_def Let_def split: json.splits option.splits if_splits)

lemma py_eq_JStr_left [simp]: "py_eq (JStr s) v \<longleftrightarrow> v = JStr s"
  by simp

lemma py_eq_hashable: "\<not> unhashable v \<Longrightarrow> py_eq v w = py_eq w v"
  by (cases v; cases w) (auto simp: unhashable_def is_list_def is_obj_def)

lemma is_obj_fields: "is_obj v \<Longrightarrow> v = JObj (fields_of v)"
  by (cases v) (auto simp: is_obj_def fields_of_def)

lemma set_status_simps: "set_status xs = ''ALL_ALLOWLISTED_PUBLIC'' \<longleftrightarrow> list_all (\<lambda>s. s = JStr ''ALLOWLISTED_PUBLIC'') xs"
  by (simp add: set_status_def)

lemma selected_is_entry:
  assumes "check_selected r addresses statuses = Inr ()" "set_status statuses = ''ALL_ALLOWLISTED_PUBLIC''"
  obtains sel e where "get r ''selected_target'' = JObj sel" "e \<in> set addresses"
    "\<forall>k \<in> {''ip'', ''family'', ''policy_status''}. py_eq (get sel k) (get (fields_of e) k)"
proof -
  define sel where "sel = fields_of (get r ''selected_target'')"
  define P where "P = (\<lambda>e. py_eq (get (fields_of e) ''resolution_entry_id'') (get sel ''resolution_entry_ref''))"
  from assms have c: "is_obj (get r ''selected_target'')"
    "in_values (get sel ''resolution_entry_ref'') (entry_ids addresses) = Inr True"
    "\<forall>k \<in> {''ip'', ''family'', ''policy_status''}. py_eq (get sel k) (get (fields_of (hd (filter P addresses))) k)"
    unfolding check_selected_def Let_def sel_def [symmetric] P_def [symmetric]
    by (auto simp: check_simps map_result_Inr_iff)
  from c(2) obtain e where "e \<in> set addresses" "P e"
    by (auto simp: in_values_def entry_ids_def list_ex_iff P_def py_eq_hashable split: if_splits)
  then have "filter P addresses \<noteq> []" by (auto simp: filter_empty_conv)
  then have "hd (filter P addresses) \<in> set addresses" using hd_in_set [of "filter P addresses"] by auto
  with that [OF _ this] c(1,3) is_obj_fields [OF c(1)] show thesis unfolding sel_def by blast
qed

lemma validated_parts:
  assumes "validate_connection_binding r = Inr ()"
  defines "addresses \<equiv> list_items (get r ''resolved_addresses'')"
  defines "statuses \<equiv> map (\<lambda>e. get (fields_of e) ''policy_status'') addresses"
  shows "binding_head r = Inr ()" "addresses \<noteq> []"
    and "get r ''resolved_addresses'' = JList (map JObj (map fields_of addresses))"
    and "\<forall>e \<in> set (map fields_of addresses). keys e = set entry_fields \<and> \<not> entry_mismatch e"
    and "get r ''resolution_set_status'' = JStr (set_status statuses)"
    and "check_selected r addresses statuses = Inr ()" "check_proxy r = Inr ()" "check_tls r = Inr ()"
    and "check_events 0 JNull (list_items (get r ''revalidation_events'')) = Inr ()"
    and "check_final r (set_status statuses) = Inr ()"
proof -
  note checks = assms(1) [unfolded validate_connection_binding_def Let_def, folded addresses_def, folded statuses_def]
  from checks show h: "binding_head r = Inr ()" "addresses \<noteq> []" "get r ''resolution_set_status'' = JStr (set_status statuses)"
    "check_selected r addresses statuses = Inr ()" "check_proxy r = Inr ()" "check_tls r = Inr ()"
    "check_events 0 JNull (list_items (get r ''revalidation_events'')) = Inr ()"
    "check_final r (set_status statuses) = Inr ()"
    by (simp_all add: check_simps)
  from checks obtain ss where ss: "traverse check_entry addresses = Inr ss"
    by (auto simp: map_result_Inr_iff)
  have each: "v = JObj (fields_of v) \<and> keys (fields_of v) = set entry_fields \<and> \<not> entry_mismatch (fields_of v)"
    if "v \<in> set addresses" for v
  proof -
    from that obtain i where "i < length addresses" "v = addresses ! i" by (auto simp: in_set_conv_nth)
    with ss have "check_entry v = Inr (ss ! i)" by (simp add: traverse_Inr_iff)
    then obtain e where "v = JObj e" "keys e = set entry_fields" "\<not> entry_mismatch e"
      unfolding check_entry_passes by blast
    then show ?thesis by (simp add: fields_of_def)
  qed
  have "map JObj (map fields_of addresses) = addresses"
    unfolding map_map by (rule map_idI, unfold o_apply) (metis each)
  with h(2) show "get r ''resolved_addresses'' = JList (map JObj (map fields_of addresses))"
    unfolding addresses_def list_items_def by (auto split: json.splits)
  show "\<forall>e \<in> set (map fields_of addresses). keys e = set entry_fields \<and> \<not> entry_mismatch e" using each by auto
qed

text \<open>An answer that names a public address in its canonical text.\<close>

definition public_answer :: "dict \<Rightarrow> bool" where
  "public_answer e =
     (case get e ''ip'' of
        JStr s \<Rightarrow>
          (case ip_address s of
             Some p \<Rightarrow> compressed p = s \<and> is_global p \<and> \<not> is_private p \<and> \<not> is_loopback p \<and> \<not> is_link_local p
                       \<and> \<not> is_unspecified p \<and> \<not> is_multicast p \<and> \<not> is_reserved p
           | None \<Rightarrow> False)
      | _ \<Rightarrow> False)"

lemma public_entry_answer:
  assumes "\<not> entry_mismatch e" "get e ''policy_status'' = JStr ''ALLOWLISTED_PUBLIC''"
  shows "public_answer e"
proof -
  obtain s p where "get e ''ip'' = JStr s" "ip_address s = Some p" "compressed p = s" "classify_address s = ''ALLOWLISTED_PUBLIC''"
    by (rule public_entry [OF assms]) blast
  then show ?thesis by (auto simp: public_answer_def classify_address_def split: if_splits)
qed

text \<open>
  C29. A connection binding that validates with the status VALIDATED binds what it claims: every resolved
  address is the canonical text of a public address, the selected address is one of them, the TLS identity
  that was verified is the destination the record names, its fingerprint is that of the record, and the
  last revalidation event matched at the record's epochs.
\<close>

theorem validated_binding_sound:
  assumes "validate_connection_binding r = Inr ()" "get r ''binding_status'' = JStr ''VALIDATED''"
  shows "\<exists>entries sel tls. get r ''resolved_addresses'' = JList (map JObj entries) \<and> entries \<noteq> []
    \<and> list_all public_answer entries
    \<and> get r ''selected_target'' = JObj sel \<and> get sel ''ip'' \<in> (\<lambda>e. get e ''ip'') ` set entries
    \<and> get r ''tls'' = JObj tls \<and> get tls ''identity_status'' = JStr ''MATCHED''
    \<and> get tls ''verified_identity_ref'' = get r ''destination_identity_ref''
    \<and> get tls ''sni'' = JStr (expected_sni (str_value (get r ''normalized_authority'')))
    \<and> get r ''binding_fingerprint'' = JStr (binding_fingerprint r)
    \<and> (let final = fields_of (last (list_items (get r ''revalidation_events''))) in
         get final ''result'' = JStr ''MATCHED'' \<and> py_eq (get r ''connection_epoch'') (get final ''connection_epoch'')
         \<and> py_eq (get r ''invalidation_epoch'') (get final ''invalidation_epoch''))"
proof -
  let ?A = "list_items (get r ''resolved_addresses'')"
  let ?S = "map (\<lambda>e. get (fields_of e) ''policy_status'') ?A"
  note v = validated_parts [OF assms(1)]
  from v(10) assms(2) have f: "set_status ?S = ''ALL_ALLOWLISTED_PUBLIC''"
    "get (fields_of (get r ''tls'')) ''identity_status'' = JStr ''MATCHED''"
    "let final = fields_of (last (list_items (get r ''revalidation_events''))) in
         get final ''result'' = JStr ''MATCHED'' \<and> py_eq (get r ''connection_epoch'') (get final ''connection_epoch'')
         \<and> py_eq (get r ''invalidation_epoch'') (get final ''invalidation_epoch'')"
    by (simp_all add: check_final_def Let_def check_simps)
  have pub: "public_answer e" if "e \<in> set (map fields_of ?A)" for e
    using that f(1) v(4) public_entry_answer [of e] by (auto simp: set_status_simps list_all_iff)
  obtain sel e where sel: "get r ''selected_target'' = JObj sel" "e \<in> set ?A" "py_eq (get sel ''ip'') (get (fields_of e) ''ip'')"
    by (rule selected_is_entry [OF v(6) f(1)]) blast
  from sel(2) pub [of "fields_of e"] obtain s where "get (fields_of e) ''ip'' = JStr s"
    by (auto simp: public_answer_def split: json.splits)
  with sel(3) have ip: "get sel ''ip'' = get (fields_of e) ''ip''" by simp
  from v(1) obtain d where d: "get r ''destination_identity_ref'' = JStr d"
    by (auto simp: binding_head_def check_simps dest: nonempty_strE)
  from v(8) have t: "is_obj (get r ''tls'')"
    "get (fields_of (get r ''tls'')) ''sni'' = JStr (expected_sni (str_value (get r ''normalized_authority'')))"
    "get (fields_of (get r ''tls'')) ''verified_identity_ref'' = get r ''destination_identity_ref''"
    using f(2) d by (auto simp: check_tls_def Let_def check_simps)
  have fp: "get r ''binding_fingerprint'' = JStr (binding_fingerprint r)"
    using v(1) by (simp add: binding_head_def check_simps)
  show ?thesis
    using v(2,3) pub sel(1,2) ip is_obj_fields [OF t(1)] t(2,3) f(2,3) fp
    by (intro exI [of _ "map fields_of ?A"] exI [of _ sel] exI [of _ "fields_of (get r ''tls'')"]) (auto simp: list_all_iff)
qed

section \<open>A built binding validates\<close>

lemma host_no_bracket:
  assumes "normalize_host T s = Inr h"
  shows "\<not> startswith h ''[''"
proof (cases "ip_address s")
  case None
  with assms have "h \<noteq> []" "list_all label_ok (split_on CHR ''.'' h)"
    by (auto simp: normalize_host_def boundary_error_def result_simps split: if_splits option.splits)
  then have "c \<in> set h \<Longrightarrow> label_char c \<or> c = CHR ''.''" for c
    using set_join [of "''.''" "split_on CHR ''.'' h"] join_split_on [of "CHR ''.''" h]
    by (fastforce simp: list_all_iff label_ok_def)
  with label_char_facts [of "CHR ''[''"] have "CHR ''['' \<notin> set h" by auto
  then show ?thesis by (cases h) (auto simp: startswith_Cons)
next
  case (Some p)
  with assms have h: "h = compressed p" by (simp add: normalize_host_def)
  show ?thesis
  proof (cases p)
    case (IPv4 v)
    have "list_all host_char h" using compressed_chars [of p] IPv4 h by simp
    with host_char_facts [of "CHR ''[''"] show ?thesis by (cases h) (auto simp: startswith_Cons)
  next
    case (IPv6 v z)
    let ?t = "compressed (IPv6 v None)"
    have wf: "wf_ip (IPv6 v z)" using ip_address_wf [OF Some] IPv6 by simp
    have "ip_address ?t = Some (IPv6 v None)" by (rule ip_roundtrip [OF wf])
    from ipv6_text [OF this] have "?t \<noteq> []" by auto
    moreover have "list_all host_char ?t" using compressed_chars [of "IPv6 v None"] by simp
    ultimately obtain c r where "?t = c # r" "host_char c" by (cases ?t) auto
    moreover from this have "h = c # r @ (case z of None \<Rightarrow> [] | Some z \<Rightarrow> CHR ''%'' # z)" using h IPv6 by simp
    ultimately show ?thesis using host_char_facts [of "CHR ''[''"] by (auto simp: startswith_Cons)
  qed
qed

lemma sni_of_authority: "\<not> startswith h ''['' \<Longrightarrow> expected_sni (authority_of h) = h"
  by (auto simp: expected_sni_def authority_of_def startswith_Cons endswith_def)

lemma classify_canonical: "ip_address s = Some p \<Longrightarrow> classify_address (compressed p) \<noteq> ''INVALID''"
  by (auto simp: classify_address_def canonical_address split: if_splits)

lemma entry_json_facts:
  shows "keys (entry_json t w i (resolve_entry s)) = set entry_fields" "\<not> entry_mismatch (entry_json t w i (resolve_entry s))"
    and "get (entry_json t w i (resolve_entry s)) ''policy_status'' = JStr (re_policy_status (resolve_entry s))"
proof -
  show "keys (entry_json t w i (resolve_entry s)) = set entry_fields" by (simp add: entry_json_def entry_fields_def keys_def)
  show p: "get (entry_json t w i (resolve_entry s)) ''policy_status'' = JStr (re_policy_status (resolve_entry s))"
    by (simp add: entry_json_def)
  have g: "get (entry_json t w i (resolve_entry s)) ''ip'' = JStr (re_ip (resolve_entry s))" "get (entry_json t w i (resolve_entry s)) ''family'' = JStr (re_family (resolve_entry s))"
    by (simp_all add: entry_json_def)
  show "\<not> entry_mismatch (entry_json t w i (resolve_entry s))"
    unfolding entry_mismatch_def Let_def g p
    by (cases "ip_address s") (simp_all add: resolve_entry_def canonical_address)
qed

lemma entry_id_inj: "entry_id t i = entry_id t j \<longleftrightarrow> i = j"
  by (auto simp: entry_id_def) (metis read_show_nat)

text \<open>The record of a set of answers, field by field.\<close>

definition built_record :: "binding_args \<Rightarrow> normalized_target \<Rightarrow> resolution_entry list \<Rightarrow> dict" where
  "built_record a t entries =
     binding_record a t entries @ [(''binding_fingerprint'', JStr (sha256_json (JObj (binding_record a t entries))))]"

lemma keys_binding_record: "map fst (binding_record a t entries) @ [''binding_fingerprint''] = binding_required"
  by (simp add: binding_record_def binding_required_def Let_def)

lemma built_keys: "keys (built_record a t entries) = set binding_required"
  unfolding built_record_def keys_snoc by (simp only: keys_binding_record)

lemma built_fingerprint: "binding_fingerprint (built_record a t entries) = sha256_json (JObj (binding_record a t entries))"
proof -
  have "''binding_fingerprint'' \<notin> fst ` set (binding_record a t entries)"
    by (simp add: binding_record_def Let_def)
  then show ?thesis by (simp add: binding_fingerprint_def built_record_def)
qed

lemma built_fields:
  "get (built_record a t entries) ''record_type'' = JStr ''PMIRI_D2_CONNECTION_BINDING''" "get (built_record a t entries) ''schema_version'' = JStr ''0.3''"
    "get (built_record a t entries) ''destination_identity_ref'' = JStr (destination_of a t)"
    "get (built_record a t entries) ''canonicalization_profile_id'' = JStr CANONICALIZATION_PROFILE_ID"
    "get (built_record a t entries) ''canonicalization_profile_fingerprint'' = JStr CANONICALIZATION_PROFILE_FINGERPRINT"
    "get (built_record a t entries) ''normalized_authority'' = JStr (nt_authority t)"
    "get (built_record a t entries) ''resolved_addresses'' = JList (entries_json t (ba_observed_at a) entries)"
    "get (built_record a t entries) ''resolution_set_status'' = JStr (if all_public entries then ''ALL_ALLOWLISTED_PUBLIC'' else ''DENIED_MIXED'')"
    "get (built_record a t entries) ''selected_target'' = selected_json t entries" "get (built_record a t entries) ''proxy'' = proxy_json a"
    "get (built_record a t entries) ''tls'' = tls_json a t (destination_of a t)"
    "get (built_record a t entries) ''revalidation_events'' = JList [initial_event a (snd (binding_outcome a entries))]"
    "get (built_record a t entries) ''connection_epoch'' = JInt (ba_connection_epoch a)" "get (built_record a t entries) ''invalidation_epoch'' = JInt (ba_invalidation_epoch a)"
    "get (built_record a t entries) ''binding_status'' = JStr (fst (binding_outcome a entries))"
    "get (built_record a t entries) ''binding_fingerprint'' = JStr (sha256_json (JObj (binding_record a t entries)))"
  unfolding built_record_def binding_record_def Let_def by (simp_all only: lookup_simps)

lemma built_head: "binding_guards a = Inr () \<Longrightarrow> binding_head (built_record a t entries) = Inr ()"
proof -
  assume g: "binding_guards a = Inr ()"
  have d: "destination_of a t \<noteq> []" by (auto simp: destination_of_def split: option.splits)
  have o: "fst (binding_outcome a entries) \<in> set [''VALIDATED'', ''DENIED'', ''STALE'']" by (simp add: binding_outcome_def)
  from g have e: "0 \<le> ba_connection_epoch a" "0 \<le> ba_invalidation_epoch a" by (auto simp: binding_guards_def check_simps)
  show ?thesis
    unfolding binding_head_def built_fields built_keys built_fingerprint using d o e by (simp add: check_simps)
qed

lemma built_entries:
  fixes t w xs
  defines "vs \<equiv> entries_json t w (map resolve_entry xs)"
  shows "list_items (JList vs) = vs" "vs = [] \<longleftrightarrow> xs = []"
    "map (\<lambda>e. get (fields_of e) ''policy_status'') vs = map (JStr \<circ> re_policy_status) (map resolve_entry xs)"
    "map_result (\<lambda>_. ()) (traverse check_entry vs) = Inr ()"
    "entry_ids vs = map (JStr \<circ> entry_id t) [0 ..< length xs]"
proof -
  show "list_items (JList vs) = vs" by (simp add: list_items_def)
  have len: "length vs = length xs" by (simp add: vs_def entries_json_def)
  then show "vs = [] \<longleftrightarrow> xs = []" by auto
  have at: "vs ! i = JObj (entry_json t w i (resolve_entry (xs ! i)))" if "i < length xs" for i
    using that by (simp add: vs_def entries_json_def nth_enumerate_eq)
  show "map (\<lambda>e. get (fields_of e) ''policy_status'') vs = map (JStr \<circ> re_policy_status) (map resolve_entry xs)"
    by (rule nth_equalityI) (simp_all add: len at fields_of_def entry_json_facts)
  have "traverse check_entry vs = Inr (map (\<lambda>e. get (fields_of e) ''policy_status'') vs)"
    unfolding traverse_Inr_iff check_entry_passes
    by (auto simp: len at fields_of_def entry_json_facts)
  then show "map_result (\<lambda>_. ()) (traverse check_entry vs) = Inr ()" by simp
  show "entry_ids vs = map (JStr \<circ> entry_id t) [0 ..< length xs]"
    by (rule nth_equalityI) (simp_all add: entry_ids_def len at fields_of_def entry_json_def)
qed

lemma built_status: "entries \<noteq> [] \<Longrightarrow>
  set_status (map (JStr \<circ> re_policy_status) entries) = (if all_public entries then ''ALL_ALLOWLISTED_PUBLIC'' else ''DENIED_MIXED'')"
  by (auto simp: set_status_def all_public_def list_all_iff)

lemma built_selected:
  fixes t w r xs statuses
  assumes "xs \<noteq> []"
  defines "vs \<equiv> entries_json t w (map resolve_entry xs)"
  assumes "get r ''selected_target'' = selected_json t (map resolve_entry xs)"
    and "statuses = map (JStr \<circ> re_policy_status) (map resolve_entry xs)"
  shows "check_selected r vs statuses = Inr ()"
proof (cases "all_public (map resolve_entry xs)")
  case False
  then show ?thesis
    using assms built_status [of "map resolve_entry xs"] by (simp add: check_selected_def selected_json_def)
next
  case True
  obtain x ys where xs: "xs = x # ys" using assms(1) by (cases xs) auto
  let ?e = "resolve_entry x"
  define sel where "sel = [(''resolution_entry_ref'', JStr (entry_id t 0)), (''ip'', JStr (re_ip ?e)),
    (''family'', JStr (re_family ?e)), (''policy_status'', JStr (re_policy_status ?e))]"
  have s: "get r ''selected_target'' = JObj sel" using True unfolding assms(3) selected_json_def Let_def sel_def xs by simp
  have vs: "vs = JObj (entry_json t w 0 ?e) # map (\<lambda>(i, e). JObj (entry_json t w i e)) (enumerate 1 (map resolve_entry ys))"
    by (simp add: vs_def entries_json_def xs)
  have st: "set_status statuses = ''ALL_ALLOWLISTED_PUBLIC''" using built_status [of "map resolve_entry xs"] True assms(1,4) by simp
  have ref: "get sel ''resolution_entry_ref'' = JStr (entry_id t 0)" "has_key sel ''resolution_entry_ref''"
    by (simp_all add: sel_def)
  have inv: "in_values (JStr (entry_id t 0)) (entry_ids vs) = Inr True"
    using built_entries(5) [of t w xs] assms(1)
    by (auto simp: vs_def in_values_def list_ex_iff unhashable_def is_list_def is_obj_def)
  have hd: "hd (filter (\<lambda>e. py_eq (get (fields_of e) ''resolution_entry_id'') (JStr (entry_id t 0))) vs) = JObj (entry_json t w 0 ?e)"
    by (simp add: vs fields_of_def entry_json_def)
  have eq: "\<not> list_ex (\<lambda>k. \<not> py_eq (get sel k) (get (entry_json t w 0 ?e) k)) [''ip'', ''family'', ''policy_status'']"
    by (simp add: sel_def entry_json_def)
  have f: "fields_of (JObj d) = d" "is_obj (JObj d)" for d by (simp_all add: fields_of_def is_obj_def)
  show ?thesis
    unfolding check_selected_def Let_def st s f ref hd
    using inv eq ref(2) by (simp add: check_simps f)
qed

lemma built_proxy: "binding_guards a = Inr () \<Longrightarrow> check_proxy (built_record a t entries) = Inr ()"
  unfolding check_proxy_def built_fields Let_def
  by (cases "ba_proxy_identity_ref a")
     (auto simp: binding_guards_def check_simps proxy_json_def fields_of_def is_obj_def keys_def not_in_def)

lemma built_tls:
  assumes "binding_guards a = Inr ()" "\<not> startswith (nt_host t) ''[''"
    and "ba_tls_identity_status a = ''MATCHED'' \<or> destination_of a t \<noteq> ''identity://mismatch''"
  shows "check_tls (built_record a t entries) = Inr ()"
proof -
  let ?d = "destination_of a t" and ?s = "JStr (ba_tls_identity_status a)" and ?a = "JStr (nt_authority t)"
  obtain tls where tls: "tls_json a t ?d = JObj tls" by (simp add: tls_json_def Let_def)
  have k: "keys tls = set tls_required" and g: "get tls ''scheme'' = JStr ''HTTPS''" "get tls ''sni'' = JStr (nt_host t)"
    "get tls ''certificate_fingerprint'' = JStr (certificate_fingerprint ?a ?s)" "get tls ''identity_status'' = ?s"
    "get tls ''expected_identity_ref'' = JStr ?d"
    "get tls ''verified_identity_ref'' = JStr (if ba_tls_identity_status a = ''MATCHED'' then ?d else ''identity://mismatch'')"
    "get tls ''identity_binding_fingerprint'' = JStr (identity_fingerprint ?a ?s)"
    using tls by (auto simp: tls_json_def Let_def keys_def tls_required_def)
  have st: "ba_tls_identity_status a \<in> set [''MATCHED'', ''MISMATCHED'']"
    using assms(1) by (simp add: binding_guards_def check_simps)
  have f: "fields_of (JObj tls) = tls" "is_obj (JObj tls)" "str_value ?a = nt_authority t" "is_text ?a = Inr True"
    by (simp_all add: fields_of_def is_obj_def str_value_def is_text_def is_str_def)
  have sni: "expected_sni (nt_authority t) = nt_host t" using sni_of_authority [OF assms(2)] by (simp add: nt_authority_def)
  show ?thesis
    unfolding check_tls_def built_fields tls f Let_def g k sni
    using st assms(3) by (auto simp: check_simps f not_in_def)
qed

lemma built_events: "check_events 0 JNull [initial_event a result] = Inr ()"
proof -
  obtain e where e: "initial_event a result = JObj e" by (simp add: initial_event_def)
  have f: "fields_of (JObj e) = e" "is_obj (JObj e)" by (simp_all add: fields_of_def is_obj_def)
  have k: "keys e \<subseteq> set event_required \<union> {''reason_class''}" "set event_required \<subseteq> keys e"
    using e by (auto simp: initial_event_def event_required_def keys_def)
  have g: "get e ''reason_class'' = JStr (if result = ''MATCHED'' then ''NONE'' else ''EXACT_BINDING_MISSING'')"
    "get e ''sequence'' = JInt 0" "get e ''event_type'' = JStr ''INITIAL_RESOLUTION''"
    "get e ''prior_connection_epoch'' = get e ''connection_epoch''" "get e ''connection_epoch'' = JInt (ba_connection_epoch a)"
    "get e ''prior_invalidation_epoch'' = get e ''invalidation_epoch''" "get e ''invalidation_epoch'' = JInt (ba_invalidation_epoch a)"
    using e by (auto simp: initial_event_def)
  have "check_event 0 JNull (JObj e) = Inr ()"
    unfolding check_event_def f Let_def check_epochs_def g(1-4,6) using k by (simp add: check_simps f g not_in_def and_r_def fails_if_r_def)
  then show ?thesis by (simp add: e)
qed

lemma built_final:
  "entries \<noteq> [] \<Longrightarrow> check_final (built_record a t entries)
     (if all_public entries then ''ALL_ALLOWLISTED_PUBLIC'' else ''DENIED_MIXED'') = Inr ()"
proof -
  obtain e where e: "initial_event a (snd (binding_outcome a entries)) = JObj e" by (simp add: initial_event_def)
  have g: "get e ''connection_epoch'' = JInt (ba_connection_epoch a)" "get e ''invalidation_epoch'' = JInt (ba_invalidation_epoch a)"
    "get e ''result'' = JStr (snd (binding_outcome a entries))"
    using e by (auto simp: initial_event_def)
  obtain tls where tls: "tls_json a t (destination_of a t) = JObj tls" "get tls ''identity_status'' = JStr (ba_tls_identity_status a)"
    by (simp add: tls_json_def Let_def)
  have f: "fields_of (JObj d) = d" "list_items (JList vs) = vs" for d vs by (simp_all add: fields_of_def list_items_def)
  have v: "fst (binding_outcome a entries) = ''VALIDATED'' \<longleftrightarrow> all_public entries \<and> ba_tls_identity_status a = ''MATCHED''
      \<and> ba_final_revalidation_result a = ''MATCHED'' \<and> ba_execution_enabled a"
    "fst (binding_outcome a entries) = ''VALIDATED'' \<Longrightarrow> snd (binding_outcome a entries) = ''MATCHED''"
    by (simp_all add: binding_outcome_def split: if_splits)
  have s: "all_public entries \<Longrightarrow> selected_json t entries \<noteq> JNull" by (simp add: selected_json_def Let_def)
  show ?thesis
    unfolding check_final_def built_fields e tls(1) f last.simps Let_def g tls(2) simp_thms if_True
    using v s by (auto simp: check_simps)
qed

lemma built_record_validates:
  assumes "binding_guards a = Inr ()" "\<not> startswith (nt_host t) ''[''" "xs \<noteq> []"
    and "ba_tls_identity_status a = ''MATCHED'' \<or> destination_of a t \<noteq> ''identity://mismatch''"
  shows "validate_connection_binding (built_record a t (map resolve_entry xs)) = Inr ()"
proof -
  let ?es = "map resolve_entry xs"
  note e = built_entries [of t "ba_observed_at a" xs]
  have ne: "?es \<noteq> []" using assms(3) by simp
  have ev: "list_items (JList [initial_event a w]) = [initial_event a w]" "[initial_event a w] \<noteq> []" for w
    by (simp_all add: list_items_def)
  have "check_selected (built_record a t ?es) (entries_json t (ba_observed_at a) ?es) (map (JStr \<circ> re_policy_status) ?es) = Inr ()"
    by (rule built_selected [OF assms(3) built_fields(9) refl])
  then show ?thesis
    unfolding validate_connection_binding_def built_fields(7,8,12) e(1,3) ev(1) Let_def built_status [OF ne]
    using e(2,4) assms(3) built_head [OF assms(1)] built_proxy [OF assms(1)] built_tls [OF assms(1,2,4)] built_events built_final [OF ne]
    by (simp add: check_simps)
qed

lemma build_returns:
  assumes "normalize_url T (ba_endpoint a) = Inr t" "ba_addresses a = JList (map JStr xs)" "xs \<noteq> []"
    and "binding_guards a = Inr ()"
    and "ba_tls_identity_status a = ''MATCHED'' \<or> destination_of a t \<noteq> ''identity://mismatch''"
  defines "r \<equiv> built_record a t (map resolve_entry xs)"
  shows "build_connection_binding T a = Inr r" "validate_connection_binding r = Inr ()"
    and "get r ''binding_status'' = JStr ''VALIDATED'' \<longleftrightarrow>
      list_all (\<lambda>x. classify_address x = ''ALLOWLISTED_PUBLIC'') xs \<and> ba_tls_identity_status a = ''MATCHED''
      \<and> ba_final_revalidation_result a = ''MATCHED'' \<and> ba_execution_enabled a"
proof -
  let ?es = "map resolve_entry xs"
  have addresses: "is_list (ba_addresses a)" "list_all is_str (list_items (ba_addresses a))"
    "map (resolve_entry \<circ> str_value) (list_items (ba_addresses a)) = ?es"
    by (simp_all add: assms(2) is_list_def list_items_def list_all_iff is_str_def str_value_def)
  from normalize_url_canonical [OF assms(1)] host_no_bracket have "\<not> startswith (nt_host t) ''[''" by blast
  from built_record_validates [OF assms(4) this assms(3,5)] show v: "validate_connection_binding r = Inr ()"
    unfolding r_def .
  show "build_connection_binding T a = Inr r"
    unfolding build_connection_binding_def assms(1) addresses(3) Let_def built_record_def [symmetric]
    using addresses(1,2) assms(4) v by (simp add: r_def)
  have pub: "re_policy_status (resolve_entry x) = ''ALLOWLISTED_PUBLIC'' \<longleftrightarrow> classify_address x = ''ALLOWLISTED_PUBLIC''" for x
    by (cases "ip_address x") (simp_all add: resolve_entry_def classify_address_def canonical_address)
  have "all_public ?es \<longleftrightarrow> list_all (\<lambda>x. classify_address x = ''ALLOWLISTED_PUBLIC'') xs"
    using assms(3) pub by (simp add: all_public_def list.pred_map o_def)
  then show "get r ''binding_status'' = JStr ''VALIDATED'' \<longleftrightarrow>
      list_all (\<lambda>x. classify_address x = ''ALLOWLISTED_PUBLIC'') xs \<and> ba_tls_identity_status a = ''MATCHED''
      \<and> ba_final_revalidation_result a = ''MATCHED'' \<and> ba_execution_enabled a"
    unfolding r_def built_fields by (simp add: binding_outcome_def)
qed

text \<open>
  C30. For an endpoint that normalises, a non-empty list of answers and arguments that pass the guards, the
  builder returns a record that its own validator accepts, whatever the answers are: an answer that is no
  address or not public is recorded as such. The record is VALIDATED exactly when every answer is public,
  the TLS identity and the final revalidation matched and execution is enabled; and its resolution status
  is that of \<^verbatim>\<open>NetworkPolicy.evaluate_resolution\<close> on the same answers. The one exception is a
  mismatch recorded for a destination that is itself called \<^verbatim>\<open>identity://mismatch\<close>.
\<close>

theorem built_binding_validates:
  assumes "normalize_url T (ba_endpoint a) = Inr t" "ba_addresses a = JList (map JStr xs)" "xs \<noteq> []"
    and "binding_guards a = Inr ()"
    and "ba_tls_identity_status a = ''MATCHED'' \<or> destination_of a t \<noteq> ''identity://mismatch''"
  shows "\<exists>r d. build_connection_binding T a = Inr r \<and> validate_connection_binding r = Inr ()
    \<and> (get r ''binding_status'' = JStr ''VALIDATED'') =
        (list_all (\<lambda>x. classify_address x = ''ALLOWLISTED_PUBLIC'') xs \<and> ba_tls_identity_status a = ''MATCHED''
         \<and> ba_final_revalidation_result a = ''MATCHED'' \<and> ba_execution_enabled a)
    \<and> evaluate_resolution T (ba_endpoint a) xs = Inr d
    \<and> get r ''resolution_set_status'' = JStr (rd_resolution_set_status d)"
proof -
  let ?es = "map resolve_entry xs"
  let ?r = "built_record a t ?es"
  obtain d where d: "evaluate_resolution T (ba_endpoint a) xs = Inr d"
    "rd_resolution_set_status d = (if all_public ?es then ''ALL_ALLOWLISTED_PUBLIC'' else ''DENIED_MIXED'')"
    using assms(3) by (simp add: evaluate_resolution_def assms(1) Let_def all_public_def)
  have "get ?r ''resolution_set_status'' = JStr (rd_resolution_set_status d)" unfolding built_fields d(2) ..
  with build_returns [OF assms] d(1) show ?thesis by blast
qed

section \<open>The boundary denies\<close>

text \<open>Whatever is asked, the decision is a denial and a fetch raises.\<close>

lemma boundary_denies:
  "nd_action_result (boundary_evaluate T operation url) = ''DENY''"
  "nd_connection_binding_status (boundary_evaluate T operation url) = ''DENIED''"
  "nd_reason_class (boundary_evaluate T operation url) = ''OUTBOUND_NETWORK_DISABLED'' \<longrightarrow>
     operation \<in> set ALLOWED_OPERATIONS \<and> nd_normalized_target (boundary_evaluate T operation url) \<noteq> None
     \<or> (\<exists>e. normalize_url T url = Inl e \<and> snd e = ''OUTBOUND_NETWORK_DISABLED'')"
  "\<exists>m. boundary_fetch T operation url = Inl (NetworkBoundaryError, m)"
  by (auto simp: boundary_evaluate_def deny_network_def boundary_fetch_def boundary_error_def raise_def split: sum.splits)

text \<open>Every normalised target has the scheme HTTPS, so the comparison of schemes refuses nothing.\<close>

lemma redirects_iff:
  "validate_redirects T urls max_hops = Inr ts \<longleftrightarrow>
     int (length urls) \<le> max_hops + 1 \<and> distinct urls \<and> traverse (normalize_url T) urls = Inr ts"
proof -
  have https: "nt_scheme t = ''HTTPS''" if ts: "traverse (normalize_url T) urls = Inr ts" and t: "t \<in> set ts" for t ts
  proof -
    from ts t obtain u where "normalize_url T u = Inr t" by (auto simp: traverse_Inr_iff in_set_conv_nth)
    then have "t = make_target (nt_host t) (nt_path t) (nt_query t)"
      using normalize_url_canonical unfolding canonical_target_def by blast
    then have "nt_scheme t = nt_scheme (make_target (nt_host t) (nt_path t) (nt_query t))" by (rule arg_cong)
    then show ?thesis unfolding make_target_def normalized_target.select_convs .
  qed
  have "\<not> list_ex (\<lambda>(p, c). nt_scheme p \<noteq> nt_scheme c) (zip ts (tl ts))" if "traverse (normalize_url T) urls = Inr ts" for ts
  proof -
    have "nt_scheme p = nt_scheme c" if "(p, c) \<in> set (zip ts (tl ts))" for p c
      using https [OF \<open>traverse (normalize_url T) urls = Inr ts\<close>] set_zip_leftD [OF that] set_zip_rightD [OF that]
      by (cases ts) auto
    then show ?thesis by (auto simp: list_ex_iff)
  qed
  then show ?thesis by (auto simp: validate_redirects_def boundary_error_def result_simps not_less split: if_splits)
qed

text \<open>
  The prior epochs of an event are compared with the event's own epochs and not with those of the event
  before it, so a history may jump: here from epoch 0 to epoch 42.
\<close>

definition jump_event :: json where
  "jump_event = JObj
     [(''sequence'', JInt 1), (''event_type'', JStr ''RECONNECT''), (''observed_at'', JStr ''2026-01-01T00:00:01Z''),
      (''result'', JStr ''MATCHED''), (''prior_connection_epoch'', JInt 41), (''connection_epoch'', JInt 42),
      (''prior_invalidation_epoch'', JInt 7), (''invalidation_epoch'', JInt 7)]"

definition sample_binding_args :: binding_args where
  "sample_binding_args =
     \<lparr>ba_endpoint = sample_url, ba_addresses = JList (map JStr [''8.8.8.8'']), ba_observed_at = ''2026-01-01T00:00:00Z'',
      ba_connection_epoch = 0, ba_invalidation_epoch = 0, ba_tls_identity_status = ''MATCHED'',
      ba_final_revalidation_result = ''MATCHED'', ba_resolver_ref = ''resolver://supplied-observation'',
      ba_destination_identity_ref = None, ba_proxy_mode = ''DIRECT'', ba_proxy_identity_ref = None,
      ba_execution_enabled = True\<rparr>"

lemma epochs_may_jump: "check_events 0 JNull [initial_event sample_binding_args ''MATCHED'', jump_event] = Inr ()"
  by code_simp

section \<open>A binding\<close>

lemma sample_public: "classify_address ''8.8.8.8'' = ''ALLOWLISTED_PUBLIC''"
proof -
  have p: "ip_address ''8.8.8.8'' = Some (IPv4 [8, 8, 8, 8])" by code_simp
  show ?thesis
    by (simp add: classify_address_def p value_in_def in_net_def net4_def is_private4_def in_nets_def private4_def)
qed

lemma sample_guards: "binding_guards sample_binding_args = Inr ()"
  by (simp add: binding_guards_def sample_binding_args_def check_simps)

theorem built_binding_validates_witness:
  "\<exists>r. build_connection_binding sample_tables sample_binding_args = Inr r \<and> validate_connection_binding r = Inr ()
     \<and> get r ''binding_status'' = JStr ''VALIDATED''"
  using built_binding_validates [of sample_tables sample_binding_args sample_target "[''8.8.8.8'']", OF _ _ _ sample_guards]
    sample_target_normalized sample_public
  by (auto simp: sample_binding_args_def)

theorem validated_binding_sound_witness:
  "\<exists>r entries. build_connection_binding sample_tables sample_binding_args = Inr r
     \<and> get r ''resolved_addresses'' = JList (map JObj entries) \<and> entries \<noteq> [] \<and> list_all public_answer entries"
proof -
  have a: "normalize_url sample_tables (ba_endpoint sample_binding_args) = Inr sample_target"
    "ba_addresses sample_binding_args = JList (map JStr [''8.8.8.8''])" "[''8.8.8.8''] \<noteq> []"
    "ba_tls_identity_status sample_binding_args = ''MATCHED'' \<or> destination_of sample_binding_args sample_target \<noteq> ''identity://mismatch''"
    using sample_target_normalized by (simp_all add: sample_binding_args_def)
  note b = build_returns [OF a(1-3) sample_guards a(4)]
  have "get (built_record sample_binding_args sample_target (map resolve_entry [''8.8.8.8''])) ''binding_status'' = JStr ''VALIDATED''"
    using b(3) sample_public by (simp add: sample_binding_args_def)
  from validated_binding_sound [OF b(2) this] b(1) show ?thesis by blast
qed

end
