(* ===== verification/Gate_D_Engine.thy ===== *)
theory Gate_D_Engine
  imports Network Policy Auth_Service
begin

text \<open>
  \<^verbatim>\<open>pmiri/gate_d.py\<close>, \<^verbatim>\<open>GateDDecisionEngine\<close>: the trust, capability, network and integrated decisions it
  builds from supplied observations. Records are JSON objects; every builder validates what it returns.
  The representation of lists and dictionaries by \<^verbatim>\<open>str\<close> and the reading of a text by \<^verbatim>\<open>int\<close> are parameters,
  as are the Unicode tables of URLs. The engine is read within one step: its policy epoch does not
  change while an operation runs.
\<close>

record text_tables =
  tt_url :: url_tables
  tt_repr :: "json \<Rightarrow> string"
  tt_int :: "string \<Rightarrow> int option"

text \<open>\<^verbatim>\<open>str(v)\<close> and \<^verbatim>\<open>int(v)\<close>, the latter with its \<^verbatim>\<open>TypeError\<close> and \<^verbatim>\<open>ValueError\<close>.\<close>

definition py_str :: "text_tables \<Rightarrow> json \<Rightarrow> string" where
  "py_str T v =
     (case v of
        JStr s \<Rightarrow> s
      | JNull \<Rightarrow> ''None''
      | JBool b \<Rightarrow> (if b then ''True'' else ''False'')
      | JInt i \<Rightarrow> show_int i
      | _ \<Rightarrow> tt_repr T v)"

definition py_int :: "text_tables \<Rightarrow> json \<Rightarrow> int result" where
  "py_int T v =
     (case v of
        JStr s \<Rightarrow> (case tt_int T s of Some i \<Rightarrow> Inr i | None \<Rightarrow> raise ValueError ''invalid literal for int()'')
      | _ \<Rightarrow> (case number_of v of Some i \<Rightarrow> Inr i | None \<Rightarrow> raise TypeError ''int() argument''))"

text \<open>\<^verbatim>\<open>r.get(k, d)\<close>, and \<^verbatim>\<open>s in v\<close> for a text \<^verbatim>\<open>s\<close>.\<close>

definition get_or :: "dict \<Rightarrow> string \<Rightarrow> json \<Rightarrow> json" where
  "get_or r k d = (if has_key r k then get r k else d)"

definition text_in :: "string \<Rightarrow> json \<Rightarrow> bool result" where
  "text_in s v =
     (case v of
        JList xs \<Rightarrow> Inr (JStr s \<in> set xs)
      | JObj d \<Rightarrow> Inr (has_key d s)
      | JStr t \<Rightarrow> Inr (contains t s)
      | _ \<Rightarrow> raise TypeError ''argument is not iterable'')"

text \<open>\<^verbatim>\<open>[x for x in xs if f(x)]\<close> for a condition that may raise; \<^verbatim>\<open>list(dict.fromkeys(xs))\<close>.\<close>

fun filter_r :: "('a \<Rightarrow> bool result) \<Rightarrow> 'a list \<Rightarrow> 'a list result" where
  "filter_r f [] = Inr []"
| "filter_r f (x # xs) = bind_result (f x) (\<lambda>b. map_result (\<lambda>ys. if b then x # ys else ys) (filter_r f xs))"

definition from_keys :: "string list \<Rightarrow> string list" where
  "from_keys xs = rev (remdups (rev xs))"

definition reference :: "string \<Rightarrow> json \<Rightarrow> string" where
  "reference kind v = kind @ ''://'' @ take 32 (sha256_json v)"

definition reason_class :: "string \<Rightarrow> string \<Rightarrow> string" where
  "reason_class v fallback = (if v \<in> set REASON_CLASSES then v else fallback)"

definition fingerprint_set :: "json list \<Rightarrow> string" where
  "fingerprint_set vs = sha256_json (JList vs)"

definition finalize :: "dict \<Rightarrow> dict" where
  "finalize r = dict_put ''decision_fingerprint'' (JStr (decision_fingerprint r)) r"

text \<open>A value that is no text never reads as a time stamp with an offset.\<close>

definition fresh_window :: "dict \<Rightarrow> string \<Rightarrow> bool result" where
  "fresh_window r now =
     (if \<not> has_key r ''observed_at'' then Inr False
      else except_tv False
        (bind_result (parse_policy_timestamp (get r ''observed_at'')) (\<lambda>a.
         bind_result (parse_time now) (\<lambda>n.
           if \<not> a \<le> n \<or> \<not> has_key r ''valid_until'' then Inr False
           else map_result (\<lambda>b. n \<le> b) (parse_policy_timestamp (get r ''valid_until''))))))"

text \<open>A query read from a mapping; None where it cannot be read.\<close>

definition request_from_mapping :: "text_tables \<Rightarrow> dict \<Rightarrow> query_request option" where
  "request_from_mapping T r =
     (if \<not> {''request_id'', ''project_constraint'', ''query''} \<subseteq> keys r then None
      else (case py_int T (get_or r ''max_results'' (JInt 20)) of
              Inl e \<Rightarrow> None
            | Inr n \<Rightarrow> Some
                \<lparr>q_request_id = py_str T (get r ''request_id''), q_project_constraint = py_str T (get r ''project_constraint''),
                 q_query = py_str T (get r ''query''), q_purpose = py_str T (get_or r ''purpose'' (JStr ''local_read'')),
                 q_max_results = n\<rparr>))"

section \<open>Capability observations\<close>

definition CAPABILITY_VALUE_FIELDS :: "(string \<times> string list) list" where
  "CAPABILITY_VALUE_FIELDS =
     [(''attachment_input'', [''value_type'', ''supported'', ''accepted_content_types'', ''max_attachment_bytes'']),
      (''structured_output'', [''value_type'', ''supported'', ''schema_profile_ref'']),
      (''provider_model_feature'', [''value_type'', ''feature_name'', ''supported'', ''feature_profile_ref'']),
      (''retention_deletion'', [''value_type'', ''retention_mode'', ''deletion_mode'']),
      (''training_use'', [''value_type'', ''training_use'']),
      (''subprocessors'', [''value_type'', ''subprocessors_fingerprint'', ''subprocessor_count'']),
      (''processing_region'', [''value_type'', ''region'', ''region_scope'']),
      (''credential_operation_scope'', [''value_type'', ''allowed_operations'', ''audience'']),
      (''redirect_fetch_behavior'', [''value_type'', ''redirects_allowed'', ''max_redirect_hops'', ''revalidate_each_hop'']),
      (''destination_identity'', [''value_type'', ''identity_ref'', ''normalized_authority'', ''scheme'']),
      (''resource_limits'', [''value_type'', ''limits_profile_ref''])]"

definition observation_required :: "string list" where
  "observation_required =
     [''record_type'', ''schema_version'', ''capability_contract_version'', ''capability_observation_id'',
      ''subject_binding'', ''capability_key'', ''observed_value'', ''scope'', ''source_authority'', ''evidence_refs'',
      ''observed_at'', ''valid_from'', ''valid_until'', ''invalidation_epoch'', ''status'', ''observation_fingerprint'']"

definition capability_value_valid :: "string \<Rightarrow> dict \<Rightarrow> bool result" where
  "capability_value_valid key v =
     (if key = ''attachment_input'' then
        Inr (is_bool (get v ''supported'') \<and> truthy (get v ''accepted_content_types'') \<and> all_strs (get v ''accepted_content_types'')
             \<and> int_at_least 0 (get v ''max_attachment_bytes''))
      else if key = ''structured_output'' then
        Inr (is_bool (get v ''supported'') \<and> nonempty_str (get v ''schema_profile_ref''))
      else if key = ''provider_model_feature'' then
        Inr (nonempty_str (get v ''feature_name'') \<and> is_bool (get v ''supported'') \<and> nonempty_str (get v ''feature_profile_ref''))
      else if key = ''retention_deletion'' then
        and_r (in_set (get v ''retention_mode'') [''NONE'', ''LIMITED'', ''INDEFINITE'', ''UNKNOWN''])
              (in_set (get v ''deletion_mode'') [''SUPPORTED'', ''NOT_SUPPORTED'', ''CONDITIONAL'', ''UNKNOWN''])
      else if key = ''training_use'' then
        in_set (get v ''training_use'') [''PROHIBITED'', ''ALLOWED'', ''CONDITIONAL'', ''UNKNOWN'']
      else if key = ''subprocessors'' then
        Inr (is_sha256 (get v ''subprocessors_fingerprint'') \<and> int_at_least 0 (get v ''subprocessor_count''))
      else if key = ''processing_region'' then
        and_r (Inr (nonempty_str (get v ''region'')))
              (in_set (get v ''region_scope'') [''SINGLE_REGION'', ''MULTI_REGION'', ''UNKNOWN''])
      else if key = ''credential_operation_scope'' then
        Inr (truthy (get v ''allowed_operations'')
             \<and> all_in (get v ''allowed_operations'') [''provider_call'', ''connector_fetch'', ''attachment_fetch'', ''external_fetch'']
             \<and> no_repeats (get v ''allowed_operations'') \<and> nonempty_str (get v ''audience''))
      else if key = ''redirect_fetch_behavior'' then
        Inr (is_bool (get v ''redirects_allowed'') \<and> int_at_least 0 (get v ''max_redirect_hops'')
             \<and> get v ''revalidate_each_hop'' = JBool True)
      else if key = ''destination_identity'' then
        Inr (nonempty_str (get v ''identity_ref'') \<and> nonempty_str (get v ''normalized_authority'')
             \<and> get v ''scheme'' = JStr ''HTTPS'')
      else if key = ''resource_limits'' then Inr (nonempty_str (get v ''limits_profile_ref''))
      else Inr False)"

definition check_capability_value :: "json \<Rightarrow> json \<Rightarrow> unit result" where
  "check_capability_value key v =
     (let value = fields_of v; k = str_value key in run_checks
        [violation_if_r (or_r (not_in key (map fst CAPABILITY_VALUE_FIELDS)) (Inr (\<not> is_obj v)))
           ''capability_observation_value_invalid'',
         violation_if (case map_of CAPABILITY_VALUE_FIELDS k of None \<Rightarrow> True
                       | Some fs \<Rightarrow> keys value \<noteq> set fs \<or> get value ''value_type'' \<noteq> key)
           ''capability_observation_value_binding_invalid''])"

definition check_scope :: "json \<Rightarrow> unit result" where
  "check_scope v =
     (let scope = fields_of v in run_checks
        [violation_if (\<not> is_obj v \<or> keys scope \<noteq> {''purpose'', ''material_classes'', ''region'', ''feature_profile''})
           ''capability_observation_scope_invalid'',
         violation_if (\<not> nonempty_str (get scope ''purpose'') \<or> \<not> truthy (get scope ''material_classes'')
             \<or> \<not> all_strs (get scope ''material_classes'')) ''capability_observation_scope_invalid'',
         violation_if (\<not> nonempty_str (get scope ''region'') \<or> \<not> nonempty_str (get scope ''feature_profile''))
           ''capability_observation_scope_invalid''])"

definition check_window :: "dict \<Rightarrow> unit result" where
  "check_window r =
     (let checked = (\<lambda>e. if caught_tv e then (ContractViolation, ''capability_observation_timestamp_invalid'') else e) in
      case bind_result (parse_policy_timestamp (get r ''observed_at'')) (\<lambda>observed.
           bind_result (parse_policy_timestamp (get r ''valid_from'')) (\<lambda>start.
           map_result (\<lambda>until. (observed, start, until)) (parse_policy_timestamp (get r ''valid_until'')))) of
        Inl e \<Rightarrow> Inl (checked e)
      | Inr (observed, start, until) \<Rightarrow>
          violation_if (\<not> (start \<le> observed \<and> observed \<le> until)) ''capability_observation_timestamp_order_invalid'')"

definition validate_capability_observation :: "dict \<Rightarrow> unit result" where
  "validate_capability_observation r = run_checks
     [violation_if (\<not> set observation_required \<subseteq> keys r) ''capability_observation_missing'',
      violation_if (keys r \<noteq> set observation_required \<or> get r ''record_type'' \<noteq> JStr ''PMIRI_D2_CAPABILITY_OBSERVATION''
          \<or> get r ''schema_version'' \<noteq> JStr ''0.3'' \<or> get r ''capability_contract_version'' \<noteq> JStr ''0.1'')
        ''capability_observation_schema_invalid'',
      violation_if (\<not> list_all (\<lambda>f. nonempty_str (get r f))
          [''capability_observation_id'', ''subject_binding'', ''source_authority'', ''observed_at'', ''valid_from'', ''valid_until''])
        ''capability_observation_identity_invalid'',
      check_capability_value (get r ''capability_key'') (get r ''observed_value''),
      check_scope (get r ''scope''),
      violation_if (\<not> is_list (get r ''evidence_refs'') \<or> \<not> truthy (get r ''evidence_refs'')) ''capability_observation_evidence_invalid'',
      violation_if (\<not> all_strs (get r ''evidence_refs'')) ''capability_observation_evidence_invalid'',
      violation_if_r (not_in (get r ''status'') [''ACTIVE'', ''EXPIRED'', ''REVOKED'', ''SUPERSEDED'', ''CONTRADICTED'', ''INVALID''])
        ''capability_observation_status_invalid'',
      violation_if (\<not> int_at_least 0 (get r ''invalidation_epoch'')) ''capability_observation_epoch_invalid'',
      check_window r,
      violation_if_r (map_result Not (capability_value_valid (str_value (get r ''capability_key'')) (fields_of (get r ''observed_value''))))
        ''capability_observation_value_type_invalid'',
      violation_if (\<not> is_sha256 (get r ''observation_fingerprint'')
          \<or> get r ''observation_fingerprint'' \<noteq> JStr (sha256_json (JObj (without [''observation_fingerprint''] r))))
        ''capability_observation_fingerprint_invalid'']"

section \<open>The engine\<close>

text \<open>
  The policy epoch of the engine: its own number (\<^verbatim>\<open>EpochSnapshot\<close>), or the row of the policy epoch store it was
  given (\<^verbatim>\<open>policy_epoch_store\<close>), which offers \<^verbatim>\<open>bump\<close> as \<^verbatim>\<open>SQLitePolicyEpoch\<close> does, or only \<^verbatim>\<open>get\<close> and
  \<^verbatim>\<open>advance\<close>, which is all that \<^verbatim>\<open>PolicyEpochAdapter\<close> asks for. A store is the SQLite one in both cases, and
  nothing else moves it between the \<^verbatim>\<open>get\<close> and the \<^verbatim>\<open>advance\<close> of one call.
\<close>

datatype epoch_source =
    Local_epoch int
  | Stored_epoch epoch_row
  | Advanced_epoch epoch_row

record engine =
  ge_authority :: string
  ge_profile :: freshness_profile
  ge_policy_version :: string
  ge_now :: string
  ge_execution_enabled :: bool
  ge_epochs :: epoch_source

fun read_epoch :: "epoch_source \<Rightarrow> int result" where
  "read_epoch (Local_epoch e) = Inr e"
| "read_epoch (Stored_epoch row) = sql_epoch_get row"
| "read_epoch (Advanced_epoch row) = sql_epoch_get row"

definition engine_init ::
  "string \<Rightarrow> freshness_profile option \<Rightarrow> string \<Rightarrow> string \<Rightarrow> bool \<Rightarrow> (epoch_row \<times> bool) option \<Rightarrow> engine result" where
  "engine_init authority profile version now enabled store =
     (if \<not> is_sha256_str authority then raise ValueError ''authority_manifest_fingerprint_invalid''
      else
        (let source = (case store of None \<Rightarrow> Local_epoch 0
             | Some (row, has_bump) \<Rightarrow> if has_bump then Stored_epoch row else Advanced_epoch row) in
         bind_result (read_epoch source) (\<lambda>initial.
           if initial < 0 then raise ValueError ''policy_epoch_invalid''
           else Inr \<lparr>ge_authority = authority,
                     ge_profile = (case profile of Some p \<Rightarrow> p
                       | None \<Rightarrow> \<lparr>pf_profile_id = ''pmiri-local-0.1'', pf_algorithm_version = ''0.1'', pf_valid_for_seconds = 300\<rparr>),
                     ge_policy_version = version, ge_now = now, ge_execution_enabled = enabled, ge_epochs = source\<rparr>)))"

definition invalidation_epoch :: "engine \<Rightarrow> int result" where
  "invalidation_epoch g = read_epoch (ge_epochs g)"

definition invalidate :: "engine \<Rightarrow> (int \<times> engine) result" where
  "invalidate g =
     (case ge_epochs g of
        Local_epoch e \<Rightarrow> Inr (e + 1, g\<lparr>ge_epochs := Local_epoch (e + 1)\<rparr>)
      | Stored_epoch row \<Rightarrow>
          map_result (\<lambda>(e, row'). (e, g\<lparr>ge_epochs := Stored_epoch row'\<rparr>)) (sql_epoch_bump row)
      | Advanced_epoch row \<Rightarrow>
          bind_result (sql_epoch_get row) (\<lambda>e.
            map_result (\<lambda>row'. (e + 1, g\<lparr>ge_epochs := Advanced_epoch row'\<rparr>)) (sql_epoch_advance row (e + 1))))"

definition validity_ref :: "engine \<Rightarrow> int \<Rightarrow> string" where
  "validity_ref g epoch = reference ''validity'' (JObj [(''now'', JStr (ge_now g)), (''epoch'', JInt epoch)])"

definition purpose_json :: "string \<Rightarrow> json" where
  "purpose_json purpose = JObj [(''purpose'', JStr purpose)]"

section \<open>Trust\<close>

record trust_query =
  tq_subject :: dict
  tq_purpose :: string
  tq_material_class :: string
  tq_feature :: "string option"
  tq_zone :: string
  tq_assertions :: "dict list"
  tq_destination_binding_ref :: string
  tq_material_manifest_ref :: string
  tq_capability_decision_ref :: string

definition assertion_ref :: "text_tables \<Rightarrow> dict \<Rightarrow> string" where
  "assertion_ref T item =
     (if truthy (get item ''trust_assertion_id'') then py_str T (get item ''trust_assertion_id'')
      else reference ''assertion'' (JObj item))"

definition in_scope :: "trust_query \<Rightarrow> dict \<Rightarrow> bool result" where
  "in_scope q item =
     and_r (Inr (get item ''purpose'' = JStr (tq_purpose q)))
       (and_r (text_in (tq_material_class q) (get_or item ''allowed_material_classes'' (JList [])))
         (and_r (text_in (tq_zone q) (get_or item ''allowed_zones'' (JList [])))
           (case tq_feature q of
              None \<Rightarrow> Inr True
            | Some f \<Rightarrow>
                or_r (Inr (\<not> truthy (get item ''allowed_features''))) (text_in f (get_or item ''allowed_features'' (JList []))))))"

definition foreign_authority :: "engine \<Rightarrow> dict \<Rightarrow> bool result" where
  "foreign_authority g item =
     (let v = get item ''authority_manifest_fingerprint'' in
      if unhashable v then raise TypeError ''unhashable type'' else Inr (v \<noteq> JNull \<and> v \<noteq> JStr (ge_authority g)))"

text \<open>State, action and reason, by the first branch that applies.\<close>

definition trust_outcome :: "engine \<Rightarrow> trust_query \<Rightarrow> (string \<times> string \<times> string) result" where
  "trust_outcome g q =
     (let exact = filter (\<lambda>item. py_eq (get item ''subject'') (JObj (tq_subject q))) (tq_assertions q) in
      bind_result (filter_r (in_scope q) exact) (\<lambda>scoped.
      bind_result (filter_r (\<lambda>item. in_set (get item ''status'') [''REVOKED'', ''CONTRADICTED'', ''INVALID'']) exact) (\<lambda>revoked.
        if revoked \<noteq> [] then Inr (''REVOKED'', ''DENY'', ''AUTHORITY_CONFLICT'')
        else if exact = [] then Inr (''UNKNOWN'', ''DENY'', ''AUTHORITY_MISSING'')
        else if scoped = [] then Inr (''UNTRUSTED'', ''DENY'', ''SCOPE_MISMATCH'')
        else bind_result (any_r (\<lambda>item. and_r (Inr (get item ''status'' = JStr ''ACTIVE'')) (fresh_window item (ge_now g))) scoped)
          (\<lambda>active.
            if \<not> active then Inr (''EXPIRED'', ''DENY'', ''POLICY_STALE'')
            else bind_result (any_r (foreign_authority g) scoped) (\<lambda>foreign.
              if foreign then Inr (''INVALID'', ''DENY'', ''MATERIAL_FINGERPRINT_MISMATCH'')
              else Inr (''TRUSTED_FOR_BOUND_PURPOSE'', ''ALLOW'', ''NONE''))))))"

definition trust_record :: "text_tables \<Rightarrow> engine \<Rightarrow> trust_query \<Rightarrow> int \<Rightarrow> string \<times> string \<times> string \<Rightarrow> dict" where
  "trust_record T g q epoch outcome =
     (case outcome of (state, action, reason) \<Rightarrow>
       [(''record_type'', JStr ''PMIRI_D2_TRUST_DECISION''),
        (''schema_version'', JStr ''0.3''),
        (''decision_id'', JStr (reference ''decision''
           (JObj [(''kind'', JStr ''trust''), (''subject'', JObj (tq_subject q)), (''purpose'', JStr (tq_purpose q))]))),
        (''destination_binding_ref'', JStr (tq_destination_binding_ref q)),
        (''purpose_binding_ref'', JStr (reference ''purpose'' (purpose_json (tq_purpose q)))),
        (''material_manifest_ref'', JStr (tq_material_manifest_ref q)),
        (''trust_assertion_refs'', JList (map JStr
           (if tq_assertions q = []
            then [reference ''assertion'' (JObj [(''subject'', JObj (tq_subject q)), (''purpose'', JStr (tq_purpose q))])]
            else map (assertion_ref T) (tq_assertions q)))),
        (''capability_decision_ref'', JStr (tq_capability_decision_ref q)),
        (''authority_manifest_fingerprint'', JStr (ge_authority g)),
        (''freshness_profile_id'', JStr (pf_profile_id (ge_profile g))),
        (''freshness_profile_fingerprint'', JStr (profile_fingerprint (ge_profile g))),
        (''validity_ref'', JStr (validity_ref g epoch)),
        (''trust_state'', JStr state),
        (''action_result'', JStr action),
        (''content_lifecycle'', JStr ''NOT_APPLICABLE''),
        (''reason_class'', JStr reason)]
       @ (if action = ''ALLOW''
          then [(''allowed_feature_refs'', JList (case tq_feature q of None \<Rightarrow> [] | Some f \<Rightarrow> if f = [] then [] else [JStr f]))]
          else []))"

definition evaluate_trust :: "text_tables \<Rightarrow> engine \<Rightarrow> trust_query \<Rightarrow> dict result" where
  "evaluate_trust T g q =
     bind_result (trust_outcome g q) (\<lambda>outcome.
     bind_result (invalidation_epoch g) (\<lambda>epoch.
       let result = finalize (trust_record T g q epoch outcome)
       in bind_result (validate_trust_decision result) (\<lambda>_. Inr result)))"

section \<open>Capability\<close>

record capability_query =
  cq_subject_binding :: string
  cq_purpose :: string
  cq_required :: "string list"
  cq_observations :: "dict list"
  cq_material_manifest_ref :: string

definition observation_ref :: "text_tables \<Rightarrow> dict \<Rightarrow> string" where
  "observation_ref T item =
     (if truthy (get item ''capability_observation_id'') then py_str T (get item ''capability_observation_id'')
      else reference ''observation'' (JObj item))"

definition capability_candidates :: "capability_query \<Rightarrow> dict list" where
  "capability_candidates q =
     filter (\<lambda>item. get item ''subject_binding'' = JStr (cq_subject_binding q)
               \<and> get item ''capability_key'' \<in> JStr ` set (cq_required q) \<and> get item ''status'' = JStr ''ACTIVE'')
       (cq_observations q)"

definition unsupported :: "dict \<Rightarrow> bool" where
  "unsupported item =
     (is_obj (get item ''observed_value'') \<and> get (fields_of (get item ''observed_value'')) ''supported'' = JBool False)"

definition capability_outcome :: "engine \<Rightarrow> int \<Rightarrow> capability_query \<Rightarrow> (string \<times> string \<times> string) result" where
  "capability_outcome g epoch q =
     (let candidates = capability_candidates q;
          missing = filter (\<lambda>k. \<not> list_ex (\<lambda>item. get item ''capability_key'' = JStr k) candidates) (cq_required q) in
      bind_result (filter_r (\<lambda>item. or_r (Inr (\<not> py_eq (get item ''invalidation_epoch'') (JInt epoch)))
                                       (map_result Not (fresh_window item (ge_now g)))) candidates) (\<lambda>stale.
        Inr (if missing \<noteq> [] then (''MISSING'', ''DENY'', ''CAPABILITY_MISSING'')
             else if stale \<noteq> [] then (''STALE'', ''REQUIRE_REVALIDATION'', ''STALE_EVIDENCE'')
             else if list_ex unsupported candidates then (''OUT_OF_SCOPE'', ''DENY'', ''CAPABILITY_OUT_OF_SCOPE'')
             else (''FRESH'', ''ALLOW'', ''NONE''))))"

definition capability_record :: "text_tables \<Rightarrow> engine \<Rightarrow> capability_query \<Rightarrow> int \<Rightarrow> string \<times> string \<times> string \<Rightarrow> dict" where
  "capability_record T g q epoch outcome =
     (case outcome of (state, action, reason) \<Rightarrow>
       [(''record_type'', JStr ''PMIRI_D2_CAPABILITY_DECISION''),
        (''schema_version'', JStr ''0.2''),
        (''decision_id'', JStr (reference ''decision''
           (JObj [(''kind'', JStr ''capability''), (''subject'', JStr (cq_subject_binding q)), (''purpose'', JStr (cq_purpose q))]))),
        (''subject_binding'', JStr (cq_subject_binding q)),
        (''purpose'', JStr (cq_purpose q)),
        (''material_manifest_ref'', JStr (cq_material_manifest_ref q)),
        (''material_manifest_fingerprint'', JStr (sha256_json (JObj [(''ref'', JStr (cq_material_manifest_ref q))]))),
        (''capability_profile_fingerprint'', JStr (fingerprint_set (map JStr (from_keys (cq_required q))))),
        (''observation_refs'', JList (map (JStr \<circ> observation_ref T) (cq_observations q))),
        (''policy_version'', JStr (ge_policy_version g)),
        (''invalidation_epoch'', JInt epoch),
        (''authority_manifest_fingerprint'', JStr (ge_authority g)),
        (''freshness_profile_id'', JStr (pf_profile_id (ge_profile g))),
        (''freshness_profile_fingerprint'', JStr (profile_fingerprint (ge_profile g))),
        (''capability_state'', JStr state),
        (''action_result'', JStr action),
        (''reason_class'', JStr reason),
        (''validity_ref'', JStr (validity_ref g epoch))])"

definition evaluate_capability :: "text_tables \<Rightarrow> engine \<Rightarrow> capability_query \<Rightarrow> dict result" where
  "evaluate_capability T g q =
     bind_result (run_checks (map validate_capability_observation (cq_observations q))) (\<lambda>_.
     bind_result (invalidation_epoch g) (\<lambda>epoch.
     bind_result (capability_outcome g epoch q) (\<lambda>outcome.
       let result = finalize (capability_record T g q epoch outcome)
       in bind_result (validate_capability_decision result) (\<lambda>_. Inr result))))"

section \<open>Network\<close>

record network_query =
  nq_operation :: string
  nq_purpose :: string
  nq_url :: string
  nq_addresses :: "string list"
  nq_tls_identity_status :: string
  nq_final_revalidation_result :: string
  nq_content_lifecycle :: string
  nq_lifecycle :: "dict option"
  nq_lifecycle_ref :: "string option"

text \<open>The checks of a supplied life cycle, and the content life cycle they settle.\<close>

definition network_lifecycle :: "text_tables \<Rightarrow> network_query \<Rightarrow> string result" where
  "network_lifecycle T q =
     (if nq_operation q \<noteq> ''provider_call'' then
        (case nq_lifecycle q of
           None \<Rightarrow> Inr (nq_content_lifecycle q)
         | Some l \<Rightarrow>
             bind_result (run_checks
               [validate_lifecycle l,
                violation_if (get l ''operation'' \<noteq> JStr (nq_operation q) \<or> get l ''purpose'' \<noteq> JStr (nq_purpose q))
                  ''network_lifecycle_operation_or_purpose_mismatch'',
                violation_if (nq_lifecycle_ref q \<in> {None, Some []}) ''network_lifecycle_ref_missing'',
                violation_if (nq_content_lifecycle q \<noteq> ''NOT_APPLICABLE'' \<and> get l ''admission_state'' \<noteq> JStr (nq_content_lifecycle q))
                  ''network_lifecycle_state_mismatch''])
             (\<lambda>_. Inr (py_str T (get l ''admission_state''))))
      else if nq_lifecycle q \<noteq> None \<or> nq_lifecycle_ref q \<noteq> None
        then raise ContractViolation ''provider_call_lifecycle_binding_forbidden''
      else Inr (nq_content_lifecycle q))"

record network_outcome =
  no_reason :: string
  no_normalized :: json
  no_resolution_status :: string
  no_selected_ip :: json
  no_selected_family :: json
  no_binding_status :: string
  no_action :: string

definition normalized_json :: "string \<Rightarrow> string \<Rightarrow> json" where
  "normalized_json authority path_class = JObj
     [(''scheme'', JStr ''HTTPS''), (''authority'', JStr authority), (''path_class'', JStr path_class)]"

definition network_outcome_of :: "text_tables \<Rightarrow> engine \<Rightarrow> network_query \<Rightarrow> network_outcome" where
  "network_outcome_of T g q =
     (case normalize_url (tt_url T) (nq_url q) of
        Inl e \<Rightarrow>
          \<lparr>no_reason = (if snd e = ''SCHEME_NOT_ALLOWED'' then ''UNSUPPORTED_SCHEME''
                        else if snd e = ''IDNA_VALIDATOR_UNAVAILABLE'' then ''INTERNAL_CONTRACT_INVALID'' else ''URL_INVALID''),
           no_normalized = normalized_json ''invalid'' ''invalid'', no_resolution_status = ''DENIED_MIXED'',
           no_selected_ip = JNull, no_selected_family = JNull, no_binding_status = ''DENIED'', no_action = ''DENY''\<rparr>
      | Inr t \<Rightarrow>
          (let entries = map resolve_entry (nq_addresses q);
               out = (\<lambda>reason action binding_status.
                 \<lparr>no_reason = reason, no_normalized = normalized_json (nt_authority t) (request_target t),
                  no_resolution_status = (if all_public entries then ''ALL_ALLOWLISTED_PUBLIC'' else ''DENIED_MIXED''),
                  no_selected_ip = (if all_public entries then JStr (re_ip (hd entries)) else JNull),
                  no_selected_family = (if all_public entries then JStr (re_family (hd entries)) else JNull),
                  no_binding_status = binding_status, no_action = action\<rparr>)
           in if \<not> all_public entries
              then out (if entries = [] then ''DNS_UNVALIDATED'' else ''PRIVATE_ADDRESS'') ''DENY'' ''DENIED''
              else if nq_tls_identity_status q \<noteq> ''MATCHED'' then out ''TLS_IDENTITY_MISMATCH'' ''DENY'' ''DENIED''
              else if nq_final_revalidation_result q \<noteq> ''MATCHED'' then out ''DNS_REBINDING'' ''DENY'' ''STALE''
              else if \<not> ge_execution_enabled g then out ''EXACT_BINDING_MISSING'' ''DENY'' ''DENIED''
              else out ''NONE'' ''ALLOW'' ''VALIDATED''))"

definition network_binding :: "text_tables \<Rightarrow> engine \<Rightarrow> network_query \<Rightarrow> int \<Rightarrow> json \<Rightarrow> dict option result" where
  "network_binding T g q epoch normalized_target =
     (case normalize_url (tt_url T) (nq_url q) of
        Inl e \<Rightarrow> Inr None
      | Inr t \<Rightarrow>
          if nq_addresses q = [] then Inr None
          else map_result Some (build_connection_binding (tt_url T)
            \<lparr>ba_endpoint = nq_url q, ba_addresses = JList (map JStr (nq_addresses q)), ba_observed_at = ge_now g,
             ba_connection_epoch = epoch, ba_invalidation_epoch = epoch,
             ba_tls_identity_status = nq_tls_identity_status q,
             ba_final_revalidation_result = nq_final_revalidation_result q,
             ba_resolver_ref = ''resolver://supplied-observation'',
             ba_destination_identity_ref = Some (reference ''destination'' normalized_target),
             ba_proxy_mode = ''DIRECT'', ba_proxy_identity_ref = None, ba_execution_enabled = ge_execution_enabled g\<rparr>))"

text \<open>What the record takes from the connection binding, or from the outcome when there is none.\<close>

record binding_view =
  bv_fingerprint :: json
  bv_ref :: json
  bv_status :: json
  bv_selected_ref :: json
  bv_sequence :: json
  bv_result :: json
  bv_tls_fingerprint :: json

definition binding_view_of :: "network_query \<Rightarrow> int \<Rightarrow> network_outcome \<Rightarrow> dict option \<Rightarrow> binding_view" where
  "binding_view_of q epoch n binding =
     (case binding of
        Some b \<Rightarrow>
          (let final = fields_of (last (list_items (get b ''revalidation_events''))) in
           \<lparr>bv_fingerprint = get b ''binding_fingerprint'', bv_ref = get b ''connection_binding_id'',
            bv_status = get b ''binding_status'',
            bv_selected_ref = get (fields_of (get b ''selected_target'')) ''resolution_entry_ref'',
            bv_sequence = get final ''sequence'', bv_result = get final ''result'',
            bv_tls_fingerprint = get (fields_of (get b ''tls'')) ''identity_binding_fingerprint''\<rparr>)
      | None \<Rightarrow>
          (let fp = sha256_json (JObj
             [(''normalized'', no_normalized n), (''resolution_set_status'', JStr (no_resolution_status n)),
              (''selected_ip'', no_selected_ip n), (''selected_family'', no_selected_family n), (''epoch'', JInt epoch)]) in
           \<lparr>bv_fingerprint = JStr fp, bv_ref = JStr (reference ''connection'' (JStr fp)),
            bv_status = JStr (no_binding_status n), bv_selected_ref = JNull, bv_sequence = JInt 0,
            bv_result = JStr (if no_resolution_status n = ''ALL_ALLOWLISTED_PUBLIC'' then nq_final_revalidation_result q else ''DENIED''),
            bv_tls_fingerprint = JStr (sha256_json (JObj
              [(''url'', JStr (nq_url q)), (''tls'', JStr (nq_tls_identity_status q))]))\<rparr>))"

definition lifecycle_ref_of :: "network_query \<Rightarrow> int \<Rightarrow> network_outcome \<Rightarrow> string option" where
  "lifecycle_ref_of q epoch n =
     (if nq_operation q = ''provider_call'' then None
      else case nq_lifecycle_ref q of
        Some r \<Rightarrow> if r = [] then Some (reference ''lifecycle'' (JObj [(''url'', no_normalized n), (''epoch'', JInt epoch)])) else Some r
      | None \<Rightarrow> Some (reference ''lifecycle'' (JObj [(''url'', no_normalized n), (''epoch'', JInt epoch)])))"

text \<open>The fields of fetched content: those of the life cycle, of a placeholder, or none for a provider call.\<close>

definition fetched_fields :: "text_tables \<Rightarrow> network_query \<Rightarrow> int \<Rightarrow> network_outcome \<Rightarrow> string \<Rightarrow> dict" where
  "fetched_fields T q epoch n content_lifecycle =
     (case lifecycle_ref_of q epoch n of
        None \<Rightarrow> map (\<lambda>f. (f, JNull)) lifecycle_fields
      | Some r \<Rightarrow>
          (case nq_lifecycle q of
             Some l \<Rightarrow>
               [(''fetched_content_lifecycle_ref'', JStr r),
                (''fetched_content_lifecycle_fingerprint'', JStr (py_str T (get l ''lifecycle_fingerprint''))),
                (''fetched_content_origin_binding_ref'', get l ''origin_binding_ref''),
                (''fetched_content_destination_binding_ref'', get l ''destination_binding_ref''),
                (''fetched_content_admission_state'', get l ''admission_state''),
                (''fetched_content_retrieval_visibility'', get l ''retrieval_visibility''),
                (''fetched_content_history_terminal_state'', get l ''history_terminal_state''),
                (''fetched_content_terminal_response_fingerprint'', get l ''terminal_response_fingerprint'')]
           | None \<Rightarrow>
               [(''fetched_content_lifecycle_ref'', JStr r),
                (''fetched_content_lifecycle_fingerprint'', JStr (sha256_json (JObj [(''ref'', JStr r)]))),
                (''fetched_content_origin_binding_ref'', JStr (reference ''origin'' (no_normalized n))),
                (''fetched_content_destination_binding_ref'', JStr (reference ''binding'' (no_normalized n))),
                (''fetched_content_admission_state'', JStr content_lifecycle),
                (''fetched_content_retrieval_visibility'',
                  (if visibility_of (JStr content_lifecycle) = JNull then JStr ''NONE'' else visibility_of (JStr content_lifecycle))),
                (''fetched_content_history_terminal_state'', JStr content_lifecycle),
                (''fetched_content_terminal_response_fingerprint'',
                  JStr (sha256_json (JObj [(''response'', JStr ''not-fetched'')])))]))"

definition network_record ::
  "text_tables \<Rightarrow> engine \<Rightarrow> network_query \<Rightarrow> int \<Rightarrow> network_outcome \<Rightarrow> binding_view \<Rightarrow> string \<Rightarrow> dict" where
  "network_record T g q epoch n v content_lifecycle =
     [(''record_type'', JStr ''PMIRI_D2_OUTBOUND_NETWORK_DECISION''),
      (''schema_version'', JStr ''0.3''),
      (''decision_id'', JStr (reference ''decision''
         (JObj [(''kind'', JStr ''network''), (''url'', JStr (nq_url q)), (''epoch'', JInt epoch)]))),
      (''operation'', JStr (nq_operation q)),
      (''purpose'', JStr (nq_purpose q)),
      (''destination_binding_ref'', JStr (reference ''binding'' (no_normalized n))),
      (''destination_identity_ref'', JStr (reference ''destination'' (no_normalized n))),
      (''canonicalization_profile_id'', JStr CANONICALIZATION_PROFILE_ID),
      (''canonicalization_profile_fingerprint'', JStr CANONICALIZATION_PROFILE_FINGERPRINT),
      (''normalized_target'', no_normalized n),
      (''connection_binding_ref'', bv_ref v),
      (''connection_binding_fingerprint'', bv_fingerprint v),
      (''selected_target_resolution_ref'', bv_selected_ref v),
      (''selected_target_ip'', no_selected_ip n),
      (''selected_target_family'', no_selected_family n),
      (''resolution_set_status'', JStr (no_resolution_status n)),
      (''connection_binding_status'', bv_status v),
      (''final_revalidation_event_sequence'', bv_sequence v),
      (''final_revalidation_result'', bv_result v),
      (''tls_identity_status'',
        JStr (if no_resolution_status n = ''ALL_ALLOWLISTED_PUBLIC'' then nq_tls_identity_status q else ''MISMATCHED'')),
      (''tls_identity_fingerprint'', bv_tls_fingerprint v),
      (''connection_epoch'', JInt epoch),
      (''invalidation_epoch'', JInt epoch),
      (''freshness_profile_id'', JStr (pf_profile_id (ge_profile g))),
      (''freshness_profile_fingerprint'', JStr (profile_fingerprint (ge_profile g))),
      (''purpose_binding_ref'', JStr (reference ''purpose'' (JStr (nq_purpose q)))),
      (''trust_decision_ref'', JStr ''decision://trust/pending''),
      (''capability_decision_ref'', JStr ''decision://capability/pending''),
      (''limits_profile_ref'', JStr ''limits://default''),
      (''authority_manifest_fingerprint'', JStr (ge_authority g)),
      (''action_result'', JStr (no_action n)),
      (''content_lifecycle'', JStr content_lifecycle)]
     @ fetched_fields T q epoch n content_lifecycle
     @ [(''reason_class'', JStr (no_reason n)),
        (''validity_ref'', JStr (validity_ref g epoch))]"

definition evaluate_network :: "text_tables \<Rightarrow> engine \<Rightarrow> network_query \<Rightarrow> dict result" where
  "evaluate_network T g q =
     bind_result (network_lifecycle T q) (\<lambda>supplied.
     bind_result (invalidation_epoch g) (\<lambda>epoch.
       let n = network_outcome_of T g q in
       bind_result (network_binding T g q epoch (no_normalized n)) (\<lambda>binding.
         let content_lifecycle =
               (if nq_operation q \<noteq> ''provider_call'' \<and> supplied = ''NOT_APPLICABLE''
                then (if no_action n = ''DENY'' then ''ABORTED'' else ''QUARANTINED'') else supplied);
             result = finalize (network_record T g q epoch n (binding_view_of q epoch n binding) content_lifecycle)
         in bind_result (validate_outbound_decision result) (\<lambda>_. Inr result))))"

section \<open>The integrated envelope\<close>

definition decision_of :: "dict option \<Rightarrow> dict option" where
  "decision_of network = (case network of Some [] \<Rightarrow> None | _ \<Rightarrow> network)"

definition from_network :: "dict option \<Rightarrow> string \<Rightarrow> json" where
  "from_network network k = (case network of Some n \<Rightarrow> get n k | None \<Rightarrow> JNull)"

definition envelope_action ::
  "text_tables \<Rightarrow> dict \<Rightarrow> dict \<Rightarrow> dict option \<Rightarrow> string \<Rightarrow> (string \<times> string) result" where
  "envelope_action T trust capability network emission_mode =
     (let reason = (\<lambda>r fallback. reason_class (py_str T (get_or r ''reason_class'' (JStr fallback))) fallback);
          network_action = from_network network ''action_result'' in
      bind_result (in_set (get trust ''action_result'') ALLOWING) (\<lambda>trusted.
      if \<not> trusted then Inr (''DENY'', reason trust ''AUTHORITY_MISSING'')
      else bind_result (in_set (get capability ''action_result'') ALLOWING) (\<lambda>capable.
      if \<not> capable then Inr (str_value (get capability ''action_result''), reason capability ''CAPABILITY_MISSING'')
      else bind_result (if emission_mode = ''EXTERNAL'' then not_in network_action ALLOWING else Inr False) (\<lambda>blocked.
      if blocked then Inr (''DENY'', reason (case network of Some n \<Rightarrow> n | None \<Rightarrow> []) ''EXACT_BINDING_MISSING'')
      else if emission_mode = ''LOCAL_ONLY'' then Inr (''LOCAL_ONLY'', ''NONE'')
      else if network_action = JStr ''ALLOW_WITH_CONSTRAINTS'' \<or> get trust ''action_result'' = JStr ''ALLOW_WITH_CONSTRAINTS''
        then Inr (''ALLOW_WITH_CONSTRAINTS'', ''NONE'')
      else Inr (''ALLOW'', ''NONE'')))))"

text \<open>An allowing envelope of an external emission needs a current binding of this very request.\<close>

definition bound_action ::
  "text_tables \<Rightarrow> engine \<Rightarrow> int \<Rightarrow> dict \<Rightarrow> string \<Rightarrow> string \<Rightarrow> request_binding option \<Rightarrow> (string \<times> string) option result" where
  "bound_action T g epoch request operation purpose binding =
     (case binding of
        None \<Rightarrow> Inr (Some (''DENY'', ''AUTHORITY_MISSING''))
      | Some b \<Rightarrow>
          bind_result (binding_is_valid b (ge_now g) epoch) (\<lambda>valid.
            Inr (if \<not> valid then Some (''DENY'', ''POLICY_EPOCH_CHANGED'')
                 else if rb_operation b \<noteq> operation \<or> rb_purpose b \<noteq> purpose then Some (''DENY'', ''EXACT_BINDING_MISSING'')
                 else if rb_policy_version b \<noteq> ge_policy_version g then Some (''DENY'', ''POLICY_STALE'')
                 else (case request_from_mapping T request of
                         None \<Rightarrow> Some (''DENY'', ''EXACT_BINDING_MISSING'')
                       | Some query \<Rightarrow> if integrity_valid b query then None else Some (''DENY'', ''EXACT_BINDING_MISSING'')))))"

definition lineage_fields :: "text_tables \<Rightarrow> dict \<Rightarrow> string \<Rightarrow> string \<Rightarrow> request_binding option \<Rightarrow> dict" where
  "lineage_fields T request operation purpose binding =
     (case binding of
        Some b \<Rightarrow>
          [(''request_authorization_fingerprint'', JStr (rb_fingerprint b)),
           (''authorization_lineage_ref'', JStr (rb_binding_id b)),
           (''authorization_lineage_fingerprint'', JStr (rb_fingerprint b)),
           (''subject_chain_fingerprint'', JStr (rb_subject_chain_fingerprint b)),
           (''purpose_fingerprint'', JStr (rb_purpose_binding_fingerprint b)),
           (''operation'', JStr (rb_operation b)),
           (''purpose'', JStr (rb_purpose b))]
      | None \<Rightarrow>
          [(''request_authorization_fingerprint'',
             get_or request ''request_authorization_fingerprint'' (JStr (sha256_json (JObj request)))),
           (''authorization_lineage_ref'', JStr (py_str T
             (get_or request ''authorization_lineage_ref'' (JStr (reference ''lineage'' (JObj request)))))),
           (''authorization_lineage_fingerprint'', get_or request ''authorization_lineage_fingerprint''
             (JStr (sha256_json (JObj [(''lineage'', get_or request ''authorization_lineage_ref'' (JStr ''local''))])))),
           (''subject_chain_fingerprint'', get_or request ''subject_chain_fingerprint''
             (JStr (sha256_json (get_or request ''subject'' (JObj []))))),
           (''purpose_fingerprint'', get_or request ''purpose_fingerprint'' (JStr (sha256_json (purpose_json purpose)))),
           (''operation'', JStr operation),
           (''purpose'', JStr purpose)])"

text \<open>A reference and its fingerprint, each from the request or a local default.\<close>

definition referenced :: "text_tables \<Rightarrow> dict \<Rightarrow> string \<Rightarrow> string \<Rightarrow> json \<Rightarrow> dict" where
  "referenced T request name default_ref content =
     [(name @ ''_ref'', JStr (py_str T (get_or request (name @ ''_ref'') (JStr default_ref)))),
      (name @ ''_fingerprint'', get_or request (name @ ''_fingerprint'') (JStr (sha256_json content)))]"

definition evidence_fields :: "text_tables \<Rightarrow> dict \<Rightarrow> string \<Rightarrow> dict" where
  "evidence_fields T request purpose =
     referenced T request ''source_evidence_set'' ''evidence://local'' (JObj [(''source'', JStr ''local'')])
     @ referenced T request ''context_intent'' ''intent://local'' (JObj [(''intent'', JStr purpose)])
     @ referenced T request ''inherited_epistemic_ceiling'' ''ceiling://local'' (JObj [(''ceiling'', JStr ''bounded'')])
     @ referenced T request ''semantic_obligations'' ''obligations://local'' (JObj [(''obligations'', JList [])])"

definition envelope_record ::
  "text_tables \<Rightarrow> engine \<Rightarrow> int \<Rightarrow> dict \<Rightarrow> dict \<Rightarrow> dict \<Rightarrow> dict option \<Rightarrow> string \<Rightarrow> json \<Rightarrow> string list
     \<Rightarrow> request_binding option \<Rightarrow> string \<times> string \<Rightarrow> dict" where
  "envelope_record T g epoch request trust capability network emission_mode content_lifecycle constraint_refs binding outcome =
     (let operation = py_str T (get_or request ''operation'' (JStr ''provider_call''));
          purpose = py_str T (get_or request ''purpose'' (JStr ''provider_call'')) in
      [(''record_type'', JStr ''PMIRI_D2_INTEGRATED_DECISION_ENVELOPE''),
       (''schema_version'', JStr ''0.3''),
       (''decision_id'', JStr (reference ''decision''
          (JObj [(''kind'', JStr ''integrated''), (''request'', JObj request), (''epoch'', JInt epoch)])))]
      @ lineage_fields T request operation purpose binding
      @ evidence_fields T request purpose
      @ [(''material_manifest_fingerprint'',
            get_or request ''material_manifest_fingerprint'' (get capability ''material_manifest_fingerprint'')),
         (''destination_binding_ref'', JStr (py_str T (get_or request ''destination_binding_ref''
            (case network of Some n \<Rightarrow> get n ''destination_binding_ref''
             | None \<Rightarrow> get_or trust ''destination_binding_ref'' (JStr ''binding://destination''))))),
         (''destination_binding_fingerprint'', get_or request ''destination_binding_fingerprint''
            (JStr (sha256_json (JObj [(''destination'', get_or request ''destination'' (JStr ''local''))])))),
         (''trust_assertion_set_fingerprint'', get_or request ''trust_assertion_set_fingerprint''
            (JStr (fingerprint_set (list_items (get trust ''trust_assertion_refs''))))),
         (''capability_observation_set_fingerprint'', get_or request ''capability_observation_set_fingerprint''
            (JStr (fingerprint_set (list_items (get capability ''observation_refs''))))),
         (''constrained_artifact_fingerprint'',
            (if emission_mode = ''EXTERNAL'' then get_or request ''constrained_artifact_fingerprint''
               (JStr (sha256_json (JObj [(''artifact'', JStr ''provider-neutral-context'')]))) else JNull)),
         (''network_binding_fingerprint'', from_network network ''connection_binding_fingerprint''),
         (''outbound_network_decision_ref'', from_network network ''decision_id''),
         (''outbound_network_decision_fingerprint'', from_network network ''decision_fingerprint'')]
      @ map (\<lambda>f. (f, from_network network f)) lifecycle_fields
      @ [(''policy_version'', JStr (case binding of Some b \<Rightarrow> rb_policy_version b | None \<Rightarrow> ge_policy_version g)),
         (''freshness_profile_id'', JStr (pf_profile_id (ge_profile g))),
         (''freshness_profile_fingerprint'', JStr (profile_fingerprint (ge_profile g))),
         (''invalidation_epoch'', JInt (case binding of Some b \<Rightarrow> rb_policy_epoch b | None \<Rightarrow> epoch)),
         (''emission_mode'', JStr emission_mode),
         (''authority_manifest_fingerprint'', JStr (ge_authority g)),
         (''validity_ref'', JStr (validity_ref g epoch)),
         (''trust_state'', get_or trust ''trust_state'' (JStr ''UNKNOWN'')),
         (''capability_state'', get_or capability ''capability_state'' (JStr ''MISSING'')),
         (''action_result'', JStr (fst outcome)),
         (''content_lifecycle'', content_lifecycle),
         (''reason_class'', JStr (snd outcome)),
         (''constraint_refs'', JList (map JStr (from_keys constraint_refs)))])"

definition build_integrated_envelope ::
  "text_tables \<Rightarrow> engine \<Rightarrow> dict \<Rightarrow> dict \<Rightarrow> dict \<Rightarrow> dict option \<Rightarrow> string \<Rightarrow> string \<Rightarrow> string list
     \<Rightarrow> request_binding option \<Rightarrow> dict result" where
  "build_integrated_envelope T g request trust capability network_decision emission_mode content_lifecycle constraint_refs binding =
     bind_result (run_checks [validate_trust_decision trust, validate_capability_decision capability]) (\<lambda>_.
       let operation = py_str T (get_or request ''operation'' (JStr ''provider_call''));
           purpose = py_str T (get_or request ''purpose'' (JStr ''provider_call''));
           network = decision_of network_decision in
       bind_result (envelope_action T trust capability network emission_mode) (\<lambda>outcome.
       bind_result (invalidation_epoch g) (\<lambda>epoch.
       bind_result (if emission_mode = ''EXTERNAL'' \<and> fst outcome \<in> set ALLOWING
                    then bound_action T g epoch request operation purpose binding else Inr None) (\<lambda>denial.
         let lifecycle = (case network of
               Some n \<Rightarrow> if operation \<noteq> ''provider_call'' then get_or n ''content_lifecycle'' (JStr content_lifecycle)
                         else JStr content_lifecycle
             | None \<Rightarrow> JStr content_lifecycle);
             result = finalize (envelope_record T g epoch request trust capability network emission_mode lifecycle
               constraint_refs binding (case denial of Some d \<Rightarrow> d | None \<Rightarrow> outcome))
         in bind_result (validate_integrated_envelope result) (\<lambda>_. Inr result)))))"

section \<open>Records the engine finalizes\<close>

lemma finalize_absent:
  assumes "''decision_fingerprint'' \<notin> fst ` set r" "''captured_at'' \<notin> fst ` set r"
  shows "finalize r = r @ [(''decision_fingerprint'', JStr (sha256_json (JObj r)))]"
proof -
  have "without [''decision_fingerprint'', ''captured_at''] r = r"
    using assms unfolding without_def by (intro filter_True) force
  then show ?thesis using assms(1) by (simp add: finalize_def decision_fingerprint_def dict_put_absent)
qed

lemma finalized_facts:
  assumes "''decision_fingerprint'' \<notin> fst ` set r" "''captured_at'' \<notin> fst ` set r"
  shows "get (finalize r) ''decision_fingerprint'' = JStr (sha256_json (JObj r))"
    and "without [''decision_fingerprint''] (finalize r) = r"
    and "decision_fingerprint (finalize r) = sha256_json (JObj r)"
    and "keys (finalize r) = insert ''decision_fingerprint'' (keys r)"
    and "k \<noteq> ''decision_fingerprint'' \<Longrightarrow> get (finalize r) k = get r k"
    and "k \<noteq> ''decision_fingerprint'' \<Longrightarrow> has_key (finalize r) k = has_key r k"
proof -
  note f = finalize_absent [OF assms]
  show "get (finalize r) ''decision_fingerprint'' = JStr (sha256_json (JObj r))"
    using assms(1) by (auto simp: f get_append has_key_keys keys_def)
  show "without [''decision_fingerprint''] (finalize r) = r" using assms(1) by (simp add: f)
  have "without [''decision_fingerprint'', ''captured_at''] r = r"
    using assms unfolding without_def by (intro filter_True) force
  then show "decision_fingerprint (finalize r) = sha256_json (JObj r)"
    by (simp add: f decision_fingerprint_def without_def)
  show "keys (finalize r) = insert ''decision_fingerprint'' (keys r)" by (auto simp: f keys_def)
  show "k \<noteq> ''decision_fingerprint'' \<Longrightarrow> get (finalize r) k = get r k"
    by (auto simp: f get_append get_def has_key_def split: option.splits)
  show "k \<noteq> ''decision_fingerprint'' \<Longrightarrow> has_key (finalize r) k = has_key r k"
    by (auto simp: f has_key_keys keys_def)
qed

lemma reference_not_Nil [simp]: "reference kind v \<noteq> []"
  by (simp add: reference_def)

text \<open>Every trust outcome makes a record that validates.\<close>

definition trust_outcomes :: "(string \<times> string \<times> string) list" where
  "trust_outcomes =
     [(''REVOKED'', ''DENY'', ''AUTHORITY_CONFLICT''), (''UNKNOWN'', ''DENY'', ''AUTHORITY_MISSING''),
      (''UNTRUSTED'', ''DENY'', ''SCOPE_MISMATCH''), (''EXPIRED'', ''DENY'', ''POLICY_STALE''),
      (''INVALID'', ''DENY'', ''MATERIAL_FINGERPRINT_MISMATCH''), (''TRUSTED_FOR_BOUND_PURPOSE'', ''ALLOW'', ''NONE'')]"

lemma trust_outcome_in: "trust_outcome g q = Inr outcome \<Longrightarrow> outcome \<in> set trust_outcomes"
  by (auto simp: trust_outcome_def trust_outcomes_def Let_def result_simps split: if_splits)

definition trust_keys :: "string list" where
  "trust_keys = filter (\<lambda>k. k \<noteq> ''decision_fingerprint'') trust_required"

lemma trust_record_keys:
  "map fst (trust_record T g q epoch (state, action, reason)) =
     trust_keys @ (if action = ''ALLOW'' then [''allowed_feature_refs''] else [])"
  by (simp add: trust_record_def trust_keys_def trust_required_def)

lemma trust_record_no:
  "''decision_fingerprint'' \<notin> fst ` set (trust_record T g q epoch outcome)"
  "''captured_at'' \<notin> fst ` set (trust_record T g q epoch outcome)"
proof -
  have k: "''decision_fingerprint'' \<notin> set (trust_keys @ [''allowed_feature_refs''])"
    "''captured_at'' \<notin> set (trust_keys @ [''allowed_feature_refs''])"
    by (simp_all add: trust_keys_def trust_required_def)
  obtain state action reason where o: "outcome = (state, action, reason)" by (cases outcome)
  show "''decision_fingerprint'' \<notin> fst ` set (trust_record T g q epoch outcome)"
    "''captured_at'' \<notin> fst ` set (trust_record T g q epoch outcome)"
    using k unfolding o set_map [symmetric] trust_record_keys by simp_all
qed

lemma trust_record_validates:
  assumes "is_sha256_str (ge_authority g)" "outcome \<in> set trust_outcomes"
    and "list_all (\<lambda>a. assertion_ref T a \<noteq> []) (tq_assertions q)"
  shows "validate_trust_decision (finalize (trust_record T g q epoch outcome)) = Inr ()"
proof -
  let ?r = "trust_record T g q epoch outcome"
  obtain state action reason where o: "outcome = (state, action, reason)" by (cases outcome)
  let ?refs = "if tq_assertions q = []
            then [reference ''assertion'' (JObj [(''subject'', JObj (tq_subject q)), (''purpose'', JStr (tq_purpose q))])]
            else map (assertion_ref T) (tq_assertions q)"
  note f = finalized_facts [OF trust_record_no [of T g q epoch outcome]]
  have g: "get ?r ''record_type'' = JStr ''PMIRI_D2_TRUST_DECISION''" "get ?r ''schema_version'' = JStr ''0.3''"
    "get ?r ''trust_assertion_refs'' = JList (map JStr ?refs)"
    "get ?r ''authority_manifest_fingerprint'' = JStr (ge_authority g)"
    "get ?r ''freshness_profile_fingerprint'' = JStr (profile_fingerprint (ge_profile g))"
    "get ?r ''trust_state'' = JStr state" "get ?r ''reason_class'' = JStr reason" "get ?r ''action_result'' = JStr action"
    "get ?r ''content_lifecycle'' = JStr ''NOT_APPLICABLE''"
    unfolding trust_record_def o prod.case by (simp_all only: lookup_simps)
  have feature: "\<not> has_key ?r ''allowed_feature_refs'' \<or> all_strs (get ?r ''allowed_feature_refs'')"
    unfolding trust_record_def o prod.case
    by (cases "action = ''ALLOW''"; cases "tq_feature q") (simp_all add: all_strs_def)
  have refs: "?refs \<noteq> []" "all_strs (JList (map JStr ?refs))"
    using assms(3) by (auto simp: all_strs_def list_all_iff)
  have keys: "set trust_required \<subseteq> keys (finalize ?r)" "keys (finalize ?r) \<subseteq> set trust_required \<union> set trust_optional"
  proof -
    have "keys ?r = set (trust_keys @ (if action = ''ALLOW'' then [''allowed_feature_refs''] else []))"
      unfolding keys_def o set_map [symmetric] trust_record_keys ..
    moreover have "set trust_required = insert ''decision_fingerprint'' (set trust_keys)"
      by (auto simp: trust_keys_def trust_required_def)
    moreover have "''allowed_feature_refs'' \<in> set trust_optional" by (simp add: trust_optional_def)
    ultimately show "set trust_required \<subseteq> keys (finalize ?r)" "keys (finalize ?r) \<subseteq> set trust_required \<union> set trust_optional"
      unfolding f(4) by auto
  qed
  have voc: "state \<in> set TRUST_STATES" "action \<in> set ACTIONS" "reason \<in> set REASON_CLASSES"
    "action = ''ALLOW'' \<longrightarrow> state = ''TRUSTED_FOR_BOUND_PURPOSE''"
    "state \<notin> set NON_TRUSTED \<or> action \<notin> set ALLOWING" "action \<noteq> ''ALLOW_WITH_CONSTRAINTS''"
    "state \<noteq> ''CONDITIONALLY_TRUSTED''"
    using assms(2) unfolding o
    by (auto simp: trust_outcomes_def TRUST_STATES_def REASON_CLASSES_def NON_TRUSTED_def ALLOWING_def ACTIONS_def)
  have pf: "is_sha256_str (profile_fingerprint p)" for p by (simp add: profile_fingerprint_def)
  show ?thesis
    unfolding validate_trust_decision_def f(2)
    using assms(1) voc(1-3,5) refs keys feature pf
    by (simp add: check_simps f(1,5,6) g is_list_def is_obj_def voc(6,7) del: set_simps)
qed

lemma evaluate_trust_returns:
  assumes "is_sha256_str (ge_authority g)" "list_all (\<lambda>a. assertion_ref T a \<noteq> []) (tq_assertions q)"
    and "trust_outcome g q = Inr outcome" "invalidation_epoch g = Inr epoch"
  shows "evaluate_trust T g q = Inr (finalize (trust_record T g q epoch outcome))"
  using trust_record_validates [OF assms(1) trust_outcome_in [OF assms(3)] assms(2)] assms(3,4)
  by (simp add: evaluate_trust_def Let_def)

text \<open>Capability records.\<close>

definition capability_outcomes :: "(string \<times> string \<times> string) list" where
  "capability_outcomes =
     [(''MISSING'', ''DENY'', ''CAPABILITY_MISSING''), (''STALE'', ''REQUIRE_REVALIDATION'', ''STALE_EVIDENCE''),
      (''OUT_OF_SCOPE'', ''DENY'', ''CAPABILITY_OUT_OF_SCOPE''), (''FRESH'', ''ALLOW'', ''NONE'')]"

lemma capability_outcome_in: "capability_outcome g epoch q = Inr outcome \<Longrightarrow> outcome \<in> set capability_outcomes"
  by (auto simp: capability_outcome_def capability_outcomes_def Let_def result_simps split: if_splits)

lemma capability_record_keys:
  "map fst (capability_record T g q epoch (state, action, reason)) @ [''decision_fingerprint''] = capability_required"
  by (simp add: capability_record_def capability_required_def)

lemma capability_record_no:
  "''decision_fingerprint'' \<notin> fst ` set (capability_record T g q epoch outcome)"
  "''captured_at'' \<notin> fst ` set (capability_record T g q epoch outcome)"
proof -
  obtain state action reason where o: "outcome = (state, action, reason)" by (cases outcome)
  have "distinct capability_required" "''captured_at'' \<notin> set capability_required" by (simp_all add: capability_required_def)
  then show "''decision_fingerprint'' \<notin> fst ` set (capability_record T g q epoch outcome)"
    "''captured_at'' \<notin> fst ` set (capability_record T g q epoch outcome)"
    unfolding o set_map [symmetric] capability_record_keys [of T g q epoch state action reason, symmetric] by simp_all
qed

lemma capability_record_validates:
  assumes "is_sha256_str (ge_authority g)" "0 \<le> epoch" "(state, action, reason) \<in> set capability_outcomes"
    and "list_all (\<lambda>a. observation_ref T a \<noteq> []) (cq_observations q)" "cq_observations q \<noteq> [] \<or> state = ''MISSING''"
  shows "validate_capability_decision (finalize (capability_record T g q epoch (state, action, reason))) = Inr ()"
proof -
  let ?r = "capability_record T g q epoch (state, action, reason)"
  note f = finalized_facts [OF capability_record_no [of T g q epoch "(state, action, reason)"]]
  have g: "get ?r ''record_type'' = JStr ''PMIRI_D2_CAPABILITY_DECISION''" "get ?r ''schema_version'' = JStr ''0.2''"
    "get ?r ''observation_refs'' = JList (map (JStr \<circ> observation_ref T) (cq_observations q))"
    "get ?r ''material_manifest_fingerprint'' = JStr (sha256_json (JObj [(''ref'', JStr (cq_material_manifest_ref q))]))"
    "get ?r ''capability_profile_fingerprint'' = JStr (fingerprint_set (map JStr (from_keys (cq_required q))))"
    "get ?r ''authority_manifest_fingerprint'' = JStr (ge_authority g)"
    "get ?r ''freshness_profile_fingerprint'' = JStr (profile_fingerprint (ge_profile g))"
    "get ?r ''invalidation_epoch'' = JInt epoch" "get ?r ''capability_state'' = JStr state"
    "get ?r ''reason_class'' = JStr reason" "get ?r ''action_result'' = JStr action"
    unfolding capability_record_def prod.case by (simp_all only: lookup_simps)
  have keys: "keys (finalize ?r) = set capability_required"
    unfolding f(4) unfolding keys_def set_map [symmetric] capability_record_keys [of T g q epoch state action reason, symmetric]
    by simp
  have voc: "state \<in> set CAPABILITY_STATES" "action \<in> set ACTIONS" "reason \<in> set REASON_CLASSES"
    "state = ''FRESH'' \<or> action \<notin> set ALLOWING" "state = ''MISSING'' \<longrightarrow> reason = ''CAPABILITY_MISSING''"
    using assms(3) by (auto simp: capability_outcomes_def CAPABILITY_STATES_def ACTIONS_def REASON_CLASSES_def ALLOWING_def)
  have fp: "is_sha256_str (profile_fingerprint p)" "is_sha256_str (fingerprint_set vs)" for p vs
    by (simp_all add: profile_fingerprint_def fingerprint_set_def)
  have refs: "all_strs (JList (map (JStr \<circ> observation_ref T) (cq_observations q)))"
    using assms(4) by (simp add: all_strs_def list_all_iff)
  show ?thesis
    unfolding validate_capability_decision_def f(2)
    using assms(1,2,5) voc refs
    by (auto simp: check_simps f(1,5) g keys fp is_list_def is_obj_def simp del: set_simps)
qed

text \<open>An observation that validates has readable times, so only the clock can leave the calendar.\<close>

lemma observation_window:
  assumes "validate_capability_observation r = Inr ()"
  obtains a b where "has_key r ''observed_at''" "has_key r ''valid_until''"
    "parse_policy_timestamp (get r ''observed_at'') = Inr a" "parse_policy_timestamp (get r ''valid_until'') = Inr b"
    "nonempty_str (get r ''capability_observation_id'')" "\<exists>e. get r ''invalidation_epoch'' = JInt e"
proof -
  note v = assms [unfolded validate_capability_observation_def]
  have k: "has_key r ''observed_at''" "has_key r ''valid_until''"
    using v by (auto simp: check_simps observation_required_def has_key_keys)
  have w: "check_window r = Inr ()" and n: "nonempty_str (get r ''capability_observation_id'')"
    and e: "int_at_least 0 (get r ''invalidation_epoch'')" using v by (simp_all add: check_simps)
  from w obtain a b where "parse_policy_timestamp (get r ''observed_at'') = Inr a"
    "parse_policy_timestamp (get r ''valid_until'') = Inr b"
    by (auto simp: check_window_def Let_def result_simps split: sum.splits)
  with that k n int_at_leastE [OF e] show thesis by blast
qed

lemma filter_r_total: "(\<And>x. x \<in> set xs \<Longrightarrow> f x = Inr (P x)) \<Longrightarrow> filter_r f xs = Inr (filter P xs)"
  by (induction xs) auto

end
