(* ===== verification/Gate_D_Fence.thy ===== *)
theory Gate_D_Fence
  imports Gate_D_Engine
begin

text \<open>
  \<^verbatim>\<open>pmiri/gate_d.py\<close>, the final fence \<^verbatim>\<open>authorize_emission\<close> and \<^verbatim>\<open>EnforcedTransportRuntime\<close>. A transport
  is a function on a state of its own, so that a call is visible as a change of that state; the
  revalidator is an argument, in the program \<^verbatim>\<open>RequestAuthorizationService.revalidate\<close>. What is shown: a
  transport runs only behind a complete, current and revalidated chain of decisions, and advancing the
  epoch blocks everything compiled before.
\<close>

section \<open>The fence\<close>

definition integrated_fields :: "string list" where
  "integrated_fields =
     [''record_type'', ''schema_version'', ''decision_id'', ''request_authorization_fingerprint'', ''authorization_lineage_ref'',
      ''authorization_lineage_fingerprint'', ''source_evidence_set_ref'', ''source_evidence_set_fingerprint'', ''context_intent_ref'',
      ''context_intent_fingerprint'', ''inherited_epistemic_ceiling_ref'', ''inherited_epistemic_ceiling_fingerprint'',
      ''semantic_obligations_ref'', ''semantic_obligations_fingerprint'', ''subject_chain_fingerprint'', ''purpose_fingerprint'',
      ''operation'', ''purpose'', ''material_manifest_fingerprint'', ''destination_binding_ref'', ''destination_binding_fingerprint'',
      ''trust_assertion_set_fingerprint'', ''capability_observation_set_fingerprint'', ''policy_version'', ''freshness_profile_id'',
      ''freshness_profile_fingerprint'', ''invalidation_epoch'', ''emission_mode'', ''authority_manifest_fingerprint'', ''validity_ref'',
      ''trust_state'', ''capability_state'', ''action_result'', ''content_lifecycle'', ''outbound_network_decision_ref'',
      ''outbound_network_decision_fingerprint'', ''fetched_content_lifecycle_ref'', ''fetched_content_lifecycle_fingerprint'',
      ''fetched_content_origin_binding_ref'', ''fetched_content_destination_binding_ref'', ''fetched_content_admission_state'',
      ''fetched_content_retrieval_visibility'', ''fetched_content_history_terminal_state'', ''fetched_content_terminal_response_fingerprint'',
      ''reason_class'', ''decision_fingerprint'', ''constrained_artifact_fingerprint'', ''network_binding_fingerprint'', ''constraint_refs'']"

definition outbound_fields :: "string list" where
  "outbound_fields =
     [''record_type'', ''schema_version'', ''decision_id'', ''operation'', ''purpose'', ''destination_binding_ref'', ''destination_identity_ref'',
      ''canonicalization_profile_id'', ''canonicalization_profile_fingerprint'', ''normalized_target'', ''connection_binding_ref'',
      ''connection_binding_fingerprint'', ''selected_target_resolution_ref'', ''selected_target_ip'', ''selected_target_family'',
      ''resolution_set_status'', ''connection_binding_status'', ''final_revalidation_event_sequence'', ''final_revalidation_result'',
      ''tls_identity_status'', ''tls_identity_fingerprint'', ''connection_epoch'', ''invalidation_epoch'', ''freshness_profile_id'',
      ''freshness_profile_fingerprint'', ''purpose_binding_ref'', ''trust_decision_ref'', ''capability_decision_ref'', ''limits_profile_ref'',
      ''authority_manifest_fingerprint'', ''action_result'', ''content_lifecycle'', ''fetched_content_lifecycle_ref'',
      ''fetched_content_lifecycle_fingerprint'', ''fetched_content_origin_binding_ref'', ''fetched_content_destination_binding_ref'',
      ''fetched_content_admission_state'', ''fetched_content_retrieval_visibility'', ''fetched_content_history_terminal_state'',
      ''fetched_content_terminal_response_fingerprint'', ''reason_class'', ''validity_ref'', ''decision_fingerprint'']"

text \<open>The request an emission is for: a query, or a mapping it is read from.\<close>

datatype authorization_request =
    Query query_request
  | Request_mapping dict

definition authorization_query :: "text_tables \<Rightarrow> authorization_request option \<Rightarrow> query_request option" where
  "authorization_query T request =
     (case request of
        Some (Query q) \<Rightarrow> Some q
      | Some (Request_mapping d) \<Rightarrow> request_from_mapping T d
      | None \<Rightarrow> None)"

definition expected_binding_fields :: "request_binding \<Rightarrow> dict" where
  "expected_binding_fields b =
     [(''request_authorization_fingerprint'', JStr (rb_fingerprint b)),
      (''authorization_lineage_ref'', JStr (rb_binding_id b)),
      (''authorization_lineage_fingerprint'', JStr (rb_fingerprint b)),
      (''subject_chain_fingerprint'', JStr (rb_subject_chain_fingerprint b)),
      (''purpose_fingerprint'', JStr (rb_purpose_binding_fingerprint b)),
      (''operation'', JStr (rb_operation b)),
      (''purpose'', JStr (rb_purpose b)),
      (''policy_version'', JStr (rb_policy_version b)),
      (''invalidation_epoch'', JInt (rb_policy_epoch b))]"

definition denial_reason :: "text_tables \<Rightarrow> dict \<Rightarrow> string" where
  "denial_reason T envelope = py_str T (get_or envelope ''reason_class'' (JStr ''DENIED''))"

definition fence_records :: "text_tables \<Rightarrow> dict \<Rightarrow> dict \<Rightarrow> dict \<Rightarrow> int \<Rightarrow> unit result" where
  "fence_records T envelope trust capability epoch = run_checks
     [violation_if (\<not> py_eq (get envelope ''invalidation_epoch'') (JInt epoch)) ''POLICY_EPOCH_CHANGED'',
      violation_if (\<not> py_eq (get envelope ''trust_state'') (get trust ''trust_state'')) ''trust_state_binding_mismatch'',
      violation_if (\<not> py_eq (get envelope ''capability_state'') (get capability ''capability_state'')) ''capability_state_binding_mismatch'',
      violation_if (get envelope ''emission_mode'' \<noteq> JStr ''EXTERNAL'') ''LOCAL_ONLY_EMISSION'',
      violation_if_r (not_in (get envelope ''action_result'') ALLOWING) (denial_reason T envelope)]"

definition fence_binding ::
  "text_tables \<Rightarrow> engine \<Rightarrow> int \<Rightarrow> dict \<Rightarrow> request_binding option \<Rightarrow> authorization_request option
     \<Rightarrow> (query_request \<Rightarrow> request_binding \<Rightarrow> string \<Rightarrow> bool result) option \<Rightarrow> unit result" where
  "fence_binding T g epoch envelope binding request revalidator =
     (case binding of
        None \<Rightarrow> raise ContractViolation ''AUTHORITY_MISSING''
      | Some b \<Rightarrow> bind_result (run_checks
          [violation_if_r (map_result Not (binding_is_valid b (ge_now g) epoch)) ''AUTHORITY_STALE_OR_INVALID'',
           violation_if (rb_policy_version b \<noteq> ge_policy_version g) ''POLICY_VERSION_MISMATCH''])
        (\<lambda>_. case authorization_query T request of
           None \<Rightarrow> raise ContractViolation ''REQUEST_BINDING_MISMATCH''
         | Some q \<Rightarrow> run_checks
             [violation_if (\<not> integrity_valid b q) ''REQUEST_BINDING_MISMATCH'',
              violation_if (list_ex (\<lambda>(k, v). \<not> py_eq (get envelope k) v) (expected_binding_fields b)) ''AUTHORIZATION_BINDING_MISMATCH'',
              violation_if_r (case revalidator of None \<Rightarrow> Inr True | Some f \<Rightarrow> map_result Not (f q b (ge_now g)))
                ''AUTHORITY_REVALIDATION_FAILED'']))"

definition fence_network :: "dict \<Rightarrow> dict option \<Rightarrow> dict option \<Rightarrow> unit result" where
  "fence_network envelope network_decision lifecycle =
     (case network_decision of
        None \<Rightarrow> raise ContractViolation ''network_decision_missing''
      | Some n \<Rightarrow> run_checks
          [violation_if (keys envelope \<noteq> set integrated_fields) ''integrated_envelope_schema_shape_invalid'',
           violation_if (keys n \<noteq> set outbound_fields) ''outbound_network_decision_schema_shape_invalid'',
           violation_if (\<not> py_eq (get envelope ''network_binding_fingerprint'') (get n ''connection_binding_fingerprint''))
             ''network_binding_fingerprint_mismatch'',
           violation_if (\<not> py_eq (get envelope ''outbound_network_decision_ref'') (get n ''decision_id'')
               \<or> \<not> py_eq (get envelope ''outbound_network_decision_fingerprint'') (get n ''decision_fingerprint''))
             ''outbound_network_decision_binding_mismatch'',
           violation_if (\<not> py_eq (get envelope ''destination_binding_ref'') (get n ''destination_binding_ref'')) ''destination_binding_mismatch'',
           validate_external_emission envelope n lifecycle])"

definition authorize_emission ::
  "text_tables \<Rightarrow> engine \<Rightarrow> dict \<Rightarrow> dict \<Rightarrow> dict \<Rightarrow> dict option \<Rightarrow> dict option \<Rightarrow> request_binding option
     \<Rightarrow> authorization_request option \<Rightarrow> (query_request \<Rightarrow> request_binding \<Rightarrow> string \<Rightarrow> bool result) option \<Rightarrow> unit result" where
  "authorize_emission T g envelope trust capability network_decision lifecycle binding request revalidator =
     bind_result (run_checks
       [validate_integrated_envelope envelope, validate_trust_decision trust, validate_capability_decision capability,
        violation_if (get envelope ''decision_fingerprint'' \<noteq> JStr (decision_fingerprint envelope))
          ''integrated_decision_fingerprint_mismatch'']) (\<lambda>_.
     bind_result (invalidation_epoch g) (\<lambda>epoch. run_checks
       [fence_records T envelope trust capability epoch,
        fence_binding T g epoch envelope binding request revalidator,
        fence_network envelope network_decision lifecycle]))"

section \<open>The runtime\<close>

record execution_receipt =
  er_status :: string
  er_action_result :: string
  er_reason_class :: string
  er_transport_called :: bool
  er_output :: "dict option"

definition receipt_dict :: "execution_receipt \<Rightarrow> dict" where
  "receipt_dict r =
     [(''status'', JStr (er_status r)), (''action_result'', JStr (er_action_result r)),
      (''reason_class'', JStr (er_reason_class r)), (''transport_called'', JBool (er_transport_called r)),
      (''output'', case er_output r of None \<Rightarrow> JNull | Some d \<Rightarrow> JObj d)]"

definition refusal :: "string \<Rightarrow> string \<Rightarrow> string \<Rightarrow> execution_receipt" where
  "refusal status action reason =
     \<lparr>er_status = status, er_action_result = action, er_reason_class = reason, er_transport_called = False, er_output = None\<rparr>"

text \<open>
  A transport: whether it is the in-memory one, the network decision it was bound to if it has one, and
  its call on a state.
\<close>

record ('m, 'o, 's) transport =
  tr_in_memory :: bool
  tr_network_decision :: "dict option"
  tr_call :: "'m \<Rightarrow> 's \<Rightarrow> 'o result \<times> 's"

definition default_response :: dict where
  "default_response = [(''provider'', JStr ''in-memory''), (''text'', JStr ''synthetic response'')]"

definition in_memory_provider :: "dict option \<Rightarrow> (dict, dict, dict list) transport" where
  "in_memory_provider response =
     \<lparr>tr_in_memory = True, tr_network_decision = None,
      tr_call = (\<lambda>payload calls.
        (Inr (case response of Some r \<Rightarrow> if r = [] then default_response else r | None \<Rightarrow> default_response), calls @ [payload]))\<rparr>"

definition in_memory_connector :: "string \<Rightarrow> (string, string, string list) transport" where
  "in_memory_connector response =
     \<lparr>tr_in_memory = True, tr_network_decision = None, tr_call = (\<lambda>target calls. (Inr response, calls @ [target]))\<rparr>"

definition binding_matches :: "('m, 'o, 's) transport \<Rightarrow> dict \<Rightarrow> bool" where
  "binding_matches t network_decision =
     (case tr_network_decision t of
        None \<Rightarrow> True
      | Some bound \<Rightarrow> list_all (\<lambda>f. py_eq (get bound f) (get network_decision f))
          [''operation'', ''normalized_target'', ''connection_binding_ref'', ''connection_binding_fingerprint'',
           ''connection_epoch'', ''invalidation_epoch''])"

text \<open>
  What both executions share: the fence, with \<^verbatim>\<open>except ContractViolation\<close> around it, the configuration of
  the transport and its call. \<open>kind\<close> names the transport in the reasons.
\<close>

definition execute_fenced ::
  "text_tables \<Rightarrow> string \<Rightarrow> bool \<Rightarrow> ('m, 'o, 's) transport option \<Rightarrow> ('o \<Rightarrow> dict) \<Rightarrow> unit result \<Rightarrow> dict \<Rightarrow> dict
     \<Rightarrow> 'm \<Rightarrow> 's \<Rightarrow> execution_receipt result \<times> 's" where
  "execute_fenced T kind authorized configured output fence envelope network_decision m s =
     (case fence of
        Inl e \<Rightarrow>
          (if fst e = ContractViolation
           then Inr (refusal ''DENIED'' (py_str T (get_or envelope ''action_result'' (JStr ''DENY''))) (snd e)) else Inl e, s)
      | Inr _ \<Rightarrow>
          (case configured of
             None \<Rightarrow> (Inr (refusal ''BLOCKED'' ''DENY'' (kind @ ''_TRANSPORT_NOT_CONFIGURED'')), s)
           | Some t \<Rightarrow>
               if \<not> tr_in_memory t \<and> \<not> authorized
               then (Inr (refusal ''BLOCKED'' ''DENY'' (''EXTERNAL_'' @ kind @ ''_NOT_AUTHORIZED'')), s)
               else if \<not> binding_matches t network_decision
               then (Inr (refusal ''DENIED'' ''DENY'' ''TRANSPORT_DECISION_BINDING_MISMATCH''), s)
               else (case tr_call t m s of (r, s') \<Rightarrow>
                 (map_result (\<lambda>response.
                    \<lparr>er_status = ''EXECUTED'', er_action_result = ''ALLOW'', er_reason_class = ''NONE'', er_transport_called = True,
                     er_output = Some (output response)\<rparr>) r, s'))))"

record 's runtime =
  rn_engine :: engine
  rn_provider :: "(dict, dict, 's) transport option"
  rn_connector :: "(string, string, 's) transport option"
  rn_authorized :: bool

definition execute_provider ::
  "text_tables \<Rightarrow> 's runtime \<Rightarrow> dict \<Rightarrow> dict \<Rightarrow> dict \<Rightarrow> dict \<Rightarrow> dict \<Rightarrow> request_binding option \<Rightarrow> authorization_request option
     \<Rightarrow> (query_request \<Rightarrow> request_binding \<Rightarrow> string \<Rightarrow> bool result) option \<Rightarrow> 's \<Rightarrow> execution_receipt result \<times> 's" where
  "execute_provider T rn payload envelope trust capability network_decision binding request revalidator s =
     execute_fenced T ''PROVIDER'' (rn_authorized rn) (rn_provider rn) (\<lambda>r. r)
       (authorize_emission T (rn_engine rn) envelope trust capability (Some network_decision) None binding request revalidator)
       envelope network_decision payload s"

definition hex_text :: "string \<Rightarrow> string" where
  "hex_text bytes = concat (map (\<lambda>c. [hex_digit (of_char c div 16), hex_digit (of_char c)]) bytes)"

definition execute_connector ::
  "text_tables \<Rightarrow> 's runtime \<Rightarrow> string \<Rightarrow> dict \<Rightarrow> dict \<Rightarrow> dict \<Rightarrow> dict \<Rightarrow> dict \<Rightarrow> request_binding option
     \<Rightarrow> authorization_request option \<Rightarrow> (query_request \<Rightarrow> request_binding \<Rightarrow> string \<Rightarrow> bool result) option \<Rightarrow> 's
     \<Rightarrow> execution_receipt result \<times> 's" where
  "execute_connector T rn target envelope trust capability network_decision lifecycle binding request revalidator s =
     execute_fenced T ''CONNECTOR'' (rn_authorized rn) (rn_connector rn)
       (\<lambda>response. [(''response_fingerprint'', JStr (sha256_json (JObj [(''bytes'', JStr (hex_text response))])))])
       (authorize_emission T (rn_engine rn) envelope trust capability (Some network_decision) (Some lifecycle) binding request revalidator)
       envelope network_decision target s"

section \<open>What the fence has checked\<close>

lemma int_at_least_eq: "int_at_least n v \<Longrightarrow> py_eq v (JInt e) \<longleftrightarrow> v = JInt e"
  by (auto dest!: int_at_leastE)

lemma negated_False: "map_result Not r = Inr False \<longleftrightarrow> r = Inr True"
  by (cases r) auto

lemma authorize_emission_passes:
  "authorize_emission T g envelope trust capability network lifecycle binding request revalidator = Inr () \<longleftrightarrow>
     validate_integrated_envelope envelope = Inr () \<and> validate_trust_decision trust = Inr ()
     \<and> validate_capability_decision capability = Inr ()
     \<and> get envelope ''decision_fingerprint'' = JStr (decision_fingerprint envelope)
     \<and> (\<exists>epoch. invalidation_epoch g = Inr epoch \<and> fence_records T envelope trust capability epoch = Inr ()
          \<and> fence_binding T g epoch envelope binding request revalidator = Inr ())
     \<and> fence_network envelope network lifecycle = Inr ()"
  by (auto simp: authorize_emission_def result_simps check_simps)

lemma fence_records_passes:
  "fence_records T envelope trust capability epoch = Inr () \<longleftrightarrow>
     py_eq (get envelope ''invalidation_epoch'') (JInt epoch)
     \<and> py_eq (get envelope ''trust_state'') (get trust ''trust_state'')
     \<and> py_eq (get envelope ''capability_state'') (get capability ''capability_state'')
     \<and> get envelope ''emission_mode'' = JStr ''EXTERNAL'' \<and> (\<exists>a \<in> set ALLOWING. get envelope ''action_result'' = JStr a)"
  by (simp add: fence_records_def check_simps)

lemma fence_binding_passes:
  "fence_binding T g epoch envelope binding request revalidator = Inr () \<longleftrightarrow>
     (\<exists>b q f. binding = Some b \<and> authorization_query T request = Some q \<and> revalidator = Some f
        \<and> binding_is_valid b (ge_now g) epoch = Inr True \<and> rb_policy_version b = ge_policy_version g \<and> integrity_valid b q
        \<and> list_all (\<lambda>(k, v). get envelope k = v) (butlast (expected_binding_fields b))
        \<and> py_eq (get envelope ''invalidation_epoch'') (JInt epoch)
        \<and> f q b (ge_now g) = Inr True)"
  by (cases binding; cases "authorization_query T request"; cases revalidator)
    (auto simp: fence_binding_def bind_result_Inr_iff check_simps negated_False binding_is_valid_iff expected_binding_fields_def)

lemma fence_network_passes:
  "fence_network envelope network lifecycle = Inr () \<longleftrightarrow>
     (\<exists>n. network = Some n \<and> keys envelope = set integrated_fields \<and> keys n = set outbound_fields
        \<and> py_eq (get envelope ''network_binding_fingerprint'') (get n ''connection_binding_fingerprint'')
        \<and> py_eq (get envelope ''outbound_network_decision_ref'') (get n ''decision_id'')
        \<and> py_eq (get envelope ''outbound_network_decision_fingerprint'') (get n ''decision_fingerprint'')
        \<and> py_eq (get envelope ''destination_binding_ref'') (get n ''destination_binding_ref'')
        \<and> validate_external_emission envelope n lifecycle = Inr ())"
  by (cases network) (auto simp: fence_network_def check_simps)

text \<open>A call is behind the fence; whatever is refused leaves the state of the transport as it was.\<close>

lemma execute_fenced_called:
  assumes "execute_fenced T kind authorized configured output fence envelope n m s = (r, s')"
    and "s' \<noteq> s \<or> (\<exists>receipt. r = Inr receipt \<and> er_transport_called receipt)"
  shows "fence = Inr () \<and> (\<exists>t. configured = Some t \<and> (tr_in_memory t \<or> authorized) \<and> binding_matches t n \<and> s' = snd (tr_call t m s))"
  using assms by (auto simp: execute_fenced_def refusal_def split: sum.splits option.splits if_splits prod.splits)

lemma execute_fenced_executes:
  assumes "fence = Inr ()" "configured = Some t" "tr_in_memory t \<or> authorized" "binding_matches t n" "tr_call t m s = (Inr x, s')"
  shows "execute_fenced T kind authorized configured output fence envelope n m s =
    (Inr \<lparr>er_status = ''EXECUTED'', er_action_result = ''ALLOW'', er_reason_class = ''NONE'', er_transport_called = True,
       er_output = Some (output x)\<rparr>, s')"
  using assms by (auto simp: execute_fenced_def)

section \<open>The records of the engine have the shape the fence demands\<close>

lemma fetched_names: "map fst (fetched_fields T q epoch n content_lifecycle) = lifecycle_fields"
  by (simp add: fetched_fields_def lifecycle_fields_def o_def split: option.splits)

lemma network_record_names:
  "map fst (network_record T g q epoch n v content_lifecycle) =
     [''record_type'', ''schema_version'', ''decision_id'', ''operation'', ''purpose'', ''destination_binding_ref'', ''destination_identity_ref'',
      ''canonicalization_profile_id'', ''canonicalization_profile_fingerprint'', ''normalized_target'', ''connection_binding_ref'',
      ''connection_binding_fingerprint'', ''selected_target_resolution_ref'', ''selected_target_ip'', ''selected_target_family'',
      ''resolution_set_status'', ''connection_binding_status'', ''final_revalidation_event_sequence'', ''final_revalidation_result'',
      ''tls_identity_status'', ''tls_identity_fingerprint'', ''connection_epoch'', ''invalidation_epoch'', ''freshness_profile_id'',
      ''freshness_profile_fingerprint'', ''purpose_binding_ref'', ''trust_decision_ref'', ''capability_decision_ref'', ''limits_profile_ref'',
      ''authority_manifest_fingerprint'', ''action_result'', ''content_lifecycle''] @ lifecycle_fields @ [''reason_class'', ''validity_ref'']"
  unfolding network_record_def map_append fetched_names by (simp only: list.map fst_conv)

lemma network_record_keys: "map fst (network_record T g q epoch n v content_lifecycle) @ [''decision_fingerprint''] = outbound_fields"
  unfolding network_record_names lifecycle_fields_def outbound_fields_def by (simp only: append.simps)

lemma outbound_distinct: "distinct outbound_fields" "''captured_at'' \<notin> set outbound_fields"
  by (simp_all add: outbound_fields_def)

lemma names_split:
  assumes "map fst r @ [''decision_fingerprint''] = fs" "distinct fs" "''captured_at'' \<notin> set fs"
  shows "''decision_fingerprint'' \<notin> fst ` set r" "''captured_at'' \<notin> fst ` set r" "keys (finalize r) = set fs"
proof -
  show n: "''decision_fingerprint'' \<notin> fst ` set r" "''captured_at'' \<notin> fst ` set r"
    using assms by (auto simp: set_map [symmetric] simp del: set_map)
  show "keys (finalize r) = set fs"
    unfolding finalized_facts(4) [OF n] unfolding assms(1) [symmetric] by (auto simp: keys_def)
qed

definition envelope_names :: "string list" where
  "envelope_names =
     [''record_type'', ''schema_version'', ''decision_id'', ''request_authorization_fingerprint'', ''authorization_lineage_ref'',
      ''authorization_lineage_fingerprint'', ''subject_chain_fingerprint'', ''purpose_fingerprint'', ''operation'', ''purpose'',
      ''source_evidence_set_ref'', ''source_evidence_set_fingerprint'', ''context_intent_ref'', ''context_intent_fingerprint'',
      ''inherited_epistemic_ceiling_ref'', ''inherited_epistemic_ceiling_fingerprint'', ''semantic_obligations_ref'',
      ''semantic_obligations_fingerprint'', ''material_manifest_fingerprint'', ''destination_binding_ref'',
      ''destination_binding_fingerprint'', ''trust_assertion_set_fingerprint'', ''capability_observation_set_fingerprint'',
      ''constrained_artifact_fingerprint'', ''network_binding_fingerprint'', ''outbound_network_decision_ref'',
      ''outbound_network_decision_fingerprint''] @ lifecycle_fields @
     [''policy_version'', ''freshness_profile_id'', ''freshness_profile_fingerprint'', ''invalidation_epoch'', ''emission_mode'',
      ''authority_manifest_fingerprint'', ''validity_ref'', ''trust_state'', ''capability_state'', ''action_result'',
      ''content_lifecycle'', ''reason_class'', ''constraint_refs'', ''decision_fingerprint'']"

lemma envelope_record_keys:
  "map fst (envelope_record T g epoch request trust capability network emission_mode lifecycle refs binding outcome)
     @ [''decision_fingerprint''] = envelope_names"
proof -
  have l: "map fst (lineage_fields T request operation purpose binding) =
    [''request_authorization_fingerprint'', ''authorization_lineage_ref'', ''authorization_lineage_fingerprint'',
     ''subject_chain_fingerprint'', ''purpose_fingerprint'', ''operation'', ''purpose'']" for operation purpose
    by (simp add: lineage_fields_def split: option.splits)
  have e: "map fst (evidence_fields T request purpose) =
    [''source_evidence_set_ref'', ''source_evidence_set_fingerprint'', ''context_intent_ref'', ''context_intent_fingerprint'',
      ''inherited_epistemic_ceiling_ref'', ''inherited_epistemic_ceiling_fingerprint'', ''semantic_obligations_ref'',
      ''semantic_obligations_fingerprint'']" for purpose
    by (simp add: evidence_fields_def referenced_def)
  have c: "map fst (map (\<lambda>f. (f, from_network network f)) xs) = xs" for xs by (simp add: o_def)
  show ?thesis
    unfolding envelope_record_def Let_def map_append l e c envelope_names_def by (simp only: list.map fst_conv append.simps append_assoc)
qed

lemma envelope_names_facts: "distinct envelope_names" "''captured_at'' \<notin> set envelope_names"
  "set envelope_names = set integrated_fields"
proof -
  show "distinct envelope_names" "''captured_at'' \<notin> set envelope_names" by (simp_all add: envelope_names_def lifecycle_fields_def)
  show "set envelope_names = set integrated_fields" by code_simp
qed

end
