(* ===== verification/Gate_D_Properties.thy ===== *)
theory Gate_D_Properties
  imports Gate_D_Fence Auth_Properties
begin

text \<open>
  What the Gate-D engine and its runtime guarantee together with the authorization layer: a transport
  runs only for a currently entitled principal and a complete chain of decisions, an advance of the epoch
  blocks what was compiled before, and the decisions the engine itself builds get through its fence.
\<close>

section \<open>Behind the fence\<close>

lemma authorized_emission:
  assumes "authorize_emission T g envelope trust capability (Some n) lifecycle binding request (Some (revalidate ad sv)) = Inr ()"
  obtains b q p epoch action where
    "binding = Some b" "authorization_query T request = Some q" "integrity_valid b q"
    "invalidation_epoch g = Inr epoch" "ad_epoch ad (sv_epoch sv) = Inr epoch" "rb_policy_epoch b = epoch"
    "rb_policy_version b = ge_policy_version g"
    "ad_resolve ad (sv_registry sv) (Some (rb_authentication_ref b)) = Inr (Some p)"
    "entitled (sv_operation sv) q p (ge_now g) epoch"
    "get envelope ''emission_mode'' = JStr ''EXTERNAL''" "py_eq (get envelope ''invalidation_epoch'') (JInt epoch)"
    "get envelope ''request_authorization_fingerprint'' = JStr (rb_fingerprint b)"
    "get envelope ''decision_fingerprint'' = JStr (decision_fingerprint envelope)"
    "rb_operation b \<in> set OPERATIONS" "get envelope ''operation'' = JStr (rb_operation b)" "get n ''operation'' = JStr (rb_operation b)"
    "get envelope ''purpose'' = JStr (rb_purpose b)" "get n ''purpose'' = JStr (rb_purpose b)"
    "action \<in> set ALLOWING" "get envelope ''action_result'' = JStr action" "get n ''action_result'' = JStr action"
    "\<forall>(k, v) \<in> set allow_requirements. get n k = JStr v"
    "validate_external_emission envelope n lifecycle = Inr ()"
proof -
  from assms obtain epoch where a: "invalidation_epoch g = Inr epoch" "fence_records T envelope trust capability epoch = Inr ()"
    "fence_binding T g epoch envelope binding request (Some (revalidate ad sv)) = Inr ()"
    "fence_network envelope (Some n) lifecycle = Inr ()"
    "get envelope ''decision_fingerprint'' = JStr (decision_fingerprint envelope)"
    unfolding authorize_emission_passes by blast
  from a(2) obtain action where r: "get envelope ''emission_mode'' = JStr ''EXTERNAL''"
    "action \<in> set ALLOWING" "get envelope ''action_result'' = JStr action"
    unfolding fence_records_passes by blast
  from a(3) obtain b q where b: "binding = Some b" "authorization_query T request = Some q"
    "binding_is_valid b (ge_now g) epoch = Inr True" "rb_policy_version b = ge_policy_version g" "integrity_valid b q"
    "list_all (\<lambda>(k, v). get envelope k = v) (butlast (expected_binding_fields b))"
    "py_eq (get envelope ''invalidation_epoch'') (JInt epoch)" "revalidate ad sv q b (ge_now g) = Inr True"
    unfolding fence_binding_passes by auto
  then have f: "get envelope ''request_authorization_fingerprint'' = JStr (rb_fingerprint b)"
    "get envelope ''operation'' = JStr (rb_operation b)" "get envelope ''purpose'' = JStr (rb_purpose b)"
    by (simp_all add: expected_binding_fields_def)
  from b(8) obtain epoch' p where v: "ad_epoch ad (sv_epoch sv) = Inr epoch'"
    "ad_resolve ad (sv_registry sv) (Some (rb_authentication_ref b)) = Inr (Some p)"
    "entitled (sv_operation sv) q p (ge_now g) epoch'" "binding_is_valid b (ge_now g) epoch' = Inr True"
    unfolding revalidate_True_iff by blast
  with b(3) have e: "rb_policy_epoch b = epoch" "epoch' = epoch" by (auto simp: binding_is_valid_iff)
  from a(4) have n: "validate_external_emission envelope n lifecycle = Inr ()" unfolding fence_network_passes by simp
  note s = n [unfolded validate_external_emission_def append.simps list.map run_checks_Cons fails_if_passes fails_if_r_passes]
  from s f r(3) have g: "get n ''operation'' = JStr (rb_operation b)" "get n ''purpose'' = JStr (rb_purpose b)"
    "get n ''action_result'' = JStr action" by simp_all
  have oper: "rb_operation b \<in> set OPERATIONS"
    using s f(2) by (auto simp: validate_integrated_envelope_def check_simps)
  have "outbound_allow n = Inr ()" using s by (simp add: validate_outbound_decision_def)
  with r(2) g(3) have "\<forall>(k, v) \<in> set allow_requirements. get n k = JStr v"
    by (auto simp: outbound_allow_def run_checks_passes fails_if_passes)
  with that [OF b(1,2,5) a(1) v(1) [unfolded e(2)] e(1) b(4) v(2) v(3) [unfolded e(2)] r(1) b(7) f(1) a(5) oper f(2) g(1) f(3) g(2)
      r(2,3) g(3)] n show thesis by blast
qed

lemma provider_operation:
  assumes "validate_external_emission envelope n None = Inr ()"
  shows "get envelope ''operation'' = JStr ''provider_call''"
  using assms by (simp add: validate_external_emission_def split: if_splits)

lemma content_operation:
  assumes "validate_external_emission envelope n (Some l) = Inr ()" "get envelope ''operation'' \<noteq> JStr ''provider_call''"
  shows "validate_lifecycle l = Inr ()" "py_eq (get l ''operation'') (get envelope ''operation'')"
    "py_eq (get l ''purpose'') (get envelope ''purpose'')"
    "get envelope ''fetched_content_lifecycle_fingerprint'' = get l ''lifecycle_fingerprint''"
    "get n ''fetched_content_lifecycle_fingerprint'' = get l ''lifecycle_fingerprint''"
proof -
  have e: "emission_lifecycle envelope n l = Inr ()"
    using assms by (simp add: validate_external_emission_def split: if_splits)
  then show v: "validate_lifecycle l = Inr ()" by (simp add: emission_lifecycle_def Let_def)
  then have fp: "has_key l ''lifecycle_fingerprint''" "is_sha256 (get l ''lifecycle_fingerprint'')"
    by (auto simp: validate_lifecycle_def check_simps has_key_keys lifecycle_required_def)
  note c = e [unfolded emission_lifecycle_def Let_def run_checks_passes]
  show "py_eq (get l ''operation'') (get envelope ''operation'')" "py_eq (get l ''purpose'') (get envelope ''purpose'')"
    using c by (simp_all add: fails_if_passes)
  from is_sha256E [OF fp(2)] show "get envelope ''fetched_content_lifecycle_fingerprint'' = get l ''lifecycle_fingerprint''"
    "get n ''fetched_content_lifecycle_fingerprint'' = get l ''lifecycle_fingerprint''"
    using c fp(1) by (auto simp: fails_if_passes)
qed

text \<open>
  C2. The provider transport runs - its state changes or the receipt says it was called - only behind the
  whole fence: the request's binding is intact and of the engine's current epoch, which is also the epoch of the
  authorization service and of the envelope; the service resolves the binding's principal, who is entitled to
  this request now; the envelope is an external, allowing provider call carrying the fingerprint of that
  binding; the network decision agrees on operation, purpose and action, with the TLS identity matched, all addresses
  public, the connection binding validated and the final revalidation matched; and the transport is the
  in-memory one unless external execution is authorized.
\<close>

theorem transport_call_authorized:
  assumes "execute_provider T rn payload envelope trust capability n binding request (Some (revalidate ad sv)) s = (r, s')"
    and "s' \<noteq> s \<or> (\<exists>receipt. r = Inr receipt \<and> er_transport_called receipt)"
  shows "\<exists>b q p epoch action t. binding = Some b \<and> authorization_query T request = Some q \<and> integrity_valid b q
    \<and> invalidation_epoch (rn_engine rn) = Inr epoch \<and> ad_epoch ad (sv_epoch sv) = Inr epoch \<and> rb_policy_epoch b = epoch
    \<and> py_eq (get envelope ''invalidation_epoch'') (JInt epoch)
    \<and> ad_resolve ad (sv_registry sv) (Some (rb_authentication_ref b)) = Inr (Some p)
    \<and> entitled (sv_operation sv) q p (ge_now (rn_engine rn)) epoch
    \<and> get envelope ''emission_mode'' = JStr ''EXTERNAL''
    \<and> get envelope ''request_authorization_fingerprint'' = JStr (rb_fingerprint b)
    \<and> rb_operation b = ''provider_call'' \<and> get envelope ''operation'' = get n ''operation''
    \<and> get envelope ''purpose'' = JStr (rb_purpose b) \<and> get n ''purpose'' = JStr (rb_purpose b)
    \<and> action \<in> set ALLOWING \<and> get envelope ''action_result'' = JStr action \<and> get n ''action_result'' = JStr action
    \<and> (\<forall>(k, v) \<in> set allow_requirements. get n k = JStr v)
    \<and> rn_provider rn = Some t \<and> (tr_in_memory t \<or> rn_authorized rn) \<and> binding_matches t n \<and> s' = snd (tr_call t payload s)"
proof -
  from execute_fenced_called [OF assms(1) [unfolded execute_provider_def] assms(2)]
  obtain t where t: "rn_provider rn = Some t" "tr_in_memory t \<or> rn_authorized rn" "binding_matches t n" "s' = snd (tr_call t payload s)"
    and a: "authorize_emission T (rn_engine rn) envelope trust capability (Some n) None binding request (Some (revalidate ad sv)) = Inr ()"
    by blast
  from a show ?thesis
  proof (rule authorized_emission, goal_cases)
    case (1 b q p epoch action)
    with provider_operation [OF 1(23)] have "rb_operation b = ''provider_call''" by simp
    with 1 t show ?case by (intro exI conjI) (assumption | simp)+
  qed
qed

text \<open>
  C11. The connector transport runs only behind the same fence, and for an operation that brings content in
  only with a life cycle record that validates, for this very operation and purpose, whose fingerprint both
  the envelope and the network decision carry.
\<close>

theorem connector_fetch_authorized:
  assumes "execute_connector T rn target envelope trust capability n l binding request (Some (revalidate ad sv)) s = (r, s')"
    and "s' \<noteq> s \<or> (\<exists>receipt. r = Inr receipt \<and> er_transport_called receipt)"
  shows "\<exists>b q p epoch t. binding = Some b \<and> authorization_query T request = Some q \<and> integrity_valid b q
    \<and> invalidation_epoch (rn_engine rn) = Inr epoch \<and> rb_policy_epoch b = epoch
    \<and> ad_resolve ad (sv_registry sv) (Some (rb_authentication_ref b)) = Inr (Some p)
    \<and> entitled (sv_operation sv) q p (ge_now (rn_engine rn)) epoch
    \<and> (rb_operation b = ''provider_call'' \<or>
         validate_lifecycle l = Inr () \<and> get l ''operation'' = JStr (rb_operation b) \<and> get l ''purpose'' = JStr (rb_purpose b)
         \<and> get envelope ''fetched_content_lifecycle_fingerprint'' = get l ''lifecycle_fingerprint''
         \<and> get n ''fetched_content_lifecycle_fingerprint'' = get l ''lifecycle_fingerprint'')
    \<and> (\<forall>(k, v) \<in> set allow_requirements. get n k = JStr v)
    \<and> rn_connector rn = Some t \<and> (tr_in_memory t \<or> rn_authorized rn) \<and> binding_matches t n \<and> s' = snd (tr_call t target s)"
proof -
  from execute_fenced_called [OF assms(1) [unfolded execute_connector_def] assms(2)]
  obtain t where t: "rn_connector rn = Some t" "tr_in_memory t \<or> rn_authorized rn" "binding_matches t n" "s' = snd (tr_call t target s)"
    and a: "authorize_emission T (rn_engine rn) envelope trust capability (Some n) (Some l) binding request (Some (revalidate ad sv)) = Inr ()"
    by blast
  from a show ?thesis
  proof (rule authorized_emission, goal_cases)
    case (1 b q p epoch action)
    have "rb_operation b = ''provider_call'' \<or>
         validate_lifecycle l = Inr () \<and> get l ''operation'' = JStr (rb_operation b) \<and> get l ''purpose'' = JStr (rb_purpose b)
         \<and> get envelope ''fetched_content_lifecycle_fingerprint'' = get l ''lifecycle_fingerprint''
         \<and> get n ''fetched_content_lifecycle_fingerprint'' = get l ''lifecycle_fingerprint''"
      using content_operation [OF 1(23)] 1(15,17) by auto
    with 1 t show ?case by (intro exI conjI) (assumption | simp)+
  qed
qed

lemma fenced_off:
  assumes "fence \<noteq> Inr ()"
  shows "snd (execute_fenced T kind authorized configured out fence envelope n m s) = s"
    and "fst (execute_fenced T kind authorized configured out fence envelope n m s) = Inr receipt \<Longrightarrow> \<not> er_transport_called receipt"
  using execute_fenced_called [of T kind authorized configured out fence envelope n m s] assms
  by (cases "execute_fenced T kind authorized configured out fence envelope n m s"; auto)+

text \<open>An engine and what it is after some calls of \<^verbatim>\<open>invalidate\<close>.\<close>

inductive invalidated :: "engine \<Rightarrow> engine \<Rightarrow> bool" where
  once: "invalidate g = Inr (epoch, g') \<Longrightarrow> invalidated g g'"
| again: "invalidated g g' \<Longrightarrow> invalidate g' = Inr (epoch, g'') \<Longrightarrow> invalidated g g''"

lemma invalidate_next: "invalidate g = Inr (epoch, g') \<Longrightarrow> invalidation_epoch g = Inr (epoch - 1) \<and> invalidation_epoch g' = Inr epoch"
  by (auto simp: invalidate_def invalidation_epoch_def sql_epoch_get_def sql_epoch_bump_def sql_epoch_advance_def result_simps
      split: epoch_source.splits option.splits if_splits)

lemma invalidated_epoch:
  "invalidated g g' \<Longrightarrow> \<exists>epoch epoch'. invalidation_epoch g = Inr epoch \<and> invalidation_epoch g' = Inr epoch' \<and> epoch < epoch'"
  by (induction rule: invalidated.induct) (force dest: invalidate_next)+

text \<open>
  C9. After the epoch advanced any number of times - the engine's own number, or a stored one by \<^verbatim>\<open>bump\<close> or by \<^verbatim>\<open>advance\<close> - no envelope and no
  binding of the earlier epoch gets through: whatever the revalidator says, neither transport's receipt
  reports a call and neither transport's state changes.
\<close>

theorem invalidation_blocks:
  assumes "invalidated g (rn_engine rn)" "invalidation_epoch g = Inr epoch"
    and "get envelope ''invalidation_epoch'' = JInt epoch \<or> (\<exists>b. binding = Some b \<and> rb_policy_epoch b = epoch)"
    and "run = execute_provider T rn payload envelope trust capability n binding request revalidator s
      \<or> run = execute_connector T rn target envelope trust capability n l binding request revalidator s"
  shows "snd run = s \<and> (\<forall>receipt. fst run = Inr receipt \<longrightarrow> \<not> er_transport_called receipt)"
proof -
  from invalidated_epoch [OF assms(1)] assms(2) obtain epoch' where e: "invalidation_epoch (rn_engine rn) = Inr epoch'" "epoch < epoch'"
    by auto
  have no: "authorize_emission T (rn_engine rn) envelope trust capability (Some n) life binding request revalidator \<noteq> Inr ()" for life
    using assms(3) e
    by (auto simp: authorize_emission_passes fence_records_passes fence_binding_passes binding_is_valid_iff)
  show ?thesis
    using assms(4) by (auto simp: execute_provider_def execute_connector_def fenced_off(1) [OF no] dest: fenced_off(2) [OF no])
qed

section \<open>The engine's own decisions\<close>

lemma built_binding_fingerprint:
  assumes "build_connection_binding T a = Inr r"
  shows "\<exists>s. get r ''binding_fingerprint'' = JStr s"
  using assms
  by (auto simp: build_connection_binding_def Let_def result_simps validate_connection_binding_def binding_head_def check_simps
      boundary_error_def split: if_splits)

lemma evaluate_trust_record:
  assumes "evaluate_trust T g q = Inr r"
  obtains epoch outcome where "trust_outcome g q = Inr outcome" "r = finalize (trust_record T g q epoch outcome)"
    "validate_trust_decision r = Inr ()"
  using assms that by (auto simp: evaluate_trust_def Let_def result_simps)

lemma evaluate_trust_action:
  assumes "evaluate_trust T g q = Inr r"
  shows "get r ''action_result'' \<noteq> JStr ''ALLOW_WITH_CONSTRAINTS''"
proof -
  from assms obtain epoch outcome where o: "trust_outcome g q = Inr outcome" "r = finalize (trust_record T g q epoch outcome)"
    by (rule evaluate_trust_record)
  obtain state action reason where x: "outcome = (state, action, reason)" by (cases outcome)
  have "get r ''action_result'' = get (trust_record T g q epoch outcome) ''action_result''"
    unfolding o(2) by (rule finalized_facts(5) [OF trust_record_no]) simp
  also have "\<dots> = JStr action" unfolding x trust_record_def prod.case by (simp only: lookup_simps)
  finally show ?thesis using trust_outcome_in [OF o(1)] x by (auto simp: trust_outcomes_def)
qed

lemma evaluate_network_record:
  assumes "evaluate_network T g q = Inr r"
  shows "validate_outbound_decision r = Inr ()" "keys r = set outbound_fields"
    "get r ''operation'' = JStr (nq_operation q)" "get r ''purpose'' = JStr (nq_purpose q)"
    "get r ''action_result'' \<noteq> JStr ''ALLOW_WITH_CONSTRAINTS''"
    "f \<in> {''destination_binding_ref'', ''connection_binding_fingerprint'', ''decision_id'', ''decision_fingerprint''} \<Longrightarrow> is_str (get r f)"
proof -
  from assms obtain epoch binding lifecycle where b: "network_binding T g q epoch (no_normalized (network_outcome_of T g q)) = Inr binding"
    and r: "r = finalize (network_record T g q epoch (network_outcome_of T g q) (binding_view_of q epoch (network_outcome_of T g q) binding) lifecycle)"
    and "validate_outbound_decision r = Inr ()"
    by (auto simp: evaluate_network_def Let_def result_simps)
  then show "validate_outbound_decision r = Inr ()" by simp
  let ?n = "network_outcome_of T g q" let ?v = "binding_view_of q epoch ?n binding"
  let ?r = "network_record T g q epoch ?n ?v lifecycle"
  note s = names_split [OF network_record_keys [of T g q epoch ?n ?v lifecycle] outbound_distinct]
  note f = finalized_facts [OF s(1,2)]
  show "keys r = set outbound_fields" unfolding r by (rule s(3))
  have g: "get ?r ''operation'' = JStr (nq_operation q)" "get ?r ''purpose'' = JStr (nq_purpose q)"
    "get ?r ''action_result'' = JStr (no_action ?n)" "get ?r ''connection_binding_fingerprint'' = bv_fingerprint ?v"
    "get ?r ''destination_binding_ref'' = JStr (reference ''binding'' (no_normalized ?n))"
    "get ?r ''decision_id'' = JStr (reference ''decision''
         (JObj [(''kind'', JStr ''network''), (''url'', JStr (nq_url q)), (''epoch'', JInt epoch)]))"
    unfolding network_record_def by (simp_all only: lookup_simps)
  show "get r ''operation'' = JStr (nq_operation q)" "get r ''purpose'' = JStr (nq_purpose q)"
    unfolding r by (simp_all add: f(5) g)
  have "no_action ?n \<in> {''ALLOW'', ''DENY''}" by (auto simp: network_outcome_of_def Let_def split: sum.splits)
  then show "get r ''action_result'' \<noteq> JStr ''ALLOW_WITH_CONSTRAINTS''" unfolding r by (auto simp: f(5) g)
  have "is_str (bv_fingerprint ?v)"
  proof (cases binding)
    case None
    then show ?thesis by (simp add: binding_view_of_def is_str_def Let_def)
  next
    case (Some d)
    with b obtain a where "build_connection_binding (tt_url T) a = Inr d"
      by (auto simp: network_binding_def map_result_Inr_iff split: sum.splits if_splits)
    from built_binding_fingerprint [OF this] Some show ?thesis by (auto simp: binding_view_of_def is_str_def Let_def)
  qed
  then show "f \<in> {''destination_binding_ref'', ''connection_binding_fingerprint'', ''decision_id'', ''decision_fingerprint''} \<Longrightarrow> is_str (get r f)"
    unfolding r using f(1) by (elim insertE emptyE) (simp_all add: f(5) g is_str_def)
qed

lemma bound_action_cases:
  assumes "bound_action T g epoch request operation purpose binding = Inr denial"
  shows "(\<exists>d. denial = Some d \<and> fst d = ''DENY'')
    \<or> denial = None \<and> (\<exists>b query. binding = Some b \<and> binding_is_valid b (ge_now g) epoch = Inr True
        \<and> rb_operation b = operation \<and> rb_purpose b = purpose \<and> rb_policy_version b = ge_policy_version g
        \<and> request_from_mapping T request = Some query \<and> integrity_valid b query)"
  using assms by (auto simp: bound_action_def result_simps split: option.splits if_splits)

lemma denials: "''DENY'' \<notin> set ALLOWING" "''LOCAL_ONLY'' \<notin> set ALLOWING"
  by (simp_all add: ALLOWING_def)

lemma in_set_str_value: "in_set v S = Inr b \<Longrightarrow> str_value v \<in> set S \<Longrightarrow> [] \<notin> set S \<Longrightarrow> b"
  by (cases v) (auto simp: str_value_def raise_def)

lemma allowing_action:
  assumes "envelope_action T trust capability network mode = Inr outcome" "fst outcome \<in> set ALLOWING"
  shows "outcome = ((if from_network network ''action_result'' = JStr ''ALLOW_WITH_CONSTRAINTS''
      \<or> get trust ''action_result'' = JStr ''ALLOW_WITH_CONSTRAINTS'' then ''ALLOW_WITH_CONSTRAINTS'' else ''ALLOW''), ''NONE'')"
    "in_set (get trust ''action_result'') ALLOWING = Inr True" "in_set (get capability ''action_result'') ALLOWING = Inr True"
    "mode = ''EXTERNAL'' \<Longrightarrow> in_set (from_network network ''action_result'') ALLOWING = Inr True"
proof -
  note h = assms(1) [unfolded envelope_action_def Let_def bind_result_Inr_iff]
  from h obtain t where t: "in_set (get trust ''action_result'') ALLOWING = Inr t" by blast
  with h assms(2) denials show t': "in_set (get trust ''action_result'') ALLOWING = Inr True" by (cases t) auto
  from h t' obtain c where c: "in_set (get capability ''action_result'') ALLOWING = Inr c"
    by (auto simp: bind_result_Inr_iff)
  have ne: "[] \<notin> set ALLOWING" by (simp add: ALLOWING_def)
  have c': c
  proof (rule ccontr)
    assume "\<not> c"
    with h t' c have "fst outcome = str_value (get capability ''action_result'')" by auto
    with in_set_str_value [OF c] ne assms(2) \<open>\<not> c\<close> show False by simp
  qed
  with c show "in_set (get capability ''action_result'') ALLOWING = Inr True" by simp
  from h t' c c' obtain n where n: "(if mode = ''EXTERNAL'' then not_in (from_network network ''action_result'') ALLOWING else Inr False) = Inr n"
    by (auto simp: bind_result_Inr_iff)
  with h t' c c' assms(2) denials have n': "\<not> n" by (cases n) auto
  show "mode = ''EXTERNAL'' \<Longrightarrow> in_set (from_network network ''action_result'') ALLOWING = Inr True"
    using n n' by (auto simp: not_in_def map_result_Inr_iff)
  have l: "mode \<noteq> ''LOCAL_ONLY''"
  proof
    assume "mode = ''LOCAL_ONLY''"
    with h t' c c' n n' have "fst outcome = ''LOCAL_ONLY''" by auto
    with assms(2) denials show False by simp
  qed
  show "outcome = ((if from_network network ''action_result'' = JStr ''ALLOW_WITH_CONSTRAINTS''
      \<or> get trust ''action_result'' = JStr ''ALLOW_WITH_CONSTRAINTS'' then ''ALLOW_WITH_CONSTRAINTS'' else ''ALLOW''), ''NONE'')"
    using h t' c c' n n' l by auto
qed

lemma allowing_envelope:
  assumes "build_integrated_envelope T g request trust capability (Some n) ''EXTERNAL'' lifecycle refs (Some b) = Inr envelope"
    and "a \<in> set ALLOWING" "get envelope ''action_result'' = JStr a" "n \<noteq> []"
  obtains epoch query where
    "validate_trust_decision trust = Inr ()" "validate_capability_decision capability = Inr ()"
    "validate_integrated_envelope envelope = Inr ()" "keys envelope = set integrated_fields"
    "get envelope ''decision_fingerprint'' = JStr (decision_fingerprint envelope)"
    "invalidation_epoch g = Inr epoch" "binding_is_valid b (ge_now g) epoch = Inr True" "rb_policy_version b = ge_policy_version g"
    "rb_operation b = py_str T (get_or request ''operation'' (JStr ''provider_call''))"
    "rb_purpose b = py_str T (get_or request ''purpose'' (JStr ''provider_call''))"
    "request_from_mapping T request = Some query" "integrity_valid b query"
    "list_all (\<lambda>(k, v). get envelope k = v) (expected_binding_fields b)" "get envelope ''emission_mode'' = JStr ''EXTERNAL''"
    "get envelope ''trust_state'' = get_or trust ''trust_state'' (JStr ''UNKNOWN'')"
    "get envelope ''capability_state'' = get_or capability ''capability_state'' (JStr ''MISSING'')"
    "get envelope ''network_binding_fingerprint'' = get n ''connection_binding_fingerprint''"
    "get envelope ''outbound_network_decision_ref'' = get n ''decision_id''"
    "get envelope ''outbound_network_decision_fingerprint'' = get n ''decision_fingerprint''"
    "get envelope ''destination_binding_ref'' =
       JStr (py_str T (get_or request ''destination_binding_ref'' (get n ''destination_binding_ref'')))"
    "envelope_action T trust capability (Some n) ''EXTERNAL'' = Inr (a, ''NONE'')"
proof -
  let ?o = "py_str T (get_or request ''operation'' (JStr ''provider_call''))"
  let ?p = "py_str T (get_or request ''purpose'' (JStr ''provider_call''))"
  have "decision_of (Some n) = Some n" using assms(4) by (cases n) (simp_all add: decision_of_def)
  with assms(1) obtain outcome epoch denial content where v: "validate_trust_decision trust = Inr ()"
      "validate_capability_decision capability = Inr ()"
    and o: "envelope_action T trust capability (Some n) ''EXTERNAL'' = Inr outcome" and e: "invalidation_epoch g = Inr epoch"
    and d: "(if fst outcome \<in> set ALLOWING then bound_action T g epoch request ?o ?p (Some b) else Inr None) = Inr denial"
    and r: "envelope = finalize (envelope_record T g epoch request trust capability (Some n) ''EXTERNAL'' content refs (Some b)
        (case denial of Some d \<Rightarrow> d | None \<Rightarrow> outcome))"
    and i: "validate_integrated_envelope envelope = Inr ()"
    by (auto simp: build_integrated_envelope_def Let_def bind_result_Inr_iff)
  let ?x = "case denial of Some d \<Rightarrow> d | None \<Rightarrow> outcome"
  let ?r = "envelope_record T g epoch request trust capability (Some n) ''EXTERNAL'' content refs (Some b) ?x"
  note s = names_split [OF envelope_record_keys [of T g epoch request trust capability "Some n" "''EXTERNAL''" content refs "Some b" ?x]
      envelope_names_facts(1,2)]
  note f = finalized_facts [OF s(1,2)]
  have g: "get ?r ''action_result'' = JStr (fst ?x)" "get ?r ''emission_mode'' = JStr ''EXTERNAL''"
    "get ?r ''trust_state'' = get_or trust ''trust_state'' (JStr ''UNKNOWN'')"
    "get ?r ''capability_state'' = get_or capability ''capability_state'' (JStr ''MISSING'')"
    "get ?r ''network_binding_fingerprint'' = get n ''connection_binding_fingerprint''"
    "get ?r ''outbound_network_decision_ref'' = get n ''decision_id''"
    "get ?r ''outbound_network_decision_fingerprint'' = get n ''decision_fingerprint''"
    "get ?r ''destination_binding_ref'' =
       JStr (py_str T (get_or request ''destination_binding_ref'' (get n ''destination_binding_ref'')))"
    "get ?r ''request_authorization_fingerprint'' = JStr (rb_fingerprint b)"
    "get ?r ''authorization_lineage_ref'' = JStr (rb_binding_id b)" "get ?r ''authorization_lineage_fingerprint'' = JStr (rb_fingerprint b)"
    "get ?r ''subject_chain_fingerprint'' = JStr (rb_subject_chain_fingerprint b)"
    "get ?r ''purpose_fingerprint'' = JStr (rb_purpose_binding_fingerprint b)"
    "get ?r ''operation'' = JStr (rb_operation b)" "get ?r ''purpose'' = JStr (rb_purpose b)"
    "get ?r ''policy_version'' = JStr (rb_policy_version b)" "get ?r ''invalidation_epoch'' = JInt (rb_policy_epoch b)"
    unfolding envelope_record_def Let_def lineage_fields_def evidence_fields_def referenced_def from_network_def option.case
      lifecycle_fields_def list.map
    by (simp_all only: lookup_simps)
  have n: "get envelope k = get ?r k" if "k \<noteq> ''decision_fingerprint''" for k unfolding r by (rule f(5) [OF that])
  have "get envelope ''action_result'' = JStr (fst ?x)" by (simp add: n g)
  with assms(2,3) have x: "fst ?x \<in> set ALLOWING" "fst ?x = a" by simp_all
  have "denial = None \<and> fst outcome \<in> set ALLOWING"
    using d x by (auto dest: bound_action_cases simp: ALLOWING_def split: if_splits)
  then have dn: "denial = None" "fst outcome \<in> set ALLOWING" by simp_all
  from d dn bound_action_cases obtain query where b: "binding_is_valid b (ge_now g) epoch = Inr True" "rb_operation b = ?o" "rb_purpose b = ?p"
    "rb_policy_version b = ge_policy_version g" "request_from_mapping T request = Some query" "integrity_valid b query"
    by fastforce
  have "snd outcome = ''NONE''"
    using allowing_action(1) [OF o dn(2)] by simp
  with x(2) dn(1) have oc: "outcome = (a, ''NONE'')" by (cases outcome) simp
  have fp: "get envelope ''decision_fingerprint'' = JStr (decision_fingerprint envelope)" unfolding r by (simp add: f(1,3))
  have ex: "list_all (\<lambda>(k, v). get envelope k = v) (expected_binding_fields b)"
    by (simp add: expected_binding_fields_def n g)
  have k: "keys envelope = set integrated_fields" unfolding r using s(3) envelope_names_facts(3) by simp
  show thesis
    by (rule that [OF v i k fp e b(1,4,2,3,5,6) ex]) (simp_all add: n g o oc)
qed

lemma allow_is_string: "in_set v ALLOWING = Inr True \<Longrightarrow> v \<noteq> JStr ''ALLOW_WITH_CONSTRAINTS'' \<Longrightarrow> v = JStr ''ALLOW''"
  by (cases v) (auto simp: ALLOWING_def raise_def)

lemma is_str_JStr: "is_str (JStr s)"
  by (simp add: is_str_def)

lemma required_string:
  assumes "set fs \<subseteq> keys r" "k \<in> set fs" "\<exists>s \<in> S. get r k = JStr s"
  shows "has_key r k \<and> is_str (get r k)"
  using assms by (auto simp: has_key_keys is_str_JStr)

lemma validated_states:
  "validate_trust_decision trust = Inr () \<Longrightarrow> has_key trust ''trust_state'' \<and> is_str (get trust ''trust_state'')"
  "validate_capability_decision capability = Inr () \<Longrightarrow>
     has_key capability ''capability_state'' \<and> is_str (get capability ''capability_state'')"
proof -
  assume "validate_trust_decision trust = Inr ()"
  then have "set trust_required \<subseteq> keys trust" "\<exists>s \<in> set TRUST_STATES. get trust ''trust_state'' = JStr s"
    unfolding validate_trust_decision_def by (simp_all add: required_passes fails_if_r_passes not_in_False)
  from required_string [OF this(1) _ this(2)] show "has_key trust ''trust_state'' \<and> is_str (get trust ''trust_state'')"
    by (simp add: trust_required_def)
next
  assume "validate_capability_decision capability = Inr ()"
  then have "set capability_required \<subseteq> keys capability" "\<exists>s \<in> set CAPABILITY_STATES. get capability ''capability_state'' = JStr s"
    unfolding validate_capability_decision_def by (simp_all add: required_passes fails_if_r_passes or_r_False not_in_False)
  from required_string [OF this(1) _ this(2)]
  show "has_key capability ''capability_state'' \<and> is_str (get capability ''capability_state'')"
    by (simp add: capability_required_def)
qed

lemma own_decisions_authorized:
  assumes "evaluate_trust T g tq = Inr trust" "evaluate_capability T g cq = Inr capability"
    and "evaluate_network T g nq = Inr n" "nq_operation nq = ''provider_call''" "nq_purpose nq = rb_purpose b"
    and "build_integrated_envelope T g request trust capability (Some n) ''EXTERNAL'' lifecycle refs (Some b) = Inr envelope"
    and "a \<in> set ALLOWING" "get envelope ''action_result'' = JStr a" "rb_operation b = ''provider_call''"
    and "\<not> has_key request ''destination_binding_ref''"
    and "request_from_mapping T request = Some query" "f query b (ge_now g) = Inr True"
  shows "authorize_emission T g envelope trust capability (Some n) life (Some b) (Some (Request_mapping request)) (Some f) = Inr ()"
proof -
  note n = evaluate_network_record [OF assms(3)]
  have "n \<noteq> []" using n(3) by auto
  with assms(6-8) obtain epoch q where
    v: "validate_trust_decision trust = Inr ()" "validate_capability_decision capability = Inr ()"
      "validate_integrated_envelope envelope = Inr ()" "keys envelope = set integrated_fields"
      "get envelope ''decision_fingerprint'' = JStr (decision_fingerprint envelope)"
      "invalidation_epoch g = Inr epoch" "binding_is_valid b (ge_now g) epoch = Inr True" "rb_policy_version b = ge_policy_version g"
      "request_from_mapping T request = Some q" "integrity_valid b q"
      "list_all (\<lambda>(k, v). get envelope k = v) (expected_binding_fields b)" "get envelope ''emission_mode'' = JStr ''EXTERNAL''"
    and s: "get envelope ''trust_state'' = get_or trust ''trust_state'' (JStr ''UNKNOWN'')"
      "get envelope ''capability_state'' = get_or capability ''capability_state'' (JStr ''MISSING'')"
      "get envelope ''network_binding_fingerprint'' = get n ''connection_binding_fingerprint''"
      "get envelope ''outbound_network_decision_ref'' = get n ''decision_id''"
      "get envelope ''outbound_network_decision_fingerprint'' = get n ''decision_fingerprint''"
      "get envelope ''destination_binding_ref'' =
         JStr (py_str T (get_or request ''destination_binding_ref'' (get n ''destination_binding_ref'')))"
    and o: "envelope_action T trust capability (Some n) ''EXTERNAL'' = Inr (a, ''NONE'')"
    by (rule allowing_envelope)
  note t = n(6)
  have act: "get n ''action_result'' = JStr a"
    using allowing_action [OF o] assms(7) evaluate_trust_action [OF assms(1)] n(5) allow_is_string [of "get n ''action_result''"]
    by (auto simp: from_network_def)
  have e: "get envelope ''operation'' = JStr ''provider_call''" "get envelope ''purpose'' = JStr (rb_purpose b)"
    "get envelope ''invalidation_epoch'' = JInt epoch"
    using v(7,11) assms(9) by (simp_all add: expected_binding_fields_def binding_is_valid_iff)
  have st: "has_key trust ''trust_state''" "is_str (get trust ''trust_state'')"
    "has_key capability ''capability_state''" "is_str (get capability ''capability_state'')"
    using validated_states v(1,2) by simp_all
  have refl: "is_str x \<Longrightarrow> py_eq x x" for x by (auto simp: is_str_def split: json.splits)
  have dest: "get envelope ''destination_binding_ref'' = get n ''destination_binding_ref''"
    using s(6) assms(10) t [of "''destination_binding_ref''"] by (auto simp: get_or_def py_str_def is_str_def split: json.splits)
  have out: "validate_external_emission envelope n life = Inr ()"
    using v(3) n(1,3,4) assms(4,5,7,8) act e dest s(3-5) refl [OF t]
    by (simp add: validate_external_emission_def check_simps optional_binding_def)
  show "authorize_emission T g envelope trust capability (Some n) life (Some b) (Some (Request_mapping request)) (Some f) = Inr ()"
    unfolding authorize_emission_passes fence_records_passes fence_binding_passes fence_network_passes
    using v assms(7,8,11,12) s(1-5) st out e(3) n(2) dest refl [OF t] refl [OF st(2)] refl [OF st(4)]
    by (auto simp: authorization_query_def get_or_def expected_binding_fields_def)
qed

lemma provider_executes:
  assumes "authorize_emission T (rn_engine rn) envelope trust capability (Some n) None binding request f = Inr ()"
    and "rn_provider rn = Some (in_memory_provider (Some response))" "response \<noteq> []"
  shows "execute_provider T rn payload envelope trust capability n binding request f calls =
    (Inr \<lparr>er_status = ''EXECUTED'', er_action_result = ''ALLOW'', er_reason_class = ''NONE'', er_transport_called = True,
       er_output = Some response\<rparr>, calls @ [payload])"
  unfolding execute_provider_def assms(2)
  by (subst execute_fenced_executes [OF assms(1)]) (auto simp: in_memory_provider_def binding_matches_def assms(3))

lemma connector_executes:
  assumes "authorize_emission T (rn_engine rn) envelope trust capability (Some n) (Some life) binding request f = Inr ()"
    and "rn_connector rn = Some (in_memory_connector response)"
  shows "execute_connector T rn target envelope trust capability n life binding request f calls =
    (Inr \<lparr>er_status = ''EXECUTED'', er_action_result = ''ALLOW'', er_reason_class = ''NONE'', er_transport_called = True,
       er_output = Some [(''response_fingerprint'', JStr (sha256_json (JObj [(''bytes'', JStr (hex_text response))])))]\<rparr>,
     calls @ [target])"
  unfolding execute_connector_def assms(2)
  by (subst execute_fenced_executes [OF assms(1)]) (auto simp: in_memory_connector_def binding_matches_def)

text \<open>
  C10. The decisions the engine builds get through its own fence: a provider call whose integrated envelope
  the engine built as allowing - from its own trust, capability and network decisions, for a request that does
  not name another destination - passes \<^verbatim>\<open>authorize_emission\<close> with the same binding and request as long as the
  epoch has not moved and the revalidator confirms the binding, and the in-memory provider is then called
  with the payload exactly once and its response returned.
\<close>

theorem engine_decisions_pass:
  assumes "evaluate_trust T g tq = Inr trust" "evaluate_capability T g cq = Inr capability"
    and "evaluate_network T g nq = Inr n" "nq_operation nq = ''provider_call''" "nq_purpose nq = rb_purpose b"
    and "build_integrated_envelope T g request trust capability (Some n) ''EXTERNAL'' lifecycle refs (Some b) = Inr envelope"
    and "a \<in> set ALLOWING" "get envelope ''action_result'' = JStr a" "rb_operation b = ''provider_call''"
    and "\<not> has_key request ''destination_binding_ref''"
    and "request_from_mapping T request = Some query" "f query b (ge_now g) = Inr True"
    and "rn_engine rn = g" "rn_provider rn = Some (in_memory_provider (Some response))" "response \<noteq> []"
  shows "execute_provider T rn payload envelope trust capability n (Some b) (Some (Request_mapping request)) (Some f) calls =
    (Inr \<lparr>er_status = ''EXECUTED'', er_action_result = ''ALLOW'', er_reason_class = ''NONE'', er_transport_called = True,
       er_output = Some response\<rparr>, calls @ [payload])"
  by (rule provider_executes) (use own_decisions_authorized [where f = f and query = query and b = b and g = g, OF assms(1-12)] assms(13-15) in simp_all)

text \<open>
  C21. The connector accepts the envelope of a provider call: nothing in its path asks for an operation that
  brings content in, so the in-memory connector is called behind the same decisions whatever record is
  given as the life cycle, valid or not.
\<close>

theorem connector_accepts_provider_call:
  assumes "evaluate_trust T g tq = Inr trust" "evaluate_capability T g cq = Inr capability"
    and "evaluate_network T g nq = Inr n" "nq_operation nq = ''provider_call''" "nq_purpose nq = rb_purpose b"
    and "build_integrated_envelope T g request trust capability (Some n) ''EXTERNAL'' lifecycle refs (Some b) = Inr envelope"
    and "a \<in> set ALLOWING" "get envelope ''action_result'' = JStr a" "rb_operation b = ''provider_call''"
    and "\<not> has_key request ''destination_binding_ref''"
    and "request_from_mapping T request = Some query" "f query b (ge_now g) = Inr True"
    and "rn_engine rn = g" "rn_connector rn = Some (in_memory_connector response)"
  shows "\<exists>receipt. execute_connector T rn target envelope trust capability n life (Some b) (Some (Request_mapping request)) (Some f) calls =
    (Inr receipt, calls @ [target]) \<and> er_status receipt = ''EXECUTED'' \<and> er_transport_called receipt"
  by (subst connector_executes) (use own_decisions_authorized [where f = f and query = query and b = b and g = g, OF assms(1-12)] assms(13,14) in simp_all)

section \<open>What a capability decision says\<close>

definition in_window :: "dict \<Rightarrow> instant \<Rightarrow> bool" where
  "in_window r n =
     (case (parse_policy_timestamp (get r ''observed_at''), parse_policy_timestamp (get r ''valid_until'')) of
        (Inr a, Inr b) \<Rightarrow> a \<le> n \<and> n \<le> b
      | _ \<Rightarrow> False)"

lemma fresh_window_of:
  assumes "validate_capability_observation r = Inr ()" "parse_time now = Inr n"
  shows "fresh_window r now = Inr (in_window r n)"
proof -
  from assms(1) obtain a b where "has_key r ''observed_at''" "has_key r ''valid_until''"
    "parse_policy_timestamp (get r ''observed_at'') = Inr a" "parse_policy_timestamp (get r ''valid_until'') = Inr b"
    by (rule observation_window)
  with assms(2) show ?thesis by (simp add: fresh_window_def in_window_def except_tv_def)
qed

lemma observation_id: "validate_capability_observation r = Inr () \<Longrightarrow> observation_ref T r \<noteq> []"
  by (erule observation_window) (auto simp: observation_ref_def py_str_def dest!: nonempty_strE)

lemma observation_epoch: "validate_capability_observation r = Inr () \<Longrightarrow> py_eq (get r ''invalidation_epoch'') (JInt e) \<longleftrightarrow> get r ''invalidation_epoch'' = JInt e"
  by (erule observation_window) auto

text \<open>The decision on observations that validate, with the outcome it records.\<close>

lemma capability_decided:
  assumes "is_sha256_str (ge_authority g)" "invalidation_epoch g = Inr epoch" "0 \<le> epoch" "parse_time (ge_now g) = Inr n"
    and "list_all (\<lambda>r. validate_capability_observation r = Inr ()) (cq_observations q)"
    and "cq_observations q \<noteq> [] \<or> cq_required q \<noteq> []"
  obtains r state action reason where "capability_outcome g epoch q = Inr (state, action, reason)" "evaluate_capability T g q = Inr r"
    "validate_capability_decision r = Inr ()" "get r ''action_result'' = JStr action" "get r ''capability_state'' = JStr state"
    "get r ''purpose'' = JStr (cq_purpose q)"
    "action = ''ALLOW'' \<longleftrightarrow>
        (\<forall>k \<in> set (cq_required q). \<exists>item \<in> set (capability_candidates q). get item ''capability_key'' = JStr k)
        \<and> (\<forall>item \<in> set (capability_candidates q).
             get item ''invalidation_epoch'' = JInt epoch \<and> in_window item n \<and> \<not> unsupported item)"
    "action = ''ALLOW'' \<longleftrightarrow> state = ''FRESH''"
proof -
  let ?C = "capability_candidates q"
  let ?stale = "filter (\<lambda>item. \<not> (get item ''invalidation_epoch'' = JInt epoch \<and> in_window item n)) ?C"
  have valid: "validate_capability_observation item = Inr ()" if "item \<in> set ?C" for item
    using that assms(5) by (auto simp: capability_candidates_def list_all_iff)
  have stale: "filter_r (\<lambda>item. or_r (Inr (\<not> py_eq (get item ''invalidation_epoch'') (JInt epoch)))
      (map_result Not (fresh_window item (ge_now g)))) ?C = Inr ?stale"
  proof (rule filter_r_total)
    fix item
    assume "item \<in> set ?C"
    from fresh_window_of [OF valid [OF this] assms(4)] observation_epoch [OF valid [OF this]]
    show "or_r (Inr (\<not> py_eq (get item ''invalidation_epoch'') (JInt epoch))) (map_result Not (fresh_window item (ge_now g))) =
        Inr (\<not> (get item ''invalidation_epoch'' = JInt epoch \<and> in_window item n))"
      by (simp add: or_r_def)
  qed
  let ?missing = "filter (\<lambda>k. \<not> list_ex (\<lambda>item. get item ''capability_key'' = JStr k) ?C) (cq_required q)"
  let ?o = "if ?missing \<noteq> [] then (''MISSING'', ''DENY'', ''CAPABILITY_MISSING'')
             else if ?stale \<noteq> [] then (''STALE'', ''REQUIRE_REVALIDATION'', ''STALE_EVIDENCE'')
             else if list_ex unsupported ?C then (''OUT_OF_SCOPE'', ''DENY'', ''CAPABILITY_OUT_OF_SCOPE'')
             else (''FRESH'', ''ALLOW'', ''NONE'')"
  obtain state action reason where i: "(state, action, reason) = ?o" by (metis prod_cases3)
  have o: "capability_outcome g epoch q = Inr (state, action, reason)"
    unfolding i capability_outcome_def Let_def stale by simp
  let ?r = "capability_record T g q epoch (state, action, reason)"
  have refs: "list_all (\<lambda>a. observation_ref T a \<noteq> []) (cq_observations q)"
    using assms(5) by (auto simp: list_all_iff dest: observation_id)
  have ne: "cq_observations q \<noteq> [] \<or> state = ''MISSING''"
    using assms(6) i by (auto simp: capability_candidates_def filter_empty_conv split: if_splits)
  note v = capability_record_validates [OF assms(1,3) capability_outcome_in [OF o] refs ne]
  have all: "run_checks (map validate_capability_observation (cq_observations q)) = Inr ()"
    using assms(5) by (auto simp: run_checks_passes list_all_iff)
  have e: "evaluate_capability T g q = Inr (finalize ?r)"
    by (simp add: evaluate_capability_def all assms(2) o v Let_def)
  have "get ?r ''action_result'' = JStr action" "get ?r ''capability_state'' = JStr state"
    "get ?r ''purpose'' = JStr (cq_purpose q)"
    unfolding capability_record_def prod.case by (simp_all only: lookup_simps)
  then have g: "get (finalize ?r) ''action_result'' = JStr action" "get (finalize ?r) ''capability_state'' = JStr state"
    "get (finalize ?r) ''purpose'' = JStr (cq_purpose q)"
    by (simp_all add: finalized_facts(5) [OF capability_record_no])
  have m: "?missing = [] \<longleftrightarrow> (\<forall>k \<in> set (cq_required q). \<exists>item \<in> set ?C. get item ''capability_key'' = JStr k)"
    and s: "?stale = [] \<longleftrightarrow> (\<forall>item \<in> set ?C. get item ''invalidation_epoch'' = JInt epoch \<and> in_window item n)"
    by (auto simp: filter_empty_conv list_ex_iff)
  have "action = ''ALLOW'' \<longleftrightarrow> ?missing = [] \<and> ?stale = [] \<and> \<not> list_ex unsupported ?C"
    and f: "action = ''ALLOW'' \<longleftrightarrow> state = ''FRESH''"
    using i by (simp_all split: if_splits)
  then have "action = ''ALLOW'' \<longleftrightarrow> (\<forall>k \<in> set (cq_required q). \<exists>item \<in> set ?C. get item ''capability_key'' = JStr k)
        \<and> (\<forall>item \<in> set ?C. get item ''invalidation_epoch'' = JInt epoch \<and> in_window item n \<and> \<not> unsupported item)"
    unfolding m s by (auto simp: list_ex_iff)
  from that [OF o e v g this f] show thesis .
qed

text \<open>
  C12. For observations that validate, at a readable time and a non-negative epoch, the engine returns a
  capability decision that validates - unless it is given neither observations nor required capabilities, which its own
  validator refuses. The decision allows exactly when every required capability has an active observation of the
  subject, and every active observation of a required capability is of the current epoch, within its
  window and not one of an unsupported feature; otherwise the recorded state is not FRESH. The requested purpose and
  material are recorded but not compared with the scope of any observation: for any other purpose and manifest
  reference the same observations give the same action and state. This is what the code does; the written contract
  (GD-R2-02, section 4, and the cross-field rules, section 7) asks for observations of the exact
  purpose and material and OUT_OF_SCOPE otherwise, see \<open>out_of_scope_observation_allowed\<close> below.
\<close>

theorem capability_decision_iff:
  assumes "is_sha256_str (ge_authority g)" "invalidation_epoch g = Inr epoch" "0 \<le> epoch" "parse_time (ge_now g) = Inr n"
    and "list_all (\<lambda>r. validate_capability_observation r = Inr ()) (cq_observations q)"
    and "cq_observations q \<noteq> [] \<or> cq_required q \<noteq> []"
  shows "\<exists>r. evaluate_capability T g q = Inr r \<and> validate_capability_decision r = Inr ()
    \<and> (get r ''action_result'' = JStr ''ALLOW'' \<longleftrightarrow>
        (\<forall>k \<in> set (cq_required q). \<exists>item \<in> set (capability_candidates q). get item ''capability_key'' = JStr k)
        \<and> (\<forall>item \<in> set (capability_candidates q).
             get item ''invalidation_epoch'' = JInt epoch \<and> in_window item n \<and> \<not> unsupported item))
    \<and> (get r ''action_result'' = JStr ''ALLOW'' \<longleftrightarrow> get r ''capability_state'' = JStr ''FRESH'')
    \<and> (\<forall>purpose ref. \<exists>r'. evaluate_capability T g (q\<lparr>cq_purpose := purpose, cq_material_manifest_ref := ref\<rparr>) = Inr r'
        \<and> get r' ''action_result'' = get r ''action_result'' \<and> get r' ''capability_state'' = get r ''capability_state'')"
proof -
  show ?thesis
  proof (rule capability_decided [OF assms, where T = T])
    fix r state action reason
    assume o: "capability_outcome g epoch q = Inr (state, action, reason)"
      and r: "evaluate_capability T g q = Inr r" "validate_capability_decision r = Inr ()"
        "get r ''action_result'' = JStr action" "get r ''capability_state'' = JStr state"
      and f: "action = ''ALLOW'' \<longleftrightarrow>
          (\<forall>k \<in> set (cq_required q). \<exists>item \<in> set (capability_candidates q). get item ''capability_key'' = JStr k)
          \<and> (\<forall>item \<in> set (capability_candidates q).
               get item ''invalidation_epoch'' = JInt epoch \<and> in_window item n \<and> \<not> unsupported item)"
        "action = ''ALLOW'' \<longleftrightarrow> state = ''FRESH''"
    have "\<exists>r'. evaluate_capability T g (q\<lparr>cq_purpose := purpose, cq_material_manifest_ref := ref\<rparr>) = Inr r'
        \<and> get r' ''action_result'' = JStr action \<and> get r' ''capability_state'' = JStr state" for purpose ref
    proof -
      let ?q = "q\<lparr>cq_purpose := purpose, cq_material_manifest_ref := ref\<rparr>"
      have p: "list_all (\<lambda>r. validate_capability_observation r = Inr ()) (cq_observations ?q)"
        "cq_observations ?q \<noteq> [] \<or> cq_required ?q \<noteq> []" "capability_outcome g epoch ?q = Inr (state, action, reason)"
        using assms(5,6) o by (simp_all add: capability_outcome_def capability_candidates_def)
      show ?thesis
      proof (rule capability_decided [where q = ?q and T = T, OF assms(1-4) p(1,2)])
        fix r' state' action' reason'
        assume "capability_outcome g epoch ?q = Inr (state', action', reason')" "evaluate_capability T g ?q = Inr r'"
          "get r' ''action_result'' = JStr action'" "get r' ''capability_state'' = JStr state'"
        with p(3) show ?thesis by (intro exI [of _ r']) (simp only: sum.inject prod.inject)
      qed
    qed
    with r f show ?thesis by (intro exI [of _ r]) simp
  qed
qed

section \<open>Decisions that allow\<close>

lemma allow_vocabulary: "''provider_call'' \<in> set OPERATIONS" "''ALLOW'' \<in> set ACTIONS" "''ALLOW'' \<in> set ALLOWING"
  "''NOT_APPLICABLE'' \<in> set LIFECYCLES"
  by (simp_all add: OPERATIONS_def ACTIONS_def LIFECYCLES_def ALLOWING_def)

lemma network_allows:
  assumes "normalize_url (tt_url T) (nq_url q) = Inr t" "nq_addresses q \<noteq> []" "all_public (map resolve_entry (nq_addresses q))"
    and "nq_tls_identity_status q = ''MATCHED''" "nq_final_revalidation_result q = ''MATCHED''" "ge_execution_enabled g"
    and "invalidation_epoch g = Inr epoch" "0 \<le> epoch" "nq_operation q = ''provider_call''" "nq_purpose q \<in> set PURPOSES"
    and "nq_content_lifecycle q = ''NOT_APPLICABLE''" "nq_lifecycle q = None" "nq_lifecycle_ref q = None"
  obtains r where "evaluate_network T g q = Inr r" "get r ''action_result'' = JStr ''ALLOW''" "get r ''fetched_content_lifecycle_ref'' = JNull"
proof -
  let ?n = "network_outcome_of T g q"
  have n: "no_reason ?n = ''NONE''" "no_resolution_status ?n = ''ALL_ALLOWLISTED_PUBLIC''" "no_action ?n = ''ALLOW''"
    using assms(1-6) by (simp_all add: network_outcome_of_def Let_def)
  let ?a = "\<lparr>ba_endpoint = nq_url q, ba_addresses = JList (map JStr (nq_addresses q)), ba_observed_at = ge_now g,
             ba_connection_epoch = epoch, ba_invalidation_epoch = epoch,
             ba_tls_identity_status = nq_tls_identity_status q,
             ba_final_revalidation_result = nq_final_revalidation_result q,
             ba_resolver_ref = ''resolver://supplied-observation'',
             ba_destination_identity_ref = Some (reference ''destination'' (no_normalized ?n)),
             ba_proxy_mode = ''DIRECT'', ba_proxy_identity_ref = None, ba_execution_enabled = ge_execution_enabled g\<rparr>"
  let ?b = "built_record ?a t (map resolve_entry (nq_addresses q))"
  have "binding_guards ?a = Inr ()" using assms(4,5,8) by (simp add: binding_guards_def check_simps)
  from build_returns(1) [of "tt_url T" ?a t "nq_addresses q", OF _ _ assms(2) this] assms(1,4)
  have b: "network_binding T g q epoch (no_normalized ?n) = Inr (Some ?b)" using assms(2) by (simp add: network_binding_def)
  have o: "binding_outcome ?a (map resolve_entry (nq_addresses q)) = (''VALIDATED'', ''MATCHED'')"
    using assms(3-6) by (simp add: binding_outcome_def)
  obtain w where w: "binding_view_of q epoch ?n (Some ?b) = w" by simp
  have v: "bv_status w = JStr ''VALIDATED''" "bv_result w = JStr ''MATCHED''"
    by (simp_all add: w [symmetric] binding_view_of_def Let_def built_fields o list_items_def fields_of_def initial_event_def)
  let ?r = "network_record T g q epoch ?n w ''NOT_APPLICABLE''"
  note s = names_split [OF network_record_keys [of T g q epoch ?n w "''NOT_APPLICABLE''"] outbound_distinct]
  note f = finalized_facts [OF s(1,2)]
  have ff: "fetched_fields T q epoch ?n ''NOT_APPLICABLE'' = map (\<lambda>f. (f, JNull)) lifecycle_fields"
    using assms(9) by (simp add: fetched_fields_def lifecycle_ref_of_def)
  have "get ?r ''operation'' = JStr (nq_operation q)" "get ?r ''purpose'' = JStr (nq_purpose q)"
    "get ?r ''action_result'' = JStr (no_action ?n)" "get ?r ''content_lifecycle'' = JStr ''NOT_APPLICABLE''"
    "get ?r ''reason_class'' = JStr (no_reason ?n)"
    "get ?r ''tls_identity_status'' =
       JStr (if no_resolution_status ?n = ''ALL_ALLOWLISTED_PUBLIC'' then nq_tls_identity_status q else ''MISMATCHED'')"
    "get ?r ''resolution_set_status'' = JStr (no_resolution_status ?n)"
    "get ?r ''connection_binding_status'' = bv_status w" "get ?r ''final_revalidation_result'' = bv_result w"
    unfolding network_record_def ff lifecycle_fields_def list.map by (simp_all only: lookup_simps)
  then have g: "get ?r ''operation'' = JStr ''provider_call''" "get ?r ''purpose'' = JStr (nq_purpose q)"
    "get ?r ''action_result'' = JStr ''ALLOW''" "get ?r ''content_lifecycle'' = JStr ''NOT_APPLICABLE''"
    "get ?r ''reason_class'' = JStr ''NONE''" "get ?r ''tls_identity_status'' = JStr ''MATCHED''"
    "get ?r ''resolution_set_status'' = JStr ''ALL_ALLOWLISTED_PUBLIC''"
    "get ?r ''connection_binding_status'' = JStr ''VALIDATED''" "get ?r ''final_revalidation_result'' = JStr ''MATCHED''"
    using assms(4,9) by (simp_all only: n v if_True simp_thms)
  have null: "list_all (\<lambda>f. get ?r f = JNull) lifecycle_fields"
    unfolding network_record_def ff lifecycle_fields_def list.map by (simp only: lookup_simps list.pred_inject)
  have fin: "get (finalize ?r) k = get ?r k" if "k \<noteq> ''decision_fingerprint''" for k by (rule f(5) [OF that])
  have null': "list_all (\<lambda>f. get (finalize ?r) f = JNull) lifecycle_fields"
    using null by (simp add: lifecycle_fields_def fin)
  have kk: "set [''operation'', ''purpose'', ''action_result'', ''content_lifecycle'', ''reason_class''] \<subseteq> set outbound_fields"
    by code_simp
  have bind: "outbound_binding (finalize ?r) = Inr ()"
    using null' by (simp add: outbound_binding_def fin g check_simps list_ex_iff list_all_iff)
  have allow: "outbound_allow (finalize ?r) = Inr ()"
    by (simp add: outbound_allow_def fin g ALLOWING_def allow_requirements_def check_simps)
  have "validate_outbound_decision (finalize ?r) = Inr ()"
    unfolding validate_outbound_decision_def
    using assms(10) kk bind allow allow_vocabulary
    by (simp add: check_simps fin g f(1,3) s(3) sample_reason del: set_simps)
  then have "evaluate_network T g q = Inr (finalize ?r)"
    using assms(7,9,11-13) b w by (simp add: evaluate_network_def network_lifecycle_def Let_def)
  moreover have "get (finalize ?r) ''fetched_content_lifecycle_ref'' = JNull"
    using null' by (simp add: lifecycle_fields_def)
  ultimately show thesis using that fin g by simp
qed

lemma envelope_allows:
  assumes "validate_trust_decision trust = Inr ()" "validate_capability_decision capability = Inr ()"
    and "get trust ''action_result'' = JStr ''ALLOW''" "get capability ''action_result'' = JStr ''ALLOW''"
    and "get n ''action_result'' = JStr ''ALLOW''" "get n ''fetched_content_lifecycle_ref'' = JNull"
    and "is_sha256_str (ge_authority g)" "invalidation_epoch g = Inr epoch"
    and "binding_is_valid b (ge_now g) epoch = Inr True" "rb_policy_version b = ge_policy_version g"
    and "py_str T (get_or request ''operation'' (JStr ''provider_call'')) = rb_operation b"
    and "py_str T (get_or request ''purpose'' (JStr ''provider_call'')) = rb_purpose b"
    and "request_from_mapping T request = Some query" "integrity_valid b query"
    and "rb_operation b \<in> set OPERATIONS" "rb_purpose b \<in> set PURPOSES"
  obtains r where "build_integrated_envelope T g request trust capability (Some n) ''EXTERNAL'' lifecycle refs (Some b) = Inr r"
    "get r ''action_result'' = JStr ''ALLOW''"
proof -
  have "n \<noteq> []" using assms(5) by auto
  then have d: "decision_of (Some n) = Some n" by (cases n) (simp_all add: decision_of_def)
  have o: "envelope_action T trust capability (Some n) ''EXTERNAL'' = Inr (''ALLOW'', ''NONE'')"
    using allow_vocabulary(3) by (simp add: envelope_action_def Let_def assms(3-5) from_network_def not_in_def)
  have ba: "bound_action T g epoch request (rb_operation b) (rb_purpose b) (Some b) = Inr None"
    using assms(9,10,13,14) by (simp add: bound_action_def)
  let ?content = "if rb_operation b \<noteq> ''provider_call'' then get_or n ''content_lifecycle'' (JStr lifecycle) else JStr lifecycle"
  let ?r = "envelope_record T g epoch request trust capability (Some n) ''EXTERNAL'' ?content refs (Some b) (''ALLOW'', ''NONE'')"
  note s = names_split [OF envelope_record_keys [of T g epoch request trust capability "Some n" "''EXTERNAL''" ?content refs "Some b"
        "(''ALLOW'', ''NONE'')"] envelope_names_facts(1,2)]
  note f = finalized_facts [OF s(1,2)]
  have g: "get ?r ''action_result'' = JStr (fst (''ALLOW'', ''NONE''))" "get ?r ''reason_class'' = JStr (snd (''ALLOW'', ''NONE''))"
    "get ?r ''operation'' = JStr (rb_operation b)" "get ?r ''purpose'' = JStr (rb_purpose b)"
    "get ?r ''authority_manifest_fingerprint'' = JStr (ge_authority g)"
    "get ?r ''fetched_content_lifecycle_ref'' = get n ''fetched_content_lifecycle_ref''"
    unfolding envelope_record_def Let_def lineage_fields_def evidence_fields_def referenced_def from_network_def option.case
      lifecycle_fields_def list.map
    by (simp_all only: lookup_simps)
  have kk: "set [''operation'', ''purpose'', ''action_result'', ''authority_manifest_fingerprint''] \<subseteq> set envelope_names"
    by code_simp
  have v: "validate_integrated_envelope (finalize ?r) = Inr ()"
    unfolding validate_integrated_envelope_def
    using assms(6,7,15,16) kk allow_vocabulary sample_reason
    by (simp add: check_simps f(5) g s(3) del: set_simps)
  have "build_integrated_envelope T g request trust capability (Some n) ''EXTERNAL'' lifecycle refs (Some b) = Inr (finalize ?r)"
    using allow_vocabulary(3) by (simp add: build_integrated_envelope_def Let_def d assms(1,2,8,11,12) o ba v run_checks.simps(2))
  moreover have "get (finalize ?r) ''action_result'' = JStr ''ALLOW''" by (simp add: f(5) g)
  ultimately show thesis by (rule that)
qed

section \<open>A provider call\<close>

definition sample_text :: text_tables where
  "sample_text = \<lparr>tt_url = sample_tables, tt_repr = (\<lambda>v. []), tt_int = (\<lambda>s. None)\<rparr>"

definition sample_engine :: engine where
  "sample_engine =
     \<lparr>ge_authority = sample_fp, ge_profile = \<lparr>pf_profile_id = ''pmiri-local-0.1'', pf_algorithm_version = ''0.1'', pf_valid_for_seconds = 300\<rparr>,
      ge_policy_version = ''1'', ge_now = sample_until, ge_execution_enabled = True, ge_epochs = Local_epoch 3\<rparr>"

definition sample_assertion :: dict where
  "sample_assertion =
     [(''trust_assertion_id'', JStr ''assertion://1''), (''subject'', JObj [(''provider'', JStr ''p1'')]), (''purpose'', JStr ''retrieval''),
      (''allowed_material_classes'', JList [JStr ''TEXT'']), (''allowed_zones'', JList [JStr ''local'']), (''status'', JStr ''ACTIVE''),
      (''observed_at'', JStr sample_issued), (''valid_until'', JStr sample_until)]"

definition sample_trust_query :: trust_query where
  "sample_trust_query =
     \<lparr>tq_subject = [(''provider'', JStr ''p1'')], tq_purpose = ''retrieval'', tq_material_class = ''TEXT'', tq_feature = None,
      tq_zone = ''local'', tq_assertions = [sample_assertion], tq_destination_binding_ref = ''binding://destination'',
      tq_material_manifest_ref = ''material://request'', tq_capability_decision_ref = ''decision://capability/pending''\<rparr>"

lemma sample_engine_facts [simp]:
  "is_sha256_str (ge_authority sample_engine)" "invalidation_epoch sample_engine = Inr 3" "ge_now sample_engine = sample_until"
  "ge_policy_version sample_engine = ''1''" "ge_execution_enabled sample_engine"
  by (simp_all add: sample_engine_def invalidation_epoch_def)

lemma sample_trusted: "trust_outcome sample_engine sample_trust_query = Inr (''TRUSTED_FOR_BOUND_PURPOSE'', ''ALLOW'', ''NONE'')"
proof -
  have w: "fresh_window sample_assertion sample_until = Inr True"
    by (simp add: fresh_window_def sample_assertion_def parse_policy_timestamp_def except_tv_def sample_start_def sample_end_def)
  have s: "in_scope sample_trust_query sample_assertion = Inr True"
    by (simp add: in_scope_def sample_assertion_def sample_trust_query_def text_in_def get_or_def and_r_def)
  have r: "in_set (get sample_assertion ''status'') [''REVOKED'', ''CONTRADICTED'', ''INVALID''] = Inr False"
    "get sample_assertion ''status'' = JStr ''ACTIVE''" "get sample_assertion ''authority_manifest_fingerprint'' = JNull"
    "get sample_assertion ''subject'' = JObj [(''provider'', JStr ''p1'')]"
    by (simp_all add: sample_assertion_def)
  have q: "tq_assertions sample_trust_query = [sample_assertion]" "tq_subject sample_trust_query = [(''provider'', JStr ''p1'')]"
    by (simp_all add: sample_trust_query_def)
  show ?thesis
    unfolding trust_outcome_def q by (simp add: r s w and_r_def foreign_authority_def unhashable_def is_list_def is_obj_def Let_def)
qed

definition sample_observation_fields :: dict where
  "sample_observation_fields =
     [(''record_type'', JStr ''PMIRI_D2_CAPABILITY_OBSERVATION''), (''schema_version'', JStr ''0.3''),
      (''capability_contract_version'', JStr ''0.1''), (''capability_observation_id'', JStr ''observation://1''),
      (''subject_binding'', JStr ''provider://p1''), (''capability_key'', JStr ''resource_limits''),
      (''observed_value'', JObj [(''value_type'', JStr ''resource_limits''), (''limits_profile_ref'', JStr ''limits://1'')]),
      (''scope'', JObj [(''purpose'', JStr ''retrieval''), (''material_classes'', JList [JStr ''TEXT'']), (''region'', JStr ''eu''),
         (''feature_profile'', JStr ''profile://1'')]),
      (''source_authority'', JStr ''authority://1''), (''evidence_refs'', JList [JStr ''evidence://1'']),
      (''observed_at'', JStr sample_issued), (''valid_from'', JStr sample_issued), (''valid_until'', JStr sample_until),
      (''invalidation_epoch'', JInt 3), (''status'', JStr ''ACTIVE'')]"

definition sample_observation :: dict where
  "sample_observation =
     sample_observation_fields @ [(''observation_fingerprint'', JStr (sha256_json (JObj sample_observation_fields)))]"

definition sample_capability_query :: capability_query where
  "sample_capability_query =
     \<lparr>cq_subject_binding = ''provider://p1'', cq_purpose = ''retrieval'', cq_required = [''resource_limits''],
      cq_observations = [sample_observation], cq_material_manifest_ref = ''material://request''\<rparr>"

lemma sample_observation_get:
  "get sample_observation ''record_type'' = JStr ''PMIRI_D2_CAPABILITY_OBSERVATION''" "get sample_observation ''schema_version'' = JStr ''0.3''"
  "get sample_observation ''capability_contract_version'' = JStr ''0.1''" "get sample_observation ''capability_observation_id'' = JStr ''observation://1''"
  "get sample_observation ''subject_binding'' = JStr ''provider://p1''" "get sample_observation ''capability_key'' = JStr ''resource_limits''"
  "get sample_observation ''observed_value'' = JObj [(''value_type'', JStr ''resource_limits''), (''limits_profile_ref'', JStr ''limits://1'')]"
  "get sample_observation ''scope'' = JObj [(''purpose'', JStr ''retrieval''), (''material_classes'', JList [JStr ''TEXT'']), (''region'', JStr ''eu''),
         (''feature_profile'', JStr ''profile://1'')]"
  "get sample_observation ''source_authority'' = JStr ''authority://1''" "get sample_observation ''evidence_refs'' = JList [JStr ''evidence://1'']"
  "get sample_observation ''observed_at'' = JStr sample_issued" "get sample_observation ''valid_from'' = JStr sample_issued"
  "get sample_observation ''valid_until'' = JStr sample_until" "get sample_observation ''invalidation_epoch'' = JInt 3"
  "get sample_observation ''status'' = JStr ''ACTIVE''"
  "get sample_observation ''observation_fingerprint'' = JStr (sha256_json (JObj sample_observation_fields))"
  unfolding sample_observation_def sample_observation_fields_def by (simp_all only: lookup_simps)

lemma sample_observation_current: "in_window sample_observation sample_end" "\<not> unsupported sample_observation"
  by (simp_all add: in_window_def unsupported_def sample_observation_get parse_policy_timestamp_def sample_start_def sample_end_def
      fields_of_def)

lemma sample_observation_valid: "validate_capability_observation sample_observation = Inr ()"
proof -
  have k: "keys sample_observation = set observation_required"
    unfolding sample_observation_def keys_snoc by (simp only: sample_observation_fields_def list.map fst_conv append.simps observation_required_def)
  have w: "without [''observation_fingerprint''] sample_observation = sample_observation_fields"
    unfolding sample_observation_def by (rule without_append_key) code_simp
  have v: "check_capability_value (JStr ''resource_limits'')
      (JObj [(''value_type'', JStr ''resource_limits''), (''limits_profile_ref'', JStr ''limits://1'')]) = Inr ()"
    by code_simp
  have s: "check_scope (JObj [(''purpose'', JStr ''retrieval''), (''material_classes'', JList [JStr ''TEXT'']), (''region'', JStr ''eu''),
         (''feature_profile'', JStr ''profile://1'')]) = Inr ()"
    by code_simp
  have x: "capability_value_valid ''resource_limits'' [(''value_type'', JStr ''resource_limits''), (''limits_profile_ref'', JStr ''limits://1'')]
      = Inr True"
    by code_simp
  have t: "check_window sample_observation = Inr ()"
    by (simp add: check_window_def Let_def sample_observation_get parse_policy_timestamp_def check_simps sample_start_def sample_end_def)
  have "''ACTIVE'' \<in> set [''ACTIVE'', ''EXPIRED'', ''REVOKED'', ''SUPERSEDED'', ''CONTRADICTED'', ''INVALID'']" by simp
  then show ?thesis
    unfolding validate_capability_observation_def w
    by (simp add: check_simps k sample_observation_get v s x t is_list_def all_strs_def str_value_def fields_of_def del: set_simps)
qed

lemma sample_capable:
  obtains c where "evaluate_capability T sample_engine sample_capability_query = Inr c" "validate_capability_decision c = Inr ()"
    "get c ''action_result'' = JStr ''ALLOW''"
proof -
  have c: "capability_candidates sample_capability_query = [sample_observation]"
    by (simp add: capability_candidates_def sample_capability_query_def sample_observation_get)
  have w: "fresh_window sample_observation sample_until = Inr True"
    using fresh_window_of [OF sample_observation_valid sample_parse(2)] sample_observation_current by simp
  have o: "capability_outcome sample_engine 3 sample_capability_query = Inr (''FRESH'', ''ALLOW'', ''NONE'')"
    unfolding capability_outcome_def c Let_def
    by (simp add: w or_r_def sample_observation_get sample_observation_current) (simp add: sample_capability_query_def)
  have v: "validate_capability_decision (finalize (capability_record T sample_engine sample_capability_query 3 (''FRESH'', ''ALLOW'', ''NONE''))) = Inr ()"
    by (rule capability_record_validates [OF _ _ capability_outcome_in [OF o]])
      (simp_all add: sample_capability_query_def observation_id [OF sample_observation_valid])
  have "evaluate_capability T sample_engine sample_capability_query =
      Inr (finalize (capability_record T sample_engine sample_capability_query 3 (''FRESH'', ''ALLOW'', ''NONE'')))"
    by (simp add: evaluate_capability_def o v Let_def) (simp add: sample_capability_query_def sample_observation_valid run_checks.simps)
  moreover have "get (capability_record T sample_engine sample_capability_query 3 (''FRESH'', ''ALLOW'', ''NONE'')) ''action_result'' = JStr ''ALLOW''"
    unfolding capability_record_def prod.case by (simp only: lookup_simps)
  ultimately show thesis using that v by (simp add: finalized_facts(5) [OF capability_record_no])
qed

theorem capability_decision_iff_witness:
  "\<exists>r. evaluate_capability sample_text sample_engine sample_capability_query = Inr r \<and> get r ''action_result'' = JStr ''ALLOW''
     \<and> get r ''capability_state'' = JStr ''FRESH''"
proof -
  let ?q = sample_capability_query
  have c: "capability_candidates ?q = [sample_observation]" "cq_observations ?q = [sample_observation]" "cq_required ?q = [''resource_limits'']"
    by (simp_all add: capability_candidates_def sample_capability_query_def sample_observation_get)
  have p: "list_all (\<lambda>r. validate_capability_observation r = Inr ()) (cq_observations ?q)" "cq_observations ?q \<noteq> [] \<or> cq_required ?q \<noteq> []"
    "0 \<le> (3::int)" "parse_time (ge_now sample_engine) = Inr sample_end"
    using sample_observation_valid by (simp_all add: c)
  from capability_decision_iff [where T = sample_text, OF sample_engine_facts(1,2) p(3,4,1,2)]
  show ?thesis
  proof (elim exE conjE)
    fix r
    assume r: "evaluate_capability sample_text sample_engine ?q = Inr r" and f: "get r ''action_result'' = JStr ''ALLOW'' \<longleftrightarrow>
        (\<forall>k \<in> set (cq_required ?q). \<exists>item \<in> set (capability_candidates ?q). get item ''capability_key'' = JStr k)
        \<and> (\<forall>item \<in> set (capability_candidates ?q).
             get item ''invalidation_epoch'' = JInt 3 \<and> in_window item sample_end \<and> \<not> unsupported item)"
      "get r ''action_result'' = JStr ''ALLOW'' \<longleftrightarrow> get r ''capability_state'' = JStr ''FRESH''"
    from f(1) sample_observation_current have "get r ''action_result'' = JStr ''ALLOW''" by (simp add: c sample_observation_get)
    with r f(2) show ?thesis by (intro exI [of _ r]) simp
  qed
qed

text \<open>
  The scope of an observation plays no part: the sample, observed for the purpose \<^verbatim>\<open>retrieval\<close> and texts, makes
  the same capability FRESH for a provider call, where GD-R2-02 (section 4) asks for OUT_OF_SCOPE.
\<close>

lemma out_of_scope_observation_allowed:
  "\<exists>scope r. get sample_observation ''scope'' = JObj scope \<and> get scope ''purpose'' = JStr ''retrieval''
     \<and> evaluate_capability sample_text sample_engine (sample_capability_query\<lparr>cq_purpose := ''provider_call''\<rparr>) = Inr r
     \<and> get r ''purpose'' = JStr ''provider_call''
     \<and> get r ''action_result'' = JStr ''ALLOW'' \<and> get r ''capability_state'' = JStr ''FRESH''"
proof -
  let ?q = "sample_capability_query\<lparr>cq_purpose := ''provider_call''\<rparr>"
  have c: "capability_candidates ?q = [sample_observation]" "cq_observations ?q = [sample_observation]" "cq_required ?q = [''resource_limits'']"
    by (simp_all add: capability_candidates_def sample_capability_query_def sample_observation_get)
  have p: "list_all (\<lambda>r. validate_capability_observation r = Inr ()) (cq_observations ?q)" "cq_observations ?q \<noteq> [] \<or> cq_required ?q \<noteq> []"
    "0 \<le> (3::int)" "parse_time (ge_now sample_engine) = Inr sample_end"
    using sample_observation_valid by (simp_all add: c)
  show ?thesis
  proof (rule capability_decided [where T = sample_text, OF sample_engine_facts(1,2) p(3,4,1,2)])
    fix r state action reason
    assume r: "evaluate_capability sample_text sample_engine ?q = Inr r" "get r ''action_result'' = JStr action"
      "get r ''capability_state'' = JStr state" "get r ''purpose'' = JStr (cq_purpose ?q)" and f: "action = ''ALLOW'' \<longleftrightarrow>
        (\<forall>k \<in> set (cq_required ?q). \<exists>item \<in> set (capability_candidates ?q). get item ''capability_key'' = JStr k)
        \<and> (\<forall>item \<in> set (capability_candidates ?q).
             get item ''invalidation_epoch'' = JInt 3 \<and> in_window item sample_end \<and> \<not> unsupported item)"
      "action = ''ALLOW'' \<longleftrightarrow> state = ''FRESH''"
    from f(1) sample_observation_current have "action = ''ALLOW''" by (simp add: c sample_observation_get)
    with r f(2) show ?thesis by (simp add: sample_observation_get)
  qed
qed

definition sample_network_query :: network_query where
  "sample_network_query =
     \<lparr>nq_operation = ''provider_call'', nq_purpose = ''retrieval'', nq_url = sample_url, nq_addresses = [''8.8.8.8''],
      nq_tls_identity_status = ''MATCHED'', nq_final_revalidation_result = ''MATCHED'', nq_content_lifecycle = ''NOT_APPLICABLE'',
      nq_lifecycle = None, nq_lifecycle_ref = None\<rparr>"

definition sample_caller :: authenticated_principal where
  "sample_caller = sample_principal\<lparr>ap_allowed_operations := [''provider_call'']\<rparr>"

definition sample_service :: "(registry, rate_limiter, replay_guard, int) auth_service" where
  "sample_service = sample_memory\<lparr>sv_registry := [''auth://1'' \<mapsto> sample_caller], sv_operation := ''provider_call''\<rparr>"

definition sample_call :: dict where
  "sample_call = request_dict sample_request @ [(''operation'', JStr ''provider_call'')]"

lemma sample_call_facts:
  "request_from_mapping sample_text sample_call = Some sample_request"
  "py_str sample_text (get_or sample_call ''operation'' (JStr ''provider_call'')) = ''provider_call''"
  "py_str sample_text (get_or sample_call ''purpose'' (JStr ''provider_call'')) = ''retrieval''"
  "\<not> has_key sample_call ''destination_binding_ref''"
  by (simp_all add: request_from_mapping_def sample_call_def request_dict_def sample_request_def keys_def get_or_def py_str_def
      py_int_def number_of_def)

lemma sample_caller_binding:
  obtains b where "build_binding ''provider_call'' sample_request sample_caller sample_issued = Inr b" "rb_policy_version b = ''1''"
proof -
  from build_binding_succeeds [OF sample_normalized, of sample_caller "''provider_call''" sample_issued]
  obtain b where b: "build_binding ''provider_call'' sample_request sample_caller sample_issued = Inr b"
    by (auto simp: sample_request_def sample_caller_def sample_principal_def sample_draft_def sample_attestation_def Let_def)
  have "rb_policy_version b = ap_policy_version sample_caller"
    using b by (auto simp: build_binding_def result_simps Let_def)
  with b that show thesis by (simp add: sample_caller_def sample_principal_def sample_draft_def)
qed

lemma sample_caller_revalidates:
  assumes "build_binding ''provider_call'' sample_request sample_caller sample_issued = Inr b"
  shows "binding_is_valid b sample_until 3 = Inr True" "revalidate memory_adapters sample_service sample_request b sample_until = Inr True"
proof -
  note b = build_binding_Inr [OF assms]
  show v: "binding_is_valid b sample_until 3 = Inr True"
    by (simp add: binding_is_valid_iff b sample_caller_def)
  have "entitled ''provider_call'' sample_request sample_caller sample_until 3"
    by (simp add: entitled_def principal_is_valid_def attestation_is_valid_def sample_caller_def sample_principal_def
        sample_draft_def sample_attestation_def sample_request_def ACTIVE_def Let_def)
  moreover have "ad_resolve memory_adapters (sv_registry sample_service) (Some (rb_authentication_ref b)) = Inr (Some sample_caller)"
    by (simp add: memory_adapters_def registry_resolve_def sample_service_def b sample_caller_def)
  moreover have "ad_epoch memory_adapters (sv_epoch sample_service) = Inr 3"
    by (simp add: memory_adapters_def local_epoch_get_def sample_service_def sample_memory_def)
  ultimately show "revalidate memory_adapters sample_service sample_request b sample_until = Inr True"
    unfolding revalidate_True_iff using v assms b(1,12)
    by (intro exI [of _ "request_dict sample_request"] exI [of _ "3::int"] exI [of _ sample_caller]) (simp add: sample_service_def)
qed

lemma resolved_public: "re_policy_status (resolve_entry x) = ''ALLOWLISTED_PUBLIC'' \<longleftrightarrow> classify_address x = ''ALLOWLISTED_PUBLIC''"
  by (cases "ip_address x") (simp_all add: resolve_entry_def classify_address_def canonical_address)

text \<open>Everything the engine decides for the sample call.\<close>

lemma sample_chain:
  obtains b trust capability n envelope where
    "build_binding ''provider_call'' sample_request sample_caller sample_issued = Inr b"
    "evaluate_trust sample_text sample_engine sample_trust_query = Inr trust"
    "evaluate_capability sample_text sample_engine sample_capability_query = Inr capability"
    "evaluate_network sample_text sample_engine sample_network_query = Inr n"
    "build_integrated_envelope sample_text sample_engine sample_call trust capability (Some n) ''EXTERNAL'' ''NOT_APPLICABLE'' [] (Some b)
       = Inr envelope"
    "get envelope ''action_result'' = JStr ''ALLOW''"
proof -
  obtain b where b: "build_binding ''provider_call'' sample_request sample_caller sample_issued = Inr b" "rb_policy_version b = ''1''"
    by (rule sample_caller_binding)
  note bf = build_binding_Inr [OF b(1)]
  let ?t = "finalize (trust_record sample_text sample_engine sample_trust_query 3 (''TRUSTED_FOR_BOUND_PURPOSE'', ''ALLOW'', ''NONE''))"
  have refs: "list_all (\<lambda>a. assertion_ref sample_text a \<noteq> []) (tq_assertions sample_trust_query)"
    by (simp add: sample_trust_query_def assertion_ref_def sample_assertion_def py_str_def)
  have t: "evaluate_trust sample_text sample_engine sample_trust_query = Inr ?t" "validate_trust_decision ?t = Inr ()"
    by (rule evaluate_trust_returns [OF _ refs sample_trusted], simp, simp)
      (rule trust_record_validates [OF _ trust_outcome_in [OF sample_trusted] refs], simp)
  have "get (trust_record sample_text sample_engine sample_trust_query 3 (''TRUSTED_FOR_BOUND_PURPOSE'', ''ALLOW'', ''NONE'')) ''action_result''
      = JStr ''ALLOW''"
    unfolding trust_record_def prod.case by (simp only: lookup_simps)
  then have ta: "get ?t ''action_result'' = JStr ''ALLOW''" by (simp add: finalized_facts(5) [OF trust_record_no])
  obtain c where c: "evaluate_capability sample_text sample_engine sample_capability_query = Inr c" "validate_capability_decision c = Inr ()"
    "get c ''action_result'' = JStr ''ALLOW''" by (rule sample_capable)
  have pub: "all_public (map resolve_entry [''8.8.8.8''])"
    using sample_public by (simp add: all_public_def resolved_public)
  have pu: "''retrieval'' \<in> set PURPOSES" by (simp add: PURPOSES_def)
  obtain n where n: "evaluate_network sample_text sample_engine sample_network_query = Inr n" "get n ''action_result'' = JStr ''ALLOW''"
    "get n ''fetched_content_lifecycle_ref'' = JNull"
    by (rule network_allows [of sample_text sample_network_query sample_target sample_engine 3])
      (use sample_target_normalized pub pu in \<open>simp_all add: sample_text_def sample_network_query_def\<close>)
  have v: "binding_is_valid b (ge_now sample_engine) 3 = Inr True" using sample_caller_revalidates(1) [OF b(1)] by simp
  have q: "q_purpose sample_request = ''retrieval''" by (simp add: sample_request_def)
  obtain e where "build_integrated_envelope sample_text sample_engine sample_call ?t c (Some n) ''EXTERNAL'' ''NOT_APPLICABLE'' [] (Some b) = Inr e"
    "get e ''action_result'' = JStr ''ALLOW''"
    by (rule envelope_allows [of ?t c n sample_engine 3 b sample_text sample_call sample_request "''NOT_APPLICABLE''" "[]",
          OF t(2) c(2) ta c(3) n(2,3)])
      (use v b(2) bf(8,9) q pu allow_vocabulary(1) build_binding_integrity [OF b(1)] sample_call_facts in simp_all)
  with b(1) t(1) c(1) n(1) that show thesis by blast
qed

definition sample_runtime :: "engine \<Rightarrow> dict list runtime" where
  "sample_runtime g = \<lparr>rn_engine = g, rn_provider = Some (in_memory_provider (Some [(''text'', JStr ''hello'')])), rn_connector = None,
     rn_authorized = False\<rparr>"

definition sample_connecting :: "engine \<Rightarrow> string list runtime" where
  "sample_connecting g = \<lparr>rn_engine = g, rn_provider = None, rn_connector = Some (in_memory_connector ''bytes''), rn_authorized = False\<rparr>"

text \<open>The sample call meets what the fence asks of the engine's own decisions.\<close>

abbreviation sample_confirm :: "query_request \<Rightarrow> request_binding \<Rightarrow> string \<Rightarrow> bool result" where
  "sample_confirm \<equiv> revalidate memory_adapters sample_service"

lemma sample_hypotheses:
  obtains b trust capability n envelope where
    "build_binding ''provider_call'' sample_request sample_caller sample_issued = Inr b"
    "evaluate_trust sample_text sample_engine sample_trust_query = Inr trust"
    "evaluate_capability sample_text sample_engine sample_capability_query = Inr capability"
    "evaluate_network sample_text sample_engine sample_network_query = Inr n"
    "nq_operation sample_network_query = ''provider_call''" "nq_purpose sample_network_query = rb_purpose b"
    "build_integrated_envelope sample_text sample_engine sample_call trust capability (Some n) ''EXTERNAL'' ''NOT_APPLICABLE'' [] (Some b)
       = Inr envelope"
    "''ALLOW'' \<in> set ALLOWING" "get envelope ''action_result'' = JStr ''ALLOW''" "rb_operation b = ''provider_call''"
    "\<not> has_key sample_call ''destination_binding_ref''" "request_from_mapping sample_text sample_call = Some sample_request"
    "sample_confirm sample_request b (ge_now sample_engine) = Inr True"
proof -
  obtain b trust capability n envelope where
    b: "build_binding ''provider_call'' sample_request sample_caller sample_issued = Inr b"
    and c: "evaluate_trust sample_text sample_engine sample_trust_query = Inr trust"
      "evaluate_capability sample_text sample_engine sample_capability_query = Inr capability"
      "evaluate_network sample_text sample_engine sample_network_query = Inr n"
      "build_integrated_envelope sample_text sample_engine sample_call trust capability (Some n) ''EXTERNAL'' ''NOT_APPLICABLE'' [] (Some b)
         = Inr envelope"
      "get envelope ''action_result'' = JStr ''ALLOW''"
    by (rule sample_chain)
  have nq: "nq_operation sample_network_query = ''provider_call''" "nq_purpose sample_network_query = rb_purpose b"
    "rb_operation b = ''provider_call''"
    using build_binding_Inr(8,9) [OF b] by (simp_all add: sample_network_query_def sample_request_def)
  have v: "sample_confirm sample_request b (ge_now sample_engine) = Inr True"
    using sample_caller_revalidates(2) [OF b] by simp
  show thesis by (rule that [OF b c(1-3) nq(1,2) c(4) allow_vocabulary(3) c(5) nq(3) sample_call_facts(4,1) v])
qed

lemma sample_authorized:
  obtains b trust capability n envelope where "get envelope ''invalidation_epoch'' = JInt 3"
    "\<And>life. authorize_emission sample_text sample_engine envelope trust capability (Some n) life (Some b)
       (Some (Request_mapping sample_call)) (Some sample_confirm) = Inr ()"
proof (rule sample_hypotheses)
  fix b trust capability n envelope
  assume b: "build_binding ''provider_call'' sample_request sample_caller sample_issued = Inr b"
    and h: "evaluate_trust sample_text sample_engine sample_trust_query = Inr trust"
    "evaluate_capability sample_text sample_engine sample_capability_query = Inr capability"
    "evaluate_network sample_text sample_engine sample_network_query = Inr n"
    "nq_operation sample_network_query = ''provider_call''" "nq_purpose sample_network_query = rb_purpose b"
    "build_integrated_envelope sample_text sample_engine sample_call trust capability (Some n) ''EXTERNAL'' ''NOT_APPLICABLE'' [] (Some b)
       = Inr envelope"
    "''ALLOW'' \<in> set ALLOWING" "get envelope ''action_result'' = JStr ''ALLOW''" "rb_operation b = ''provider_call''"
    "\<not> has_key sample_call ''destination_binding_ref''" "request_from_mapping sample_text sample_call = Some sample_request"
    "sample_confirm sample_request b (ge_now sample_engine) = Inr True"
  have "n \<noteq> []" using evaluate_network_record(3) [OF h(3)] by auto
  from allowing_envelope [OF h(6-8) this]
  have "list_all (\<lambda>(k, v). get envelope k = v) (expected_binding_fields b)" by blast
  moreover have "rb_policy_epoch b = 3" using build_binding_Inr(11) [OF b] by (simp add: sample_caller_def)
  ultimately have "get envelope ''invalidation_epoch'' = JInt 3" by (simp add: expected_binding_fields_def)
  then show thesis
    by (rule that) (rule own_decisions_authorized [where f = sample_confirm and query = sample_request and b = b and g = sample_engine, OF h])
qed

theorem engine_decisions_pass_witness:
  "\<exists>envelope trust capability n b receipt.
     execute_provider sample_text (sample_runtime sample_engine) [(''text'', JStr ''hi'')] envelope trust capability n (Some b)
       (Some (Request_mapping sample_call)) (Some sample_confirm) [] = (Inr receipt, [[(''text'', JStr ''hi'')]])
     \<and> er_status receipt = ''EXECUTED''"
proof (rule sample_hypotheses, goal_cases)
  case (1 b trust capability n envelope)
  have "rn_engine (sample_runtime sample_engine) = sample_engine"
    "rn_provider (sample_runtime sample_engine) = Some (in_memory_provider (Some [(''text'', JStr ''hello'')]))"
    "[(''text'', JStr ''hello'')] \<noteq> []"
    by (simp_all add: sample_runtime_def)
  note e = engine_decisions_pass [where f = sample_confirm and query = sample_request and b = b and g = sample_engine, OF 1(2-13) this]
  show ?case by (intro exI conjI) (rule e [of "[(''text'', JStr ''hi'')]" "[]", unfolded append_Nil], simp)
qed

theorem connector_accepts_provider_call_witness:
  "\<exists>envelope trust capability n b receipt.
     execute_connector sample_text (sample_connecting sample_engine) ''target'' envelope trust capability n [] (Some b)
       (Some (Request_mapping sample_call)) (Some sample_confirm) [] = (Inr receipt, [''target''])
     \<and> er_transport_called receipt \<and> validate_lifecycle [] \<noteq> Inr ()"
proof (rule sample_hypotheses, goal_cases)
  case (1 b trust capability n envelope)
  have rn: "rn_engine (sample_connecting sample_engine) = sample_engine"
    "rn_connector (sample_connecting sample_engine) = Some (in_memory_connector ''bytes'')"
    by (simp_all add: sample_connecting_def)
  from connector_accepts_provider_call [where f = sample_confirm and query = sample_request and b = b and g = sample_engine,
      OF 1(2-13) rn, of "''target''" "[]" "[]"]
  obtain receipt where "execute_connector sample_text (sample_connecting sample_engine) ''target'' envelope trust capability n [] (Some b)
       (Some (Request_mapping sample_call)) (Some sample_confirm) [] = (Inr receipt, [] @ [''target''])" "er_transport_called receipt"
    by blast
  moreover have "validate_lifecycle [] \<noteq> Inr ()"
    by (simp add: validate_lifecycle_def check_simps lifecycle_required_def keys_def)
  ultimately show ?case unfolding append_Nil by blast
qed

theorem transport_call_authorized_witness:
  "\<exists>b p. integrity_valid b sample_request \<and> rb_operation b = ''provider_call''
     \<and> ad_resolve memory_adapters (sv_registry sample_service) (Some (rb_authentication_ref b)) = Inr (Some p)
     \<and> entitled (sv_operation sample_service) sample_request p sample_until 3"
proof (rule sample_authorized)
  fix b trust capability n envelope
  assume a: "\<And>life. authorize_emission sample_text sample_engine envelope trust capability (Some n) life (Some b)
       (Some (Request_mapping sample_call)) (Some sample_confirm) = Inr ()"
  have rn: "rn_engine (sample_runtime sample_engine) = sample_engine"
    "rn_provider (sample_runtime sample_engine) = Some (in_memory_provider (Some [(''text'', JStr ''hello'')]))"
    by (simp_all add: sample_runtime_def)
  note x = provider_executes [where rn = "sample_runtime sample_engine" and payload = "[]" and calls = "[]", unfolded rn(1), OF a rn(2)]
  from transport_call_authorized [OF x] show ?thesis
    by (auto simp: authorization_query_def sample_call_facts rn)
qed

theorem connector_fetch_authorized_witness:
  "\<exists>b p. integrity_valid b sample_request
     \<and> ad_resolve memory_adapters (sv_registry sample_service) (Some (rb_authentication_ref b)) = Inr (Some p)
     \<and> entitled (sv_operation sample_service) sample_request p sample_until 3"
proof (rule sample_authorized)
  fix b trust capability n envelope
  assume a: "\<And>life. authorize_emission sample_text sample_engine envelope trust capability (Some n) life (Some b)
       (Some (Request_mapping sample_call)) (Some sample_confirm) = Inr ()"
  have rn: "rn_engine (sample_connecting sample_engine) = sample_engine"
    "rn_connector (sample_connecting sample_engine) = Some (in_memory_connector ''bytes'')"
    by (simp_all add: sample_connecting_def)
  note x = connector_executes [where rn = "sample_connecting sample_engine" and target = "''t''" and life = "[]" and calls = "[]", unfolded rn(1), OF a rn(2)]
  from connector_fetch_authorized [OF x] show ?thesis
    by (auto simp: authorization_query_def sample_call_facts rn)
qed

theorem invalidation_blocks_witness:
  "\<exists>g envelope trust capability n b. invalidate sample_engine = Inr (4, g)
     \<and> authorize_emission sample_text sample_engine envelope trust capability (Some n) None (Some b)
         (Some (Request_mapping sample_call)) (Some sample_confirm) = Inr ()
     \<and> snd (execute_provider sample_text (sample_runtime g) [] envelope trust capability n (Some b)
         (Some (Request_mapping sample_call)) (Some sample_confirm) []) = []"
proof (rule sample_authorized)
  fix b trust capability n envelope
  assume e: "get envelope ''invalidation_epoch'' = JInt 3"
    and a: "\<And>life. authorize_emission sample_text sample_engine envelope trust capability (Some n) life (Some b)
       (Some (Request_mapping sample_call)) (Some sample_confirm) = Inr ()"
  obtain g where g: "invalidate sample_engine = Inr (4, g)" by (simp add: invalidate_def sample_engine_def)
  then have i: "invalidated sample_engine (rn_engine (sample_runtime g))"
    by (simp add: sample_runtime_def invalidated.once)
  note invalidation_blocks [OF i sample_engine_facts(2) disjI1 [OF e] disjI1 [OF refl]]
  with g a show ?thesis by blast
qed

end
