(* ===== verification/Transports.thy ===== *)
theory Transports
  imports Gate_D_Properties Credentials Storage_Crypto Retrieval
begin

text \<open>
  \<^verbatim>\<open>pmiri/transports.py\<close>: the HTTPS transports behind the Gate-D fence. What \<^verbatim>\<open>http.client\<close>, the sockets
  and TLS do with a request is an argument of the model, a function on a state of its own that gives a
  reply or raises; a request carries the host name for TLS and the address the connection is pinned to.
\<close>

section \<open>The binding of a transport\<close>

definition transport_error :: "string \<Rightarrow> 'a result" where
  "transport_error m = raise TransportAuthorizationError m"

definition refused_if :: "bool \<Rightarrow> string \<Rightarrow> unit result" where
  "refused_if b m = fails_if b TransportAuthorizationError m"

definition refused_if_r :: "bool result \<Rightarrow> string \<Rightarrow> unit result" where
  "refused_if_r r m = fails_if_r r TransportAuthorizationError m"

text \<open>A call whose \<^verbatim>\<open>NetworkBoundaryError\<close> is re-raised as a refusal.\<close>

definition boundary_as :: "string \<Rightarrow> 'a result \<Rightarrow> 'a result" where
  "boundary_as m r = (case r of Inl e \<Rightarrow> if fst e = NetworkBoundaryError then transport_error m else Inl e | Inr x \<Rightarrow> Inr x)"

definition check_decision :: "string \<Rightarrow> dict \<Rightarrow> unit result" where
  "check_decision expected_operation d = run_checks
     [refused_if_r (not_in (get d ''action_result'') ALLOWING) ''network_decision_not_allow'',
      refused_if (get d ''operation'' \<noteq> JStr expected_operation) ''network_operation_binding_mismatch'',
      refused_if (get d ''canonicalization_profile_id'' \<noteq> JStr CANONICALIZATION_PROFILE_ID
          \<or> get d ''canonicalization_profile_fingerprint'' \<noteq> JStr CANONICALIZATION_PROFILE_FINGERPRINT)
        ''canonicalization_profile_mismatch'',
      refused_if (get d ''resolution_set_status'' \<noteq> JStr ''ALL_ALLOWLISTED_PUBLIC'') ''network_resolution_not_allowlisted'',
      refused_if (get d ''connection_binding_status'' \<noteq> JStr ''VALIDATED'') ''connection_binding_not_validated'',
      refused_if (get d ''final_revalidation_result'' \<noteq> JStr ''MATCHED'') ''network_final_revalidation_missing'',
      refused_if (get d ''tls_identity_status'' \<noteq> JStr ''MATCHED'') ''tls_identity_not_matched'']"

definition differs :: "dict \<Rightarrow> string \<Rightarrow> dict \<Rightarrow> string \<Rightarrow> bool" where
  "differs a f b g = (\<not> py_eq (get a f) (get b g))"

definition selected_pairs :: "(string \<times> string) list" where
  "selected_pairs =
     [(''selected_target_resolution_ref'', ''resolution_entry_ref''), (''selected_target_ip'', ''ip''), (''selected_target_family'', ''family'')]"

text \<open>
  The comparisons of a decision with a connection binding that validated; its \<^verbatim>\<open>tls\<close> is then an object and
  its events are not empty.
\<close>

definition check_bound :: "dict \<Rightarrow> dict \<Rightarrow> unit result" where
  "check_bound d c =
     (let final = fields_of (last (list_items (get c ''revalidation_events''))) in run_checks
       [refused_if (differs c ''binding_fingerprint'' d ''connection_binding_fingerprint'') ''connection_binding_fingerprint_mismatch'',
        refused_if (differs c ''connection_binding_id'' d ''connection_binding_ref'') ''connection_binding_reference_mismatch'',
        refused_if (differs c ''destination_identity_ref'' d ''destination_identity_ref'') ''connection_destination_binding_mismatch'',
        refused_if (differs c ''canonicalization_profile_id'' d ''canonicalization_profile_id''
            \<or> differs c ''canonicalization_profile_fingerprint'' d ''canonicalization_profile_fingerprint'')
          ''connection_canonicalization_profile_mismatch'',
        refused_if (\<not> is_obj (get c ''selected_target'')) ''connection_selected_target_missing'',
        refused_if (list_ex (\<lambda>(k, f). differs d k (fields_of (get c ''selected_target'')) f) selected_pairs)
          ''connection_selected_target_mismatch'',
        refused_if (differs d ''tls_identity_fingerprint'' (fields_of (get c ''tls'')) ''identity_binding_fingerprint'')
          ''connection_tls_fingerprint_mismatch'',
        refused_if (differs d ''final_revalidation_event_sequence'' final ''sequence'' \<or> differs d ''final_revalidation_result'' final ''result'')
          ''connection_final_revalidation_mismatch'',
        refused_if (differs d ''connection_epoch'' c ''connection_epoch'' \<or> differs d ''invalidation_epoch'' c ''invalidation_epoch'')
          ''connection_epoch_mismatch''])"

definition check_target :: "dict \<Rightarrow> normalized_target \<Rightarrow> unit result" where
  "check_target d target =
     (let normalized = fields_of (get d ''normalized_target'') in run_checks
       [refused_if (\<not> is_obj (get d ''normalized_target'') \<or> get normalized ''scheme'' \<noteq> JStr ''HTTPS''
            \<or> get normalized ''authority'' \<noteq> JStr (nt_authority target) \<or> get normalized ''path_class'' \<noteq> JStr (request_target target))
          ''transport_target_binding_mismatch'',
        refused_if (\<not> nonempty_str (get d ''selected_target_ip'')) ''selected_target_missing''])"

definition validate_binding :: "url_tables \<Rightarrow> string \<Rightarrow> dict \<Rightarrow> string \<Rightarrow> dict option \<Rightarrow> normalized_target result" where
  "validate_binding T endpoint d expected_operation binding =
     bind_result (boundary_as ''transport_endpoint_invalid'' (normalize_url T endpoint)) (\<lambda>target.
     bind_result (check_decision expected_operation d) (\<lambda>_.
     case binding of
       None \<Rightarrow> transport_error ''connection_binding_required''
     | Some c \<Rightarrow>
         map_result (\<lambda>_. target) (run_checks
           [boundary_as ''connection_binding_invalid'' (validate_connection_binding c), check_bound d c, check_target d target])))"

section \<open>Transports\<close>

record https_transport =
  ht_target :: normalized_target
  ht_network_decision :: dict
  ht_connection_binding :: "dict option"
  ht_selected_ip :: string
  ht_credential :: "opaque_credential option"
  ht_limits :: resource_limits

definition https_init ::
  "url_tables \<Rightarrow> string \<Rightarrow> string \<Rightarrow> dict \<Rightarrow> opaque_credential option \<Rightarrow> bool \<Rightarrow> dict option \<Rightarrow> resource_limits \<Rightarrow> https_transport result" where
  "https_init T operation endpoint decision credential authorized binding limits =
     (if \<not> authorized then transport_error ''external_transport_not_authorized''
      else map_result (\<lambda>target. \<lparr>ht_target = target, ht_network_decision = decision, ht_connection_binding = binding,
              ht_selected_ip = str_value (get decision ''selected_target_ip''), ht_credential = credential, ht_limits = limits\<rparr>)
            (validate_binding T endpoint decision operation binding))"

text \<open>A request on a connection pinned to an address, with the host name TLS verifies.\<close>

record https_request =
  hq_host :: string
  hq_ip :: string
  hq_timeout_ms :: int
  hq_method :: string
  hq_path :: string
  hq_body :: "string option"
  hq_headers :: "(string \<times> string) list"

record https_reply =
  hp_status :: int
  hp_content_type :: "string option"
  hp_headers :: "(string \<times> string) list"
  hp_body :: string

record transport_response =
  rp_status :: int
  rp_content_type :: string
  rp_body :: string
  rp_fingerprint :: string

definition response_dict :: "transport_response \<Rightarrow> dict" where
  "response_dict r =
     [(''status'', JInt (rp_status r)), (''content_type'', JStr (rp_content_type r)),
      (''byte_length'', JInt (int (length (rp_body r)))), (''response_fingerprint'', JStr (rp_fingerprint r))]"

definition header_bytes :: "(string \<times> string) list \<Rightarrow> int" where
  "header_bytes hs = sum_list (map (\<lambda>(n, v). int (length n) + int (length v) + 4) hs)"

text \<open>\<^verbatim>\<open>_headers\<close>: the secret reaches its encoding through \<^const>\<open>inject\<close> only.\<close>

definition https_headers :: "https_transport \<Rightarrow> (string \<times> string) list \<Rightarrow> (string \<times> string) list result" where
  "https_headers t extra =
     (let headers = dict_merge [(''Accept'', ''application/json, text/plain, text/markdown''), (''User-Agent'', ''pmiri-gate-d/0.1'')] extra
      in case ht_credential t of
           None \<Rightarrow> Inr headers
         | Some c \<Rightarrow> map_result (\<lambda>encoded. dict_put ''Authorization'' (''Bearer '' @ encoded) headers)
                       (inject c (Some (\<lambda>secret. Inr (b64encode secret)))))"

text \<open>\<^verbatim>\<open>response.read(n)\<close> gives at most \<open>n\<close> bytes, and all of them for a negative \<open>n\<close>.\<close>

definition read_body :: "int \<Rightarrow> string \<Rightarrow> string" where
  "read_body n body = (if n < 0 then body else take (nat n) body)"

definition read_reply :: "unicode_tables \<Rightarrow> resource_limits \<Rightarrow> https_reply \<Rightarrow> transport_response result" where
  "read_reply u limits reply =
     (let content_type = media_type u (hp_content_type reply);
          body = read_body (rs_max_response_bytes limits + 1) (hp_body reply);
          n = int (length body) in
      map_result (\<lambda>_. \<lparr>rp_status = hp_status reply, rp_content_type = content_type, rp_body = body, rp_fingerprint = sha256_bytes body\<rparr>)
        (run_checks
          [denied_if (rs_max_response_bytes limits < n) ''RESOURCE_LIMIT_EXCEEDED'',
           validate_response limits n n 1 (header_bytes (hp_headers reply)) (Some content_type),
           refused_if (\<not> (200 \<le> hp_status reply \<and> hp_status reply < 300)) ''http_status_not_success'']))"

definition https_request_of :: "https_transport \<Rightarrow> string \<Rightarrow> string option \<Rightarrow> (string \<times> string) list \<Rightarrow> https_request" where
  "https_request_of t verb body headers =
     \<lparr>hq_host = nt_host (ht_target t), hq_ip = ht_selected_ip t, hq_timeout_ms = rs_total_timeout_ms (ht_limits t),
      hq_method = verb, hq_path = request_target (ht_target t), hq_body = body, hq_headers = headers\<rparr>"

type_synonym 's exchange = "https_request \<Rightarrow> 's \<Rightarrow> https_reply result \<times> 's"

definition https_call ::
  "unicode_tables \<Rightarrow> 's exchange \<Rightarrow> https_transport \<Rightarrow> string \<Rightarrow> string option \<Rightarrow> (string \<times> string) list \<Rightarrow> 's
     \<Rightarrow> transport_response result \<times> 's" where
  "https_call u net t verb body extra s =
     (case https_headers t extra of
        Inl e \<Rightarrow> (Inl e, s)
      | Inr headers \<Rightarrow>
          (case net (https_request_of t verb body headers) s of
             (reply, s') \<Rightarrow> (bind_result reply (read_reply u (ht_limits t)), s')))"

text \<open>\<^verbatim>\<open>HttpsJsonProviderTransport.send\<close> and \<^verbatim>\<open>HttpsConnectorTransport.fetch\<close>.\<close>

definition provider_answer :: "transport_response \<Rightarrow> dict result" where
  "provider_answer r =
     (case (if valid_utf8 (rp_body r) then loads (rp_body r) else None) of
        None \<Rightarrow> transport_error ''provider_response_invalid_json''
      | Some (JObj d) \<Rightarrow> Inr (dict_put ''response_fingerprint'' (JStr (rp_fingerprint r)) d)
      | Some _ \<Rightarrow> transport_error ''provider_response_must_be_object'')"

definition https_send :: "unicode_tables \<Rightarrow> 's exchange \<Rightarrow> https_transport \<Rightarrow> dict \<Rightarrow> 's \<Rightarrow> dict result \<times> 's" where
  "https_send u net t payload s =
     (case https_call u net t ''POST'' (Some (canonical_json (JObj payload))) [(''Content-Type'', ''application/json'')] s of
        (response, s') \<Rightarrow> (bind_result response provider_answer, s'))"

definition https_fetch :: "url_tables \<Rightarrow> unicode_tables \<Rightarrow> 's exchange \<Rightarrow> https_transport \<Rightarrow> string \<Rightarrow> 's \<Rightarrow> string result \<times> 's" where
  "https_fetch T u net t target s =
     (case normalize_url T target of
        Inl e \<Rightarrow> (Inl e, s)
      | Inr requested \<Rightarrow>
          if nt_fingerprint requested \<noteq> nt_fingerprint (ht_target t) then (transport_error ''connector_target_binding_mismatch'', s)
          else (case https_call u net t ''GET'' None [(''Accept'', ''text/plain, text/markdown, application/json'')] s of
                  (response, s') \<Rightarrow> (map_result rp_body response, s')))"

text \<open>What the runtime is given.\<close>

definition https_provider :: "unicode_tables \<Rightarrow> 's exchange \<Rightarrow> https_transport \<Rightarrow> (dict, dict, 's) transport" where
  "https_provider u net t = \<lparr>tr_in_memory = False, tr_network_decision = Some (ht_network_decision t), tr_call = https_send u net t\<rparr>"

definition https_connector :: "url_tables \<Rightarrow> unicode_tables \<Rightarrow> 's exchange \<Rightarrow> https_transport \<Rightarrow> (string, string, 's) transport" where
  "https_connector T u net t =
     \<lparr>tr_in_memory = False, tr_network_decision = Some (ht_network_decision t), tr_call = https_fetch T u net t\<rparr>"

section \<open>Where a request goes\<close>

lemma refused_if_passes [check_simps]: "refused_if b m = Inr u \<longleftrightarrow> \<not> b" "refused_if_r r m = Inr u \<longleftrightarrow> r = Inr False"
  by (simp_all add: refused_if_def refused_if_r_def check_simps)

lemma boundary_as_Inr [simp]: "boundary_as m r = Inr x \<longleftrightarrow> r = Inr x"
  by (auto simp: boundary_as_def transport_error_def split: sum.splits)

lemma validate_binding_passes:
  "validate_binding T endpoint d oper (Some c) = Inr target \<longleftrightarrow>
     normalize_url T endpoint = Inr target \<and> check_decision oper d = Inr () \<and> validate_connection_binding c = Inr ()
     \<and> check_bound d c = Inr () \<and> check_target d target = Inr ()"
  by (auto simp: validate_binding_def result_simps check_simps)

lemma https_init_Inr:
  "https_init T oper endpoint d credential authorized (Some c) limits = Inr t \<longleftrightarrow>
     authorized \<and> (\<exists>target. validate_binding T endpoint d oper (Some c) = Inr target
       \<and> t = \<lparr>ht_target = target, ht_network_decision = d, ht_connection_binding = Some c,
              ht_selected_ip = str_value (get d ''selected_target_ip''), ht_credential = credential, ht_limits = limits\<rparr>)"
  by (auto simp: https_init_def transport_error_def map_result_Inr_iff)

text \<open>A binding that validates as VALIDATED selects a public address.\<close>

lemma validated_selected_public:
  assumes "validate_connection_binding c = Inr ()" "get c ''binding_status'' = JStr ''VALIDATED''"
  shows "public_answer (fields_of (get c ''selected_target''))"
proof -
  let ?A = "list_items (get c ''resolved_addresses'')"
  let ?S = "map (\<lambda>e. get (fields_of e) ''policy_status'') ?A"
  note v = validated_parts [OF assms(1)]
  from v(10) assms(2) have f: "set_status ?S = ''ALL_ALLOWLISTED_PUBLIC''" by (simp add: check_final_def Let_def check_simps)
  obtain sel e where sel: "get c ''selected_target'' = JObj sel" "e \<in> set ?A" "py_eq (get sel ''ip'') (get (fields_of e) ''ip'')"
    by (rule selected_is_entry [OF v(6) f]) blast
  have "\<not> entry_mismatch (fields_of e)" "get (fields_of e) ''policy_status'' = JStr ''ALLOWLISTED_PUBLIC''"
    using v(4) sel(2) f by (auto simp: set_status_simps list_all_iff)
  then have p: "public_answer (fields_of e)" by (rule public_entry_answer)
  then obtain s where "get (fields_of e) ''ip'' = JStr s" by (auto simp: public_answer_def split: json.splits)
  with sel(1,3) p show ?thesis by (simp add: public_answer_def fields_of_def)
qed

lemma bound_ip:
  assumes "check_bound d c = Inr ()" "check_target d target = Inr ()"
  obtains s where "get d ''selected_target_ip'' = JStr s" "get (fields_of (get c ''selected_target'')) ''ip'' = JStr s"
proof -
  from assms(2) obtain s where s: "get d ''selected_target_ip'' = JStr s"
    by (auto simp: check_target_def Let_def check_simps dest: nonempty_strE)
  from assms(1) have "\<not> differs d ''selected_target_ip'' (fields_of (get c ''selected_target'')) ''ip''"
    by (simp add: check_bound_def Let_def check_simps selected_pairs_def)
  with s that show thesis by (simp add: differs_def)
qed

lemma https_call_state:
  assumes "https_call u net t verb body extra s = (response, s')" "s' \<noteq> s"
  shows "\<exists>headers. https_headers t extra = Inr headers \<and> snd (net (https_request_of t verb body headers) s) = s'"
  using assms by (auto simp: https_call_def split: sum.splits prod.splits)

lemma https_send_state:
  assumes "https_send u net t payload s = (answer, s')" "s' \<noteq> s"
  shows "\<exists>headers. https_headers t [(''Content-Type'', ''application/json'')] = Inr headers
    \<and> snd (net (https_request_of t ''POST'' (Some (canonical_json (JObj payload))) headers) s) = s'"
  using assms by (auto simp: https_send_def split: prod.splits dest: https_call_state)

text \<open>
  C22. When the state of the outside world changes through the HTTPS provider behind the runtime, external execution is
  authorized and exactly one request made it: a POST of the canonical payload to the host of the normalised endpoint,
  on a connection pinned to the selected address of the transport's connection binding, which is the
  canonical text of a public address whenever that binding is itself VALIDATED; and the network decision of the
  emission agrees with the one the transport was constructed for on target, connection and epochs.
\<close>

theorem https_request_pinned:
  assumes "https_init U ''provider_call'' endpoint d credential authorized (Some c) limits = Inr t"
    and "rn_provider rn = Some (https_provider u net t)"
    and "execute_provider T rn payload envelope trust capability n binding request revalidator s = (r, s')" "s' \<noteq> s"
    and "get c ''binding_status'' = JStr ''VALIDATED''"
  shows "\<exists>q target ip. rn_authorized rn \<and> normalize_url U endpoint = Inr target
    \<and> snd (net q s) = s' \<and> hq_host q = nt_host target \<and> hq_path q = request_target target \<and> hq_ip q = ip
    \<and> public_answer [(''ip'', JStr ip)] \<and> get d ''selected_target_ip'' = JStr ip
    \<and> hq_method q = ''POST'' \<and> hq_body q = Some (canonical_json (JObj payload))
    \<and> list_all (\<lambda>f. py_eq (get d f) (get n f))
        [''operation'', ''normalized_target'', ''connection_binding_ref'', ''connection_binding_fingerprint'',
         ''connection_epoch'', ''invalidation_epoch'']"
proof -
  from assms(1) obtain target where v: "normalize_url U endpoint = Inr target" "validate_connection_binding c = Inr ()"
      "check_bound d c = Inr ()" "check_target d target = Inr ()"
    and t: "ht_target t = target" "ht_network_decision t = d" "ht_selected_ip t = str_value (get d ''selected_target_ip'')"
    by (auto simp: https_init_Inr validate_binding_passes)
  have c: "rn_authorized rn" "binding_matches (https_provider u net t) n" "s' = snd (https_send u net t payload s)"
    using execute_fenced_called [OF assms(3) [unfolded execute_provider_def]] assms(2,4) by (auto simp: https_provider_def)
  obtain answer where "https_send u net t payload s = (answer, s')" using c(3) by (cases "https_send u net t payload s") simp
  with assms(4) obtain headers where q: "snd (net (https_request_of t ''POST'' (Some (canonical_json (JObj payload))) headers) s) = s'"
    by (auto dest: https_send_state)
  obtain ip where ip: "get d ''selected_target_ip'' = JStr ip" "get (fields_of (get c ''selected_target'')) ''ip'' = JStr ip"
    by (rule bound_ip [OF v(3,4)])
  have "public_answer [(''ip'', JStr ip)]"
    using validated_selected_public [OF v(2) assms(5)] ip(2) by (simp add: public_answer_def)
  then show ?thesis
    using c(1,2) q v(1) ip(1) t
    by (intro exI [of _ "https_request_of t ''POST'' (Some (canonical_json (JObj payload))) headers"] exI [of _ target] exI [of _ ip])
      (simp add: https_request_of_def str_value_def binding_matches_def https_provider_def)
qed

section \<open>The engine's decision and the builder's binding\<close>

lemma allowing_outcome:
  assumes "no_action (network_outcome_of T g q) = ''ALLOW''"
  obtains t where "normalize_url (tt_url T) (nq_url q) = Inr t" "all_public (map resolve_entry (nq_addresses q))"
    "nq_tls_identity_status q = ''MATCHED''" "nq_final_revalidation_result q = ''MATCHED''" "ge_execution_enabled g"
    "no_normalized (network_outcome_of T g q) = normalized_json (nt_authority t) (request_target t)"
    "no_resolution_status (network_outcome_of T g q) = ''ALL_ALLOWLISTED_PUBLIC''"
    "no_selected_ip (network_outcome_of T g q) = JStr (re_ip (hd (map resolve_entry (nq_addresses q))))"
    "no_selected_family (network_outcome_of T g q) = JStr (re_family (hd (map resolve_entry (nq_addresses q))))"
  using assms that by (cases "normalize_url (tt_url T) (nq_url q)") (auto simp: network_outcome_of_def Let_def split: if_splits)

lemma build_connection_binding_Inr:
  assumes "build_connection_binding U a = Inr c"
  obtains t where "normalize_url U (ba_endpoint a) = Inr t"
    "c = built_record a t (map (resolve_entry \<circ> str_value) (list_items (ba_addresses a)))" "validate_connection_binding c = Inr ()"
  using assms that
  by (auto simp: build_connection_binding_def Let_def bind_result_Inr_iff built_record_def boundary_error_def split: if_splits)

lemma re_ip_public: "re_policy_status (resolve_entry a) = ''ALLOWLISTED_PUBLIC'' \<Longrightarrow> re_ip (resolve_entry a) \<noteq> []"
proof -
  have "ip_address [] = None" by code_simp
  then show "re_policy_status (resolve_entry a) = ''ALLOWLISTED_PUBLIC'' \<Longrightarrow> re_ip (resolve_entry a) \<noteq> []"
    by (auto simp: resolve_entry_def classify_address_def split: option.splits)
qed

lemma network_get:
  assumes "n = finalize (network_record T g q epoch o' w lifecycle)" "k \<noteq> ''decision_fingerprint''"
  shows "get n k = get (network_record T g q epoch o' w lifecycle) k"
proof -
  note s = names_split [OF network_record_keys [of T g q epoch o' w lifecycle] outbound_distinct]
  show ?thesis unfolding assms(1) by (rule finalized_facts(5) [OF s(1,2) assms(2)])
qed

lemma network_gets:
  assumes "n = finalize (network_record T g q epoch (network_outcome_of T g q) w lifecycle)"
  shows
    "get n ''operation'' = JStr (nq_operation q)"
    "get n ''action_result'' = JStr (no_action (network_outcome_of T g q))" "get n ''destination_identity_ref'' = JStr (reference ''destination'' (no_normalized (network_outcome_of T g q)))"
    "get n ''canonicalization_profile_id'' = JStr CANONICALIZATION_PROFILE_ID"
    "get n ''canonicalization_profile_fingerprint'' = JStr CANONICALIZATION_PROFILE_FINGERPRINT"
    "get n ''normalized_target'' = no_normalized (network_outcome_of T g q)" "get n ''connection_binding_ref'' = bv_ref w"
    "get n ''connection_binding_fingerprint'' = bv_fingerprint w" "get n ''selected_target_resolution_ref'' = bv_selected_ref w"
    "get n ''selected_target_ip'' = no_selected_ip (network_outcome_of T g q)" "get n ''selected_target_family'' = no_selected_family (network_outcome_of T g q)"
    "get n ''resolution_set_status'' = JStr (no_resolution_status (network_outcome_of T g q))" "get n ''connection_binding_status'' = bv_status w"
    "get n ''final_revalidation_event_sequence'' = bv_sequence w" "get n ''final_revalidation_result'' = bv_result w"
    "get n ''tls_identity_status'' =
       JStr (if no_resolution_status (network_outcome_of T g q) = ''ALL_ALLOWLISTED_PUBLIC'' then nq_tls_identity_status q else ''MISMATCHED'')"
    "get n ''tls_identity_fingerprint'' = bv_tls_fingerprint w" "get n ''connection_epoch'' = JInt epoch"
    "get n ''invalidation_epoch'' = JInt epoch"
  by ((subst network_get [OF assms], simp, simp only: network_record_def lookup_simps)+)

lemma validated_view:
  assumes "binding_outcome a es = (''VALIDATED'', ''MATCHED'')" "all_public es" "c = built_record a t es"
    and "w = binding_view_of q epoch n (Some c)"
  shows "bv_fingerprint w = get c ''binding_fingerprint''" "bv_ref w = get c ''connection_binding_id''"
    "bv_status w = get c ''binding_status''" "bv_selected_ref w = JStr (entry_id t 0)" "bv_sequence w = JInt 0"
    "bv_result w = JStr ''MATCHED''" "bv_tls_fingerprint w = get (fields_of (get c ''tls'')) ''identity_binding_fingerprint''"
    "list_items (get c ''revalidation_events'') = [initial_event a ''MATCHED'']"
    "get (fields_of (initial_event a ''MATCHED'')) ''sequence'' = JInt 0"
    "get (fields_of (initial_event a ''MATCHED'')) ''result'' = JStr ''MATCHED''"
    "get c ''selected_target'' = JObj
       [(''resolution_entry_ref'', JStr (entry_id t 0)), (''ip'', JStr (re_ip (hd es))), (''family'', JStr (re_family (hd es))),
        (''policy_status'', JStr (re_policy_status (hd es)))]"
    "get (fields_of (get c ''tls'')) ''identity_binding_fingerprint'' =
       JStr (identity_fingerprint (JStr (nt_authority t)) (JStr (ba_tls_identity_status a)))"
    "get c ''connection_binding_id'' = JStr (''connection://'' @ take 32 (nt_fingerprint t))"
proof -
  note f = built_fields [of a t es, folded assms(3)]
  show ev: "list_items (get c ''revalidation_events'') = [initial_event a ''MATCHED'']" by (simp add: f assms(1) list_items_def)
  show sel: "get c ''selected_target'' = JObj
       [(''resolution_entry_ref'', JStr (entry_id t 0)), (''ip'', JStr (re_ip (hd es))), (''family'', JStr (re_family (hd es))),
        (''policy_status'', JStr (re_policy_status (hd es)))]"
    using assms(2) by (simp add: f selected_json_def Let_def)
  show e: "get (fields_of (initial_event a ''MATCHED'')) ''sequence'' = JInt 0"
    "get (fields_of (initial_event a ''MATCHED'')) ''result'' = JStr ''MATCHED''"
    by (simp_all add: initial_event_def fields_of_def)
  show "get (fields_of (get c ''tls'')) ''identity_binding_fingerprint'' =
       JStr (identity_fingerprint (JStr (nt_authority t)) (JStr (ba_tls_identity_status a)))"
    by (simp add: f tls_json_def Let_def fields_of_def)
  show "get c ''connection_binding_id'' = JStr (''connection://'' @ take 32 (nt_fingerprint t))"
    unfolding assms(3) built_record_def binding_record_def Let_def by (simp only: lookup_simps)
  show "bv_fingerprint w = get c ''binding_fingerprint''" "bv_ref w = get c ''connection_binding_id''"
    "bv_status w = get c ''binding_status''" "bv_selected_ref w = JStr (entry_id t 0)" "bv_sequence w = JInt 0"
    "bv_result w = JStr ''MATCHED''" "bv_tls_fingerprint w = get (fields_of (get c ''tls'')) ''identity_binding_fingerprint''"
    unfolding assms(4) binding_view_of_def option.case Let_def ev sel last.simps if_True refl
    by (simp_all add: e) (simp add: fields_of_def)
qed

lemma engine_transport:
  assumes "evaluate_network T g q = Inr n" "get n ''action_result'' = JStr ''ALLOW''" "invalidation_epoch g = Inr epoch"
  obtains c t where "network_binding T g q epoch (get n ''normalized_target'') = Inr (Some c)"
    "get c ''binding_status'' = JStr ''VALIDATED''"
    "https_init (tt_url T) (nq_operation q) (nq_url q) n credential True (Some c) limits = Inr t"
    "ht_selected_ip t = re_ip (resolve_entry (hd (nq_addresses q)))"
    "list_all (\<lambda>f. py_eq (get n f) (get n f))
       [''operation'', ''normalized_target'', ''connection_binding_ref'', ''connection_binding_fingerprint'',
        ''connection_epoch'', ''invalidation_epoch'']"
proof -
  let ?n = "network_outcome_of T g q"
  from assms(1,3) obtain binding lifecycle where b: "network_binding T g q epoch (no_normalized ?n) = Inr binding"
    and r: "n = finalize (network_record T g q epoch ?n (binding_view_of q epoch ?n binding) lifecycle)"
    by (auto simp: evaluate_network_def Let_def result_simps)
  obtain w where w: "binding_view_of q epoch ?n binding = w" by simp
  note g = network_gets [OF r [unfolded w]]
  from g(2) assms(2) have "no_action ?n = ''ALLOW''" by simp
  then obtain t where t: "normalize_url (tt_url T) (nq_url q) = Inr t" "all_public (map resolve_entry (nq_addresses q))"
    "nq_tls_identity_status q = ''MATCHED''" "nq_final_revalidation_result q = ''MATCHED''" "ge_execution_enabled g"
    and o: "no_normalized ?n = normalized_json (nt_authority t) (request_target t)"
    "no_resolution_status ?n = ''ALL_ALLOWLISTED_PUBLIC''"
    "no_selected_ip ?n = JStr (re_ip (hd (map resolve_entry (nq_addresses q))))"
    "no_selected_family ?n = JStr (re_family (hd (map resolve_entry (nq_addresses q))))"
    by (rule allowing_outcome)
  let ?es = "map resolve_entry (nq_addresses q)"
  have ne: "nq_addresses q \<noteq> []" using t(2) by (auto simp: all_public_def)
  obtain a where a: "a = \<lparr>ba_endpoint = nq_url q, ba_addresses = JList (map JStr (nq_addresses q)), ba_observed_at = ge_now g,
             ba_connection_epoch = epoch, ba_invalidation_epoch = epoch,
             ba_tls_identity_status = nq_tls_identity_status q,
             ba_final_revalidation_result = nq_final_revalidation_result q,
             ba_resolver_ref = ''resolver://supplied-observation'',
             ba_destination_identity_ref = Some (reference ''destination'' (no_normalized ?n)),
             ba_proxy_mode = ''DIRECT'', ba_proxy_identity_ref = None, ba_execution_enabled = ge_execution_enabled g\<rparr>" by simp
  from b ne t(1) obtain c where c: "binding = Some c" "build_connection_binding (tt_url T) a = Inr c"
    by (auto simp: network_binding_def map_result_Inr_iff a)
  from c(2) obtain t' where t': "normalize_url (tt_url T) (ba_endpoint a) = Inr t'"
    "c = built_record a t' (map (resolve_entry \<circ> str_value) (list_items (ba_addresses a)))" and v: "validate_connection_binding c = Inr ()"
    by (rule build_connection_binding_Inr)
  note ai = a [THEN arg_cong [where f=ba_tls_identity_status]] a [THEN arg_cong [where f=ba_connection_epoch]]
    a [THEN arg_cong [where f=ba_invalidation_epoch]] a [THEN arg_cong [where f=ba_destination_identity_ref]]
  have "c = built_record a t ?es" using t' t(1) by (simp add: a list_items_def o_def str_value_def)
  note f = built_fields [of a t ?es, folded this]
  have out: "binding_outcome a ?es = (''VALIDATED'', ''MATCHED'')" using t(2-5) by (simp add: binding_outcome_def a)
  have dest: "destination_of a t = reference ''destination'' (no_normalized ?n)" by (simp add: destination_of_def ai reference_def)
  note v' = validated_view [OF out t(2) \<open>c = built_record a t ?es\<close> w [symmetric, unfolded c(1)]]
  have sel: "fields_of (get c ''selected_target'') =
           [(''resolution_entry_ref'', JStr (entry_id t 0)), (''ip'', JStr (re_ip (hd ?es))), (''family'', JStr (re_family (hd ?es))),
            (''policy_status'', JStr (re_policy_status (hd ?es)))]" by (simp add: v'(11) fields_of_def)
  have obj: "is_obj (get c ''selected_target'')" by (simp add: v'(11) is_obj_def)
  have dec: "check_decision (nq_operation q) n = Inr ()"
    using allow_vocabulary(3) by (simp add: check_decision_def check_simps g o t(3) v'(1-7) f out \<open>no_action ?n = ''ALLOW''\<close>)
  have bound: "check_bound n c = Inr ()"
    unfolding check_bound_def Let_def v'(8) sel
    by (simp add: check_simps differs_def g v'(1-7,9-10,12-13) f(3-5,13-16) dest out o selected_pairs_def obj ai)
  have hd: "hd ?es = resolve_entry (hd (nq_addresses q))" using ne by (cases "nq_addresses q") simp_all
  have tgt: "check_target n t = Inr ()"
    using re_ip_public [of "hd (nq_addresses q)"] t(2) ne
    by (cases "nq_addresses q") (simp_all add: all_public_def check_target_def Let_def check_simps g o normalized_json_def fields_of_def is_obj_def)
  have "https_init (tt_url T) (nq_operation q) (nq_url q) n credential True (Some c) limits =
      Inr \<lparr>ht_target = t, ht_network_decision = n, ht_connection_binding = Some c,
           ht_selected_ip = str_value (get n ''selected_target_ip''), ht_credential = credential, ht_limits = limits\<rparr>"
    using t(1) dec v bound tgt by (simp add: https_init_Inr validate_binding_passes)
  note init = this
  have "str_value (get n ''selected_target_ip'') = re_ip (resolve_entry (hd (nq_addresses q)))"
    by (simp add: g o hd str_value_def)
  moreover have "list_all (\<lambda>f. py_eq (get n f) (get n f))
       [''operation'', ''normalized_target'', ''connection_binding_ref'', ''connection_binding_fingerprint'',
        ''connection_epoch'', ''invalidation_epoch'']"
    by (simp add: g v'(1,2,13) f(16) o normalized_json_def)
  ultimately show thesis using b c(1) g(6) f(15) out by (intro that [OF _ _ init]) simp_all
qed

text \<open>
  C23. An HTTPS transport accepts what the engine decides: for an allowing network decision of the engine - a provider call
  or a fetch - the connection binding the engine built for it is VALIDATED, and an authorized transport for the
  same URL can be constructed from the two, pinned to the first of the supplied addresses; the runtime's
  comparison of that transport with the decision then succeeds.
\<close>

theorem engine_decision_accepted:
  assumes "evaluate_network T g q = Inr n" "get n ''action_result'' = JStr ''ALLOW''" "invalidation_epoch g = Inr epoch"
  shows "\<exists>c t. network_binding T g q epoch (get n ''normalized_target'') = Inr (Some c)
    \<and> get c ''binding_status'' = JStr ''VALIDATED''
    \<and> https_init (tt_url T) (nq_operation q) (nq_url q) n credential True (Some c) limits = Inr t
    \<and> ht_selected_ip t = re_ip (resolve_entry (hd (nq_addresses q)))
    \<and> binding_matches (https_provider u net t) n \<and> binding_matches (https_connector U u net' t) n"
proof (rule engine_transport [OF assms])
  fix c t
  assume "network_binding T g q epoch (get n ''normalized_target'') = Inr (Some c)" "get c ''binding_status'' = JStr ''VALIDATED''"
    "ht_selected_ip t = re_ip (resolve_entry (hd (nq_addresses q)))"
    and i: "https_init (tt_url T) (nq_operation q) (nq_url q) n credential True (Some c) limits = Inr t"
    and m: "list_all (\<lambda>f. py_eq (get n f) (get n f))
       [''operation'', ''normalized_target'', ''connection_binding_ref'', ''connection_binding_fingerprint'',
        ''connection_epoch'', ''invalidation_epoch'']"
  moreover from i have d: "ht_network_decision t = n" by (auto simp: https_init_Inr)
  have "binding_matches (https_provider u net t) n" "binding_matches (https_connector U u net' t) n"
    using m unfolding binding_matches_def https_provider_def https_connector_def transport.simps option.case d by simp_all
  ultimately show ?thesis by blast
qed

section \<open>A call through the transport\<close>

text \<open>An exchange that records the requests it is given and answers with an empty JSON object.\<close>

definition sample_exchange :: "https_request list exchange" where
  "sample_exchange q qs = (Inr \<lparr>hp_status = 200, hp_content_type = Some ''application/json'', hp_headers = [], hp_body = ''{}''\<rparr>, qs @ [q])"

definition sample_external :: "unicode_tables \<Rightarrow> https_transport \<Rightarrow> https_request list runtime" where
  "sample_external u t = \<lparr>rn_engine = sample_engine, rn_provider = Some (https_provider u sample_exchange t), rn_connector = None,
     rn_authorized = True\<rparr>"

lemma sample_network_allows:
  assumes "evaluate_network sample_text sample_engine sample_network_query = Inr n"
  shows "get n ''action_result'' = JStr ''ALLOW''"
proof -
  have pub: "all_public (map resolve_entry [''8.8.8.8''])"
    using sample_public by (simp add: all_public_def resolved_public)
  have pu: "''retrieval'' \<in> set PURPOSES" by (simp add: PURPOSES_def)
  obtain n' where "evaluate_network sample_text sample_engine sample_network_query = Inr n'" "get n' ''action_result'' = JStr ''ALLOW''"
    by (rule network_allows [of sample_text sample_network_query sample_target sample_engine 3])
      (use sample_target_normalized pub pu in \<open>simp_all add: sample_text_def sample_network_query_def\<close>)
  with assms show ?thesis by simp
qed

lemma sample_query_facts: "nq_operation sample_network_query = ''provider_call''" "nq_url sample_network_query = sample_url"
  "nq_addresses sample_network_query = [''8.8.8.8'']" "tt_url sample_text = sample_tables"
  "re_ip (resolve_entry ''8.8.8.8'') = ''8.8.8.8''"
proof -
  have "ip_address ''8.8.8.8'' = Some (IPv4 [8, 8, 8, 8])" "compressed (IPv4 [8, 8, 8, 8]) = ''8.8.8.8''" by code_simp+
  then show "re_ip (resolve_entry ''8.8.8.8'') = ''8.8.8.8''" by (simp only: resolve_entry_def option.case resolution_entry.simps)
qed (simp_all add: sample_network_query_def sample_text_def)

theorem engine_decision_accepted_witness:
  "\<exists>n c t. evaluate_network sample_text sample_engine sample_network_query = Inr n
     \<and> https_init sample_tables ''provider_call'' sample_url n None True (Some c) default_limits = Inr t
     \<and> ht_selected_ip t = ''8.8.8.8''"
proof (rule sample_chain)
  fix n assume n: "evaluate_network sample_text sample_engine sample_network_query = Inr n"
  note e = engine_decision_accepted [OF n sample_network_allows [OF n] sample_engine_facts(2), of None default_limits,
      unfolded sample_query_facts list.sel]
  show ?thesis by (rule exE [OF e], elim exE conjE, intro exI conjI) (rule n, assumption+)
qed

theorem https_request_pinned_witness:
  "\<exists>(q :: https_request) target. normalize_url sample_tables sample_url = Inr target \<and> hq_host q = nt_host target
     \<and> hq_ip q = ''8.8.8.8'' \<and> public_answer [(''ip'', JStr ''8.8.8.8'')] \<and> hq_method q = ''POST''"
proof (rule sample_hypotheses, goal_cases)
  case (1 b trust capability n envelope)
  fix u :: unicode_tables
  obtain c t where c: "get c ''binding_status'' = JStr ''VALIDATED''"
    and t: "https_init sample_tables ''provider_call'' sample_url n None True (Some c) default_limits = Inr t"
    and sip: "ht_selected_ip t = ''8.8.8.8''"
    and m: "list_all (\<lambda>f. py_eq (get n f) (get n f))
       [''operation'', ''normalized_target'', ''connection_binding_ref'', ''connection_binding_fingerprint'',
        ''connection_epoch'', ''invalidation_epoch'']"
    by (rule engine_transport [OF 1(4) sample_network_allows [OF 1(4)] sample_engine_facts(2), of None default_limits,
          unfolded sample_query_facts list.sel])
  from t have d: "ht_network_decision t = n" "ht_limits t = default_limits" "ht_credential t = None"
    "ht_selected_ip t = str_value (get n ''selected_target_ip'')"
    by (auto simp: https_init_Inr)
  have e: "authorize_emission sample_text sample_engine envelope trust capability (Some n) None (Some b)
       (Some (Request_mapping sample_call)) (Some sample_confirm) = Inr ()"
    by (rule own_decisions_authorized [where f = sample_confirm and query = sample_request and b = b and g = sample_engine, OF 1(2-13)])
  obtain r q where s: "https_send u sample_exchange t [] [] = (r, [q])"
    by (simp add: https_send_def https_call_def https_headers_def d sample_exchange_def)
  obtain x where x: "execute_provider sample_text (sample_external u t) [] envelope trust capability n (Some b)
       (Some (Request_mapping sample_call)) (Some sample_confirm) [] = (x, [q])"
    using e s m by (simp add: execute_provider_def execute_fenced_def sample_external_def https_provider_def binding_matches_def d)
  have rn: "rn_provider (sample_external u t) = Some (https_provider u sample_exchange t)" by (simp add: sample_external_def)
  obtain q' :: https_request and target ip where p: "normalize_url sample_tables sample_url = Inr target" "hq_host q' = nt_host target" "hq_ip q' = ip"
    "public_answer [(''ip'', JStr ip)]" "get n ''selected_target_ip'' = JStr ip" "hq_method q' = ''POST''"
    by (rule exE [OF https_request_pinned [OF t rn x list.distinct(2) c]], elim exE conjE, rule that, assumption+)
  have "ip = ''8.8.8.8''" using d(4) sip by (simp only: p(5) sample_query_facts str_value_def json.case)
  show ?case by (rule exI [of _ q'], rule exI [of _ target]) (simp only: p(1,2,3,6) p(4) [unfolded \<open>ip = _\<close>] \<open>ip = _\<close> simp_thms)
qed

end
