(* ===== verification/Spec2Isabelle.thy ===== *)
theory Spec2Isabelle
  imports Read_Properties Decisions Store_Properties Storage_Crypto Http_Boundary Credentials Policy Network Gate_D_Properties Transports
begin

section \<open>PMIRI\<close>

text \<open>
  A model of PMIRI (\<^verbatim>\<open>src/pmiri\<close>), a local evidence runtime: it stores versions of text sources, answers
  queries with quoted evidence, authorizes every authenticated read, and puts a chain of decisions and
  fences in front of whatever leaves the process.

  \<^bold>\<open>Conventions.\<close> A definition keeps the name of the function it translates; the fields of a record carry
  a prefix. A Python exception is the left side of a sum (\<open>Inl (class, message)\<close>), every \<^verbatim>\<open>raise\<close> and
  early return is a branch, and a handler catches exactly the classes its \<^verbatim>\<open>except\<close> clause names. A
  \<^verbatim>\<open>str\<close> is its UTF-8 encoding, a HOL string of bytes; an \<^verbatim>\<open>int\<close> is an \<open>int\<close>; a record that crosses a
  boundary as a dictionary is an association list of JSON values. Time stamps are read into
  microseconds since 1970, the clock and random identifiers are arguments. Files and tables are maps or
  texts, and an operation under a lock or in a transaction is one step.

  \<^bold>\<open>Shared theories.\<close> \<open>Prelude\<close> (results, Python's string operations, dictionaries), \<open>Sha256\<close> (the hash on
  32-bit words), \<open>Canonical\<close> (\<^verbatim>\<open>canonical.py\<close>; the canonical text determines the value up to the order
  of keys), \<open>Json_Reader\<close> and \<open>Base64\<close> (what is read back from disk), \<open>Checks\<close> (validators as lists of
  guards), \<open>Timestamps\<close> and \<open>Models\<close> (\<^verbatim>\<open>models.py\<close>).

  \<^bold>\<open>Authorization.\<close> \<open>Security\<close> (\<^verbatim>\<open>security.py\<close>) has scopes, subject chains and purpose bindings.
  \<open>Request_Auth\<close> (\<^verbatim>\<open>request_auth.py\<close>) has attestations, principals, the replay guard, the rate limiter and
  \<^verbatim>\<open>RequestAuthorizationService\<close>; \<open>Control_Plane\<close> (\<^verbatim>\<open>control_plane.py\<close>) has the same adapters over SQLite
  tables. \<open>Auth_Interfaces\<close> states what the service needs of them as locales (guard, limiter, registry,
  epoch); both sets of adapters are interpretations, and \<open>Auth_Service\<close> proves once for both that a
  request id is not allowed twice while its binding lives. \<open>Auth_Properties\<close> holds the guarantees: when
  a request is allowed, no replay, final revocation, epochs that cut off old bindings, rate bounds, and
  which exceptions can escape.

  \<^bold>\<open>Evidence.\<close> \<open>Store_Interface\<close> is the contract of a source store, a locale with the list of registered
  versions as its abstraction; \<open>Store\<close> (\<^verbatim>\<open>store.py\<close>) models \<^verbatim>\<open>LocalStore\<close> and \<^verbatim>\<open>SQLiteStore\<close>, both
  interpretations of it, and \<open>Store_Properties\<close> shows that they agree, that a migration is complete and
  that every text returned has its fingerprint. \<open>Storage_Crypto\<close> (\<^verbatim>\<open>storage_crypto.py\<close>) is the cipher
  of the stored blobs. \<open>Retrieval\<close> (\<^verbatim>\<open>retrieval.py\<close>) finds and ranks evidence, \<open>Evidence_Runtime\<close>
  (\<^verbatim>\<open>context.py\<close>, \<^verbatim>\<open>runtime.py\<close>, \<^verbatim>\<open>egress.py\<close>, \<^verbatim>\<open>disclosure.py\<close>, \<^verbatim>\<open>cache.py\<close>) compiles it into a bounded
  context and fences it.

  \<^bold>\<open>Reads.\<close> \<open>Read_Projection\<close> and \<open>Read_Operations\<close> (\<^verbatim>\<open>read_projection.py\<close>, \<^verbatim>\<open>read_operations.py\<close>) compose
  authorization, query, revalidation and disclosure into the API and MCP operations. What other threads do
  to the service between authorization and revalidation is an argument of the handler.
  \<open>Read_Properties\<close> shows what a refused caller can see and what evidence in a response implies.
  \<open>Audit_Log\<close> (\<^verbatim>\<open>audit.py\<close>) writes and reads back the event log. \<open>Http_Boundary\<close> (\<^verbatim>\<open>http_api.py\<close>) puts the
  operations and the log behind the loopback server: what an answer can hold, and that counters and log agree
  with the answers given.

  \<^bold>\<open>Gate D.\<close> \<open>Decisions\<close> (\<^verbatim>\<open>decisions.py\<close>) has the validators of decision records, and reads the life cycle
  of fetched content as a state machine; \<open>Policy\<close> (\<^verbatim>\<open>policy.py\<close>) has provider observations and redaction;
  \<open>Credentials\<close> (\<^verbatim>\<open>credentials.py\<close>) the boundary of connector secrets. \<open>Ip_Address\<close> and \<open>Url\<close> model what
  \<^verbatim>\<open>network.py\<close> uses of \<^verbatim>\<open>ipaddress\<close> and \<^verbatim>\<open>urlsplit\<close> and its URL canonicalization, shown idempotent;
  \<open>Network\<close> has connection bindings: what a validated one guarantees and that the builder's own records
  validate.

  \<open>Gate_D_Engine\<close> (\<^verbatim>\<open>gate_d.py\<close>) builds the trust, capability, network and integrated decisions,
  \<open>Gate_D_Fence\<close> has the final fence and \<^verbatim>\<open>EnforcedTransportRuntime\<close>; a transport is a function on a state of its
  own, so that a call shows. \<open>Gate_D_Properties\<close> composes them with the authorization service: a transport
  runs only behind a complete, current and revalidated chain; an advance of the epoch blocks what was compiled before; and
  the engine's own allowing decisions do get through. \<open>Transports\<close> (\<^verbatim>\<open>transports.py\<close>) is the HTTPS provider and
  connector: a request goes only to the pinned public address of the validated binding, and the engine's decisions
  are accepted.
  \<^bold>\<open>Recursion.\<close> Every function is total. Loops over a shrinking text (dot segments, the JSON reader, text
  replacement) terminate by the length of the text; no definition needs fuel.

  \<^bold>\<open>Parameters.\<close> The word and case tables of Unicode beyond ASCII, the AEAD primitive, key provider and nonce
  source of the blob cipher, the optional package \<^verbatim>\<open>idna\<close>, the text \<^verbatim>\<open>str\<close> gives a list or dictionary and the number \<^verbatim>\<open>int\<close> reads in a text,
  the number in a \<^verbatim>\<open>Content-Length\<close> header, and what the network answers to a request are arguments; hypotheses on them are
  their documented laws, and each theorem with such a hypothesis has a witness with a concrete instance.

  \<^bold>\<open>Limits of the model.\<close> JSON values hold no floating-point numbers. \<^verbatim>\<open>fromisoformat\<close> reads the extended
  calendar format, which is the only one the program writes. Instants are exact microseconds where the code
  compares floating-point seconds or stores them in \<^verbatim>\<open>REAL\<close> columns; a payload column holds the JSON value, not its
  text; a compression ratio is an integer. A policy epoch store given to the engine is the SQLite one, with or without
  \<^verbatim>\<open>bump\<close>; another deployment's store is not modelled. SQL errors, file system errors and the
  failure of a lock are not modelled, nor is the size limit of \<^verbatim>\<open>str\<close> on integers. \<^verbatim>\<open>ipaddress\<close> and
  \<^verbatim>\<open>urlsplit\<close> are those of Python 3.11 and 3.12.

  \<^bold>\<open>Code and contract.\<close> The theorems say what the code does, and the written contracts of Gate D ask for more in two
  places. A capability is FRESH whatever purpose and material its observations were made for (\<open>capability_decision_iff\<close>,
  with the case \<open>out_of_scope_observation_allowed\<close>; GD-R2-02 asks for OUT_OF_SCOPE), and an observation
  stays fresh until its own \<^verbatim>\<open>valid_until\<close> whatever its age (\<open>observation_fresh_iff\<close>, with the case
  \<open>overage_observation_fresh\<close>; GD-R2-07 sets a maximum age per dimension). The emission validator compares the
  records and accepts agreeing denials; trust, freshness and capability are the business of the validators of those
  decisions and of the final fence.

  \<^bold>\<open>Not modelled.\<close> What \<^verbatim>\<open>http.client\<close>, TLS and sockets do with the requests of \<^verbatim>\<open>transports.py\<close>; the harnesses and reports that run the
  modelled code on fixtures or read the workspace (\<^verbatim>\<open>d2_runtime.py\<close>, \<^verbatim>\<open>r_fc.py\<close>, \<^verbatim>\<open>r_fc_handlers.py\<close>,
  \<^verbatim>\<open>readiness.py\<close>, \<^verbatim>\<open>review_package.py\<close>, \<^verbatim>\<open>preflight.py\<close>, \<^verbatim>\<open>gc_c1_launcher.py\<close> and their helpers), whose logic is
  files, subprocesses and tables of cases; \<^verbatim>\<open>schema.py\<close>, which delegates to a package; \<^verbatim>\<open>privacy.py\<close>;
  the server assembly, command line and deployment scripts, which are wiring.
\<close>

end
